(* ===== verification/Prelude.thy ===== *)
theory Prelude
  imports Main "HOL-Library.Word"
begin

text \<open>
  Shared vocabulary of the development: the result type of fallible Go code, the
  collections of facts the component proofs use, and three interfaces that several
  components rely on, stated as locales: an index built from a list (the code's
  \<open>map[string]*T\<close> tables), a sliding window of samples, and an inductive invariant of
  a state machine.
\<close>

named_theorems go_str \<open>facts about the Go string functions\<close>
named_theorems go_net \<open>facts about addresses and masks\<close>
named_theorems step_defs \<open>definitions of the steps of the state machines\<close>

type_synonym goerr = string
type_synonym 'a result = "goerr + 'a"

text \<open>
  A call with effects takes the outside world and returns it changed; a call that can
  only fail returns \<open>None\<close> for Go's \<open>nil\<close> error.
\<close>

type_synonym 'w eff = "'w \<Rightarrow> goerr option \<times> 'w"
type_synonym ('w, 'a) io = "'w \<Rightarrow> 'a result \<times> 'w"

abbreviation is_Inr :: "'a + 'b \<Rightarrow> bool" where
  "is_Inr r \<equiv> (\<exists>x. r = Inr x)"

section \<open>Signed 64-bit integers\<close>

text \<open>
  Go's \<open>int64\<close> as an \<open>int\<close> in two's complement range: \<open>int64\<close> wraps a result around, and
  division truncates towards zero.
\<close>

definition int64 :: "int \<Rightarrow> int" where
  "int64 x = (x + 2 ^ 63) mod 2 ^ 64 - 2 ^ 63"

definition go_quot :: "int \<Rightarrow> int \<Rightarrow> int" where
  "go_quot a b = sgn a * sgn b * (\<bar>a\<bar> div \<bar>b\<bar>)"

lemma int64_id: "- (2 ^ 63) \<le> x \<Longrightarrow> x < 2 ^ 63 \<Longrightarrow> int64 x = x"
  by (simp add: int64_def)

lemma int64_range: "- (2 ^ 63) \<le> int64 x \<and> int64 x < 2 ^ 63"
  by (simp add: int64_def)

lemma int64_add_left [simp]: "int64 (int64 x + y) = int64 (x + y)"
  unfolding int64_def by (simp add: mod_simps algebra_simps)

lemma int64_add_right [simp]: "int64 (x + int64 y) = int64 (x + y)"
  unfolding int64_def by (simp add: mod_simps algebra_simps)

lemma int64_idem [simp]: "int64 (int64 x) = int64 x"
  using int64_add_left [of x 0] by simp

lemma go_quot_nonneg: "0 \<le> a \<Longrightarrow> 0 < b \<Longrightarrow> go_quot a b = a div b"
  by (cases "a = 0") (simp_all add: go_quot_def)

section \<open>Lists\<close>

lemma find_SomeD: "find P xs = Some x \<Longrightarrow> x \<in> set xs \<and> P x"
  by (auto simp: find_Some_iff)

lemma find_None_ex: "find P xs = None \<longleftrightarrow> \<not> (\<exists>x\<in>set xs. P x)"
  by (auto simp: find_None_iff)

lemma in_map_filter: "y \<in> set (List.map_filter f xs) \<longleftrightarrow> (\<exists>x\<in>set xs. f x = Some y)"
  by (induction xs) (auto simp: List.map_filter_simps split: option.splits)

text \<open>The last \<open>n\<close> elements of a list: what a bounded history keeps.\<close>

definition last_n :: "nat \<Rightarrow> 'a list \<Rightarrow> 'a list" where
  "last_n n xs = drop (length xs - n) xs"

lemma length_last_n [simp]: "length (last_n n xs) = min n (length xs)"
  by (simp add: last_n_def)

lemma last_n_short [simp]: "length xs \<le> n \<Longrightarrow> last_n n xs = xs"
  by (simp add: last_n_def)

lemma set_last_n: "set (last_n n xs) \<subseteq> set xs"
  by (simp add: last_n_def set_drop_subset)

lemma last_n_snoc:
  assumes "0 < n"
  shows "last_n n (last_n n xs @ [x]) = last_n n (xs @ [x])"
proof (cases "length xs < n")
  case True
  then show ?thesis by simp
next
  case False
  then have "length xs + 1 - n = Suc (length xs - n)" by simp
  with False assms show ?thesis
    by (simp add: last_n_def drop_append Suc_diff_le)
qed

section \<open>Indexes built from lists\<close>

text \<open>
  The code builds a \<open>map[K]V\<close> by walking a list: entries without a usable key are
  skipped and a later entry replaces an earlier one. \<open>index\<close> is such a builder.
\<close>

locale keyed_index =
  fixes key :: "'a \<Rightarrow> 'k option"
    and val :: "'a \<Rightarrow> 'v"
    and index :: "'a list \<Rightarrow> ('k \<rightharpoonup> 'v)"
  assumes index_nil: "index [] = Map.empty"
    and index_snoc:
      "index (xs @ [x]) = (case key x of None \<Rightarrow> index xs | Some k \<Rightarrow> (index xs)(k \<mapsto> val x))"
begin

lemma dom_index: "dom (index xs) = {k. \<exists>x\<in>set xs. key x = Some k}"
proof (induction xs rule: rev_induct)
  case Nil
  then show ?case by (simp add: index_nil)
next
  case (snoc x xs)
  then show ?case
    by (auto simp: index_snoc split: option.splits)
qed

lemma index_None_iff: "index xs k = None \<longleftrightarrow> (\<forall>x\<in>set xs. key x \<noteq> Some k)"
proof -
  have "index xs k = None \<longleftrightarrow> k \<notin> dom (index xs)" by auto
  then show ?thesis by (simp add: dom_index)
qed

lemma index_last:
  assumes "index xs k = Some v"
  shows "\<exists>ys x zs. xs = ys @ x # zs \<and> key x = Some k \<and> val x = v \<and> (\<forall>z\<in>set zs. key z \<noteq> Some k)"
  using assms
proof (induction xs rule: rev_induct)
  case Nil
  then show ?case by (simp add: index_nil)
next
  case (snoc x xs)
  show ?case
  proof (cases "key x = Some k")
    case True
    with snoc.prems show ?thesis
      by (intro exI [of _ xs] exI [of _ x] exI [of _ "[]"]) (simp add: index_snoc)
  next
    case False
    with snoc.prems have "index xs k = Some v"
      by (auto simp: index_snoc split: option.splits if_splits)
    with snoc.IH obtain ys y zs where
      "xs = ys @ y # zs" "key y = Some k" "val y = v" "\<forall>z\<in>set zs. key z \<noteq> Some k"
      by blast
    with False show ?thesis
      by (intro exI [of _ ys] exI [of _ y] exI [of _ "zs @ [x]"]) auto
  qed
qed

lemma index_mem:
  assumes "index xs k = Some v"
  shows "\<exists>x\<in>set xs. key x = Some k \<and> val x = v"
  using index_last [OF assms] by auto

lemma index_unique:
  assumes "x \<in> set xs" "key x = Some k"
    and "\<forall>y\<in>set xs. key y = Some k \<longrightarrow> val y = val x"
  shows "index xs k = Some (val x)"
proof -
  from assms(1,2) have "index xs k \<noteq> None" by (auto simp: index_None_iff)
  then obtain v where v: "index xs k = Some v" by auto
  from index_mem [OF this] assms(3) have "v = val x" by auto
  with v show ?thesis by simp
qed

end

text \<open>The builder the code writes as a \<open>for\<close> loop with a \<open>continue\<close>.\<close>

definition fold_index :: "('a \<Rightarrow> 'k option) \<Rightarrow> ('a \<Rightarrow> 'v) \<Rightarrow> 'a list \<Rightarrow> ('k \<rightharpoonup> 'v)" where
  "fold_index key val xs =
     foldl (\<lambda>m x. case key x of None \<Rightarrow> m | Some k \<Rightarrow> m(k \<mapsto> val x)) Map.empty xs"

lemma keyed_index_fold: "keyed_index key val (fold_index key val)"
  by unfold_locales (auto simp: fold_index_def split: option.splits)

section \<open>Sliding windows of samples\<close>

locale sample_window =
  fixes cap :: nat
    and push :: "'a list \<Rightarrow> 'a \<Rightarrow> 'a list"
  assumes cap_pos: "0 < cap"
    and push_room: "length xs < cap \<Longrightarrow> push xs x = xs @ [x]"
    and push_full: "length xs = cap \<Longrightarrow> push xs x = tl xs @ [x]"
begin

lemma push_length: "length xs \<le> cap \<Longrightarrow> length (push xs x) \<le> cap"
  using cap_pos push_room [of xs x] push_full [of xs x] by (cases "length xs = cap") auto

lemma push_last_n:
  assumes "length xs \<le> cap"
  shows "push xs x = last_n cap (xs @ [x])"
proof (cases "length xs < cap")
  case True
  then show ?thesis by (simp add: push_room)
next
  case False
  with assms have "length xs = cap" by simp
  with cap_pos show ?thesis
    by (cases xs) (simp_all add: push_full last_n_def)
qed

lemma pushes_last_n: "foldl push [] xs = last_n cap xs"
proof (induction xs rule: rev_induct)
  case Nil
  then show ?case by (simp add: last_n_def)
next
  case (snoc x xs)
  have "foldl push [] (xs @ [x]) = push (last_n cap xs) x"
    using snoc by simp
  also have "\<dots> = last_n cap (last_n cap xs @ [x])"
    by (rule push_last_n) simp
  finally show ?case
    by (simp add: last_n_snoc [OF cap_pos])
qed

lemma push_last: "length xs \<le> cap \<Longrightarrow> last (push xs x) = x"
  using push_room [of xs x] push_full [of xs x] by (cases "length xs = cap") auto

lemma push_nonempty: "length xs \<le> cap \<Longrightarrow> push xs x \<noteq> []"
  using push_room [of xs x] push_full [of xs x] by (cases "length xs = cap") auto

lemma push_set: "length xs \<le> cap \<Longrightarrow> set (push xs x) \<subseteq> insert x (set xs)"
  by (simp add: push_last_n) (use set_last_n [of cap "xs @ [x]"] in auto)

end

section \<open>State machines and their invariants\<close>

inductive reach :: "'s \<Rightarrow> ('s \<Rightarrow> 's \<Rightarrow> bool) \<Rightarrow> 's \<Rightarrow> bool" for init step where
  reach_init: "reach init step init"
| reach_step: "reach init step s \<Longrightarrow> step s t \<Longrightarrow> reach init step t"

locale machine_invariant =
  fixes init :: 's
    and step :: "'s \<Rightarrow> 's \<Rightarrow> bool"
    and inv :: "'s \<Rightarrow> bool"
  assumes inv_init: "inv init"
    and inv_step: "inv s \<Longrightarrow> step s t \<Longrightarrow> inv t"
begin

lemma inv_reach: "reach init step s \<Longrightarrow> inv s"
  by (induction rule: reach.induct) (auto intro: inv_init inv_step)

lemma inv_steps: "inv s \<Longrightarrow> step\<^sup>*\<^sup>* s t \<Longrightarrow> inv t"
  by (rotate_tac, induction rule: rtranclp_induct) (auto intro: inv_step)

end

end
