(* ===== verification/GoStrings.thy ===== *)
theory GoStrings
  imports Prelude
begin

text \<open>
  The parts of Go's \<open>strings\<close>, \<open>strconv\<close> and \<open>fmt\<close> packages that the program uses. A Go
  string is a list of bytes. \<open>to_upper\<close> maps the ASCII letters and keeps every other
  byte, which is what \<open>strings.ToUpper\<close> does on the ASCII strings (MAC addresses) it is
  applied to; \<open>trim_space\<close> knows all the white space of \<open>unicode.IsSpace\<close> in UTF-8.
\<close>

section \<open>Prefixes, substrings, splitting and joining\<close>

definition has_prefix :: "string \<Rightarrow> string \<Rightarrow> bool" where
  "has_prefix s p \<longleftrightarrow> take (length p) s = p"

fun contains_str :: "string \<Rightarrow> string \<Rightarrow> bool" where
  "contains_str [] sub \<longleftrightarrow> sub = []"
| "contains_str (c # cs) sub \<longleftrightarrow> has_prefix (c # cs) sub \<or> contains_str cs sub"

text \<open>\<open>strings.Split(s, sep)\<close> for a separator of one byte.\<close>

fun split_on :: "char \<Rightarrow> string \<Rightarrow> string list" where
  "split_on d [] = [[]]"
| "split_on d (c # cs) =
     (if c = d then [] # split_on d cs
      else (case split_on d cs of [] \<Rightarrow> [[c]] | w # ws \<Rightarrow> (c # w) # ws))"

fun join_on :: "string \<Rightarrow> string list \<Rightarrow> string" where
  "join_on sep [] = []"
| "join_on sep [w] = w"
| "join_on sep (w # ws) = w @ sep @ join_on sep ws"

text \<open>\<open>strings.ReplaceAll(s, c, "")\<close> for one byte \<open>c\<close>.\<close>

definition remove_char :: "char \<Rightarrow> string \<Rightarrow> string" where
  "remove_char c s = filter (\<lambda>d. d \<noteq> c) s"

text \<open>\<open>strings.Trim(s, c)\<close> for one byte \<open>c\<close>.\<close>

definition trim_char :: "char \<Rightarrow> string \<Rightarrow> string" where
  "trim_char c s = rev (dropWhile (\<lambda>d. d = c) (rev (dropWhile (\<lambda>d. d = c) s)))"

lemma has_prefix_iff [go_str]: "has_prefix s p \<longleftrightarrow> (\<exists>t. s = p @ t)"
  unfolding has_prefix_def
  by (metis append_eq_conv_conj append_take_drop_id)

lemma has_prefix_append [simp]: "has_prefix (p @ t) p"
  by (simp add: has_prefix_def)

lemma contains_str_iff [go_str]: "contains_str s sub \<longleftrightarrow> (\<exists>u v. s = u @ sub @ v)"
proof (induction s)
  case Nil
  then show ?case by auto
next
  case (Cons c cs)
  show ?case
  proof
    assume "contains_str (c # cs) sub"
    then consider "has_prefix (c # cs) sub" | "contains_str cs sub" by auto
    then show "\<exists>u v. c # cs = u @ sub @ v"
    proof cases
      case 1
      then show ?thesis by (auto simp: has_prefix_iff intro: exI [of _ "[]"])
    next
      case 2
      with Cons.IH obtain u v where "cs = u @ sub @ v" by blast
      then have "c # cs = (c # u) @ sub @ v" by simp
      then show ?thesis by blast
    qed
  next
    assume "\<exists>u v. c # cs = u @ sub @ v"
    then obtain u v where eq: "c # cs = u @ sub @ v" by blast
    show "contains_str (c # cs) sub"
    proof (cases u)
      case Nil
      with eq have "has_prefix (c # cs) sub" by (simp add: has_prefix_iff)
      then show ?thesis by simp
    next
      case (Cons d u')
      with eq \<open>contains_str cs sub = (\<exists>u v. cs = u @ sub @ v)\<close> show ?thesis by auto
    qed
  qed
qed

lemma split_on_nonempty [simp]: "split_on d s \<noteq> []"
  by (cases s) (auto split: list.splits)

lemma split_on_no_sep: "d \<notin> set s \<Longrightarrow> split_on d s = [s]"
  by (induction s) auto

lemma split_on_append: "d \<notin> set w \<Longrightarrow> split_on d (w @ d # s) = w # split_on d s"
  by (induction w) auto

lemma join_split: "join_on [d] (split_on d s) = s"
proof (induction s)
  case Nil
  then show ?case by simp
next
  case (Cons c cs)
  obtain w ws where ws: "split_on d cs = w # ws" by (cases "split_on d cs") auto
  with Cons.IH show ?case by (cases ws) auto
qed

lemma set_split_on: "w \<in> set (split_on d s) \<Longrightarrow> d \<notin> set w"
  by (induction s arbitrary: w) (auto split: if_splits list.splits)

section \<open>Case and white space\<close>

definition upper_char :: "char \<Rightarrow> char" where
  "upper_char c =
     (let n = (of_char c :: nat) in if 97 \<le> n \<and> n \<le> 122 then char_of (n - 32) else c)"

definition to_upper :: "string \<Rightarrow> string" where
  "to_upper s = map upper_char s"

definition lower_char :: "char \<Rightarrow> char" where
  "lower_char c = (let n = (of_char c :: nat) in if 65 \<le> n \<and> n \<le> 90 then char_of (n + 32) else c)"

definition to_lower :: "string \<Rightarrow> string" where
  "to_lower s = map lower_char s"

lemma upper_char_idem [simp]: "upper_char (upper_char c) = upper_char c"
proof (cases "97 \<le> (of_char c :: nat) \<and> (of_char c :: nat) \<le> 122")
  case True
  then have "(of_char c :: nat) - 32 < 256" by linarith
  then have "((of_char c :: nat) - 32) mod 256 = of_char c - 32" by (rule mod_less)
  then have "(of_char (char_of ((of_char c :: nat) - 32) :: char) :: nat) = of_char c - 32"
    by simp
  with True show ?thesis by (auto simp: upper_char_def Let_def)
next
  case False
  then show ?thesis by (auto simp: upper_char_def Let_def)
qed

lemma to_upper_idem [simp]: "to_upper (to_upper s) = to_upper s"
  by (simp add: to_upper_def)

lemma to_upper_Nil_iff [simp]: "to_upper s = [] \<longleftrightarrow> s = []"
  by (simp add: to_upper_def)

text \<open>The UTF-8 encodings of the code points for which \<open>unicode.IsSpace\<close> holds.\<close>

definition space_runes :: "string list" where
  "space_runes =
     map (map char_of)
       ([[9], [10], [11], [12], [13], [32], [0xC2, 0x85], [0xC2, 0xA0], [0xE1, 0x9A, 0x80]]
        @ map (\<lambda>b. [0xE2, 0x80, b]) ([0x80..<0x8B] @ [0xA8, 0xA9, 0xAF])
        @ [[0xE2, 0x81, 0x9F], [0xE3, 0x80, 0x80 :: nat]])"

text \<open>The ASCII white space alone, for which trimming is a plain \<open>dropWhile\<close>.\<close>

definition trim_runes :: "(string \<Rightarrow> string) \<Rightarrow> string \<Rightarrow> string option" where
  "trim_runes dir s =
     map_option (\<lambda>r. drop (length r) s)
       (find (\<lambda>r. take (length r) s = dir r) space_runes)"

fun trim_left_fuel :: "nat \<Rightarrow> (string \<Rightarrow> string) \<Rightarrow> string \<Rightarrow> string" where
  "trim_left_fuel 0 dir s = s"
| "trim_left_fuel (Suc n) dir s =
     (case trim_runes dir s of None \<Rightarrow> s | Some t \<Rightarrow> trim_left_fuel n dir t)"

definition trim_left_space :: "string \<Rightarrow> string" where
  "trim_left_space s = trim_left_fuel (length s) id s"

definition trim_right_space :: "string \<Rightarrow> string" where
  "trim_right_space s = rev (trim_left_fuel (length s) rev (rev s))"

definition trim_space :: "string \<Rightarrow> string" where
  "trim_space s = trim_right_space (trim_left_space s)"

text \<open>Trimming stops: what is left starts with no white space (the fuel is enough).\<close>

lemma space_runes_nonempty: "r \<in> set space_runes \<Longrightarrow> r \<noteq> []"
  by (auto simp: space_runes_def)

lemma trim_runes_shorter:
  assumes "trim_runes dir s = Some t" and "\<And>r. length (dir r) = length r"
  shows "length t < length s"
proof -
  from assms(1) obtain r where r: "r \<in> set space_runes" "take (length r) s = dir r"
      "t = drop (length r) s"
    by (auto simp: trim_runes_def dest: find_SomeD)
  from r(2) assms(2) have "length r \<le> length s"
    by (metis length_take min.absorb_iff2 min.commute)
  from space_runes_nonempty [OF r(1)] have "0 < length r" by simp
  with \<open>length r \<le> length s\<close> have "length s - length r < length s" by linarith
  with r(3) show ?thesis by simp
qed

lemma trim_left_fuel_done:
  assumes "length s \<le> n" and "\<And>r. length (dir r) = length r"
  shows "trim_runes dir (trim_left_fuel n dir s) = None"
  using assms(1)
proof (induction n arbitrary: s)
  case 0
  show ?case
  proof (cases "trim_runes dir s")
    case (Some t)
    from trim_runes_shorter [OF this assms(2)] 0 show ?thesis by simp
  qed simp
next
  case (Suc n)
  show ?case
  proof (cases "trim_runes dir s")
    case (Some t)
    from trim_runes_shorter [OF this assms(2)] Suc.prems have "length t \<le> n" by simp
    with Some Suc.IH show ?thesis by simp
  qed simp
qed

lemma trim_left_space_done: "trim_runes id (trim_left_space s) = None"
  unfolding trim_left_space_def by (rule trim_left_fuel_done) auto

text \<open>A text that starts and ends with printable ASCII bytes has nothing to trim.\<close>

definition solid_char :: "char \<Rightarrow> bool" where
  "solid_char c \<longleftrightarrow> 33 \<le> (of_char c :: nat) \<and> (of_char c :: nat) < 128"

lemma space_runes_ends:
  "\<forall>r\<in>set space_runes. r \<noteq> [] \<and> \<not> solid_char (hd r) \<and> \<not> solid_char (last r)"
  by (simp add: space_runes_def solid_char_def)

lemma trim_left_fuel_solid:
  assumes "s \<noteq> []" "solid_char (hd s)"
    and "\<And>r. r \<in> set space_runes \<Longrightarrow> dir r \<noteq> [] \<and> length (dir r) = length r \<and> \<not> solid_char (hd (dir r))"
  shows "trim_left_fuel n dir s = s"
proof -
  have "trim_runes dir s = None"
    unfolding trim_runes_def map_option_is_None find_None_iff
  proof
    assume "\<exists>r. r \<in> set space_runes \<and> take (length r) s = dir r"
    then obtain r where r: "r \<in> set space_runes" "take (length r) s = dir r" by blast
    with assms(3) [OF r(1)] have "hd (dir r) = hd s"
      by (metis hd_take length_greater_0_conv)
    with assms(2) assms(3) [OF r(1)] show False by simp
  qed
  then show ?thesis by (cases n) simp_all
qed

lemma trim_space_solid:
  assumes "s \<noteq> []" "solid_char (hd s)" "solid_char (last s)"
  shows "trim_space s = s"
proof -
  have "trim_left_space s = s"
    unfolding trim_left_space_def
    by (rule trim_left_fuel_solid) (use assms space_runes_ends in auto)
  moreover have "trim_right_space s = s"
  proof -
    have "trim_left_fuel (length s) rev (rev s) = rev s"
      by (rule trim_left_fuel_solid) (use assms space_runes_ends in \<open>auto simp: hd_rev\<close>)
    then show ?thesis by (simp add: trim_right_space_def)
  qed
  ultimately show ?thesis by (simp add: trim_space_def)
qed

lemma trim_space_Nil [simp]: "trim_space [] = []"
  by (simp add: trim_space_def trim_left_space_def trim_right_space_def)

text \<open>Trimming is idempotent and commutes with the change of case.\<close>

lemma trim_runes_None_iff:
  "trim_runes dir s = None \<longleftrightarrow> (\<forall>r\<in>set space_runes. take (length r) s \<noteq> dir r)"
  by (auto simp: trim_runes_def find_None_iff)

lemma trim_left_fuel_fixed: "trim_runes dir s = None \<Longrightarrow> trim_left_fuel n dir s = s"
  by (cases n) simp_all

lemma trim_left_fuel_suffix: "\<exists>t. s = t @ trim_left_fuel n dir s"
proof (induction n dir s rule: trim_left_fuel.induct)
  case (2 n dir s)
  show ?case
  proof (cases "trim_runes dir s")
    case None
    then show ?thesis by simp
  next
    case (Some t)
    then obtain k where "t = drop k s" by (auto simp: trim_runes_def)
    with 2 [OF Some] Some show ?thesis
      by (metis append_take_drop_id append.assoc option.simps(5) trim_left_fuel.simps(2))
  qed
qed simp

lemma trim_space_done:
  "trim_runes id (trim_space s) = None \<and> trim_runes rev (rev (trim_space s)) = None"
proof
  let ?l = "trim_left_space s"
  have r: "trim_space s = rev (trim_left_fuel (length ?l) rev (rev ?l))"
    by (simp add: trim_space_def trim_right_space_def)
  show "trim_runes rev (rev (trim_space s)) = None"
    unfolding r rev_rev_ident by (rule trim_left_fuel_done) simp_all
  obtain t where "rev ?l = t @ trim_left_fuel (length ?l) rev (rev ?l)"
    using trim_left_fuel_suffix by blast
  then have "rev (rev ?l) = rev (trim_left_fuel (length ?l) rev (rev ?l)) @ rev t"
    by (metis rev_append)
  then have l: "?l = trim_space s @ rev t" by (simp add: r)
  show "trim_runes id (trim_space s) = None"
    unfolding trim_runes_None_iff
  proof
    fix q assume q: "q \<in> set space_runes"
    show "take (length q) (trim_space s) \<noteq> id q"
    proof
      assume eq: "take (length q) (trim_space s) = id q"
      then have "length q \<le> length (trim_space s)"
        by (metis id_apply length_take min.absorb_iff2)
      with eq l have "take (length q) ?l = id q" by simp
      with trim_left_space_done [of s] q show False by (simp add: trim_runes_None_iff)
    qed
  qed
qed

lemma trim_space_fixed:
  assumes "trim_runes id s = None" "trim_runes rev (rev s) = None"
  shows "trim_space s = s"
  using assms by (simp add: trim_space_def trim_left_space_def trim_right_space_def trim_left_fuel_fixed)

lemma trim_space_idem [simp]: "trim_space (trim_space s) = trim_space s"
  using trim_space_done [of s] by (auto intro: trim_space_fixed)

lemma upper_char_caseless:
  "upper_char d = d \<Longrightarrow> (of_char d :: nat) < 65 \<or> 90 < (of_char d :: nat) \<Longrightarrow> upper_char c = d \<longleftrightarrow> c = d"
proof
  assume d: "(of_char d :: nat) < 65 \<or> 90 < (of_char d :: nat)" and eq: "upper_char c = d"
  show "c = d"
  proof (rule ccontr)
    assume "c \<noteq> d"
    with eq have n: "97 \<le> (of_char c :: nat)" "(of_char c :: nat) \<le> 122"
      by (auto simp: upper_char_def Let_def split: if_splits)
    then have "d = char_of ((of_char c :: nat) - 32)"
      using eq by (simp add: upper_char_def Let_def)
    then have "(of_char d :: nat) = of_char c - 32"
      using n by (simp add: take_bit_nat_def)
    with n d show False by linarith
  qed
qed simp

lemma space_runes_caseless:
  "\<forall>r\<in>set space_runes. \<forall>d\<in>set r. upper_char d = d \<and> ((of_char d :: nat) < 65 \<or> 90 < (of_char d :: nat))"
  by (simp add: space_runes_def upper_char_def)

lemma map_upper_caseless:
  assumes "\<forall>d\<in>set r. upper_char d = d \<and> ((of_char d :: nat) < 65 \<or> 90 < (of_char d :: nat))"
  shows "map upper_char s = r \<longleftrightarrow> s = r"
proof
  assume eq: "map upper_char s = r"
  then have "map upper_char s = map (\<lambda>c. c) s"
    using assms upper_char_caseless by (intro map_cong refl) (metis in_set_conv_nth length_map nth_map nth_mem)
  with eq show "s = r" by simp
next
  assume "s = r"
  with assms show "map upper_char s = r" by (induction r arbitrary: s) auto
qed

lemma trim_space_upper: "trim_space (to_upper (trim_space s)) = to_upper (trim_space s)"
proof (rule trim_space_fixed)
  have "take (length r) (to_upper t) = r \<longleftrightarrow> take (length r) t = r"
    if "r \<in> set space_runes" for r t
    using map_upper_caseless [of r "take (length r) t"] space_runes_caseless that
    by (simp add: to_upper_def take_map)
  moreover have "take (length r) (to_upper t) = rev r \<longleftrightarrow> take (length r) t = rev r"
    if "r \<in> set space_runes" for r t
    using map_upper_caseless [of "rev r" "take (length r) t"] space_runes_caseless that
    by (simp add: to_upper_def take_map)
  ultimately show "trim_runes id (to_upper (trim_space s)) = None"
      "trim_runes rev (rev (to_upper (trim_space s))) = None"
    using trim_space_done [of s] by (auto simp: trim_runes_None_iff to_upper_def rev_map)
qed

section \<open>Decimal and hexadecimal numbers\<close>

definition digit_char :: "nat \<Rightarrow> char" where
  "digit_char d = (if d < 10 then char_of (48 + d) else char_of (87 + d))"

fun radix_text :: "nat \<Rightarrow> nat \<Rightarrow> string" where
  "radix_text b n =
     (if b < 2 \<or> n < b then [digit_char n] else radix_text b (n div b) @ [digit_char (n mod b)])"

declare radix_text.simps [simp del]

definition fmt_nat :: "nat \<Rightarrow> string" where
  "fmt_nat n = radix_text 10 n"

definition fmt_hex :: "nat \<Rightarrow> string" where
  "fmt_hex n = radix_text 16 n"

definition fmt_int :: "int \<Rightarrow> string" where
  "fmt_int i = (if i < 0 then ''-'' @ fmt_nat (nat (- i)) else fmt_nat (nat i))"

definition digit_val :: "char \<Rightarrow> nat option" where
  "digit_val c = (let n = (of_char c :: nat) in if 48 \<le> n \<and> n \<le> 57 then Some (n - 48) else None)"

datatype num_error = ErrSyntax | ErrRange

text \<open>
  The digit loop of \<open>strconv.ParseUint(s, 10, bits)\<close>, \<open>mx\<close> being the largest value: a
  range error is returned as soon as the value passes \<open>mx\<close>, with \<open>mx\<close> as the value, and a
  byte that is no digit gives 0 and a syntax error.
\<close>

fun parse_digits :: "nat \<Rightarrow> nat \<Rightarrow> string \<Rightarrow> nat \<times> num_error option" where
  "parse_digits mx n [] = (n, None)"
| "parse_digits mx n (c # cs) =
     (case digit_val c of
        None \<Rightarrow> (0, Some ErrSyntax)
      | Some d \<Rightarrow> if 10 * n + d > mx then (mx, Some ErrRange) else parse_digits mx (10 * n + d) cs)"

definition parse_uint :: "nat \<Rightarrow> string \<Rightarrow> nat \<times> num_error option" where
  "parse_uint mx s = (if s = [] then (0, Some ErrSyntax) else parse_digits mx 0 s)"

text \<open>\<open>strconv.ParseInt(s, 10, bits)\<close>, and \<open>strconv.Atoi\<close> on a 64-bit platform.\<close>

definition parse_int :: "nat \<Rightarrow> string \<Rightarrow> int \<times> num_error option" where
  "parse_int bits s =
     (let neg = (case s of c # _ \<Rightarrow> c = CHR ''-'' | [] \<Rightarrow> False);
          body = (case s of c # cs \<Rightarrow> if c = CHR ''-'' \<or> c = CHR ''+'' then cs else s | [] \<Rightarrow> []);
          (un, err) = parse_uint (2 ^ bits - 1) body
      in if s = [] \<or> err = Some ErrSyntax then (0, Some ErrSyntax)
         else if \<not> neg \<and> un \<ge> 2 ^ (bits - 1) then (2 ^ (bits - 1) - 1, Some ErrRange)
         else if neg \<and> un > 2 ^ (bits - 1) then (- (2 ^ (bits - 1)), Some ErrRange)
         else (if neg then - int un else int un, None))"

definition atoi :: "string \<Rightarrow> int \<times> num_error option" where
  "atoi s = parse_int 64 s"

text \<open>The text of a \<open>*strconv.NumError\<close>; the quoted input is exact for printable ASCII.\<close>

definition quote_text :: "string \<Rightarrow> string" where
  "quote_text s =
     [CHR 0x22] @
     concat (map (\<lambda>c. if c = CHR 0x22 \<or> c = CHR 0x5C then [CHR 0x5C, c] else [c]) s) @ [CHR 0x22]"

definition num_error_text :: "string \<Rightarrow> string \<Rightarrow> num_error \<Rightarrow> string" where
  "num_error_text f s e =
     ''strconv.'' @ f @ '': parsing '' @ quote_text s @ '': '' @
     (case e of ErrSyntax \<Rightarrow> ''invalid syntax'' | ErrRange \<Rightarrow> ''value out of range'')"

text \<open>\<open>strconv.ParseBool\<close>; the value is \<open>False\<close> when there is an error.\<close>

definition parse_bool :: "string \<Rightarrow> bool \<times> bool" where
  "parse_bool s =
     (if s \<in> set [''1'', ''t'', ''T'', ''TRUE'', ''true'', ''True''] then (True, True)
      else (False, s \<in> set [''0'', ''f'', ''F'', ''FALSE'', ''false'', ''False'']))"

lemma digit_val_digit_char [simp]: "d < 10 \<Longrightarrow> digit_val (digit_char d) = Some d"
  by (simp add: digit_val_def digit_char_def)

lemma parse_digits_append:
  "parse_digits mx n (s @ t) =
     (case parse_digits mx n s of (m, None) \<Rightarrow> parse_digits mx m t | r \<Rightarrow> r)"
  by (induction mx n s rule: parse_digits.induct) (auto split: option.splits)

lemma parse_digits_fmt_nat:
  "n \<le> mx \<Longrightarrow> parse_digits mx 0 (radix_text 10 n) = (n, None)"
proof (induction "10::nat" n rule: radix_text.induct)
  case (1 n)
  show ?case
  proof (cases "n < 10")
    case True
    with "1.prems" show ?thesis by (simp add: radix_text.simps [of 10 n])
  next
    case False
    with "1.hyps" "1.prems" have "parse_digits mx 0 (radix_text 10 (n div 10)) = (n div 10, None)"
      by simp
    moreover have "10 * (n div 10) + n mod 10 = n" by simp
    ultimately show ?thesis
      using False "1.prems" by (simp add: radix_text.simps [of 10 n] parse_digits_append)
  qed
qed

lemma radix_text_nonempty [simp]: "radix_text b n \<noteq> []" "[] \<noteq> radix_text b n"
  by (subst radix_text.simps, simp)+

lemma fmt_nat_nonempty [simp]: "fmt_nat n \<noteq> []"
  by (simp add: fmt_nat_def)

theorem parse_uint_fmt_nat: "n \<le> mx \<Longrightarrow> parse_uint mx (fmt_nat n) = (n, None)"
  by (simp add: parse_uint_def fmt_nat_def parse_digits_fmt_nat)

lemma parse_digits_all_digits:
  "snd (parse_digits mx n s) = None \<Longrightarrow> \<forall>c\<in>set s. digit_val c \<noteq> None"
  by (induction mx n s rule: parse_digits.induct) (auto split: option.splits if_splits)

lemma fmt_nat_digits: "c \<in> set (fmt_nat n) \<Longrightarrow> digit_val c \<noteq> None"
proof -
  assume c: "c \<in> set (fmt_nat n)"
  have "snd (parse_digits n 0 (fmt_nat n)) = None"
    by (simp add: fmt_nat_def parse_digits_fmt_nat)
  from parse_digits_all_digits [OF this] c show ?thesis by blast
qed

lemma parse_digits_bound: "n \<le> mx \<Longrightarrow> fst (parse_digits mx n s) \<le> mx"
  by (induction mx n s rule: parse_digits.induct) (auto split: option.splits)

lemma parse_uint_bound: "fst (parse_uint mx s) \<le> mx"
  by (simp add: parse_uint_def parse_digits_bound)

lemma fmt_nat_inj: "fmt_nat m = fmt_nat n \<longleftrightarrow> m = n"
proof
  assume eq: "fmt_nat m = fmt_nat n"
  let ?mx = "max m n"
  have "(m, None) = parse_uint ?mx (fmt_nat m)" by (rule parse_uint_fmt_nat [symmetric]) simp
  also have "\<dots> = (n, None)" unfolding eq by (rule parse_uint_fmt_nat) simp
  finally show "m = n" by simp
qed simp

lemma fmt_nat_head: "\<exists>c cs. fmt_nat n = c # cs \<and> c \<noteq> CHR ''-'' \<and> c \<noteq> CHR ''+''"
proof -
  obtain c cs where f: "fmt_nat n = c # cs" by (cases "fmt_nat n") auto
  with fmt_nat_digits [of c n] show ?thesis by (auto simp: digit_val_def)
qed

lemma parse_int_fmt_nat:
  assumes "0 < bits" and "n < 2 ^ (bits - 1)"
  shows "parse_int bits (fmt_nat n) = (int n, None)"
proof -
  obtain c cs where f: "fmt_nat n = c # cs" "c \<noteq> CHR ''-''" "c \<noteq> CHR ''+''"
    using fmt_nat_head by blast
  have "(2::nat) ^ (bits - 1) \<le> 2 ^ bits" by (rule power_increasing) simp_all
  with assms(2) have "n \<le> 2 ^ bits - 1" by linarith
  then have "parse_uint (2 ^ bits - 1) (c # cs) = (n, None)"
    using parse_uint_fmt_nat [of n "2 ^ bits - 1"] f(1) by simp
  with f assms show ?thesis by (simp add: parse_int_def)
qed

lemma parse_int_fmt_neg:
  assumes "0 < bits" and "0 < n" and "n \<le> 2 ^ (bits - 1)"
  shows "parse_int bits (CHR ''-'' # fmt_nat n) = (- int n, None)"
proof -
  have "(2::nat) ^ bits = 2 * 2 ^ (bits - 1)" using assms(1) by (cases bits) simp_all
  with assms(3) have "n \<le> 2 ^ bits - 1" using one_le_power [of "2 :: nat" "bits - 1"] by linarith
  then show ?thesis
    using parse_uint_fmt_nat [of n "2 ^ bits - 1"] assms by (simp add: parse_int_def)
qed

text \<open>\<open>strconv.Atoi\<close> reads back what \<open>strconv.Itoa\<close> writes.\<close>

lemma atoi_fmt_int:
  assumes "- (2 ^ 63) \<le> i" and "i < 2 ^ 63"
  shows "atoi (fmt_int i) = (i, None)"
proof (cases "i < 0")
  case True
  with assms(1) have "nat (- i) \<le> 2 ^ 63" by simp
  with True show ?thesis using parse_int_fmt_neg [of 64 "nat (- i)"] by (simp add: atoi_def fmt_int_def)
next
  case False
  with assms(2) have "nat i < 2 ^ 63" by simp
  with False show ?thesis using parse_int_fmt_nat [of 64 "nat i"] by (simp add: atoi_def fmt_int_def)
qed

lemma dot_not_in_fmt_nat [simp]: "CHR ''.'' \<notin> set (fmt_nat n)"
  using fmt_nat_digits [of "CHR ''.''" n] by (auto simp: digit_val_def)

lemma digit_char_eval:
  "digit_char 0 = CHR ''0''"
  "digit_char (Suc 0) = CHR ''1''"
  "digit_char 2 = CHR ''2''"
  "digit_char 3 = CHR ''3''"
  "digit_char 4 = CHR ''4''"
  "digit_char 5 = CHR ''5''"
  "digit_char 6 = CHR ''6''"
  "digit_char 7 = CHR ''7''"
  "digit_char 8 = CHR ''8''"
  "digit_char 9 = CHR ''9''"
  "digit_char 10 = CHR ''a''"
  "digit_char 11 = CHR ''b''"
  "digit_char 12 = CHR ''c''"
  "digit_char 13 = CHR ''d''"
  "digit_char 14 = CHR ''e''"
  "digit_char 15 = CHR ''f''"
  by code_simp+

lemmas number_eval = fmt_nat_def fmt_hex_def fmt_int_def radix_text.simps digit_char_eval

text \<open>The hexadecimal text of a number determines it.\<close>

lemma digit_char_inj:
  assumes "d < 16" "e < 16" "digit_char d = digit_char e"
  shows "d = e"
proof -
  have val: "(of_char (digit_char k) :: nat) = (if k < 10 then 48 + k else 87 + k)" if "k < 16" for k
    using that by (simp add: digit_char_def)
  have "(if d < 10 then 48 + d else 87 + d) = (of_char (digit_char d) :: nat)"
    by (rule val [OF assms(1), symmetric])
  also have "\<dots> = of_char (digit_char e)" by (simp only: assms(3))
  also have "\<dots> = (if e < 10 then 48 + e else 87 + e)" by (rule val [OF assms(2)])
  finally show ?thesis by (simp split: if_splits)
qed

lemma radix_text_small: "n < b \<Longrightarrow> radix_text b n = [digit_char n]"
  by (simp add: radix_text.simps [of b n])

lemma radix_text_big:
  "2 \<le> b \<Longrightarrow> b \<le> n \<Longrightarrow> radix_text b n = radix_text b (n div b) @ [digit_char (n mod b)]"
  by (simp add: radix_text.simps [of b n])

lemma radix_text_inj:
  assumes b: "2 \<le> b" "b \<le> 16"
  shows "radix_text b m = radix_text b n \<Longrightarrow> m = n"
proof (induction m arbitrary: n rule: less_induct)
  case (less m)
  consider (both) "m < b" "n < b" | (left) "m < b" "b \<le> n" | (right) "b \<le> m" "n < b"
    | (none) "b \<le> m" "b \<le> n" by linarith
  then show ?case
  proof cases
    case both
    from both(1) b(2) have "m < 16" by (rule less_le_trans)
    moreover from both(2) b(2) have "n < 16" by (rule less_le_trans)
    moreover from less.prems both have "digit_char m = digit_char n"
      by (simp only: radix_text_small list.inject)
    ultimately show ?thesis by (rule digit_char_inj)
  next
    case left
    with less.prems b have "[digit_char m] = radix_text b (n div b) @ [digit_char (n mod b)]"
      by (simp only: radix_text_small radix_text_big)
    then show ?thesis by simp
  next
    case right
    with less.prems b have "radix_text b (m div b) @ [digit_char (m mod b)] = [digit_char n]"
      by (simp only: radix_text_small radix_text_big)
    then show ?thesis by simp
  next
    case none
    with less.prems b have
      "radix_text b (m div b) @ [digit_char (m mod b)] = radix_text b (n div b) @ [digit_char (n mod b)]"
      by (simp only: radix_text_big)
    then have rest: "radix_text b (m div b) = radix_text b (n div b)"
      and dig: "digit_char (m mod b) = digit_char (n mod b)" by simp_all
    from none b have "m div b < m" by simp
    from less.IH [OF this rest] have q: "m div b = n div b" .
    have "m mod b < b" "n mod b < b" using b by simp_all
    then have "m mod b < 16" "n mod b < 16" using b(2) by linarith+
    from digit_char_inj [OF this dig] q show ?thesis by (metis div_mult_mod_eq)
  qed
qed

lemma fmt_hex_inj: "fmt_hex m = fmt_hex n \<longleftrightarrow> m = n"
  unfolding fmt_hex_def using radix_text_inj [of 16 m n] by auto

end
