(* ===== verification/GoNet.thy ===== *)
theory GoNet
  imports GoStrings
begin

unbundle bit_operations_syntax

text \<open>
  The parts of Go's \<open>net\<close> package the program uses: addresses and masks are byte slices
  (\<open>net.IP\<close>, \<open>net.IPMask\<close>), \<open>[]\<close> standing for \<open>nil\<close>; \<open>ParseIP\<close>, \<open>ParseCIDR\<close>, \<open>To4\<close>,
  \<open>Mask\<close>, \<open>IPMask.Size\<close> and \<open>IPNet.Contains\<close>. The address parser is the one of
  \<open>net/netip\<close>, for IPv4 and IPv6 texts.
\<close>

type_synonym byte = "8 word"
type_synonym ip = "byte list"

record ipnet =
  net_ip :: ip
  net_mask :: ip

definition nil_net :: ipnet where
  "nil_net = \<lparr>net_ip = [], net_mask = []\<rparr>"

section \<open>Forms of an address\<close>

definition v4_prefix :: ip where
  "v4_prefix = replicate 10 0 @ [255, 255]"

definition ipv4 :: "byte \<Rightarrow> byte \<Rightarrow> byte \<Rightarrow> byte \<Rightarrow> ip" where
  "ipv4 a b c d = v4_prefix @ [a, b, c, d]"

text \<open>\<open>IP.To4\<close>: \<open>[]\<close> when the address is no IPv4 address.\<close>

definition to4 :: "ip \<Rightarrow> ip" where
  "to4 x =
     (if length x = 4 then x
      else if length x = 16 \<and> take 12 x = v4_prefix then drop 12 x else [])"

text \<open>\<open>IP.Mask\<close>.\<close>

definition ip_mask :: "ip \<Rightarrow> ip \<Rightarrow> ip" where
  "ip_mask x m0 =
     (let m = (if length m0 = 16 \<and> length x = 4 \<and> take 12 m0 = replicate 12 255
               then drop 12 m0 else m0);
          y = (if length m = 4 \<and> length x = 16 \<and> take 12 x = v4_prefix
               then drop 12 x else x)
      in if length y \<noteq> length m then [] else map2 (AND) y m)"

text \<open>\<open>networkNumberAndMask\<close> and \<open>IPNet.Contains\<close>.\<close>

definition network_number_and_mask :: "ipnet \<Rightarrow> ip \<times> ip" where
  "network_number_and_mask n =
     (let x = (if to4 (net_ip n) \<noteq> [] then to4 (net_ip n) else net_ip n); m = net_mask n
      in if to4 (net_ip n) = [] \<and> length x \<noteq> 16 then ([], [])
         else if length m = 4 then (if length x \<noteq> 4 then ([], []) else (x, m))
         else if length m = 16 then (x, if length x = 4 then drop 12 m else m)
         else ([], []))"

definition net_contains :: "ipnet \<Rightarrow> ip \<Rightarrow> bool" where
  "net_contains n x0 =
     (let (nn, m) = network_number_and_mask n; x = (if to4 x0 \<noteq> [] then to4 x0 else x0)
      in length x = length nn \<and>
         list_all (\<lambda>((a, k), b). a AND k = b AND k) (zip (zip nn m) x))"

lemma length_v4_prefix [simp]: "length v4_prefix = 12"
  by (simp add: v4_prefix_def)

lemma length_ipv4 [simp]: "length (ipv4 a b c d) = 16"
  by (simp add: ipv4_def)

lemma to4_ipv4 [simp]: "to4 (ipv4 a b c d) = [a, b, c, d]"
  by (simp add: to4_def ipv4_def)

lemma to4_Nil [simp]: "to4 [] = []"
  by (simp add: to4_def)

lemma to4_four [simp]: "to4 [a, b, c, d] = [a, b, c, d]"
  by (simp add: to4_def)

lemma to4_cases: "to4 x = [] \<or> length (to4 x) = 4"
  by (auto simp: to4_def)

lemma ipv4_inject [simp]:
  "ipv4 a b c d = ipv4 a' b' c' d' \<longleftrightarrow> a = a' \<and> b = b' \<and> c = c' \<and> d = d'"
  by (simp add: ipv4_def)

lemma ipv4_not_Nil [simp]: "ipv4 a b c d \<noteq> []" "[] \<noteq> ipv4 a b c d"
  by (simp_all add: ipv4_def)

lemma v4_prefix_and [simp]: "map2 (AND) v4_prefix v4_prefix = v4_prefix"
  by (simp add: v4_prefix_def numeral_eq_Suc)

lemma ip_mask_ipv4:
  "ip_mask (ipv4 a b c d) (ipv4 w x y z) = ipv4 (a AND w) (b AND x) (c AND y) (d AND z)"
  by (simp add: ip_mask_def ipv4_def)

text \<open>Membership for an IPv4 network with a 4-byte or a 16-byte mask.\<close>

lemma net_contains_ipv4:
  assumes "to4 (net_ip n) = [a, b, c, d]" and "net_mask n = [w, x, y, z]"
    and "to4 p = [a', b', c', d']"
  shows "net_contains n p \<longleftrightarrow>
    a AND w = a' AND w \<and> b AND x = b' AND x \<and> c AND y = c' AND y \<and> d AND z = d' AND z"
  using assms by (simp add: net_contains_def network_number_and_mask_def)

lemma net_contains_ipv4_mapped_mask:
  assumes "to4 (net_ip n) = [a, b, c, d]" and "net_mask n = ipv4 w x y z"
    and "to4 p = [a', b', c', d']"
  shows "net_contains n p \<longleftrightarrow>
    a AND w = a' AND w \<and> b AND x = b' AND x \<and> c AND y = c' AND y \<and> d AND z = d' AND z"
  using assms by (simp add: net_contains_def network_number_and_mask_def ipv4_def)

text \<open>
  Go's \<open>Contains\<close> holds for the zero \<open>IPNet\<close> and a \<open>nil\<close> address: both sides are empty.
\<close>

lemma net_contains_nil_nil: "net_contains nil_net []"
  by (simp add: net_contains_def network_number_and_mask_def nil_net_def)

lemma net_contains_self:
  assumes "length (net_mask n) = 16 \<or> (length (net_mask n) = 4 \<and> to4 (net_ip n) \<noteq> [])"
    and "to4 (net_ip n) \<noteq> [] \<or> length (net_ip n) = 16"
  shows "net_contains n (net_ip n)"
proof -
  have zip_self: "list_all (\<lambda>((a, k), b). a AND k = b AND k) (zip (zip xs ms) xs)" for xs ms :: ip
  proof (induction xs arbitrary: ms)
    case (Cons x xs)
    then show ?case by (cases ms) simp_all
  qed simp
  have "to4 (net_ip n) = [] \<or> length (to4 (net_ip n)) = 4" by (rule to4_cases)
  with assms show ?thesis
    by (auto simp: net_contains_def network_number_and_mask_def Let_def zip_self)
qed

section \<open>Masks\<close>

text \<open>
  \<open>simpleMaskLength\<close>: the number of leading one bits, \<open>None\<close> when a one bit follows a
  zero bit.
\<close>

fun byte_ones :: "nat \<Rightarrow> byte \<Rightarrow> nat \<times> byte" where
  "byte_ones 0 v = (0, v)"
| "byte_ones (Suc k) v =
     (if v AND 128 \<noteq> 0 then (let (n, r) = byte_ones k (push_bit 1 v) in (Suc n, r)) else (0, v))"

fun simple_mask_length :: "ip \<Rightarrow> nat option" where
  "simple_mask_length [] = Some 0"
| "simple_mask_length (v # ms) =
     (if v = 255 then map_option (\<lambda>n. 8 + n) (simple_mask_length ms)
      else (let (n, r) = byte_ones 8 v in
            if r \<noteq> 0 then None else if list_all (\<lambda>b. b = 0) ms then Some n else None))"

definition mask_size :: "ip \<Rightarrow> nat \<times> nat" where
  "mask_size m = (case simple_mask_length m of None \<Rightarrow> (0, 0) | Some n \<Rightarrow> (n, 8 * length m))"

text \<open>\<open>CIDRMask(n, bits)\<close> for \<open>n \<le> bits\<close>, \<open>bits\<close> being 32 or 128.\<close>

definition cidr_mask :: "nat \<Rightarrow> nat \<Rightarrow> ip" where
  "cidr_mask n bits =
     map (\<lambda>i. word_of_nat (256 - 2 ^ (8 - min 8 (n - 8 * i)))) [0..<bits div 8]"

section \<open>Parsing\<close>

text \<open>
  \<open>parseIPv4Fields\<close>: the fields are separated by dots, have at least one digit, no
  leading zero and a value below 256.
\<close>

fun octet_loop :: "nat \<Rightarrow> nat \<Rightarrow> string \<Rightarrow> (nat \<times> string) option" where
  \<comment> \<open>value, digits read; the value and the rest from the first byte that is no digit\<close>
  "octet_loop v k [] = (if k = 0 then None else Some (v, []))"
| "octet_loop v k (c # cs) =
     (case digit_val c of
        Some d \<Rightarrow>
          if k = 1 \<and> v = 0 then None
          else if 10 * v + d > 255 then None
          else octet_loop (10 * v + d) (k + 1) cs
      | None \<Rightarrow> if k = 0 then None else Some (v, c # cs))"

fun ipv4_fields :: "nat \<Rightarrow> string \<Rightarrow> byte list option" where
  \<comment> \<open>the number of fields still to read\<close>
  "ipv4_fields 0 s = None"
| "ipv4_fields (Suc n) s =
     (case octet_loop 0 0 s of
        None \<Rightarrow> None
      | Some (v, []) \<Rightarrow> if n = 0 then Some [word_of_nat v] else None
      | Some (v, c # cs) \<Rightarrow>
          if c = CHR ''.'' \<and> n \<noteq> 0
          then map_option (\<lambda>vs. word_of_nat v # vs) (ipv4_fields n cs) else None)"

definition hex_val :: "char \<Rightarrow> nat option" where
  "hex_val c =
     (let n = (of_char c :: nat) in
      if 48 \<le> n \<and> n \<le> 57 then Some (n - 48)
      else if 97 \<le> n \<and> n \<le> 102 then Some (n - 87)
      else if 65 \<le> n \<and> n \<le> 70 then Some (n - 55) else None)"

fun hex_loop :: "nat \<Rightarrow> nat \<Rightarrow> string \<Rightarrow> (nat \<times> nat \<times> string) option" where
  \<comment> \<open>a group of at most four hexadecimal digits: value, digits, rest\<close>
  "hex_loop v k [] = Some (v, k, [])"
| "hex_loop v k (c # cs) =
     (case hex_val c of
        Some d \<Rightarrow> if k > 3 then None else hex_loop (16 * v + d) (k + 1) cs
      | None \<Rightarrow> Some (v, k, c # cs))"

text \<open>
  The group loop of \<open>parseIPv6\<close>. \<open>n\<close> bounds the groups still possible, \<open>bs\<close> are the bytes
  read so far and \<open>el\<close> is the position of the \<open>::\<close>. The result holds the bytes and the
  position.
\<close>

fun ipv6_groups :: "nat \<Rightarrow> byte list \<Rightarrow> nat option \<Rightarrow> string \<Rightarrow> (byte list \<times> nat option) option" where
  "ipv6_groups 0 bs el s = (if s = [] then Some (bs, el) else None)"
| "ipv6_groups (Suc n) bs el s =
     (case hex_loop 0 0 s of
        None \<Rightarrow> None
      | Some (v, k, rest) \<Rightarrow>
          if k = 0 then None
          else if rest \<noteq> [] \<and> hd rest = CHR ''.'' then
            (if (el = None \<and> length bs \<noteq> 12) \<or> length bs + 4 > 16 then None
             else map_option (\<lambda>q. (bs @ q, el)) (ipv4_fields 4 s))
          else
            (let bs' = bs @ [word_of_nat (v div 256), word_of_nat v] in
             case rest of
               [] \<Rightarrow> Some (bs', el)
             | [c] \<Rightarrow> None
             | c # c' # cs \<Rightarrow>
                 if c \<noteq> CHR '':'' then None
                 else if c' = CHR '':'' then
                   (if el \<noteq> None then None
                    else if cs = [] then Some (bs', Some (length bs'))
                    else ipv6_groups n bs' (Some (length bs')) cs)
                 else ipv6_groups n bs' el (c' # cs)))"

definition expand_ellipsis :: "byte list \<times> nat option \<Rightarrow> ip option" where
  "expand_ellipsis r =
     (let (bs, el) = r in
      if length bs < 16 then
        map_option (\<lambda>e. take e bs @ replicate (16 - length bs) 0 @ drop e bs) el
      else if el = None then Some bs else None)"

definition parse_ipv6 :: "string \<Rightarrow> ip option" where
  "parse_ipv6 s =
     (if has_prefix s ''::'' then
        (if drop 2 s = [] then Some (replicate 16 0)
         else Option.bind (ipv6_groups 8 [] (Some 0) (drop 2 s)) expand_ellipsis)
      else Option.bind (ipv6_groups 8 [] None s) expand_ellipsis)"

text \<open>
  \<open>netip.ParseAddr\<close> restricted to addresses without a zone: every caller in the program
  rejects a zone. The result has 4 or 16 bytes.
\<close>

definition parse_addr :: "string \<Rightarrow> byte list option" where
  "parse_addr s =
     (case dropWhile (\<lambda>c. c \<notin> {CHR ''.'', CHR '':'', CHR ''%''}) s of
        [] \<Rightarrow> None
      | c # _ \<Rightarrow>
          if c = CHR ''.'' then ipv4_fields 4 s
          else if c = CHR '':'' \<and> CHR ''%'' \<notin> set s then parse_ipv6 s else None)"

definition as16 :: "byte list \<Rightarrow> ip" where
  "as16 bs = (if length bs = 4 then v4_prefix @ bs else bs)"

definition parse_ip :: "string \<Rightarrow> ip" where
  "parse_ip s = (case parse_addr s of None \<Rightarrow> [] | Some bs \<Rightarrow> as16 bs)"

text \<open>\<open>dtoi\<close>: the leading decimal digits, failing at \<open>0xFFFFFF\<close>, with the rest.\<close>

fun dtoi :: "nat \<Rightarrow> nat \<Rightarrow> string \<Rightarrow> (nat \<times> string) option" where
  "dtoi v k [] = (if k = 0 then None else Some (v, []))"
| "dtoi v k (c # cs) =
     (case digit_val c of
        Some d \<Rightarrow> if 10 * v + d \<ge> 16777215 then None else dtoi (10 * v + d) (k + 1) cs
      | None \<Rightarrow> if k = 0 then None else Some (v, c # cs))"

text \<open>\<open>ParseCIDR\<close>: the address and its network.\<close>

definition parse_cidr :: "string \<Rightarrow> (ip \<times> ipnet) option" where
  "parse_cidr s =
     (case dropWhile (\<lambda>c. c \<noteq> CHR ''/'') s of
        [] \<Rightarrow> None
      | _ # len \<Rightarrow>
          (case (parse_addr (takeWhile (\<lambda>c. c \<noteq> CHR ''/'') s), dtoi 0 0 len) of
             (Some bs, Some (n, [])) \<Rightarrow>
               if n > 8 * length bs then None
               else (let m = cidr_mask n (8 * length bs) in
                     Some (as16 bs, \<lparr>net_ip = ip_mask (as16 bs) m, net_mask = m\<rparr>))
           | _ \<Rightarrow> None))"

section \<open>Printing\<close>

definition dotted :: "byte \<Rightarrow> byte \<Rightarrow> byte \<Rightarrow> byte \<Rightarrow> string" where
  "dotted a b c d =
     fmt_nat (unat a) @ ''.'' @ fmt_nat (unat b) @ ''.'' @ fmt_nat (unat c) @ ''.'' @ fmt_nat (unat d)"

text \<open>The groups of an IPv6 address and the longest run of at least two zero groups.\<close>

fun words16 :: "ip \<Rightarrow> nat list" where
  "words16 (a # b # bs) = (256 * unat a + unat b) # words16 bs"
| "words16 _ = []"

definition zero_run :: "nat list \<Rightarrow> nat \<Rightarrow> nat" where
  "zero_run gs i = length (takeWhile (\<lambda>g. g = 0) (drop i gs))"

definition longest_zero_run :: "nat list \<Rightarrow> (nat \<times> nat) option" where
  "longest_zero_run gs =
     foldl (\<lambda>best i. let l = zero_run gs i in
              if l \<ge> 2 \<and> (case best of None \<Rightarrow> True | Some (_, k) \<Rightarrow> l > k) then Some (i, l) else best)
           None [0..<length gs]"

definition ipv6_text :: "ip \<Rightarrow> string" where
  "ipv6_text x =
     (let gs = words16 x; hex = join_on '':'' \<circ> map fmt_hex in
      case longest_zero_run gs of
        None \<Rightarrow> hex gs
      | Some (i, l) \<Rightarrow> hex (take i gs) @ ''::'' @ hex (drop (i + l) gs))"

text \<open>\<open>IP.String\<close>; a slice of another length prints as \<open>?\<close> and its bytes in hexadecimal.\<close>

definition hex_byte :: "byte \<Rightarrow> string" where
  "hex_byte b = [digit_char (unat b div 16), digit_char (unat b mod 16)]"

definition ip_string :: "ip \<Rightarrow> string" where
  "ip_string x =
     (if x = [] then ''<nil>''
      else if length x \<noteq> 4 \<and> length x \<noteq> 16 then ''?'' @ concat (map hex_byte x)
      else (case to4 x of [a, b, c, d] \<Rightarrow> dotted a b c d | _ \<Rightarrow> ipv6_text x))"

lemma ip_string_ipv4 [simp]: "ip_string (ipv4 a b c d) = dotted a b c d"
  by (simp add: ip_string_def)

section \<open>Printing and parsing agree on IPv4 addresses\<close>

lemma octet_step:
  "d < 10 \<Longrightarrow> \<not> (k = 1 \<and> v = 0) \<Longrightarrow> 10 * v + d \<le> 255 \<Longrightarrow>
   octet_loop v k (digit_char d # cs) = octet_loop (10 * v + d) (k + 1) cs"
  by (auto simp: not_less)

lemma fmt_nat_octet:
  "n < 256 \<Longrightarrow> fmt_nat n =
     (if n < 10 then [digit_char n]
      else if n < 100 then [digit_char (n div 10), digit_char (n mod 10)]
      else [digit_char (n div 10 div 10), digit_char (n div 10 mod 10), digit_char (n mod 10)])"
  by (auto simp: fmt_nat_def radix_text_big radix_text_small div_less_dividend)

lemma octet_loop_fmt_nat:
  assumes "n < 256" and "rest = [] \<or> digit_val (hd rest) = None"
  shows "octet_loop 0 0 (fmt_nat n @ rest) = Some (n, rest)"
proof -
  have stop: "k \<noteq> 0 \<Longrightarrow> octet_loop v k rest = Some (v, rest)" for v k
    using assms(2) by (cases rest) auto
  define h t u where "h = n div 10 div 10" and "t = n div 10 mod 10" and "u = n mod 10"
  have ht: "n div 10 = 10 * h + t" by (simp add: h_def t_def)
  have "(10 * h + t) * 10 + u = n"
    using div_mult_mod_eq [of n 10] by (simp only: ht u_def)
  then have n: "n = 10 * (10 * h + t) + u" by (simp only: mult.commute)
  have digits: "t < 10" "u < 10" by (simp_all add: t_def u_def)
  consider "n < 10" | "10 \<le> n" "n < 100" | "100 \<le> n" by linarith
  then show ?thesis
  proof cases
    case 1
    with assms(1) have "octet_loop 0 0 (fmt_nat n @ rest) = octet_loop (10 * 0 + n) (0 + 1) rest"
      by (simp add: fmt_nat_octet)
    with stop show ?thesis by simp
  next
    case 2
    with n have "h = 0" by presburger
    with 2 n digits have "0 < t" by presburger
    from 2 assms(1) ht \<open>h = 0\<close> have "fmt_nat n @ rest = digit_char t # digit_char u # rest"
      by (simp add: fmt_nat_octet u_def)
    moreover have "octet_loop 0 0 (digit_char t # digit_char u # rest) = octet_loop t 1 (digit_char u # rest)"
      using digits by simp
    moreover have "\<dots> = octet_loop (10 * t + u) (1 + 1) rest"
      by (rule octet_step) (use digits \<open>0 < t\<close> assms(1) n \<open>h = 0\<close> in auto)
    ultimately show ?thesis using n \<open>h = 0\<close> stop by simp
  next
    case 3
    with n digits assms(1) have h: "0 < h" "h < 10" by auto
    from 3 assms(1) have "fmt_nat n @ rest = digit_char h # digit_char t # digit_char u # rest"
      by (simp add: fmt_nat_octet h_def t_def u_def)
    moreover have "octet_loop 0 0 (digit_char h # digit_char t # digit_char u # rest) =
        octet_loop h 1 (digit_char t # digit_char u # rest)"
      using h by simp
    moreover have "\<dots> = octet_loop (10 * h + t) (1 + 1) (digit_char u # rest)"
      by (rule octet_step) (use digits h assms(1) n in auto)
    moreover have "\<dots> = octet_loop (10 * (10 * h + t) + u) (1 + 1 + 1) rest"
      by (rule octet_step) (use digits h assms(1) n in auto)
    ultimately show ?thesis using n stop by simp
  qed
qed

lemma unat_byte_less [simp]: "unat (a :: byte) < 256"
proof -
  have "unat a < 2 ^ LENGTH(8)" by (rule unsigned_less)
  then show ?thesis by simp
qed

lemma digit_val_dot [simp]: "digit_val (CHR ''.'') = None"
  by (simp add: digit_val_def)

lemma ipv4_fields_dotted: "ipv4_fields 4 (dotted a b c d) = Some [a, b, c, d]"
proof -
  have last: "octet_loop 0 0 (fmt_nat (unat x)) = Some (unat x, [])" for x :: byte
    using octet_loop_fmt_nat [of "unat x" "[]"] by simp
  have four: "ipv4_fields 4 s = ipv4_fields (Suc (Suc (Suc (Suc 0)))) s" for s
    by (simp add: numeral_eq_Suc)
  show ?thesis
    by (simp add: four dotted_def octet_loop_fmt_nat last del: ipv4_fields.simps(1))
qed

lemma dropWhile_to_dot:
  "dropWhile (\<lambda>c. c \<notin> {CHR ''.'', CHR '':'', CHR ''%''}) (fmt_nat n @ CHR ''.'' # s) = CHR ''.'' # s"
proof -
  have "c \<notin> {CHR ''.'', CHR '':'', CHR ''%''}" if "c \<in> set (fmt_nat n)" for c
    using fmt_nat_digits [OF that] by (auto simp: digit_val_def)
  then show ?thesis by (simp add: dropWhile_append)
qed

lemma parse_addr_dotted [simp]: "parse_addr (dotted a b c d) = Some [a, b, c, d]"
proof -
  have "dropWhile (\<lambda>c. c \<notin> {CHR ''.'', CHR '':'', CHR ''%''}) (dotted a b c d) =
      CHR ''.'' # fmt_nat (unat b) @ ''.'' @ fmt_nat (unat c) @ ''.'' @ fmt_nat (unat d)"
    by (simp only: dotted_def append.simps dropWhile_to_dot)
  then show ?thesis by (simp add: parse_addr_def ipv4_fields_dotted)
qed

theorem parse_ip_dotted [simp]: "parse_ip (dotted a b c d) = ipv4 a b c d"
  by (simp add: parse_ip_def as16_def ipv4_def)

lemma parse_ip_empty [simp]: "parse_ip [] = []"
  by (simp add: parse_ip_def parse_addr_def)

text \<open>What the parser returns is an address of 16 bytes or \<open>nil\<close>.\<close>

lemma ipv4_fields_length: "ipv4_fields n s = Some bs \<Longrightarrow> length bs = n"
  by (induction n s arbitrary: bs rule: ipv4_fields.induct)
    (auto split: option.splits prod.splits list.splits if_splits)

lemma parse_ip_length: "parse_addr s = Some bs \<Longrightarrow> length bs = 4 \<or> bs \<noteq> [] \<Longrightarrow> parse_ip s \<noteq> []"
  by (auto simp: parse_ip_def as16_def)

lemma split_dotted:
  "split_on CHR ''.'' (dotted a b c d) =
     [fmt_nat (unat a), fmt_nat (unat b), fmt_nat (unat c), fmt_nat (unat d)]"
  by (simp add: dotted_def split_on_append split_on_no_sep)

lemma join_dotted:
  "join_on ''.'' [fmt_nat (unat a), fmt_nat (unat b), fmt_nat (unat c), fmt_nat (unat d)] = dotted a b c d"
  by (simp add: dotted_def)

text \<open>Evaluation of the parser on literals by the simplifier.\<close>

lemmas ipv6_groups_numeral =
  ipv6_groups.simps(2) [of "pred_numeral k" for k, folded numeral_eq_Suc]

lemmas ipv4_fields_numeral =
  ipv4_fields.simps(2) [of "pred_numeral k" for k, folded numeral_eq_Suc]

lemma replicate_numeral [simp]: "replicate (numeral k) x = x # replicate (pred_numeral k) x"
  by (simp add: numeral_eq_Suc)

lemmas parse_eval =
  parse_ip_def parse_addr_def parse_ipv6_def has_prefix_def hex_val_def digit_val_def
  expand_ellipsis_def as16_def replicate_numeral ipv6_groups_numeral ipv4_fields_numeral

lemmas go_net_simps = ip_mask_ipv4 to4_ipv4 parse_ip_dotted parse_addr_dotted ip_string_ipv4

end
