(* ===== verification/IpUtil.thy ===== *)
theory IpUtil
  imports GoNet
begin

text \<open>
  \<open>backend/utils/ip.go\<close>: addresses as numbers, the validity of a netmask, and the
  computation of \<open>start\<close> and \<open>limit\<close> of a DHCP range. Go's \<open>uint\<close> and \<open>int\<close> have 64 bits.
  A result \<open>None\<close> is a run-time panic (an index out of range on a \<open>nil\<close> address).
\<close>

section \<open>Addresses as numbers\<close>

definition ipv4_to_long :: "ip \<Rightarrow> 64 word option" where
  "ipv4_to_long x =
     (case to4 x of
        [a, b, c, d] \<Rightarrow>
          Some (push_bit 24 (ucast a) + push_bit 16 (ucast b) + push_bit 8 (ucast c) + ucast d)
      | _ \<Rightarrow> None)"

definition long_to_ipv4 :: "64 word \<Rightarrow> ip" where
  "long_to_ipv4 v =
     ipv4 (ucast (drop_bit 24 v AND 0xFF)) (ucast (drop_bit 16 v AND 0xFF))
          (ucast (drop_bit 8 v AND 0xFF)) (ucast (v AND 0xFF))"

text \<open>The loop \<open>for j := 31; j >= 0; j--\<close>, with \<open>k = j + 1\<close>.\<close>

fun leading_ones :: "nat \<Rightarrow> 64 word \<Rightarrow> 64 word \<Rightarrow> 64 word" where
  "leading_ones 0 m tmp = tmp"
| "leading_ones (Suc j) m tmp =
     (if m AND push_bit j 1 = 0 then tmp else leading_ones j m (tmp + push_bit j 1))"

definition is_valid_ipv4_mask :: "ip \<Rightarrow> bool option" where
  "is_valid_ipv4_mask x =
     map_option (\<lambda>m. NOT (leading_ones 32 m 0) AND m = 0) (ipv4_to_long x)"

text \<open>\<open>CalcStartAndLimit\<close>; the outer option is the panic of \<open>Ipv4ToLong\<close>.\<close>

definition calc_start_and_limit :: "string \<Rightarrow> string \<Rightarrow> string \<Rightarrow> (int \<times> int) result option" where
  "calc_start_and_limit start_str end_str mask_str =
     (let start_ip = parse_ip start_str; end_ip = parse_ip end_str; mask_ip = parse_ip mask_str in
      if start_ip = [] \<or> to4 start_ip = [] \<or> end_ip = [] \<or> to4 end_ip = [] \<or>
         mask_ip = [] \<or> to4 mask_ip = []
      then Some (Inl ''invalid input'')
      else
        (case is_valid_ipv4_mask mask_ip of
           None \<Rightarrow> None
         | Some False \<Rightarrow> Some (Inl ''invalid mask'')
         | Some True \<Rightarrow>
             (case (ipv4_to_long (ip_mask start_ip mask_ip), ipv4_to_long start_ip,
                    ipv4_to_long end_ip) of
                (Some start_mask, Some start_long, Some end_long) \<Rightarrow>
                  if end_long \<le> start_long then Some (Inl ''invalid start/end'')
                  else Some (Inr (sint (start_long - start_mask), sint (end_long - start_long)))
              | _ \<Rightarrow> None)))"

section \<open>Values and round trips\<close>

definition quad :: "byte \<Rightarrow> byte \<Rightarrow> byte \<Rightarrow> byte \<Rightarrow> nat" where
  "quad a b c d = unat d + 256 * (unat c + 256 * (unat b + 256 * unat a))"

lemma base256_less: "d < 256 \<Longrightarrow> x < k \<Longrightarrow> d + 256 * x < 256 * (k :: nat)"
  by linarith

lemma base256_inject:
  assumes "d < 256" "d' < 256" "d + 256 * x = d' + 256 * (x' :: nat)"
  shows "d = d' \<and> x = x'"
proof -
  from assms(1) have "(d + 256 * x) div 256 = x" by simp
  moreover from assms(2) have "(d' + 256 * x') div 256 = x'" by simp
  ultimately have "x = x'" using assms(3) by simp
  with assms(3) show ?thesis by simp
qed

lemma quad_less: "quad a b c d < 2 ^ 32"
proof -
  have "quad a b c d < 256 * (256 * (256 * 256))"
    unfolding quad_def by (intro base256_less unat_byte_less)
  then show ?thesis by simp
qed

lemma quad_inject: "quad a b c d = quad a' b' c' d' \<longleftrightarrow> a = a' \<and> b = b' \<and> c = c' \<and> d = d'"
proof
  assume "quad a b c d = quad a' b' c' d'"
  then have all: "unat d + 256 * (unat c + 256 * (unat b + 256 * unat a)) =
      unat d' + 256 * (unat c' + 256 * (unat b' + 256 * unat a'))"
    by (simp only: quad_def)
  from base256_inject [OF unat_byte_less unat_byte_less all] have d: "unat d = unat d'"
    and c1: "unat c + 256 * (unat b + 256 * unat a) = unat c' + 256 * (unat b' + 256 * unat a')"
    by blast+
  from base256_inject [OF unat_byte_less unat_byte_less c1] have c: "unat c = unat c'"
    and b1: "unat b + 256 * unat a = unat b' + 256 * unat a'" by blast+
  from base256_inject [OF unat_byte_less unat_byte_less b1] d c
  show "a = a' \<and> b = b' \<and> c = c' \<and> d = d'" by (simp add: word_unat_eq_iff)
qed simp

lemma ipv4_to_long_ipv4: "ipv4_to_long (ipv4 a b c d) = Some (word_of_nat (quad a b c d))"
proof -
  have push: "push_bit n (ucast x :: 64 word) = 2 ^ n * ucast x" for n and x :: byte
    by (simp add: push_bit_eq_mult mult.commute)
  show ?thesis
    unfolding ipv4_to_long_def quad_def push to4_ipv4 by (simp add: algebra_simps)
qed

lemma unat_quad: "unat (word_of_nat (quad a b c d) :: 64 word) = quad a b c d"
  using quad_less [of a b c d] by (simp add: unat_of_nat)

lemma to4_parse_ip:
  assumes "to4 (parse_ip s) \<noteq> []"
  shows "\<exists>a b c d. parse_ip s = ipv4 a b c d"
proof -
  from assms have len: "length (parse_ip s) \<noteq> 4"
    by (auto simp: parse_ip_def as16_def split: option.splits)
  with assms have x: "length (parse_ip s) = 16" "take 12 (parse_ip s) = v4_prefix"
    by (auto simp: to4_def split: if_splits)
  then have "length (drop 12 (parse_ip s)) = Suc (Suc (Suc (Suc 0)))" by simp
  then obtain a b c d where "drop 12 (parse_ip s) = [a, b, c, d]"
    by (auto simp only: length_Suc_conv length_0_conv)
  with x(2) have "parse_ip s = ipv4 a b c d"
    by (metis append_take_drop_id ipv4_def)
  then show ?thesis by blast
qed

lemma quad_and_le: "quad (a AND w) (b AND x) (c AND y) (d AND z) \<le> quad a b c d"
proof -
  have le: "unat (p AND q) \<le> unat p" for p q :: byte
    by (simp add: word_and_le2 flip: word_le_nat_alt)
  show ?thesis unfolding quad_def
    by (intro add_mono mult_left_mono le) simp_all
qed

lemma long_diff:
  assumes "m \<le> n" "n < 2 ^ 32"
  shows "sint (word_of_nat n - word_of_nat m :: 64 word) = int n - int m"
proof -
  have "(word_of_nat n - word_of_nat m :: 64 word) = word_of_nat (n - m)"
    using assms(1) by (simp add: of_nat_diff)
  moreover have "signed_take_bit 63 (int (n - m)) = int (n - m)"
    by (rule signed_take_bit_int_eq_self) (use assms in simp_all)
  then have "sint (word_of_nat (n - m) :: 64 word) = int (n - m)"
    by (simp add: signed_of_nat)
  ultimately show ?thesis using assms(1) by (simp add: of_nat_diff)
qed

section \<open>Valid netmasks\<close>

lemma leading_ones_bits:
  assumes "k \<le> 64" and "\<And>j. bit tmp j \<Longrightarrow> k \<le> j"
  shows "\<exists>i\<le>k. (\<forall>j. bit (leading_ones k m tmp) j \<longleftrightarrow> bit tmp j \<or> (i \<le> j \<and> j < k)) \<and>
           (\<forall>j. i \<le> j \<and> j < k \<longrightarrow> bit m j) \<and> (i = 0 \<or> \<not> bit m (i - 1))"
  using assms
proof (induction k arbitrary: tmp)
  case 0
  then show ?case by simp
next
  case (Suc k)
  have test: "m AND push_bit k 1 = 0 \<longleftrightarrow> \<not> bit m k"
    by (simp add: bit_iff_and_push_bit_not_eq_0)
  show ?case
  proof (cases "bit m k")
    case False
    with test show ?thesis by (intro exI [of _ "Suc k"]) auto
  next
    case True
    let ?t = "tmp + push_bit k (1 :: 64 word)"
    have "tmp AND push_bit k 1 = 0"
      using Suc.prems(2) [of k] by (auto simp: bit_iff_and_push_bit_not_eq_0)
    then have "?t = tmp OR push_bit k 1" by (rule disjunctive_add_eq_or)
    then have t: "bit ?t j \<longleftrightarrow> bit tmp j \<or> j = k" for j
      using Suc.prems(1) by (auto simp: bit_simps)
    have "\<exists>i\<le>k. (\<forall>j. bit (leading_ones k m ?t) j \<longleftrightarrow> bit ?t j \<or> (i \<le> j \<and> j < k)) \<and>
        (\<forall>j. i \<le> j \<and> j < k \<longrightarrow> bit m j) \<and> (i = 0 \<or> \<not> bit m (i - 1))"
      by (rule Suc.IH) (use Suc.prems t in \<open>auto simp: Suc_le_eq dest: less_imp_le\<close>)
    then obtain i where i: "i \<le> k" "\<And>j. bit (leading_ones k m ?t) j \<longleftrightarrow> bit ?t j \<or> (i \<le> j \<and> j < k)"
        "\<And>j. i \<le> j \<Longrightarrow> j < k \<Longrightarrow> bit m j" "i = 0 \<or> \<not> bit m (i - 1)" by blast
    have "leading_ones (Suc k) m tmp = leading_ones k m ?t" using True test by simp
    with i t True show ?thesis
      by (intro exI [of _ i]) (auto simp: less_Suc_eq)
  qed
qed

lemma valid_mask_bits:
  assumes "ipv4_to_long x = Some m" and "\<And>j. bit m j \<Longrightarrow> j < 32"
  shows "is_valid_ipv4_mask x = Some (\<exists>i\<le>32. \<forall>j. bit m j \<longleftrightarrow> i \<le> j \<and> j < 32)"
proof -
  have "\<exists>i\<le>32. (\<forall>j. bit (leading_ones 32 m 0) j \<longleftrightarrow> bit (0 :: 64 word) j \<or> (i \<le> j \<and> j < 32)) \<and>
      (\<forall>j. i \<le> j \<and> j < 32 \<longrightarrow> bit m j) \<and> (i = 0 \<or> \<not> bit m (i - 1))"
    by (rule leading_ones_bits) simp_all
  then obtain i where i: "i \<le> 32" "\<And>j. bit (leading_ones 32 m 0) j \<longleftrightarrow> i \<le> j \<and> j < 32"
      "\<And>j. i \<le> j \<Longrightarrow> j < 32 \<Longrightarrow> bit m j" "i = 0 \<or> \<not> bit m (i - 1)" by auto
  have "NOT (leading_ones 32 m 0) AND m = 0 \<longleftrightarrow> (\<forall>j. bit m j \<longrightarrow> i \<le> j)"
  proof
    assume z: "NOT (leading_ones 32 m 0) AND m = 0"
    show "\<forall>j. bit m j \<longrightarrow> i \<le> j"
    proof (intro allI impI)
      fix j assume j: "bit m j"
      with assms(2) have "j < 64" by fastforce
      have "\<not> bit (NOT (leading_ones 32 m 0) AND m) j" by (simp add: z)
      with j i(2) \<open>j < 64\<close> show "i \<le> j" by (simp add: bit_simps)
    qed
  next
    assume "\<forall>j. bit m j \<longrightarrow> i \<le> j"
    with i(2) assms(2) show "NOT (leading_ones 32 m 0) AND m = 0"
      by (auto simp: bit_eq_iff bit_simps)
  qed
  also have "\<dots> \<longleftrightarrow> (\<exists>i\<le>32. \<forall>j. bit m j \<longleftrightarrow> i \<le> j \<and> j < 32)"
  proof
    assume "\<forall>j. bit m j \<longrightarrow> i \<le> j"
    with i(1,3) assms(2) show "\<exists>i\<le>32. \<forall>j. bit m j \<longleftrightarrow> i \<le> j \<and> j < 32" by blast
  next
    assume "\<exists>i\<le>32. \<forall>j. bit m j \<longleftrightarrow> i \<le> j \<and> j < 32"
    then obtain k where k: "k \<le> 32" "\<And>j. bit m j \<longleftrightarrow> k \<le> j \<and> j < 32" by blast
    have "i \<le> k"
    proof (rule ccontr)
      assume "\<not> i \<le> k"
      then have "k \<le> i - 1" "i - 1 < 32" "i \<noteq> 0" using i(1) by auto
      with k(2) i(4) show False by blast
    qed
    with k show "\<forall>j. bit m j \<longrightarrow> i \<le> j" by auto
  qed
  finally show ?thesis by (simp add: is_valid_ipv4_mask_def assms(1))
qed

text \<open>The mask of a CIDR prefix, as a number.\<close>

lemma quad_bits: "bit (word_of_nat (quad a b c d) :: 64 word) j \<Longrightarrow> j < 32"
proof -
  assume bit: "bit (word_of_nat (quad a b c d) :: 64 word) j"
  have "take_bit 32 (word_of_nat (quad a b c d) :: 64 word) = word_of_nat (quad a b c d)"
    using quad_less [of a b c d] by (simp add: take_bit_of_nat take_bit_nat_eq_self flip: of_nat_take_bit)
  with bit have "bit (take_bit 32 (word_of_nat (quad a b c d) :: 64 word)) j" by simp
  then show "j < 32" by (simp add: bit_take_bit_iff)
qed

definition prefix_long :: "nat \<Rightarrow> 64 word" where
  "prefix_long n = push_bit (32 - n) (mask n)"

lemma bit_prefix_long: "n \<le> 32 \<Longrightarrow> bit (prefix_long n) j \<longleftrightarrow> 32 - n \<le> j \<and> j < 32"
  by (auto simp: prefix_long_def bit_simps)

lemma cidr_mask_prefix_long:
  "\<forall>n\<in>set [0..<33]. ipv4_to_long (cidr_mask n 32) = Some (prefix_long n)"
  by code_simp

lemma cidr_mask_long: "n \<le> 32 \<Longrightarrow> ipv4_to_long (cidr_mask n 32) = Some (prefix_long n)"
  using cidr_mask_prefix_long by auto

lemma length_cidr_mask [simp]: "length (cidr_mask n bits) = bits div 8"
  by (simp add: cidr_mask_def)

lemma cidr_mask_quad:
  assumes "n \<le> 32"
  shows "cidr_mask n 32 = [a, b, c, d] \<longleftrightarrow> prefix_long n = word_of_nat (quad a b c d)"
proof -
  have "length (cidr_mask n 32) = Suc (Suc (Suc (Suc 0)))" by simp
  then obtain p q r s where m: "cidr_mask n 32 = [p, q, r, s]"
    by (auto simp only: length_Suc_conv length_0_conv)
  have "ipv4_to_long [p, q, r, s] = ipv4_to_long (ipv4 p q r s)"
    by (simp add: ipv4_to_long_def)
  with cidr_mask_long [OF assms] m have "prefix_long n = word_of_nat (quad p q r s)"
    by (simp add: ipv4_to_long_ipv4)
  moreover have "(word_of_nat (quad p q r s) :: 64 word) = word_of_nat (quad a b c d) \<longleftrightarrow>
      quad p q r s = quad a b c d"
    by (metis unat_quad)
  ultimately show ?thesis by (simp add: m quad_inject)
qed

lemma valid_mask_iff_cidr:
  "is_valid_ipv4_mask (ipv4 a b c d) = Some (\<exists>n\<le>32. cidr_mask n 32 = [a, b, c, d])"
proof -
  let ?m = "word_of_nat (quad a b c d) :: 64 word"
  have "is_valid_ipv4_mask (ipv4 a b c d) = Some (\<exists>i\<le>32. \<forall>j. bit ?m j \<longleftrightarrow> i \<le> j \<and> j < 32)"
    by (rule valid_mask_bits [OF ipv4_to_long_ipv4]) (rule quad_bits)
  also have "(\<exists>i\<le>32. \<forall>j. bit ?m j \<longleftrightarrow> i \<le> j \<and> j < 32) \<longleftrightarrow> (\<exists>n\<le>32. prefix_long n = ?m)"
  proof
    assume "\<exists>i\<le>32. \<forall>j. bit ?m j \<longleftrightarrow> i \<le> j \<and> j < 32"
    then obtain i where i: "i \<le> 32" "\<And>j. bit ?m j \<longleftrightarrow> i \<le> j \<and> j < 32" by blast
    have "prefix_long (32 - i) = ?m"
      by (rule bit_eqI) (use i bit_prefix_long [of "32 - i"] in simp)
    then show "\<exists>n\<le>32. prefix_long n = ?m" by (intro exI [of _ "32 - i"]) simp
  next
    assume "\<exists>n\<le>32. prefix_long n = ?m"
    then obtain n where n: "n \<le> 32" "prefix_long n = ?m" by blast
    then show "\<exists>i\<le>32. \<forall>j. bit ?m j \<longleftrightarrow> i \<le> j \<and> j < 32"
      using bit_prefix_long [OF n(1)] by (intro exI [of _ "32 - n"]) simp
  qed
  also have "\<dots> \<longleftrightarrow> (\<exists>n\<le>32. cidr_mask n 32 = [a, b, c, d])"
    using cidr_mask_quad by blast
  finally show ?thesis .
qed

section \<open>Properties\<close>

text \<open>
  C28. \<open>IsValidIpv4Mask\<close> accepts exactly the masks of the prefix lengths 0 to 32, that is the
  masks \<open>net.CIDRMask(n, 32)\<close>; it never panics on an IPv4 mask.
\<close>

theorem valid_mask_iff_prefix:
  "is_valid_ipv4_mask (ipv4 a b c d) = Some (\<exists>n\<le>32. cidr_mask n 32 = [a, b, c, d])"
  by (rule valid_mask_iff_cidr)

lemma valid_mask_ipv4_Some: "\<exists>v. is_valid_ipv4_mask (ipv4 a b c d) = Some v"
  by (simp add: is_valid_ipv4_mask_def ipv4_to_long_ipv4)

lemma calc_dotted:
  "calc_start_and_limit (dotted a b c d) (dotted a' b' c' d') (dotted w x y z) =
     (if is_valid_ipv4_mask (ipv4 w x y z) = Some False then Some (Inl ''invalid mask'')
      else if quad a' b' c' d' \<le> quad a b c d then Some (Inl ''invalid start/end'')
      else Some (Inr (int (quad a b c d) - int (quad (a AND w) (b AND x) (c AND y) (d AND z)),
                      int (quad a' b' c' d') - int (quad a b c d))))"
proof -
  obtain v where v: "is_valid_ipv4_mask (ipv4 w x y z) = Some v"
    using valid_mask_ipv4_Some by blast
  have le: "(word_of_nat (quad a' b' c' d') :: 64 word) \<le> word_of_nat (quad a b c d) \<longleftrightarrow>
      quad a' b' c' d' \<le> quad a b c d"
    by (simp add: word_le_nat_alt unat_quad)
  have start: "sint (word_of_nat (quad a b c d) -
        word_of_nat (quad (a AND w) (b AND x) (c AND y) (d AND z)) :: 64 word) =
      int (quad a b c d) - int (quad (a AND w) (b AND x) (c AND y) (d AND z))"
    by (rule long_diff [OF quad_and_le quad_less])
  have limit: "sint (word_of_nat (quad a' b' c' d') - word_of_nat (quad a b c d) :: 64 word) =
      int (quad a' b' c' d') - int (quad a b c d)" if "\<not> quad a' b' c' d' \<le> quad a b c d"
    by (rule long_diff [OF _ quad_less]) (use that in simp)
  show ?thesis
    unfolding calc_start_and_limit_def Let_def go_net_simps ipv4_to_long_ipv4 v
    by (cases v) (simp_all add: le start limit)
qed

text \<open>
  \<open>CalcStartAndLimit\<close> never panics: the \<open>Ipv4ToLong\<close> calls are reached with IPv4
  addresses only, whatever the three strings are.
\<close>

theorem calc_start_and_limit_no_panic: "calc_start_and_limit s e m \<noteq> None"
proof (cases "to4 (parse_ip s) = [] \<or> to4 (parse_ip e) = [] \<or> to4 (parse_ip m) = []")
  case True
  then show ?thesis by (auto simp: calc_start_and_limit_def Let_def)
next
  case False
  then obtain a b c d a' b' c' d' w x y z where
    ips: "parse_ip s = ipv4 a b c d" "parse_ip e = ipv4 a' b' c' d'" "parse_ip m = ipv4 w x y z"
    using to4_parse_ip by meson
  have "calc_start_and_limit s e m =
      calc_start_and_limit (dotted a b c d) (dotted a' b' c' d') (dotted w x y z)"
    by (simp add: calc_start_and_limit_def ips)
  then show ?thesis by (simp add: calc_dotted)
qed

text \<open>
  When the mask is that of a prefix and the end is above the start, \<open>CalcStartAndLimit\<close>
  returns the offset of the start in its network and the distance to the end; both are
  within 32 bits, the offset is not negative and the limit is positive.
\<close>

theorem calc_start_and_limit_value:
  assumes "cidr_mask n 32 = [w, x, y, z]" "n \<le> 32"
    and "quad a b c d < quad a' b' c' d'"
  shows "\<exists>start limit.
    calc_start_and_limit (dotted a b c d) (dotted a' b' c' d') (dotted w x y z) = Some (Inr (start, limit)) \<and>
    start = int (quad a b c d) - int (quad (a AND w) (b AND x) (c AND y) (d AND z)) \<and>
    limit = int (quad a' b' c' d') - int (quad a b c d) \<and>
    0 \<le> start \<and> start < 2 ^ 32 \<and> 0 < limit \<and> limit < 2 ^ 32"
proof -
  from assms(1,2) have "is_valid_ipv4_mask (ipv4 w x y z) = Some True"
    by (auto simp: valid_mask_iff_prefix)
  with assms(3) quad_and_le [of a w b x c y d z] quad_less [of a b c d] quad_less [of a' b' c' d']
  show ?thesis by (simp add: calc_dotted)
qed

theorem calc_start_and_limit_value_witness:
  "calc_start_and_limit (dotted 192 168 1 100) (dotted 192 168 1 249) (dotted 255 255 255 0) =
     Some (Inr (100, 149))"
proof -
  have m: "cidr_mask 24 32 = [255, 255, 255, 0]" by code_simp
  have q: "quad 192 168 1 100 < quad 192 168 1 249" by (simp add: quad_def)
  show ?thesis using calc_start_and_limit_value [OF m _ q] by (simp add: quad_def)
qed

end
