(* ===== verification/Shell.thy ===== *)
theory Shell
  imports GoStrings
begin

text \<open>
  \<open>backend/utils/batch_command.go\<close> and \<open>backend/utils/uci.go\<close>: how the program runs shell
  commands. The \<open>bash\<close> process is outside the model: it is a parameter \<open>exec\<close> that takes
  what \<open>bash\<close> is given (one \<open>-c\<close> argument, or a script on standard input), the timeout in
  seconds (0 for none) and the outside world. The UCI configuration reader (package
  \<open>go-uci\<close>) is a record of the three lookups the program uses, over one loaded snapshot.
\<close>

datatype script = BashArg string | BashStdin string

type_synonym 'w exec = "script \<Rightarrow> nat \<Rightarrow> 'w eff"
type_synonym 'w exec_out = "script \<Rightarrow> nat \<Rightarrow> ('w, string) io"

definition err_empty :: goerr where
  "err_empty = ''empty commands''"

definition newline :: char where
  "newline = char_of (10 :: nat)"

definition create_batch_command :: "string list \<Rightarrow> script result" where
  "create_batch_command cmds =
     (case cmds of
        [] \<Rightarrow> Inl err_empty
      | [c] \<Rightarrow> Inr (BashArg c)
      | _ \<Rightarrow> Inr (BashStdin (concat (map (\<lambda>c. c @ [newline]) cmds))))"

definition batch_output :: "'w exec_out \<Rightarrow> string list \<Rightarrow> nat \<Rightarrow> ('w, string) io" where
  "batch_output exec cmds timeout w =
     (case create_batch_command cmds of
        Inl e \<Rightarrow> (Inl e, w)
      | Inr s \<Rightarrow> exec s timeout w)"

definition batch_run :: "'w exec \<Rightarrow> string list \<Rightarrow> nat \<Rightarrow> 'w eff" where
  "batch_run exec cmds timeout w =
     (case create_batch_command cmds of
        Inl e \<Rightarrow> (Some e, w)
      | Inr s \<Rightarrow> exec s timeout w)"

definition uci_batch_lines :: "string list \<Rightarrow> string \<Rightarrow> string list" where
  "uci_batch_lines cmds reload_cmd =
     [''uci -q batch <<-EOF >/dev/null''] @ cmds @ [''EOF''] @ [reload_cmd] @ ['''']"

definition uci_batch_run :: "'w exec \<Rightarrow> string list \<Rightarrow> string \<Rightarrow> nat \<Rightarrow> 'w eff" where
  "uci_batch_run exec cmds reload_cmd timeout =
     batch_run exec (uci_batch_lines cmds reload_cmd) timeout"

text \<open>A value between single quotes, as \<open>'%s'\<close> prints it.\<close>

definition sq :: "string \<Rightarrow> string" where
  "sq s = [CHR 0x27] @ s @ [CHR 0x27]"

definition dq :: "string \<Rightarrow> string" where
  "dq s = [CHR 0x22] @ s @ [CHR 0x22]"

definition uci_commit_commands :: "string list \<Rightarrow> string list" where
  "uci_commit_commands configs =
     concat (map (\<lambda>c.
       [''uci commit '' @ c,
        ''ubus call service event '' @ sq (''{\"type\":\"config.change\", \"data\":{\"package\":\"''
          @ c @ ''\"}}'')]) configs)"

definition uci_commit_and_apply :: "'w exec \<Rightarrow> string list \<Rightarrow> 'w eff" where
  "uci_commit_and_apply exec configs = batch_run exec (uci_commit_commands configs) 0"

text \<open>A configuration snapshot: \<open>uci.GetSections\<close>, \<open>uci.Get\<close> and \<open>uci.GetLast\<close>.\<close>

record uci =
  uci_sections :: "string \<Rightarrow> string \<Rightarrow> string list option"
  uci_get :: "string \<Rightarrow> string \<Rightarrow> string \<Rightarrow> string list option"
  uci_last :: "string \<Rightarrow> string \<Rightarrow> string \<Rightarrow> string option"

text \<open>\<open>v, _ := uci.GetLast(...)\<close>: the empty string when the option is absent.\<close>

definition last_or_empty :: "uci \<Rightarrow> string \<Rightarrow> string \<Rightarrow> string \<Rightarrow> string" where
  "last_or_empty u config sec opt =
     (case uci_last u config sec opt of None \<Rightarrow> [] | Some v \<Rightarrow> v)"

definition sections_or_empty :: "uci \<Rightarrow> string \<Rightarrow> string \<Rightarrow> string list" where
  "sections_or_empty u config typ =
     (case uci_sections u config typ of None \<Rightarrow> [] | Some ss \<Rightarrow> ss)"

text \<open>A \<open>bash\<close> that always succeeds and records what it is given, and an empty configuration.\<close>

definition recording :: "(script list) exec" where
  "recording s t w = (None, w @ [s])"

definition empty_uci :: uci where
  "empty_uci = \<lparr>uci_sections = (\<lambda>_ _. None), uci_get = (\<lambda>_ _ _. None), uci_last = (\<lambda>_ _ _. None)\<rparr>"

section \<open>Facts\<close>

lemma create_batch_command_Nil [simp]: "create_batch_command [] = Inl err_empty"
  by (simp add: create_batch_command_def)

lemma create_batch_command_Inr: "cmds \<noteq> [] \<Longrightarrow> is_Inr (create_batch_command cmds)"
  by (cases cmds) (auto simp: create_batch_command_def split: list.splits)

lemma batch_run_empty [simp]: "batch_run exec [] t w = (Some err_empty, w)"
  by (simp add: batch_run_def)

lemma batch_run_nonempty:
  assumes "cmds \<noteq> []"
  shows "\<exists>s. batch_run exec cmds t w = exec s t w \<and> create_batch_command cmds = Inr s"
proof -
  from create_batch_command_Inr [OF assms] obtain s where "create_batch_command cmds = Inr s"
    by blast
  then show ?thesis by (simp add: batch_run_def)
qed

text \<open>The text handed to \<open>bash\<close> determines the commands when no command has a line break.\<close>

lemma split_lines:
  "\<forall>c\<in>set cmds. newline \<notin> set c \<Longrightarrow>
   split_on newline (concat (map (\<lambda>c. c @ [newline]) cmds)) = cmds @ [[]]"
  by (induction cmds) (simp_all add: split_on_append)

lemma uci_batch_script:
  "create_batch_command (uci_batch_lines cmds reload) =
     Inr (BashStdin (concat (map (\<lambda>c. c @ [newline]) (uci_batch_lines cmds reload))))"
  by (simp add: create_batch_command_def uci_batch_lines_def split: list.splits)

end
