(* ===== verification/GoSort.thy ===== *)
theory GoSort
  imports GoStrings "HOL-Library.Multiset"
begin

text \<open>
  Go's \<open>sort.Slice\<close> and \<open>sort.Strings\<close> on the short slices of this program. Slices of
  fewer than 12 elements are sorted by insertion (\<open>insertionSort\<close> of package \<open>sort\<close>), the
  sorting the model follows; for a total order of distinct keys every algorithm gives the
  same list.
\<close>

text \<open>Strings compare by their bytes, a proper prefix being smaller.\<close>

fun str_less :: "string \<Rightarrow> string \<Rightarrow> bool" where
  "str_less s [] \<longleftrightarrow> False"
| "str_less [] (d # ds) \<longleftrightarrow> True"
| "str_less (c # cs) (d # ds) \<longleftrightarrow>
     (of_char c :: nat) < of_char d \<or> (c = d \<and> str_less cs ds)"

text \<open>
  The inner loop moves the new element left past the greater ones; \<open>acc\<close> is the sorted
  prefix in reverse.
\<close>

fun insert_back :: "('a \<Rightarrow> 'a \<Rightarrow> bool) \<Rightarrow> 'a \<Rightarrow> 'a list \<Rightarrow> 'a list" where
  "insert_back lt x [] = [x]"
| "insert_back lt x (y # acc) = (if lt x y then y # insert_back lt x acc else x # y # acc)"

definition insertion_sort :: "('a \<Rightarrow> 'a \<Rightarrow> bool) \<Rightarrow> 'a list \<Rightarrow> 'a list" where
  "insertion_sort lt xs = rev (foldl (\<lambda>acc x. insert_back lt x acc) [] xs)"

definition sort_strings :: "string list \<Rightarrow> string list" where
  "sort_strings = insertion_sort str_less"

lemma mset_insert_back [simp]: "mset (insert_back lt x acc) = add_mset x (mset acc)"
  by (induction acc) auto

lemma mset_insertion_sort [simp]: "mset (insertion_sort lt xs) = mset xs"
proof -
  have "mset (foldl (\<lambda>acc x. insert_back lt x acc) acc xs) = mset acc + mset xs" for acc
    by (induction xs arbitrary: acc) auto
  from this [of "[]"] show ?thesis by (simp add: insertion_sort_def)
qed

lemma set_insertion_sort [simp]: "set (insertion_sort lt xs) = set xs"
  by (metis mset_insertion_sort set_mset_mset)

lemma length_insertion_sort [simp]: "length (insertion_sort lt xs) = length xs"
  by (metis mset_insertion_sort size_mset)

lemma insertion_sort_Nil [simp]: "insertion_sort lt [] = []"
  by (simp add: insertion_sort_def)

text \<open>
  What a comparison function promises: it is asymmetric, and not being less is transitive
  (a strict weak order). The sorted slice then has no element less than one before it.
\<close>

locale strict_weak_order =
  fixes lt :: "'a \<Rightarrow> 'a \<Rightarrow> bool"
  assumes asym: "lt x y \<Longrightarrow> \<not> lt y x"
    and not_trans: "\<not> lt y x \<Longrightarrow> \<not> lt z y \<Longrightarrow> \<not> lt z x"
begin

lemma insert_back_sorted:
  "sorted_wrt (\<lambda>b a. \<not> lt b a) acc \<Longrightarrow> sorted_wrt (\<lambda>b a. \<not> lt b a) (insert_back lt x acc)"
proof (induction acc)
  case Nil
  then show ?case by simp
next
  case (Cons y acc)
  have set_eq: "set (insert_back lt x acc) = insert x (set acc)"
    by (metis mset_insert_back set_mset_add_mset_insert set_mset_mset)
  show ?case
  proof (cases "lt x y")
    case True
    with Cons show ?thesis by (auto simp: set_eq dest: asym)
  next
    case False
    have "\<not> lt x z" if "z \<in> set acc" for z
      using not_trans [where x = z and y = y and z = x] False Cons.prems that by simp
    with False Cons.prems show ?thesis by simp
  qed
qed

lemma insertion_sort_sorted: "sorted_wrt (\<lambda>a b. \<not> lt b a) (insertion_sort lt xs)"
proof -
  have "sorted_wrt (\<lambda>b a. \<not> lt b a) acc \<Longrightarrow>
      sorted_wrt (\<lambda>b a. \<not> lt b a) (foldl (\<lambda>acc x. insert_back lt x acc) acc xs)" for acc
    by (induction xs arbitrary: acc) (auto intro: insert_back_sorted)
  from this [of "[]"] show ?thesis
    by (simp add: insertion_sort_def sorted_wrt_rev)
qed

end

lemma str_less_irrefl [simp]: "\<not> str_less s s"
  by (induction s) auto

lemma str_less_asym: "str_less s t \<Longrightarrow> \<not> str_less t s"
  by (induction s t rule: str_less.induct) auto

lemma str_less_trans: "str_less s t \<Longrightarrow> str_less t u \<Longrightarrow> str_less s u"
proof (induction s t arbitrary: u rule: str_less.induct)
  case (2 d ds)
  then show ?case by (cases u) auto
next
  case (3 c cs d ds)
  then show ?case by (cases u) auto
qed simp

lemma str_less_total: "s = t \<or> str_less s t \<or> str_less t s"
proof (induction s t rule: str_less.induct)
  case (1 s)
  then show ?case by (cases s) auto
next
  case (3 c cs d ds)
  have "(of_char c :: nat) < of_char d \<or> (of_char d :: nat) < of_char c \<or> c = d"
    by (metis linorder_neqE_nat of_char_eq_iff)
  with 3 show ?case by auto
qed simp

interpretation str_order: strict_weak_order str_less
proof
  show "str_less x y \<Longrightarrow> \<not> str_less y x" for x y by (rule str_less_asym)
  show "\<not> str_less y x \<Longrightarrow> \<not> str_less z y \<Longrightarrow> \<not> str_less z x" for x y z
    using str_less_total str_less_trans by metis
qed

end
