(* ===== verification/LanDhcp.thy ===== *)
theory LanDhcp
  imports IpUtil Shell GoSort
begin

text \<open>
  The DHCP side of LAN control: \<open>backend/service/lan_dhcp_types.go\<close>, \<open>lan_dhcp_logic.go\<close>,
  \<open>lan_dhcp_store.go\<close>, \<open>lan_dhcp_usecase.go\<close>, \<open>lan_dhcp_compat.go\<close> and the tag list of
  \<open>lan_global_config_usecase.go\<close>. A tag binds a gateway to DHCP options 3 (router) and
  6 (DNS); automatic tags are named after the gateway's number, the others are stored by
  the user. A result \<open>None\<close> of a tag function is a run-time panic: \<open>ipToDhcpTag\<close> indexes
  the \<open>nil\<close> result of \<open>To4\<close> when the gateway is an IPv6 address.
\<close>

section \<open>Data\<close>

record dhcp_gateway_input =
  gi_enabled :: bool
  gi_gateway :: string

record dhcp_tag_config_input =
  ti_action :: string
  ti_name :: string
  ti_title :: string
  ti_option :: "string list"

record dhcp_tag_record =
  tag_name :: string
  tag_title :: string
  tag_auto :: bool
  tag_gateway :: string
  tag_option :: "string list"

record lan_status =
  ls_addr :: string
  ls_nexthop :: string
  ls_default_gateway :: bool

record float_ip_snapshot =
  fi_enabled :: bool
  fi_set_ip :: string
  fi_check_ip :: string

record lan_dhcp_state =
  ds_options :: "string list"
  ds_ignore :: bool
  ds_tags :: "dhcp_tag_record list"
  ds_float :: "float_ip_snapshot option"

record dhcp_tag_plan =
  tp_tags :: "dhcp_tag_record list"
  tp_gateway :: string
  tp_enabled :: bool

text \<open>\<open>models.LANCtrlDhcpTagInfo\<close>, the tag as the API returns it.\<close>

record dhcp_tag_info =
  inf_auto :: bool
  inf_option :: "string list"
  inf_gateway :: string
  inf_lan_name :: string
  inf_name :: string
  inf_title :: string

text \<open>\<open>DhcpHostTagBinding\<close>: a host section with its tag.\<close>

record host_binding =
  hb_section :: string
  hb_tag :: string

definition empty_dhcp_state :: lan_dhcp_state where
  "empty_dhcp_state = \<lparr>ds_options = [], ds_ignore = False, ds_tags = [], ds_float = None\<rparr>"

section \<open>The automatic tags\<close>

definition ip_to_dhcp_tag :: "string \<Rightarrow> string option" where
  "ip_to_dhcp_tag ipstr =
     (if ipstr = [] then Some []
      else (let x = parse_ip ipstr in
            if x = [] then Some []
            else map_option (\<lambda>v. ''t_auto_'' @ fmt_hex (unat v)) (ipv4_to_long x)))"

definition split_dhcp_option :: "string \<Rightarrow> string list" where
  "split_dhcp_option value = split_on CHR '','' value"

fun detect_dhcp_gateway :: "lan_status \<Rightarrow> string list \<Rightarrow> string" where
  "detect_dhcp_gateway ls [] = []"
| "detect_dhcp_gateway ls (v # vs) =
     (case split_dhcp_option v of
        [a, b] \<Rightarrow> if a = ''3'' \<and> b \<noteq> ls_addr ls then b else detect_dhcp_gateway ls vs
      | _ \<Rightarrow> detect_dhcp_gateway ls vs)"

definition append_dhcp_tag ::
    "dhcp_tag_record list \<Rightarrow> string \<Rightarrow> string \<Rightarrow> dhcp_tag_record list option" where
  "append_dhcp_tag tags title gateway =
     map_option
       (\<lambda>name. if name = [] then tags
          else tags @ [\<lparr>tag_name = name, tag_title = title, tag_auto = True, tag_gateway = gateway,
                        tag_option = [''3,'' @ gateway, ''6,'' @ gateway]\<rparr>])
       (ip_to_dhcp_tag gateway)"

definition tag_title_rank :: "string \<Rightarrow> nat" where
  "tag_title_rank title =
     (if title = ''default'' then 0
      else if title = ''parent'' \<or> title = ''myself'' then 1 else 2)"

definition tag_less :: "dhcp_tag_record \<Rightarrow> dhcp_tag_record \<Rightarrow> bool" where
  "tag_less s t =
     (if tag_title_rank (tag_title s) \<noteq> tag_title_rank (tag_title t)
      then tag_title_rank (tag_title s) < tag_title_rank (tag_title t)
      else if tag_name s \<noteq> tag_name t then str_less (tag_name s) (tag_name t)
      else if tag_title s \<noteq> tag_title t then str_less (tag_title s) (tag_title t)
      else str_less (tag_gateway s) (tag_gateway t))"

definition sort_dhcp_tag_plan :: "dhcp_tag_record list \<Rightarrow> dhcp_tag_record list" where
  "sort_dhcp_tag_plan tags = insertion_sort tag_less tags"

definition build_auto_dhcp_plan ::
    "lan_status \<Rightarrow> lan_dhcp_state option \<Rightarrow> dhcp_tag_plan option" where
  "build_auto_dhcp_plan ls st =
     (case st of
        None \<Rightarrow> Some \<lparr>tp_tags = sort_dhcp_tag_plan [], tp_gateway = [], tp_enabled = True\<rparr>
      | Some s \<Rightarrow>
          (let gw = (if ds_ignore s then [] else detect_dhcp_gateway ls (ds_options s)) in
           map_option
             (\<lambda>tags. \<lparr>tp_tags = sort_dhcp_tag_plan tags, tp_gateway = gw, tp_enabled = \<not> ds_ignore s\<rparr>)
             (if \<not> ds_ignore s \<and> ls_default_gateway ls then
                (if gw = [] then
                   Option.bind (append_dhcp_tag [] ''default'' (ls_addr ls))
                     (\<lambda>tags. append_dhcp_tag tags ''parent'' (ls_nexthop ls))
                 else
                   Option.bind (append_dhcp_tag [] ''default'' gw)
                     (\<lambda>tags. append_dhcp_tag tags ''myself'' (ls_addr ls)))
              else append_dhcp_tag [] ''default'' (ls_addr ls))))"

section \<open>The list of tags shown to the user\<close>

definition to_model_dhcp_tags :: "dhcp_tag_record list \<Rightarrow> dhcp_tag_info list" where
  "to_model_dhcp_tags tags =
     map (\<lambda>t. \<lparr>inf_auto = tag_auto t, inf_option = tag_option t, inf_gateway = tag_gateway t,
               inf_lan_name = [], inf_name = tag_name t, inf_title = tag_title t\<rparr>) tags"

fun has_dhcp_tag :: "dhcp_tag_info list \<Rightarrow> string \<Rightarrow> bool" where
  "has_dhcp_tag [] tag = False"
| "has_dhcp_tag (t # ts) tag = (if tag = inf_name t then True else has_dhcp_tag ts tag)"

definition auto_tag_info :: "string \<Rightarrow> string \<Rightarrow> string \<Rightarrow> dhcp_tag_info" where
  "auto_tag_info title name gateway =
     \<lparr>inf_auto = True, inf_option = [''3,'' @ gateway, ''6,'' @ gateway], inf_gateway = gateway,
      inf_lan_name = [], inf_name = name, inf_title = title\<rparr>"

text \<open>The tags of the floating gateway, then the stored tags not listed yet.\<close>

definition add_float_tags ::
    "float_ip_snapshot option \<Rightarrow> dhcp_tag_info list \<Rightarrow> dhcp_tag_info list option" where
  "add_float_tags fl tags =
     (case fl of
        None \<Rightarrow> Some tags
      | Some f \<Rightarrow>
          if \<not> fi_enabled f then Some tags
          else
            (case ip_to_dhcp_tag (fi_set_ip f) of
               None \<Rightarrow> None
             | Some name \<Rightarrow>
                 (let tags1 = (if name \<noteq> [] \<and> \<not> has_dhcp_tag tags name
                               then tags @ [auto_tag_info ''floatip'' name (fi_set_ip f)] else tags) in
                  case ip_to_dhcp_tag (fi_check_ip f) of
                    None \<Rightarrow> None
                  | Some name2 \<Rightarrow>
                      Some (if name2 \<noteq> [] then tags1 @ [auto_tag_info ''bypass'' name2 (fi_check_ip f)]
                            else tags1))))"

fun add_stored_tags :: "dhcp_tag_record list \<Rightarrow> dhcp_tag_info list \<Rightarrow> dhcp_tag_info list" where
  "add_stored_tags [] tags = tags"
| "add_stored_tags (t # ts) tags =
     add_stored_tags ts
       (if has_dhcp_tag tags (tag_name t) then tags else tags @ to_model_dhcp_tags [t])"

definition build_global_dhcp_tags ::
    "lan_status \<Rightarrow> lan_dhcp_state option \<Rightarrow> dhcp_tag_info list option" where
  "build_global_dhcp_tags ls st =
     (case build_auto_dhcp_plan ls st of
        None \<Rightarrow> None
      | Some plan \<Rightarrow>
          (let tags = to_model_dhcp_tags (tp_tags plan) in
           case st of
             None \<Rightarrow> Some tags
           | Some s \<Rightarrow> map_option (add_stored_tags (ds_tags s)) (add_float_tags (ds_float s) tags)))"

text \<open>
  \<open>getDhcpOfLAN\<close>, the older reader of the same data; \<open>loaded\<close> is what the store returned.
\<close>

definition get_dhcp_of_lan ::
    "lan_status \<Rightarrow> lan_dhcp_state result \<Rightarrow> (dhcp_tag_info list \<times> string \<times> bool) option" where
  "get_dhcp_of_lan ls loaded =
     (let s = (case loaded of Inl _ \<Rightarrow> empty_dhcp_state | Inr s \<Rightarrow> s) in
      case build_auto_dhcp_plan ls (Some s) of
        None \<Rightarrow> None
      | Some plan \<Rightarrow>
          map_option (\<lambda>tags. (add_stored_tags (ds_tags s) tags, tp_gateway plan, ds_ignore s))
            (add_float_tags (ds_float s) ([] @ to_model_dhcp_tags (tp_tags plan))))"

section \<open>The store\<close>

definition stored_tag_gateway :: "string list \<Rightarrow> string" where
  "stored_tag_gateway values =
     foldl (\<lambda>gw v. case split_dhcp_option v of
              [a, b] \<Rightarrow> if a = ''3'' then b else gw | _ \<Rightarrow> gw) [] values"

definition load_tag :: "uci \<Rightarrow> string \<Rightarrow> dhcp_tag_record" where
  "load_tag u name =
     (let values = sort_strings (case uci_get u ''dhcp'' name ''dhcp_option'' of
                                   None \<Rightarrow> [] | Some vs \<Rightarrow> vs) in
      \<lparr>tag_name = name, tag_title = last_or_empty u ''dhcp'' name ''tag_title'',
       tag_auto = (case uci_last u ''dhcp'' name ''AutoCreated'' of
                     None \<Rightarrow> False | Some v \<Rightarrow> fst (parse_bool v)),
       tag_gateway = stored_tag_gateway values, tag_option = values\<rparr>)"

definition load_float :: "uci \<Rightarrow> float_ip_snapshot option" where
  "load_float u =
     (if uci_last u ''floatip'' ''main'' ''enabled'' = Some ''1'' then
        Some \<lparr>fi_enabled = True,
              fi_set_ip = (case uci_last u ''floatip'' ''main'' ''set_ip'' of
                             None \<Rightarrow> [] | Some v \<Rightarrow> hd (split_on CHR ''/'' v)),
              fi_check_ip = last_or_empty u ''floatip'' ''main'' ''check_ip''\<rparr>
      else None)"

definition load_lan_state :: "uci \<Rightarrow> lan_dhcp_state" where
  "load_lan_state u =
     \<lparr>ds_options = (case uci_get u ''dhcp'' ''lan'' ''dhcp_option'' of None \<Rightarrow> [] | Some vs \<Rightarrow> vs),
      ds_ignore = (uci_last u ''dhcp'' ''lan'' ''ignore'' = Some ''1''),
      ds_tags = map (load_tag u) (sections_or_empty u ''dhcp'' ''tag''),
      ds_float = load_float u\<rparr>"

definition err_gateway :: goerr where
  "err_gateway = ''dhcp gateway is not a valid IP address''"

text \<open>The common first lines of the store and of the use case: an empty gateway is the LAN address.\<close>

definition default_gateway_input :: "dhcp_gateway_input \<Rightarrow> lan_status \<Rightarrow> dhcp_gateway_input" where
  "default_gateway_input input ls =
     (if gi_gateway input = [] then input\<lparr>gi_gateway := ls_addr ls\<rparr> else input)"

definition gateway_rejected :: "dhcp_gateway_input \<Rightarrow> bool" where
  "gateway_rejected input \<longleftrightarrow> gi_gateway input \<noteq> [] \<and> parse_ip (gi_gateway input) = []"

definition build_dhcp_gateway_commands ::
    "dhcp_gateway_input \<Rightarrow> lan_status \<Rightarrow> string list result" where
  "build_dhcp_gateway_commands input0 ls =
     (let input = default_gateway_input input0 ls in
      if gateway_rejected input then Inl err_gateway
      else Inr
        (if gi_enabled input then
           [''uci del dhcp.lan.ignore'', ''uci del dhcp.lan.dhcp_option'', ''uci commit dhcp''] @
           (if gi_gateway input \<noteq> [] \<and> gi_gateway input \<noteq> ls_addr ls then
              [''uci add_list dhcp.lan.dhcp_option='' @ sq (''3,'' @ gi_gateway input),
               ''uci add_list dhcp.lan.dhcp_option='' @ sq (''6,'' @ gi_gateway input)]
            else [])
         else [''uci del dhcp.lan.dhcp_option'', ''uci set dhcp.lan.ignore=1'']))"

definition build_dhcp_tag_commands ::
    "dhcp_tag_config_input \<Rightarrow> host_binding list \<Rightarrow> string list" where
  "build_dhcp_tag_commands input bindings =
     (if ti_action input \<in> {''modify'', ''delete''} then [''del dhcp.'' @ ti_name input] else []) @
     (if ti_action input \<in> {''add'', ''modify''} then
        [''set dhcp.'' @ ti_name input @ ''=tag'',
         ''set dhcp.'' @ ti_name input @ ''.tag_title='' @ sq (ti_title input)] @
        map (\<lambda>opt. ''add_list dhcp.'' @ ti_name input @ ''.dhcp_option='' @ sq opt) (ti_option input)
      else []) @
     (if ti_action input \<in> {''modify'', ''delete''} then
        map (\<lambda>b. ''uci del dhcp.'' @ hb_section b)
          (filter (\<lambda>b. hb_tag b = ti_name input) bindings)
      else [])"

definition load_host_bindings :: "uci \<Rightarrow> host_binding list" where
  "load_host_bindings u =
     map (\<lambda>sec. \<lparr>hb_section = sec, hb_tag = last_or_empty u ''dhcp'' sec ''tag''\<rparr>)
       (sections_or_empty u ''dhcp'' ''host'')"

definition apply_tag_config :: "'w exec \<Rightarrow> uci \<Rightarrow> dhcp_tag_config_input \<Rightarrow> 'w eff" where
  "apply_tag_config exec u input w =
     (case uci_batch_run exec (build_dhcp_tag_commands input (load_host_bindings u)) [] 0 w of
        (Some e, w1) \<Rightarrow> (Some e, w1)
      | (None, w1) \<Rightarrow> uci_commit_and_apply exec [''dhcp'', ''dnsmasq''] w1)"

definition apply_gateway_config ::
    "'w exec \<Rightarrow> dhcp_gateway_input \<Rightarrow> lan_status \<Rightarrow> 'w eff" where
  "apply_gateway_config exec input ls w =
     (case build_dhcp_gateway_commands input ls of
        Inl e \<Rightarrow> (Some e, w)
      | Inr cmds \<Rightarrow>
          (case batch_run exec cmds 0 w of
             (Some e, w1) \<Rightarrow> (Some e, w1)
           | (None, w1) \<Rightarrow> uci_commit_and_apply exec [''dhcp''] w1))"

section \<open>The use case\<close>

definition set_dhcp_gateway ::
    "('w, lan_status) io \<Rightarrow> (dhcp_gateway_input \<Rightarrow> lan_status \<Rightarrow> 'w eff)
     \<Rightarrow> dhcp_gateway_input \<Rightarrow> 'w eff" where
  "set_dhcp_gateway read_status apply_gateway input0 w =
     (case read_status w of
        (Inl e, w1) \<Rightarrow> (Some e, w1)
      | (Inr ls, w1) \<Rightarrow>
          (let input = default_gateway_input input0 ls in
           if gateway_rejected input then (Some err_gateway, w1)
           else apply_gateway input ls w1))"

definition set_dhcp_tags ::
    "(dhcp_tag_config_input \<Rightarrow> 'w eff) \<Rightarrow> dhcp_tag_config_input \<Rightarrow> 'w eff" where
  "set_dhcp_tags apply_tag input w =
     (if ti_action input = [] \<or> ti_name input = [] \<or> ti_title input = [] \<or> ti_option input = []
      then (Some ''invalid params'', w)
      else if has_prefix (ti_name input) ''t_auto_''
      then (Some ''tag name error using t_auto_'', w)
      else apply_tag input w)"

section \<open>The store as the use case sees it\<close>

text \<open>
  \<open>DhcpConfigStore.ApplyGatewayConfig\<close> promises to treat an empty gateway as the LAN
  address and to refuse a text that is no address without touching the system. Under this
  contract the checks of the use case add nothing.
\<close>

locale dhcp_gateway_store =
  fixes apply_gateway :: "dhcp_gateway_input \<Rightarrow> lan_status \<Rightarrow> 'w eff"
  assumes apply_default: "apply_gateway (default_gateway_input input ls) ls = apply_gateway input ls"
    and apply_rejected:
      "gateway_rejected (default_gateway_input input ls) \<Longrightarrow>
         apply_gateway input ls w = (Some err_gateway, w)"
begin

lemma set_gateway_is_apply:
  "set_dhcp_gateway read_status apply_gateway input w =
     (case read_status w of
        (Inl e, w1) \<Rightarrow> (Some e, w1)
      | (Inr ls, w1) \<Rightarrow> apply_gateway input ls w1)"
  by (simp add: set_dhcp_gateway_def Let_def apply_default apply_rejected
      split: prod.splits sum.splits)

end

lemma default_gateway_input_idem [simp]:
  "default_gateway_input (default_gateway_input input ls) ls = default_gateway_input input ls"
  by (simp add: default_gateway_input_def)

lemma build_gateway_default:
  "build_dhcp_gateway_commands (default_gateway_input input ls) ls = build_dhcp_gateway_commands input ls"
  by (simp add: build_dhcp_gateway_commands_def)

interpretation gateway_store: dhcp_gateway_store "apply_gateway_config exec"
proof
  show "apply_gateway_config exec (default_gateway_input input ls) ls = apply_gateway_config exec input ls"
    for input ls
    by (rule ext) (simp add: apply_gateway_config_def build_gateway_default)
  show "apply_gateway_config exec input ls w = (Some err_gateway, w)"
    if "gateway_rejected (default_gateway_input input ls)" for input ls w
    using that by (simp add: apply_gateway_config_def build_dhcp_gateway_commands_def)
qed

section \<open>Lemmas: tag names\<close>

lemma ip_to_dhcp_tag_dotted:
  "ip_to_dhcp_tag (dotted a b c d) = Some (''t_auto_'' @ fmt_hex (quad a b c d))"
proof -
  have "dotted a b c d \<noteq> []" by (simp add: dotted_def)
  then show ?thesis by (simp add: ip_to_dhcp_tag_def Let_def ipv4_to_long_ipv4 unat_quad)
qed

lemma ip_to_dhcp_tag_v4:
  assumes "to4 (parse_ip g) \<noteq> []"
  shows "\<exists>a b c d. parse_ip g = ipv4 a b c d \<and>
    ip_to_dhcp_tag g = Some (''t_auto_'' @ fmt_hex (quad a b c d))"
proof -
  from to4_parse_ip [OF assms] obtain a b c d where p: "parse_ip g = ipv4 a b c d" by blast
  moreover from p have "g \<noteq> []" by auto
  ultimately show ?thesis
    by (auto simp: ip_to_dhcp_tag_def Let_def ipv4_to_long_ipv4 unat_quad)
qed

lemma ipv4_to_long_None: "to4 x = [] \<Longrightarrow> ipv4_to_long x = None"
  by (simp add: ipv4_to_long_def)

lemma ip_to_dhcp_tag_None: "ip_to_dhcp_tag g = None \<longleftrightarrow> parse_ip g \<noteq> [] \<and> to4 (parse_ip g) = []"
proof (cases "to4 (parse_ip g) = []")
  case True
  then show ?thesis by (auto simp: ip_to_dhcp_tag_def Let_def ipv4_to_long_None)
next
  case False
  with ip_to_dhcp_tag_v4 [OF False] show ?thesis by auto
qed

lemma ip_to_dhcp_tag_prefix:
  "ip_to_dhcp_tag g = Some name \<Longrightarrow> name = [] \<or> has_prefix name ''t_auto_''"
  by (auto simp: ip_to_dhcp_tag_def Let_def has_prefix_def split: if_splits)

lemma append_dhcp_tag_new:
  assumes "append_dhcp_tag tags title g = Some tags'"
  shows "tags' = tags \<or>
    (\<exists>name. ip_to_dhcp_tag g = Some name \<and> name \<noteq> [] \<and>
       tags' = tags @ [\<lparr>tag_name = name, tag_title = title, tag_auto = True, tag_gateway = g,
                        tag_option = [''3,'' @ g, ''6,'' @ g]\<rparr>])"
  using assms by (auto simp: append_dhcp_tag_def split: if_splits)

section \<open>Lemmas: order of the automatic tags\<close>

type_synonym tag_key = "nat \<times> string \<times> string \<times> string"

definition key_less :: "tag_key \<Rightarrow> tag_key \<Rightarrow> bool" where
  "key_less k l =
     (case (k, l) of ((r, n, t, g), (r', n', t', g')) \<Rightarrow>
        r < r' \<or> r = r' \<and> (str_less n n' \<or> n = n' \<and> (str_less t t' \<or> t = t' \<and> str_less g g')))"

definition tag_key :: "dhcp_tag_record \<Rightarrow> tag_key" where
  "tag_key t = (tag_title_rank (tag_title t), tag_name t, tag_title t, tag_gateway t)"

lemma tag_less_key: "tag_less s t \<longleftrightarrow> key_less (tag_key s) (tag_key t)"
  by (auto simp: tag_less_def key_less_def tag_key_def)

lemma key_less_asym: "key_less k l \<Longrightarrow> \<not> key_less l k"
  by (auto simp: key_less_def dest: str_less_asym split: prod.splits)

lemma key_less_trans: "key_less k l \<Longrightarrow> key_less l m \<Longrightarrow> key_less k m"
  by (auto simp: key_less_def intro: str_less_trans split: prod.splits)

lemma key_less_total: "k = l \<or> key_less k l \<or> key_less l k"
proof -
  obtain r n t g r' n' t' g' where "k = (r, n, t, g)" "l = (r', n', t', g')"
    by (metis prod.exhaust)
  with str_less_total [of n n'] str_less_total [of t t'] str_less_total [of g g'] show ?thesis
    by (auto simp: key_less_def)
qed

interpretation tag_order: strict_weak_order tag_less
proof
  show "tag_less x y \<Longrightarrow> \<not> tag_less y x" for x y
    by (simp add: tag_less_key key_less_asym)
  show "\<not> tag_less y x \<Longrightarrow> \<not> tag_less z y \<Longrightarrow> \<not> tag_less z x" for x y z
    unfolding tag_less_key using key_less_total key_less_trans by metis
qed

definition auto_tag_ok :: "dhcp_tag_record \<Rightarrow> bool" where
  "auto_tag_ok t \<longleftrightarrow> tag_auto t \<and> tag_name t \<noteq> [] \<and> ip_to_dhcp_tag (tag_gateway t) = Some (tag_name t) \<and>
     tag_option t = [''3,'' @ tag_gateway t, ''6,'' @ tag_gateway t]"

lemma append_dhcp_tag_ok:
  assumes "append_dhcp_tag tags title g = Some tags'" and "\<forall>t\<in>set tags. auto_tag_ok t"
  shows "(\<forall>t\<in>set tags'. auto_tag_ok t) \<and> length tags' \<le> Suc (length tags)"
  using append_dhcp_tag_new [OF assms(1)] assms(2) by (auto simp: auto_tag_ok_def)

lemma append_two_tags_ok:
  assumes "Option.bind (append_dhcp_tag [] t1 g1) (\<lambda>tags. append_dhcp_tag tags t2 g2) = Some tags"
  shows "(\<forall>t\<in>set tags. auto_tag_ok t) \<and> length tags \<le> 2"
proof -
  from assms obtain tags1 where 1: "append_dhcp_tag [] t1 g1 = Some tags1"
      and 2: "append_dhcp_tag tags1 t2 g2 = Some tags"
    by (auto simp: bind_eq_Some_conv)
  from append_dhcp_tag_ok [OF 1] append_dhcp_tag_ok [OF 2] show ?thesis by auto
qed

lemma build_auto_dhcp_plan_cases:
  assumes "build_auto_dhcp_plan ls st = Some plan"
  obtains tags where "tp_tags plan = sort_dhcp_tag_plan tags"
    and "\<forall>t\<in>set tags. auto_tag_ok t" and "length tags \<le> 2"
proof (cases st)
  case None
  with assms that [of "[]"] show ?thesis by (auto simp: build_auto_dhcp_plan_def)
next
  case (Some s)
  with assms obtain tags where t: "tp_tags plan = sort_dhcp_tag_plan tags"
    and src: "append_dhcp_tag [] ''default'' (ls_addr ls) = Some tags \<or>
      (\<exists>t1 g1 t2 g2. Option.bind (append_dhcp_tag [] t1 g1) (\<lambda>x. append_dhcp_tag x t2 g2) = Some tags)"
    by (fastforce simp: build_auto_dhcp_plan_def Let_def split: if_splits)
  from src have "(\<forall>t\<in>set tags. auto_tag_ok t) \<and> length tags \<le> 2"
    by (auto dest: append_dhcp_tag_ok append_two_tags_ok)
  with t that show ?thesis by blast
qed

section \<open>Lemmas: the list of tags\<close>

lemma has_dhcp_tag_iff: "has_dhcp_tag tags name \<longleftrightarrow> name \<in> inf_name ` set tags"
  by (induction tags) auto

lemma to_model_one:
  "to_model_dhcp_tags [t] = [\<lparr>inf_auto = tag_auto t, inf_option = tag_option t, inf_gateway = tag_gateway t,
     inf_lan_name = [], inf_name = tag_name t, inf_title = tag_title t\<rparr>]"
  by (simp add: to_model_dhcp_tags_def)

lemma add_stored_tags_append:
  "\<exists>rest. add_stored_tags ts tags = tags @ rest \<and> set rest \<subseteq> set (to_model_dhcp_tags ts) \<and>
     distinct (map inf_name rest) \<and> inf_name ` set rest \<inter> inf_name ` set tags = {} \<and>
     tag_name ` set ts \<subseteq> inf_name ` set (tags @ rest)"
proof (induction ts arbitrary: tags)
  case Nil
  then show ?case by simp
next
  case (Cons t ts)
  show ?case
  proof (cases "has_dhcp_tag tags (tag_name t)")
    case True
    obtain rest where r: "add_stored_tags ts tags = tags @ rest"
        "set rest \<subseteq> set (to_model_dhcp_tags ts)" "distinct (map inf_name rest)"
        "inf_name ` set rest \<inter> inf_name ` set tags = {}"
        "tag_name ` set ts \<subseteq> inf_name ` set (tags @ rest)"
      using Cons.IH [of tags] by blast
    from True have "tag_name t \<in> inf_name ` set tags" by (simp add: has_dhcp_tag_iff)
    with True r show ?thesis
      by (intro exI [of _ rest]) (simp add: to_model_dhcp_tags_def image_Un subset_insertI2)
  next
    case False
    obtain rest where r: "add_stored_tags ts (tags @ to_model_dhcp_tags [t]) =
          (tags @ to_model_dhcp_tags [t]) @ rest" "set rest \<subseteq> set (to_model_dhcp_tags ts)"
        "distinct (map inf_name rest)"
        "inf_name ` set rest \<inter> inf_name ` set (tags @ to_model_dhcp_tags [t]) = {}"
        "tag_name ` set ts \<subseteq> inf_name ` set ((tags @ to_model_dhcp_tags [t]) @ rest)"
      using Cons.IH [of "tags @ to_model_dhcp_tags [t]"] by blast
    with False show ?thesis
      by (intro exI [of _ "to_model_dhcp_tags [t] @ rest"])
        (auto simp: has_dhcp_tag_iff to_model_dhcp_tags_def)
  qed
qed

section \<open>Properties\<close>

text \<open>
  Distinct IPv4 gateways get distinct automatic tag names.
\<close>

theorem auto_tag_names_distinct:
  "ip_to_dhcp_tag (dotted a b c d) = ip_to_dhcp_tag (dotted a' b' c' d') \<longleftrightarrow>
     a = a' \<and> b = b' \<and> c = c' \<and> d = d'"
  by (simp add: ip_to_dhcp_tag_dotted fmt_hex_inj quad_inject)

lemma detect_first:
  assumes "CHR '','' \<notin> set g" and "g \<noteq> ls_addr ls"
  shows "detect_dhcp_gateway ls ((''3,'' @ g) # vs) = g"
  using assms split_on_append [of "CHR '',''" "''3''" g]
  by (simp add: split_dhcp_option_def split_on_no_sep)

text \<open>
  An IPv6 gateway passes the check of the use case and of the store and is written to
  the configuration; the next time the tags are built from that configuration, on a router
  whose default route is on the LAN, \<open>ipToDhcpTag\<close> panics.
\<close>

theorem ipv6_gateway_accepted_then_panics:
  assumes "parse_ip g \<noteq> []" and "to4 (parse_ip g) = []"
    and "CHR '','' \<notin> set g" and "g \<noteq> ls_addr ls" and "ls_default_gateway ls"
  shows "(\<exists>cmds. build_dhcp_gateway_commands \<lparr>gi_enabled = True, gi_gateway = g\<rparr> ls = Inr cmds \<and>
            ''uci add_list dhcp.lan.dhcp_option='' @ sq (''3,'' @ g) \<in> set cmds) \<and>
         build_auto_dhcp_plan ls (Some (empty_dhcp_state\<lparr>ds_options := [''3,'' @ g, ''6,'' @ g]\<rparr>)) = None"
proof -
  from assms(1) have ne: "g \<noteq> []" by auto
  have "ip_to_dhcp_tag g = None" using assms(1,2) by (simp add: ip_to_dhcp_tag_None)
  moreover have "detect_dhcp_gateway ls [''3,'' @ g, ''6,'' @ g] = g"
    by (rule detect_first [OF assms(3,4)])
  ultimately show ?thesis using ne assms
    by (simp add: build_dhcp_gateway_commands_def default_gateway_input_def gateway_rejected_def
        build_auto_dhcp_plan_def empty_dhcp_state_def append_dhcp_tag_def Let_def
        del: detect_dhcp_gateway.simps)
qed

definition sample_lan :: lan_status where
  "sample_lan = \<lparr>ls_addr = ''192.168.1.2'', ls_nexthop = ''192.168.1.1'', ls_default_gateway = True\<rparr>"

theorem ipv6_gateway_accepted_then_panics_witness:
  "build_auto_dhcp_plan sample_lan
     (Some (empty_dhcp_state\<lparr>ds_options := [''3,fd00::1'', ''6,fd00::1'']\<rparr>)) = None"
proof -
  have 1: "parse_ip ''fd00::1'' \<noteq> []" and 2: "to4 (parse_ip ''fd00::1'') = []"
    by (simp_all add: parse_eval to4_def v4_prefix_def)
  have 3: "CHR '','' \<notin> set ''fd00::1''" "''fd00::1'' \<noteq> ls_addr sample_lan" "ls_default_gateway sample_lan"
    by (simp_all add: sample_lan_def)
  show ?thesis using ipv6_gateway_accepted_then_panics [OF 1 2 3] by simp
qed

text \<open>
  The automatic plan has at most two tags, in the order of the comparison function,
  each of them automatic, named after its gateway and carrying options 3 and 6 for it; an
  ignored DHCP server has no gateway and only the tag of the LAN address.
\<close>

theorem auto_plan_tags:
  assumes "build_auto_dhcp_plan ls (Some s) = Some plan"
  shows "sorted_wrt (\<lambda>a b. \<not> tag_less b a) (tp_tags plan) \<and> length (tp_tags plan) \<le> 2 \<and>
    (\<forall>t\<in>set (tp_tags plan). auto_tag_ok t) \<and> tp_enabled plan = (\<not> ds_ignore s) \<and>
    (ds_ignore s \<longrightarrow> tp_gateway plan = [] \<and> (\<forall>t\<in>set (tp_tags plan). tag_gateway t = ls_addr ls))"
proof -
  from build_auto_dhcp_plan_cases [OF assms] obtain tags where
    t: "tp_tags plan = sort_dhcp_tag_plan tags" "\<forall>t\<in>set tags. auto_tag_ok t" "length tags \<le> 2" .
  have ign: "ds_ignore s \<longrightarrow> tp_gateway plan = [] \<and> (\<forall>t\<in>set (tp_tags plan). tag_gateway t = ls_addr ls)"
    using assms
    by (auto simp: build_auto_dhcp_plan_def append_dhcp_tag_def sort_dhcp_tag_plan_def split: if_splits)
  have "tp_enabled plan = (\<not> ds_ignore s)"
    using assms by (auto simp: build_auto_dhcp_plan_def Let_def)
  with t ign show ?thesis
    by (simp add: sort_dhcp_tag_plan_def tag_order.insertion_sort_sorted)
qed

theorem auto_plan_tags_witness:
  "\<exists>plan. build_auto_dhcp_plan sample_lan (Some empty_dhcp_state) = Some plan \<and>
     length (tp_tags plan) \<le> 2 \<and> tp_enabled plan"
proof -
  have "ip_to_dhcp_tag ''192.168.1.2'' = ip_to_dhcp_tag (dotted 192 168 1 2)"
    and "ip_to_dhcp_tag ''192.168.1.1'' = ip_to_dhcp_tag (dotted 192 168 1 1)"
    by (simp_all add: dotted_def number_eval)
  then have "build_auto_dhcp_plan sample_lan (Some empty_dhcp_state) \<noteq> None"
    by (simp add: build_auto_dhcp_plan_def sample_lan_def empty_dhcp_state_def append_dhcp_tag_def
        ip_to_dhcp_tag_dotted)
  then obtain plan where p: "build_auto_dhcp_plan sample_lan (Some empty_dhcp_state) = Some plan"
    by blast
  from auto_plan_tags [OF p] p show ?thesis by (simp add: empty_dhcp_state_def)
qed

text \<open>
  In the list of tags shown to the user every stored tag is present under its name; the
  stored tags come after the automatic ones, none of them twice and none under a name that
  an automatic tag has.
\<close>

theorem global_tags_keep_stored:
  assumes "build_global_dhcp_tags ls (Some s) = Some tags"
  shows "\<exists>auto rest. tags = auto @ rest \<and> (\<forall>i\<in>set auto. inf_auto i) \<and>
    set rest \<subseteq> set (to_model_dhcp_tags (ds_tags s)) \<and> distinct (map inf_name rest) \<and>
    inf_name ` set rest \<inter> inf_name ` set auto = {} \<and> tag_name ` set (ds_tags s) \<subseteq> inf_name ` set tags"
proof -
  from assms obtain plan auto where
    plan: "build_auto_dhcp_plan ls (Some s) = Some plan" and
    auto: "add_float_tags (ds_float s) (to_model_dhcp_tags (tp_tags plan)) = Some auto" and
    tags: "tags = add_stored_tags (ds_tags s) auto"
    by (auto simp: build_global_dhcp_tags_def Let_def split: option.splits)
  from build_auto_dhcp_plan_cases [OF plan] have "\<forall>t\<in>set (tp_tags plan). auto_tag_ok t"
    by (metis set_insertion_sort sort_dhcp_tag_plan_def)
  then have "\<forall>i\<in>set (to_model_dhcp_tags (tp_tags plan)). inf_auto i"
    by (auto simp: to_model_dhcp_tags_def auto_tag_ok_def)
  with auto have "\<forall>i\<in>set auto. inf_auto i"
    by (auto simp: add_float_tags_def auto_tag_info_def Let_def split: option.splits if_splits)
  with tags add_stored_tags_append [of "ds_tags s" auto] show ?thesis by metis
qed

theorem global_tags_keep_stored_witness:
  "\<exists>tags. build_global_dhcp_tags (sample_lan\<lparr>ls_addr := []\<rparr>)
       (Some (empty_dhcp_state\<lparr>ds_ignore := True, ds_tags := [\<lparr>tag_name = ''guest'', tag_title = ''Guest'',
          tag_auto = False, tag_gateway = [], tag_option = []\<rparr>]\<rparr>)) = Some tags \<and>
     ''guest'' \<in> inf_name ` set tags"
proof -
  let ?s = "empty_dhcp_state\<lparr>ds_ignore := True, ds_tags := [\<lparr>tag_name = ''guest'', tag_title = ''Guest'',
      tag_auto = False, tag_gateway = [], tag_option = []\<rparr>]\<rparr>"
  have "build_global_dhcp_tags (sample_lan\<lparr>ls_addr := []\<rparr>) (Some ?s) \<noteq> None"
    by (simp add: build_global_dhcp_tags_def build_auto_dhcp_plan_def append_dhcp_tag_def
        ip_to_dhcp_tag_def add_float_tags_def empty_dhcp_state_def Let_def)
  then obtain tags where t: "build_global_dhcp_tags (sample_lan\<lparr>ls_addr := []\<rparr>) (Some ?s) = Some tags"
    by blast
  from global_tags_keep_stored [OF t] t show ?thesis by (auto simp: empty_dhcp_state_def)
qed

text \<open>
  The two readers of the DHCP tags agree: \<open>getDhcpOfLAN\<close> returns the list of
  \<open>buildGlobalDhcpTags\<close> on the loaded state, the gateway of the automatic plan and the
  ignore flag, and a state that cannot be loaded counts as the empty state.
\<close>

theorem dhcp_tag_readers_agree:
  "get_dhcp_of_lan ls loaded =
     (let s = (case loaded of Inl _ \<Rightarrow> empty_dhcp_state | Inr s \<Rightarrow> s) in
      Option.bind (build_global_dhcp_tags ls (Some s)) (\<lambda>tags.
        map_option (\<lambda>plan. (tags, tp_gateway plan, ds_ignore s)) (build_auto_dhcp_plan ls (Some s))))"
  by (auto simp: get_dhcp_of_lan_def build_global_dhcp_tags_def Let_def map_conv_bind_option comp_def
      split: option.splits sum.splits)

text \<open>
  The options written for a gateway other than the LAN address are read back as that
  gateway, and setting the LAN address (or nothing) as gateway writes no option.
\<close>

theorem gateway_commands_roundtrip:
  assumes "build_dhcp_gateway_commands \<lparr>gi_enabled = True, gi_gateway = g\<rparr> ls = Inr cmds"
    and "CHR '','' \<notin> set g"
  shows "\<exists>opts. cmds = [''uci del dhcp.lan.ignore'', ''uci del dhcp.lan.dhcp_option'', ''uci commit dhcp''] @
      map (\<lambda>v. ''uci add_list dhcp.lan.dhcp_option='' @ sq v) opts \<and>
      detect_dhcp_gateway ls opts = (if g = ls_addr ls then [] else g)"
proof (cases "g = [] \<or> g = ls_addr ls")
  case True
  with assms(1) have "cmds = [''uci del dhcp.lan.ignore'', ''uci del dhcp.lan.dhcp_option'', ''uci commit dhcp'']"
    by (auto simp: build_dhcp_gateway_commands_def default_gateway_input_def Let_def split: if_splits)
  with True show ?thesis by (intro exI [of _ "[]"]) auto
next
  case False
  with assms(1) have "cmds = [''uci del dhcp.lan.ignore'', ''uci del dhcp.lan.dhcp_option'', ''uci commit dhcp''] @
      map (\<lambda>v. ''uci add_list dhcp.lan.dhcp_option='' @ sq v) [''3,'' @ g, ''6,'' @ g]"
    by (auto simp: build_dhcp_gateway_commands_def default_gateway_input_def Let_def split: if_splits)
  moreover have "detect_dhcp_gateway ls [''3,'' @ g, ''6,'' @ g] = g"
    by (rule detect_first) (use False assms(2) in auto)
  ultimately show ?thesis using False by (intro exI [of _ "[''3,'' @ g, ''6,'' @ g]"]) simp
qed

theorem gateway_commands_roundtrip_witness:
  "\<exists>cmds opts. build_dhcp_gateway_commands \<lparr>gi_enabled = True, gi_gateway = ''192.168.1.9''\<rparr> sample_lan = Inr cmds \<and>
     detect_dhcp_gateway sample_lan opts = ''192.168.1.9''"
proof -
  have "\<exists>cmds. build_dhcp_gateway_commands \<lparr>gi_enabled = True, gi_gateway = ''192.168.1.9''\<rparr> sample_lan = Inr cmds"
    by (simp add: build_dhcp_gateway_commands_def default_gateway_input_def gateway_rejected_def
        parse_eval v4_prefix_def Let_def)
  then obtain cmds where c:
    "build_dhcp_gateway_commands \<lparr>gi_enabled = True, gi_gateway = ''192.168.1.9''\<rparr> sample_lan = Inr cmds"
    by blast
  have n: "CHR '','' \<notin> set ''192.168.1.9''" by simp
  from gateway_commands_roundtrip [OF c n] c show ?thesis by (auto simp: sample_lan_def)
qed

text \<open>
  Setting the DHCP gateway, over the store the program uses: a text that is no address
  is refused with the outside world unchanged, otherwise the commands of the store run and
  the \<open>dhcp\<close> configuration is committed after they succeed.
\<close>

theorem set_dhcp_gateway_effect:
  "set_dhcp_gateway read_status (apply_gateway_config exec) input w =
     (case read_status w of
        (Inl e, w1) \<Rightarrow> (Some e, w1)
      | (Inr ls, w1) \<Rightarrow>
          (case build_dhcp_gateway_commands input ls of
             Inl e \<Rightarrow> (Some err_gateway, w1)
           | Inr cmds \<Rightarrow>
               (case batch_run exec cmds 0 w1 of
                  (Some e, w2) \<Rightarrow> (Some e, w2)
                | (None, w2) \<Rightarrow> uci_commit_and_apply exec [''dhcp''] w2)))"
proof -
  have err: "build_dhcp_gateway_commands input ls = Inl e \<Longrightarrow> e = err_gateway" for ls e
    by (auto simp: build_dhcp_gateway_commands_def Let_def split: if_splits)
  show ?thesis
    unfolding gateway_store.set_gateway_is_apply
    by (auto simp: apply_gateway_config_def split: prod.splits sum.splits dest: err)
qed

text \<open>
  The name of an automatic tag can never be written by the tag operation: whatever the
  store does, a request for it returns an error and leaves the outside world unchanged.
\<close>

theorem auto_tag_names_reserved:
  assumes "ip_to_dhcp_tag g = Some (ti_name input)"
  shows "\<exists>e. set_dhcp_tags apply_tag input w = (Some e, w)"
  using ip_to_dhcp_tag_prefix [OF assms] by (auto simp: set_dhcp_tags_def)

theorem auto_tag_names_reserved_witness:
  "\<exists>e. set_dhcp_tags (\<lambda>i w. (None, w @ [''written'']))
     \<lparr>ti_action = ''delete'', ti_name = ''t_auto_c0a80101'', ti_title = ''x'', ti_option = [''3,1'']\<rparr> [] = (Some e, [])"
proof -
  have "ip_to_dhcp_tag (dotted 192 168 1 1) = Some ''t_auto_c0a80101''"
    by (simp add: ip_to_dhcp_tag_dotted quad_def number_eval)
  then show ?thesis by (intro auto_tag_names_reserved) simp
qed

text \<open>
  Every line of the UCI batch of a tag operation is a batch command, except that the
  deletion of the host sections bound to a modified or deleted tag is written as a shell
  command \<open>uci del\<close>; this happens exactly when there is such a section.
\<close>

theorem tag_batch_shell_lines:
  "(\<exists>c\<in>set (build_dhcp_tag_commands input bindings). has_prefix c ''uci '') \<longleftrightarrow>
     ti_action input \<in> {''modify'', ''delete''} \<and> (\<exists>b\<in>set bindings. hb_tag b = ti_name input)"
proof -
  have pre: "has_prefix (''uci del dhcp.'' @ s) ''uci ''" "\<not> has_prefix (''del dhcp.'' @ s) ''uci ''"
      "\<not> has_prefix (''set dhcp.'' @ s) ''uci ''" "\<not> has_prefix (''add_list dhcp.'' @ s) ''uci ''" for s
    by (simp_all add: has_prefix_def)
  show ?thesis
    unfolding build_dhcp_tag_commands_def set_append bex_Un
    by (cases "ti_action input = ''modify''"; cases "ti_action input = ''delete''";
        cases "ti_action input = ''add''")
      (simp_all add: pre del: append.simps append_Cons, blast+)
qed

end
