(* ===== verification/NetworkBasics.thy ===== *)
theory NetworkBasics
  imports IpUtil Shell
begin

text \<open>
  The network part of the guide: \<open>backend/modules/guidecore/networkbasics\<close> (command lists
  and the DHCP range shown to the user), \<open>backend/service/guide_network_basics_*.go\<close> (the
  readers, the writers and the four use cases), the helpers of \<open>backend/service/guide.go\<close>
  they run and the two netmask conversions of \<open>backend/service/network.go\<close>. \<open>bash\<close> is the
  parameter \<open>exec\<close>; \<open>cfg\<close> gives the UCI snapshot that \<open>uci.LoadConfig\<close> reads from the
  outside world at that moment.
\<close>

section \<open>Netmasks and prefix lengths\<close>

definition err_atoi :: "string \<Rightarrow> num_error \<Rightarrow> goerr" where
  "err_atoi value e =
     ''ipMaskToInt call strconv.Atoi error:['' @ num_error_text ''Atoi'' value e @
     ''] string value is: ['' @ value @ '']''"

fun mask_octets :: "string list \<Rightarrow> ip result" where
  "mask_octets [] = Inr []"
| "mask_octets (v # vs) =
     (case atoi v of
        (_, Some e) \<Rightarrow> Inl (err_atoi v e)
      | (n, None) \<Rightarrow>
          if n > 255
          then Inl (''netmask cannot greater than 255, current value is: ['' @ v @ '']'')
          else (case mask_octets vs of Inl e \<Rightarrow> Inl e | Inr bs \<Rightarrow> Inr (word_of_int n # bs)))"

definition subnet_mask_to_len :: "string \<Rightarrow> nat result" where
  "subnet_mask_to_len netmask =
     (let segs = split_on CHR ''.'' netmask in
      if length segs \<noteq> 4
      then Inl (''netmask:'' @ netmask @ '' is not valid, pattern should like: 255.255.255.0'')
      else (case mask_octets segs of
              Inl e \<Rightarrow> Inl e
            | Inr bs \<Rightarrow> Inr (fst (mask_size bs))))"

text \<open>The text of a prefix length; the bits are written as characters and parsed again.\<close>

definition bin_val :: "string \<Rightarrow> nat" where
  "bin_val s = foldl (\<lambda>n c. 2 * n + (if c = CHR ''1'' then 1 else 0)) 0 s"

definition len_to_subnet_mask :: "int \<Rightarrow> string" where
  "len_to_subnet_mask subnet =
     (let masker = replicate (nat subnet) CHR ''1'' @ replicate (nat (32 - subnet)) CHR ''0'';
          a = bin_val (take 8 masker); b = bin_val (take 8 (drop 8 masker));
          c = bin_val (take 8 (drop 16 masker)); d = bin_val (take 8 (drop 24 masker))
      in fmt_nat a @ ''.'' @ fmt_nat b @ ''.'' @ fmt_nat c @ ''.'' @ fmt_nat d)"

section \<open>Command lists\<close>

record interface_input =
  ii_name :: string
  ii_proto :: string
  ii_netmask :: string
  ii_ip :: string
  ii_gateway :: string

definition build_pppoe_commands :: "string \<Rightarrow> string \<Rightarrow> string list" where
  "build_pppoe_commands account password =
     [''uci set network.wan.proto='' @ sq ''pppoe'',
      ''uci set network.wan.username='' @ sq account,
      ''uci set network.wan.password='' @ sq password,
      ''uci del network.wan.dns'',
      ''uci del network.wan.peerdns'',
      ''uci del network.wan.defaultroute'',
      ''uci set network.lan.defaultroute=0'']"

text \<open>The batches, and the error that is returned beside them.\<close>

definition build_interface_command_batches ::
    "interface_input \<Rightarrow> string list list \<times> goerr option" where
  "build_interface_command_batches input =
     (let net = ''network.'' @ ii_name input;
          first = [''uci set network.wan.defaultroute=0'',
                   ''uci set network.lan.defaultroute=0'',
                   ''uci del '' @ net @ ''.defaultroute'',
                   ''uci set '' @ net @ ''.proto='' @ ii_proto input];
          clear = [''uci del '' @ net @ ''.ipaddr'', ''uci del '' @ net @ ''.netmask'']
      in if ii_proto input = ''dhcp'' then ([first, clear], None)
         else if parse_ip (ii_ip input) = [] then ([first], Some ''not a valid IP'')
         else
           (case subnet_mask_to_len (ii_netmask input) of
              Inl e \<Rightarrow> ([first], Some e)
            | Inr ones \<Rightarrow>
                if ones = 0 then ([first], Some ''not a valid NetMask'')
                else
                  ([first,
                    clear @
                    [''uci set '' @ net @ ''.ipaddr='' @ sq (ii_ip input),
                     ''uci set '' @ net @ ''.netmask='' @ sq (ii_netmask input)]] @
                   (if ii_gateway input \<noteq> []
                    then [[''uci set '' @ net @ ''.gateway='' @ ii_gateway input]] else []),
                   None)))"

definition build_dns_command_batches :: "string \<Rightarrow> string \<Rightarrow> string list \<Rightarrow> string list list" where
  "build_dns_command_batches name proto ips =
     (let first = [''uci del network.wan.dns'', ''uci del network.wan.peerdns'',
                   ''uci del network.lan.dns'', ''uci del network.lan.peerdns'']
      in if proto \<noteq> ''manual'' \<or> ips = [] then [first]
         else
           [first,
            [''uci del network.'' @ name @ ''.dns'', ''uci set network.'' @ name @ ''.peerdns=0''] @
            map (\<lambda>d. ''uci add_list network.'' @ name @ ''.dns='' @ sq d) (filter (\<lambda>d. d \<noteq> []) ips)])"

definition build_lan_dhcp_range_commands :: "int \<Rightarrow> int \<Rightarrow> string list" where
  "build_lan_dhcp_range_commands start limit =
     [''uci set dhcp.lan.start='' @ fmt_int start,
      ''uci set dhcp.lan.limit='' @ fmt_int limit,
      ''uci set dhcp.lan.leasetime=12h'']"

definition build_wan_mode_pending_configs :: "bool \<Rightarrow> bool \<Rightarrow> string list" where
  "build_wan_mode_pending_configs include_masq enable_lan_dhcp =
     (if include_masq then [''firewall''] else []) @
     (if enable_lan_dhcp then [''dhcp''] else []) @ [''network'']"

text \<open>
  \<open>BuildLANRange\<close>: the first and the last address of the pool, from the stored \<open>start\<close> and
  \<open>limit\<close>. \<open>startInt+limitInt-1\<close> is computed on 64-bit unsigned integers.
\<close>

definition range_end :: "string \<Rightarrow> string \<Rightarrow> 64 word" where
  "range_end start_str limit_str =
     word_of_nat (fst (parse_uint (2 ^ 16 - 1) start_str)) +
     word_of_nat (fst (parse_uint (2 ^ 16 - 1) limit_str)) - 1"

definition build_lan_range :: "string \<Rightarrow> string \<Rightarrow> string \<Rightarrow> string \<times> string" where
  "build_lan_range lan_ip start_str limit_str =
     (let segs = split_on CHR ''.'' lan_ip in
      if length segs \<noteq> 4 then ([], [])
      else (join_on ''.'' (segs[3 := start_str]),
            join_on ''.'' (segs[3 := fmt_nat (unat (range_end start_str limit_str))])))"

section \<open>Reading the configuration\<close>

definition is_lan_dhcp_server_enabled :: "uci \<Rightarrow> bool" where
  "is_lan_dhcp_server_enabled u \<longleftrightarrow> uci_last u ''dhcp'' ''lan'' ''ignore'' \<noteq> Some ''1''"

definition uci_get_net_dns_client :: "uci \<Rightarrow> string \<Rightarrow> string \<times> string list" where
  "uci_get_net_dns_client u net =
     (if uci_last u ''network'' net ''peerdns'' = Some ''0''
      then (''manual'', case uci_get u ''network'' net ''dns'' of None \<Rightarrow> [] | Some vs \<Rightarrow> vs)
      else (''auto'', []))"

fun find_zone :: "uci \<Rightarrow> string \<Rightarrow> string list \<Rightarrow> string" where
  "find_zone u name [] = []"
| "find_zone u name (v # vs) =
     (if name = last_or_empty u ''firewall'' v ''name'' then v else find_zone u name vs)"

definition uci_get_firewall_zone_by_name :: "uci \<Rightarrow> string \<Rightarrow> string" where
  "uci_get_firewall_zone_by_name u name = find_zone u name (sections_or_empty u ''firewall'' ''zone'')"

text \<open>
  \<open>None\<close> is the panic of \<open>mask[0]\<close> when the address has no prefix length and the section has
  no \<open>netmask\<close>.
\<close>

definition uci_get_ip_and_mask :: "uci \<Rightarrow> string \<Rightarrow> (string \<times> string) option" where
  "uci_get_ip_and_mask u net =
     (case uci_get u ''network'' net ''ipaddr'' of
        Some (v # vs) \<Rightarrow>
          (case split_on CHR ''/'' v of
             [a, b] \<Rightarrow> Some (a, len_to_subnet_mask (fst (parse_int 8 b)))
           | _ \<Rightarrow>
               (case uci_get u ''network'' net ''netmask'' of
                  Some (m # ms) \<Rightarrow> Some (v, m)
                | _ \<Rightarrow> None))
      | _ \<Rightarrow> Some ([], []))"

record wan_config =
  wc_exists :: bool
  wc_proto :: string
  wc_ip :: string
  wc_netmask :: string
  wc_gateway :: string
  wc_dns_proto :: string
  wc_dns :: "string list"
  wc_account :: string
  wc_password :: string

definition read_wan_config :: "uci \<Rightarrow> wan_config option" where
  "read_wan_config u =
     map_option
       (\<lambda>(addr, netmask).
          \<lparr>wc_exists = (last_or_empty u ''network'' ''wan'' ''proto'' \<noteq> []),
           wc_proto = last_or_empty u ''network'' ''wan'' ''proto'',
           wc_ip = addr, wc_netmask = netmask,
           wc_gateway = last_or_empty u ''network'' ''wan'' ''gateway'',
           wc_dns_proto = fst (uci_get_net_dns_client u ''wan''),
           wc_dns = snd (uci_get_net_dns_client u ''wan''),
           wc_account = last_or_empty u ''network'' ''wan'' ''username'',
           wc_password = last_or_empty u ''network'' ''wan'' ''password''\<rparr>)
       (uci_get_ip_and_mask u ''wan'')"

record lan_config =
  lc_ip :: string
  lc_netmask :: string
  lc_enable_dhcp :: bool
  lc_dhcp_start :: string
  lc_dhcp_end :: string

definition read_lan_config :: "uci \<Rightarrow> lan_config option" where
  "read_lan_config u =
     map_option
       (\<lambda>(addr, netmask).
          (let enabled = is_lan_dhcp_server_enabled u;
               (s, e) = (if enabled
                         then build_lan_range addr (last_or_empty u ''dhcp'' ''lan'' ''start'')
                                (last_or_empty u ''dhcp'' ''lan'' ''limit'')
                         else ([], []))
           in \<lparr>lc_ip = addr, lc_netmask = netmask, lc_enable_dhcp = enabled,
               lc_dhcp_start = s, lc_dhcp_end = e\<rparr>))
       (uci_get_ip_and_mask u ''lan'')"

text \<open>
  \<open>ReadWANRuntime\<close>: the first address and the nexthop of the first default route of the
  status that ubus returns. Prefix lengths are Go \<open>int\<close>s.
\<close>

record wan_route =
  wr_target :: string
  wr_mask :: int
  wr_nexthop :: string

record wan_runtime =
  wt_ip :: string
  wt_netmask :: string
  wt_gateway :: string

definition read_wan_runtime :: "((string \<times> int) list \<times> wan_route list) result \<Rightarrow> wan_runtime result" where
  "read_wan_runtime status =
     (case status of
        Inl e \<Rightarrow> Inl e
      | Inr (addrs, routes) \<Rightarrow>
          Inr \<lparr>wt_ip = (case addrs of [] \<Rightarrow> [] | (a, _) # _ \<Rightarrow> a),
               wt_netmask = (case addrs of [] \<Rightarrow> [] | (_, m) # _ \<Rightarrow> len_to_subnet_mask m),
               wt_gateway = (case find (\<lambda>r. wr_target r = ''0.0.0.0'' \<and> wr_mask r = 0) routes of
                               None \<Rightarrow> [] | Some r \<Rightarrow> wr_nexthop r)\<rparr>)"

section \<open>Writing the configuration\<close>

definition uci_set_pppoe_without_commit :: "'w exec \<Rightarrow> string \<Rightarrow> string \<Rightarrow> 'w eff" where
  "uci_set_pppoe_without_commit exec account password w =
     batch_run exec (build_pppoe_commands account password) 0 w"

text \<open>Errors of the batches are logged only; the error of the builder is returned after they ran.\<close>

fun run_logged :: "'w exec \<Rightarrow> string list list \<Rightarrow> 'w \<Rightarrow> 'w" where
  "run_logged exec [] w = w"
| "run_logged exec (b # bs) w = run_logged exec bs (snd (batch_run exec b 0 w))"

definition uci_set_interface_without_commit :: "'w exec \<Rightarrow> interface_input \<Rightarrow> 'w eff" where
  "uci_set_interface_without_commit exec input w =
     (let (batches, err) = build_interface_command_batches input
      in (err, run_logged exec batches w))"

text \<open>The error of the first batch is ignored.\<close>

fun run_dns_batches :: "'w exec \<Rightarrow> nat \<Rightarrow> string list list \<Rightarrow> 'w eff" where
  "run_dns_batches exec i [] w = (None, w)"
| "run_dns_batches exec i (b # bs) w =
     (case batch_run exec b 0 w of
        (Some e, w1) \<Rightarrow> if i > 0 then (Some e, w1) else run_dns_batches exec (i + 1) bs w1
      | (None, w1) \<Rightarrow> run_dns_batches exec (i + 1) bs w1)"

definition uci_set_dns_without_commit :: "'w exec \<Rightarrow> string \<Rightarrow> string \<Rightarrow> string list \<Rightarrow> 'w eff" where
  "uci_set_dns_without_commit exec name proto ips =
     run_dns_batches exec 0 (build_dns_command_batches name proto ips)"

definition uci_set_lan_masq :: "'w exec \<Rightarrow> ('w \<Rightarrow> uci) \<Rightarrow> bool \<Rightarrow> 'w \<Rightarrow> bool \<times> 'w" where
  "uci_set_lan_masq exec cfg enable w =
     (let zone = uci_get_firewall_zone_by_name (cfg w) ''lan'' in
      if zone \<noteq> []
      then (True, snd (batch_run exec
              [''uci -q set '' @ sq (''firewall.'' @ zone @ ''.masq='' @ (if enable then ''1'' else []))] 0 w))
      else (False, w))"

definition enable_lan_dhcp_commands :: "uci \<Rightarrow> string list" where
  "enable_lan_dhcp_commands u =
     [''uci set dhcp.lan.dhcpv6=server'',
      ''uci set dhcp.lan.ra=server'',
      ''uci set dhcp.lan.ra_slaac=1'',
      ''uci del dhcp.lan.ra_flags'',
      ''uci add_list dhcp.lan.ra_flags=managed-config'',
      ''uci add_list dhcp.lan.ra_flags=other-config'',
      ''uci del dhcp.lan.ignore'',
      ''uci set dhcp.lan.dhcpv4=server''] @
     (if last_or_empty u ''dhcp'' ''lan'' ''start'' = [] \<or> last_or_empty u ''dhcp'' ''lan'' ''limit'' = []
      then [''uci set dhcp.lan.start=100'', ''uci set dhcp.lan.limit=150''] else []) @
     (if last_or_empty u ''dhcp'' ''lan'' ''leasetime'' = [] then [''uci set dhcp.lan.leasetime=12h''] else [])"

definition enabled_lan_dhcp_server :: "'w exec \<Rightarrow> ('w \<Rightarrow> uci) \<Rightarrow> 'w \<Rightarrow> 'w" where
  "enabled_lan_dhcp_server exec cfg w = snd (batch_run exec (enable_lan_dhcp_commands (cfg w)) 0 w)"

text \<open>\<open>bu he fa\<close> (not valid) in UTF-8.\<close>

definition not_valid_utf8 :: string where
  "not_valid_utf8 = map char_of [0xE4, 0xB8, 0x8D, 0xE5, 0x90, 0x88, 0xE6, 0xB3, 0x95 :: nat]"

definition lan_setting_commands :: "string \<Rightarrow> string \<Rightarrow> string list" where
  "lan_setting_commands addr netmask =
     [''uci delete network.lan.ipaddr'', ''uci delete network.lan.netmask'',
      ''uci set network.lan.ipaddr='' @ sq addr, ''uci set network.lan.netmask='' @ sq netmask]"

definition lan_setting :: "'w exec \<Rightarrow> ('w \<Rightarrow> uci) \<Rightarrow> string \<Rightarrow> string \<Rightarrow> bool \<Rightarrow> 'w eff" where
  "lan_setting exec cfg addr netmask ip_only w =
     (if parse_ip addr = [] then (Some (''ip'' @ not_valid_utf8), w)
      else
        (case subnet_mask_to_len netmask of
           Inl e \<Rightarrow> (Some e, w)
         | Inr ones \<Rightarrow>
             if ones = 0 then (Some (''mask'' @ not_valid_utf8), w)
             else
               (let was_client = (\<not> ip_only \<and> uci_last (cfg w) ''network'' ''lan'' ''proto'' = Some ''dhcp'');
                    cmds = lan_setting_commands addr netmask @
                      (if was_client then [''uci set network.lan.proto=static'', ''uci set dhcp.lan.ignore=1'']
                       else []);
                    modified = [''network''] @ (if was_client then [''dhcp''] else [])
                in case batch_run exec cmds 0 w of
                     (Some e, w1) \<Rightarrow> (Some e, w1)
                   | (None, w1) \<Rightarrow> uci_commit_and_apply exec modified w1)))"

text \<open>\<open>SetLANConfig\<close>; the outer option is the panic of \<open>CalcStartAndLimit\<close>.\<close>

definition set_lan_config ::
    "'w exec \<Rightarrow> ('w \<Rightarrow> uci) \<Rightarrow> lan_config \<Rightarrow> 'w \<Rightarrow> (string list result \<times> 'w) option" where
  "set_lan_config exec cfg input w =
     (let finish = (\<lambda>w1.
            case lan_setting exec cfg (lc_ip input) (lc_netmask input) True w1 of
              (Some e, w2) \<Rightarrow> (Inl e, w2)
            | (None, w2) \<Rightarrow>
                if lc_enable_dhcp input
                then (Inr [''dhcp'', ''network''], enabled_lan_dhcp_server exec cfg w2)
                else (Inr [''network''], w2))
      in if lc_enable_dhcp input then
           (case calc_start_and_limit (lc_dhcp_start input) (lc_dhcp_end input) (lc_netmask input) of
              None \<Rightarrow> None
            | Some (Inl e) \<Rightarrow> Some (Inl e, w)
            | Some (Inr (start, limit)) \<Rightarrow>
                (case batch_run exec (build_lan_dhcp_range_commands start limit) 0 w of
                   (Some e, w1) \<Rightarrow> Some (Inl e, w1)
                 | (None, w1) \<Rightarrow> Some (finish w1)))
         else Some (finish w))"

section \<open>The use cases\<close>

record default_interface =
  di_name :: string
  di_device :: string
  di_proto :: string

record dns_request =
  dr_proto :: string
  dr_name :: string
  dr_ips :: "string list"

definition dns_config_set ::
    "'w exec \<Rightarrow> ('w, default_interface) io \<Rightarrow> dns_request \<Rightarrow> ('w, dns_request) io" where
  "dns_config_set exec read_default req w =
     (if dr_proto req = [] \<or> (dr_proto req = ''manual'' \<and> dr_ips req = []) \<or>
         (dr_proto req \<noteq> ''manual'' \<and> dr_proto req \<noteq> ''auto'')
      then (Inl ''missing params'', w)
      else
        (case read_default w of
           (Inl e, w1) \<Rightarrow> (Inl e, w1)
         | (Inr di, w1) \<Rightarrow>
             if dr_proto req \<noteq> ''manual'' \<and> di_proto di = ''static''
             then (Inl ''dns must be set when using static proto'', w1)
             else
               (case uci_set_dns_without_commit exec (di_name di) (dr_proto req) (dr_ips req) w1 of
                  (Some e, w2) \<Rightarrow> (Inl e, w2)
                | (None, w2) \<Rightarrow>
                    (case uci_commit_and_apply exec [''network''] w2 of
                       (Some e, w3) \<Rightarrow> (Inl e, w3)
                     | (None, w3) \<Rightarrow>
                         (Inr \<lparr>dr_proto = dr_proto req, dr_name = di_name di,
                               dr_ips = (if dr_proto req \<noteq> ''auto'' then dr_ips req else [])\<rparr>, w3)))))"

record client_mode_request =
  cm_dns_proto :: string
  cm_enable_lan_dhcp :: bool
  cm_gateway :: string
  cm_dns :: "string list"
  cm_ip :: string
  cm_netmask :: string
  cm_proto :: string

text \<open>\<open>models.SDKNormalResponse\<close>: the fields the use cases set.\<close>

record normal_response =
  nr_success :: "int option"
  nr_error :: string

definition response_ok :: normal_response where
  "response_ok = \<lparr>nr_success = Some 0, nr_error = []\<rparr>"

definition err_static_dns :: string where
  "err_static_dns =
     map char_of [0xE9, 0x9D, 0x99, 0xE6, 0x80, 0x81 :: nat] @ ''IP'' @
     map char_of [0xE5, 0x9C, 0xB0, 0xE5, 0x9D, 0x80, 0xEF, 0xBC, 0x8C :: nat] @ ''dns'' @
     map char_of [0xE5, 0xBF, 0x85, 0xE9, 0xA1, 0xBB, 0xE6, 0x89, 0x8B, 0xE5, 0x8A, 0xA8, 0xE9, 0x85, 0x8D,
                  0xE7, 0xBD, 0xAE :: nat]"

definition network_error_dns_not_setting :: int where
  "network_error_dns_not_setting = - 1001"

definition delete_lan6 :: "'w exec \<Rightarrow> 'w eff" where
  "delete_lan6 exec = batch_run exec [''uci -q delete network.lan6 || true''] 0"

text \<open>The common end of the WAN use cases: masquerading off, DHCP server on, commit.\<close>

definition finish_wan_mode :: "'w exec \<Rightarrow> ('w \<Rightarrow> uci) \<Rightarrow> bool \<Rightarrow> 'w eff" where
  "finish_wan_mode exec cfg enable_dhcp w =
     (case delete_lan6 exec w of
        (Some e, w1) \<Rightarrow> (Some e, w1)
      | (None, w1) \<Rightarrow>
          (let (masq, w2) = uci_set_lan_masq exec cfg False w1;
               pending = build_wan_mode_pending_configs masq enable_dhcp;
               w3 = (if enable_dhcp then enabled_lan_dhcp_server exec cfg w2 else w2)
           in uci_commit_and_apply exec pending w3))"

definition dhcp_client_set ::
    "'w exec \<Rightarrow> ('w \<Rightarrow> uci) \<Rightarrow> client_mode_request \<Rightarrow> ('w, normal_response) io" where
  "dhcp_client_set exec cfg req w =
     (if cm_proto req \<noteq> ''static'' \<and> cm_proto req \<noteq> ''dhcp''
      then (Inl ''WanProto should be static or dhcp'', w)
      else if cm_proto req = ''static'' \<and> (cm_gateway req = [] \<or> cm_netmask req = [])
      then (Inl ''gateway or netmask missing'', w)
      else if cm_proto req = ''static'' \<and> cm_dns_proto req = ''auto''
      then (Inr \<lparr>nr_success = Some network_error_dns_not_setting, nr_error = err_static_dns\<rparr>, w)
      else if cm_dns_proto req = ''manual'' \<and> cm_dns req = []
      then (Inl '' DNS IP missing '', w)
      else if cm_dns_proto req \<noteq> ''manual'' \<and> cm_dns_proto req \<noteq> ''auto''
      then (Inl ''incorrect DNSProto'', w)
      else
        (case uci_set_interface_without_commit exec
                \<lparr>ii_name = ''wan'', ii_proto = cm_proto req, ii_netmask = cm_netmask req,
                 ii_ip = cm_ip req, ii_gateway = cm_gateway req\<rparr> w of
           (Some e, w1) \<Rightarrow> (Inl e, w1)
         | (None, w1) \<Rightarrow>
             (case uci_set_dns_without_commit exec ''wan'' (cm_dns_proto req) (cm_dns req) w1 of
                (Some e, w2) \<Rightarrow> (Inl e, w2)
              | (None, w2) \<Rightarrow>
                  (case finish_wan_mode exec cfg (cm_enable_lan_dhcp req) w2 of
                     (Some e, w3) \<Rightarrow> (Inl e, w3)
                   | (None, w3) \<Rightarrow> (Inr response_ok, w3)))))"

definition pppoe_set :: "'w exec \<Rightarrow> ('w \<Rightarrow> uci) \<Rightarrow> string \<Rightarrow> string \<Rightarrow> bool \<Rightarrow> 'w eff" where
  "pppoe_set exec cfg account password enable_dhcp w =
     (if account = [] \<or> password = [] then (Some ''missing params'', w)
      else
        (case uci_set_pppoe_without_commit exec account password w of
           (Some e, w1) \<Rightarrow> (Some e, w1)
         | (None, w1) \<Rightarrow> finish_wan_mode exec cfg enable_dhcp w1))"

text \<open>\<open>IP chi qi shi huo jie shu di zhi cuo wu\<close> (bad pool start or end address) in UTF-8.\<close>

definition err_pool :: goerr where
  "err_pool = ''IP'' @ map char_of
     [0xE6, 0xB1, 0xA0, 0xE8, 0xB5, 0xB7, 0xE5, 0xA7, 0x8B, 0xE6, 0x88, 0x96, 0xE7, 0xBB, 0x93, 0xE6,
      0x9D, 0x9F, 0xE5, 0x9C, 0xB0, 0xE5, 0x9D, 0x80, 0xE9, 0x94, 0x99, 0xE8, 0xAF, 0xAF :: nat]"

definition lan_setting_set ::
    "'w exec \<Rightarrow> ('w \<Rightarrow> uci) \<Rightarrow> lan_config \<Rightarrow> 'w \<Rightarrow> (normal_response result \<times> 'w) option" where
  "lan_setting_set exec cfg req w =
     (if lc_ip req = [] \<or> lc_netmask req = [] \<or>
         (lc_enable_dhcp req \<and> (lc_dhcp_start req = [] \<or> lc_dhcp_end req = []))
      then Some (Inl ''missing params'', w)
      else if lc_enable_dhcp req \<and> (parse_ip (lc_dhcp_start req) = [] \<or> parse_ip (lc_dhcp_end req) = [])
      then Some (Inl err_pool, w)
      else
        map_option
          (\<lambda>(r, w1). case r of
             Inl e \<Rightarrow> (Inl e, w1)
           | Inr pending \<Rightarrow>
               (let apply_pending = filter (\<lambda>item. item \<noteq> ''network'') pending in
                if apply_pending \<noteq> []
                then (case uci_commit_and_apply exec apply_pending w1 of
                        (Some e, w2) \<Rightarrow> (Inl e, w2)
                      | (None, w2) \<Rightarrow> (Inr response_ok, w2))
                else (Inr response_ok, w1)))
          (set_lan_config exec cfg req w))"

text \<open>The readers behind the four pages.\<close>

definition dns_config_get :: "('w, default_interface) io \<Rightarrow> ('w \<Rightarrow> uci) \<Rightarrow> ('w, dns_request) io" where
  "dns_config_get read_default cfg w =
     (case read_default w of
        (Inl e, w1) \<Rightarrow> (Inl e, w1)
      | (Inr di, w1) \<Rightarrow>
          (let (proto, ips) = uci_get_net_dns_client (cfg w1) (di_name di)
           in (Inr \<lparr>dr_proto = proto, dr_name = di_name di, dr_ips = ips\<rparr>, w1)))"

text \<open>\<open>None\<close>: the WAN interface does not exist (code -1011).\<close>

definition dhcp_client_get ::
    "wan_config \<Rightarrow> ((string \<times> int) list \<times> wan_route list) result \<Rightarrow> wan_config option" where
  "dhcp_client_get wan status =
     (if \<not> wc_exists wan then None
      else if wc_ip wan = [] \<and> wc_proto wan = ''dhcp'' then
        (case read_wan_runtime status of
           Inl _ \<Rightarrow> Some wan
         | Inr rt \<Rightarrow>
             Some (wan\<lparr>wc_ip := wt_ip rt, wc_netmask := wt_netmask rt,
                       wc_gateway := (if wc_gateway wan = [] then wt_gateway rt else wc_gateway wan)\<rparr>))
      else Some wan)"

definition pppoe_get :: "wan_config \<Rightarrow> (string \<times> string) option" where
  "pppoe_get wan = (if \<not> wc_exists wan then None else Some (wc_account wan, wc_password wan))"

section \<open>Facts\<close>

lemma atoi_octet [simp]: "atoi (fmt_nat (unat (a :: byte))) = (int (unat a), None)"
proof -
  have "unat a < 256" by (rule unat_byte_less)
  then have "unat a < 2 ^ (64 - 1)" by (rule less_trans) simp
  then show ?thesis unfolding atoi_def by (rule parse_int_fmt_nat [rotated]) simp
qed

lemma unat_byte_le: "\<not> 255 < uint (a :: byte)"
  using uint_lt2p [of a] by simp

lemma subnet_mask_to_len_dotted:
  "subnet_mask_to_len (dotted w x y z) = Inr (fst (mask_size [w, x, y, z]))"
  by (simp add: subnet_mask_to_len_def split_dotted unat_byte_le)

lemma bit_128: "v AND 128 \<noteq> 0 \<longleftrightarrow> bit (v :: byte) 7"
proof -
  have "(128 :: byte) = push_bit 7 1" by simp
  then show ?thesis by (simp only: bit_iff_and_push_bit_not_eq_0)
qed

lemma byte_ones_bits:
  "byte_ones k v = (n, r) \<Longrightarrow> k \<le> 8 \<Longrightarrow>
     n \<le> k \<and> r = push_bit n v \<and> (\<forall>i<n. bit v (7 - i))"
proof (induction k arbitrary: v n)
  case 0
  then show ?case by simp
next
  case (Suc k)
  show ?case
  proof (cases "bit v 7")
    case False
    with Suc.prems show ?thesis by (simp add: bit_128 [symmetric])
  next
    case True
    with Suc.prems obtain m where m: "byte_ones k (push_bit 1 v) = (m, r)" "n = Suc m"
      by (auto simp: bit_128 split: prod.splits)
    with Suc.IH [OF m(1)] Suc.prems have ih: "m \<le> k" "r = push_bit m (push_bit 1 v)"
        "\<forall>i<m. bit (push_bit 1 v) (7 - i)" by auto
    have "bit v (7 - i)" if "i < n" for i
    proof (cases i)
      case 0
      with True show ?thesis by simp
    next
      case (Suc j)
      with that m ih have "bit (push_bit 1 v) (7 - j)" by simp
      with Suc show ?thesis by (auto simp only: bit_push_bit_iff diff_diff_left plus_1_eq_Suc add.commute)
    qed
    with ih m show ?thesis by (simp add: push_bit_push_bit)
  qed
qed

lemma byte_ones_eight:
  assumes "byte_ones 8 v = (n, 0)"
  shows "n \<le> 8 \<and> v = word_of_nat (256 - 2 ^ (8 - n))"
proof -
  from byte_ones_bits [OF assms] have n: "n \<le> 8" "push_bit n v = 0" "\<forall>i<n. bit v (7 - i)" by auto
  have "(word_of_nat (256 - 2 ^ (8 - n)) :: byte) = - (2 ^ (8 - n))"
  proof -
    have "(2::nat) ^ (8 - n) \<le> 2 ^ 8" by (rule power_increasing) simp_all
    then have "(word_of_nat (256 - 2 ^ (8 - n)) :: byte) = word_of_nat 256 - word_of_nat (2 ^ (8 - n))"
      by (intro of_nat_diff) simp
    moreover have "(word_of_nat 256 :: byte) = 0" by simp
    ultimately show ?thesis by (simp only: of_nat_power of_nat_numeral diff_0)
  qed
  then have w: "(word_of_nat (256 - 2 ^ (8 - n)) :: byte) = NOT (mask (8 - n))"
    by (simp add: minus_exp_eq_not_mask)
  have "bit v j \<longleftrightarrow> 8 - n \<le> j" if "j < 8" for j
  proof
    assume j: "bit v j"
    show "8 - n \<le> j"
    proof (rule ccontr)
      assume "\<not> 8 - n \<le> j"
      with j that have "bit (push_bit n v) (j + n)" by (simp add: bit_push_bit_iff)
      with n(2) show False by simp
    qed
  next
    assume "8 - n \<le> j"
    with that n(1) have "7 - j < n" "7 - (7 - j) = j" by auto
    with n(3) show "bit v j" by metis
  qed
  then have "v = NOT (mask (8 - n))"
    by (intro bit_word_eqI) (simp add: bit_simps not_less)
  with n(1) w show ?thesis by simp
qed

lemma byte_ones_255: "byte_ones 8 v = (n, 0) \<Longrightarrow> v \<noteq> 255 \<Longrightarrow> n \<le> 7"
  using byte_ones_eight [of v n] by (cases "n = 8") auto

lemma simple_mask_cidr:
  assumes "simple_mask_length [w, x, y, z] = Some n"
  shows "n \<le> 32 \<and> [w, x, y, z] = cidr_mask n 32"
proof -
  have cidr: "cidr_mask k 32 =
      map (\<lambda>i. word_of_nat (256 - 2 ^ (8 - min 8 (k - 8 * i)))) [0, Suc 0, 2, 3]" for k
    by (simp add: cidr_mask_def upt_rec)
  have eight: "byte_ones 8 v = (m, 0) \<Longrightarrow> v \<noteq> 255 \<Longrightarrow>
      m \<le> 7 \<and> v = word_of_nat (256 - 2 ^ (8 - m))" for v m
    using byte_ones_255 byte_ones_eight by blast
  show ?thesis
  proof (cases "w = 255")
    case False
    with assms obtain m where m: "byte_ones 8 w = (m, 0)" "x = 0" "y = 0" "z = 0" "n = m"
      by (auto split: prod.splits if_splits)
    with eight [OF m(1) False] show ?thesis by (auto simp: cidr)
  next
    case w: True
    show ?thesis
    proof (cases "x = 255")
      case False
      with w assms obtain m where m: "byte_ones 8 x = (m, 0)" "y = 0" "z = 0" "n = 8 + m"
        by (auto split: prod.splits if_splits)
      with w eight [OF m(1) False] show ?thesis by (auto simp: cidr)
    next
      case x: True
      show ?thesis
      proof (cases "y = 255")
        case False
        with w x assms obtain m where m: "byte_ones 8 y = (m, 0)" "z = 0" "n = 16 + m"
          by (auto split: prod.splits if_splits)
        with w x eight [OF m(1) False] show ?thesis by (auto simp: cidr)
      next
        case y: True
        show ?thesis
        proof (cases "z = 255")
          case False
          with w x y assms obtain m where m: "byte_ones 8 z = (m, 0)" "n = 24 + m"
            by (auto split: prod.splits if_splits)
          with w x y eight [OF m(1) False] show ?thesis by (auto simp: cidr)
        next
          case True
          with w x y assms show ?thesis by (auto simp: cidr)
        qed
      qed
    qed
  qed
qed

lemma cidr_simple_mask: "\<forall>n\<in>set [0..<33]. simple_mask_length (cidr_mask n 32) = Some n"
  by code_simp

lemma simple_mask_length_iff:
  "simple_mask_length [w, x, y, z] = Some n \<longleftrightarrow> n \<le> 32 \<and> cidr_mask n 32 = [w, x, y, z]"
proof
  assume n: "n \<le> 32 \<and> cidr_mask n 32 = [w, x, y, z]"
  then have "n \<in> set [0..<33]" by simp
  with cidr_simple_mask have "simple_mask_length (cidr_mask n 32) = Some n" by (rule bspec)
  with n show "simple_mask_length [w, x, y, z] = Some n" by (simp only:)
qed (use simple_mask_cidr [of w x y z n] in simp)

lemma mask_size_pos:
  "fst (mask_size [w, x, y, z]) = n \<and> 0 < n \<longleftrightarrow> 0 < n \<and> n \<le> 32 \<and> cidr_mask n 32 = [w, x, y, z]"
proof -
  have "fst (mask_size [w, x, y, z]) = n \<and> 0 < n \<longleftrightarrow>
      0 < n \<and> simple_mask_length [w, x, y, z] = Some n"
    by (auto simp: mask_size_def split: option.splits simp del: simple_mask_length.simps)
  then show ?thesis by (simp only: simple_mask_length_iff)
qed

text \<open>
  Of the masks written in dotted form, the network writers accept exactly the masks of the
  prefix lengths 1 to 32: for these \<open>subnetMaskToLen\<close> returns the prefix length, for every
  other one 0, which its callers refuse.
\<close>

theorem subnet_mask_to_len_prefix:
  "(subnet_mask_to_len (dotted w x y z) = Inr n \<and> 0 < n \<longleftrightarrow>
     0 < n \<and> n \<le> 32 \<and> cidr_mask n 32 = [w, x, y, z]) \<and>
   is_Inr (subnet_mask_to_len (dotted w x y z))"
  using mask_size_pos [of w x y z n] by (simp only: subnet_mask_to_len_dotted sum.inject) blast

lemma four_nth: "length xs = 4 \<Longrightarrow> xs = [xs ! 0, xs ! 1, xs ! 2, xs ! 3]"
  by (auto simp: numeral_eq_Suc length_Suc_conv)

lemma mask_octet_values:
  "list_all (\<lambda>n.
     (let masker = replicate n CHR ''1'' @ replicate (32 - n) CHR ''0''
      in [bin_val (take 8 masker), bin_val (take 8 (drop 8 masker)),
          bin_val (take 8 (drop 16 masker)), bin_val (take 8 (drop 24 masker))]) =
     map unat (cidr_mask n 32)) [0..<33]"
  by code_simp

lemma len_mask_cidr:
  assumes "n \<le> 32"
  shows "len_to_subnet_mask (int n) =
     dotted (cidr_mask n 32 ! 0) (cidr_mask n 32 ! 1) (cidr_mask n 32 ! 2) (cidr_mask n 32 ! 3)"
proof -
  let ?m = "replicate n CHR ''1'' @ replicate (32 - n) CHR ''0''"
  from assms have "n \<in> set [0..<33]" by simp
  with mask_octet_values have "[bin_val (take 8 ?m), bin_val (take 8 (drop 8 ?m)),
      bin_val (take 8 (drop 16 ?m)), bin_val (take 8 (drop 24 ?m))] = map unat (cidr_mask n 32)"
    unfolding list_all_iff Let_def by (rule bspec)
  also have "\<dots> = map unat [cidr_mask n 32 ! 0, cidr_mask n 32 ! 1, cidr_mask n 32 ! 2, cidr_mask n 32 ! 3]"
    using four_nth [of "cidr_mask n 32"] by simp
  finally have "bin_val (take 8 ?m) = unat (cidr_mask n 32 ! 0)"
      "bin_val (take 8 (drop 8 ?m)) = unat (cidr_mask n 32 ! 1)"
      "bin_val (take 8 (drop 16 ?m)) = unat (cidr_mask n 32 ! 2)"
      "bin_val (take 8 (drop 24 ?m)) = unat (cidr_mask n 32 ! 3)"
    by simp_all
  moreover have "nat (32 - int n) = 32 - n" by simp
  ultimately show ?thesis
    by (simp only: len_to_subnet_mask_def nat_int Let_def dotted_def)
qed

lemma len_to_subnet_mask_clip:
  "len_to_subnet_mask n = len_to_subnet_mask (max 0 (min 32 n))"
proof (cases "n < 0 \<or> 32 < n")
  case True
  then have "nat (32 - n) \<ge> 32 \<and> nat n = 0 \<or> nat n \<ge> 32" by linarith
  then show ?thesis
  proof
    assume n: "nat (32 - n) \<ge> 32 \<and> nat n = 0"
    define k where "k = nat (32 - n) - 32"
    with n have k: "nat (32 - n) = 32 + k" "nat n = 0" by auto
    from True n have "max 0 (min 32 n) = 0" by linarith
    with k show ?thesis
      by (simp add: len_to_subnet_mask_def replicate_add del: replicate_numeral)
  next
    assume n: "nat n \<ge> 32"
    define k where "k = nat n - 32"
    with n have k: "nat n = 32 + k" by auto
    from True n have "max 0 (min 32 n) = 32" by linarith
    with k show ?thesis
      by (simp add: len_to_subnet_mask_def replicate_add take_append drop_append del: replicate_numeral)
  qed
next
  case False
  then have "max 0 (min 32 n) = n" by linarith
  then show ?thesis by simp
qed

text \<open>
  The text of a prefix length is read back as that length; every length that is no
  IPv4 prefix length is taken to the nearest one.
\<close>

theorem len_to_subnet_mask_roundtrip:
  "subnet_mask_to_len (len_to_subnet_mask n) = Inr (nat (max 0 (min 32 n)))"
proof -
  define k where "k = nat (max 0 (min 32 n))"
  have k: "k \<le> 32" "max 0 (min 32 n) = int k" by (auto simp: k_def)
  have "len_to_subnet_mask n = len_to_subnet_mask (int k)"
    using len_to_subnet_mask_clip [of n] k(2) by simp
  also have "\<dots> = dotted (cidr_mask k 32 ! 0) (cidr_mask k 32 ! 1) (cidr_mask k 32 ! 2) (cidr_mask k 32 ! 3)"
    using k(1) by (rule len_mask_cidr)
  finally have "subnet_mask_to_len (len_to_subnet_mask n) = Inr (fst (mask_size (cidr_mask k 32)))"
    using four_nth [of "cidr_mask k 32"] by (simp add: subnet_mask_to_len_dotted)
  moreover have "simple_mask_length (cidr_mask k 32) = Some k"
    using cidr_simple_mask k(1) by simp
  ultimately show ?thesis by (simp add: mask_size_def k_def)
qed

text \<open>
  An octet is only checked against 255 from above: a mask with a negative octet is
  accepted, the octet being taken modulo 256.
\<close>

theorem negative_mask_octets_accepted:
  "subnet_mask_to_len ''-1.-1.-1.0'' = Inr 24 \<and> subnet_mask_to_len ''255.255.255.-256'' = Inr 24"
proof -
  have octets: "mask_octets [''-1'', ''-1'', ''-1'', ''0''] = Inr [- 1, - 1, - 1, 0]"
      "mask_octets [''255'', ''255'', ''255'', ''-256''] = Inr [255, 255, 255, - 256]"
    by (simp_all add: atoi_def parse_int_def parse_uint_def digit_val_def)
  have size: "fst (mask_size [- 1, - 1, - 1, 0]) = 24" "fst (mask_size [255, 255, 255, - 256]) = 24"
    by code_simp+
  show ?thesis
    by (simp add: subnet_mask_to_len_def octets size del: mask_octets.simps)
qed

lemma range_end_nat:
  assumes "s + l = Suc e" "e < 256"
  shows "unat (range_end (fmt_nat s) (fmt_nat l)) = e"
proof -
  have "parse_uint (2 ^ 16 - 1) (fmt_nat s) = (s, None)" "parse_uint (2 ^ 16 - 1) (fmt_nat l) = (l, None)"
    using assms by (auto intro!: parse_uint_fmt_nat)
  then have "range_end (fmt_nat s) (fmt_nat l) = word_of_nat s + word_of_nat l - 1"
    by (simp only: range_end_def fst_conv)
  also have "\<dots> = word_of_nat (s + l) - 1" by (simp only: of_nat_add)
  also have "\<dots> = word_of_nat e" by (simp add: assms(1))
  finally show ?thesis
    using assms(2) by (simp add: unat_of_nat)
qed

lemma build_lan_range_dotted:
  assumes "s + l = Suc e" "e < 256" "s < 256"
  shows "build_lan_range (dotted a b c d) (fmt_nat s) (fmt_nat l) =
    (dotted a b c (word_of_nat s), dotted a b c (word_of_nat e))"
proof -
  have small: "unat (word_of_nat s :: byte) = s" "unat (word_of_nat e :: byte) = e"
    using assms by (simp_all add: unat_of_nat)
  have "join_on ''.'' [fmt_nat (unat a), fmt_nat (unat b), fmt_nat (unat c), fmt_nat s] =
      dotted a b c (word_of_nat s)"
    and "join_on ''.'' [fmt_nat (unat a), fmt_nat (unat b), fmt_nat (unat c), fmt_nat e] =
      dotted a b c (word_of_nat e)"
    using join_dotted [of a b c "word_of_nat s"] join_dotted [of a b c "word_of_nat e"]
    by (simp_all only: small)
  then show ?thesis
    by (simp add: build_lan_range_def split_dotted range_end_nat [OF assms(1,2)] del: join_on.simps)
qed

lemma dotted_24: "''255.255.255.0'' = dotted 255 255 255 0"
  by (simp add: dotted_def number_eval)

lemma and_255 [simp]: "a AND 255 = (a :: byte)"
proof -
  have "(255 :: byte) = - 1" by simp
  then show ?thesis by (simp only: and.right_neutral)
qed

lemma valid_mask_24: "is_valid_ipv4_mask (ipv4 255 255 255 0) = Some True"
proof -
  have "cidr_mask 24 32 = [255, 255, 255, 0]" by code_simp
  then show ?thesis by (auto simp: valid_mask_iff_cidr intro!: exI [of _ 24])
qed

lemma quad_last: "quad a b c (word_of_nat s) = s + quad a b c 0" if "s < 256"
  using that by (simp add: quad_def unat_of_nat)

text \<open>
  The pool that the LAN page shows for the stored \<open>start\<close> and \<open>limit\<close> runs to the address
  \<open>start + limit - 1\<close>; saving the page unchanged computes the limit as the difference of the
  two addresses, one less than what was stored. A pool of one address is refused.
\<close>

theorem lan_range_save_shrinks:
  assumes "1 \<le> l" and "s + l \<le> 256"
  shows "(let (first, last) = build_lan_range (dotted a b c d) (fmt_nat s) (fmt_nat l)
     in calc_start_and_limit first last ''255.255.255.0'') =
     Some (if l = 1 then Inl ''invalid start/end'' else Inr (int s, int l - 1))"
proof -
  obtain e where e: "s + l = Suc e" "e < 256" "s < 256"
    using assms by (cases "s + l") auto
  let ?q = "quad a b c 0"
  have q: "quad a b c (word_of_nat s) = s + ?q" "quad a b c (word_of_nat e) = e + ?q"
    using e by (simp_all add: quad_last)
  from e assms(1) show ?thesis
    by (auto simp: build_lan_range_dotted [OF e] dotted_24 calc_dotted valid_mask_24 q)
qed

theorem lan_range_save_shrinks_witness:
  "(let (first, last) = build_lan_range ''192.168.1.1'' ''100'' ''150''
     in calc_start_and_limit first last ''255.255.255.0'') = Some (Inr (100, 149))"
proof -
  have "''192.168.1.1'' = dotted 192 168 1 1" "''100'' = fmt_nat 100" "''150'' = fmt_nat 150"
    by (simp_all add: dotted_def number_eval)
  then show ?thesis
    using lan_range_save_shrinks [of 150 100 192 168 1 1] by simp
qed


section \<open>What the use cases leave behind\<close>

definition interface_head :: "interface_input \<Rightarrow> string list" where
  "interface_head input =
     [''uci set network.wan.defaultroute=0'', ''uci set network.lan.defaultroute=0'',
      ''uci del network.'' @ ii_name input @ ''.defaultroute'',
      ''uci set network.'' @ ii_name input @ ''.proto='' @ ii_proto input]"

lemma interface_batches_head: "\<exists>bs. fst (build_interface_command_batches input) = interface_head input # bs"
  by (auto simp: build_interface_command_batches_def interface_head_def Let_def split: sum.splits)

lemma interface_batches_error:
  "snd (build_interface_command_batches input) = Some e \<Longrightarrow>
     fst (build_interface_command_batches input) = [interface_head input]"
  by (auto simp: build_interface_command_batches_def interface_head_def Let_def split: sum.splits if_splits)

lemma interface_batches_ok:
  "snd (build_interface_command_batches input) = None \<longleftrightarrow>
     ii_proto input = ''dhcp'' \<or>
     (parse_ip (ii_ip input) \<noteq> [] \<and> (\<exists>n>0. subnet_mask_to_len (ii_netmask input) = Inr n))"
  by (auto simp: build_interface_command_batches_def Let_def split: sum.splits if_splits)

definition client_input :: "client_mode_request \<Rightarrow> interface_input" where
  "client_input req = \<lparr>ii_name = ''wan'', ii_proto = cm_proto req, ii_netmask = cm_netmask req,
     ii_ip = cm_ip req, ii_gateway = cm_gateway req\<rparr>"

text \<open>The checks a request passes before anything is written.\<close>

definition client_request_ok :: "client_mode_request \<Rightarrow> bool" where
  "client_request_ok req \<longleftrightarrow>
     cm_proto req \<in> {''static'', ''dhcp''} \<and> cm_dns_proto req \<in> {''manual'', ''auto''} \<and>
     (cm_dns_proto req = ''manual'' \<longrightarrow> cm_dns req \<noteq> []) \<and>
     (cm_proto req = ''static'' \<longrightarrow>
        cm_gateway req \<noteq> [] \<and> cm_netmask req \<noteq> [] \<and> cm_dns_proto req = ''manual'')"

lemma dhcp_client_set_refused:
  "\<not> client_request_ok req \<Longrightarrow> \<exists>r. dhcp_client_set exec cfg req w = (r, w) \<and> r \<noteq> Inr response_ok"
  by (auto simp: dhcp_client_set_def client_request_ok_def response_ok_def network_error_dns_not_setting_def)

lemma dhcp_client_set_accepted:
  "client_request_ok req \<Longrightarrow>
     dhcp_client_set exec cfg req w =
       (case uci_set_interface_without_commit exec (client_input req) w of
          (Some e, w1) \<Rightarrow> (Inl e, w1)
        | (None, w1) \<Rightarrow>
            (case uci_set_dns_without_commit exec ''wan'' (cm_dns_proto req) (cm_dns req) w1 of
               (Some e, w2) \<Rightarrow> (Inl e, w2)
             | (None, w2) \<Rightarrow>
                 (case finish_wan_mode exec cfg (cm_enable_lan_dhcp req) w2 of
                    (Some e, w3) \<Rightarrow> (Inl e, w3)
                  | (None, w3) \<Rightarrow> (Inr response_ok, w3))))"
  by (auto simp: dhcp_client_set_def client_request_ok_def client_input_def)

lemma finish_wan_mode_commits:
  assumes "finish_wan_mode exec cfg enable w = (None, w')"
  shows "\<exists>pre w1. uci_commit_and_apply exec (pre @ [''network'']) w1 = (None, w') \<and>
    (enable \<longrightarrow> ''dhcp'' \<in> set pre)"
proof -
  from assms obtain masq w1 where
    "uci_commit_and_apply exec (build_wan_mode_pending_configs masq enable) w1 = (None, w')"
    by (auto simp: finish_wan_mode_def Let_def split: prod.splits option.splits)
  then show ?thesis
    by (intro exI [of _ "(if masq then [''firewall''] else []) @ (if enable then [''dhcp''] else [])"]
        exI [of _ w1]) (simp add: build_wan_mode_pending_configs_def)
qed

text \<open>
  C29. A WAN request that is answered with success passed every check (a static one has a
  gateway, a manual DNS server, an address and a mask that parse to a prefix length above 0),
  and the last thing that happened is a successful commit of the \<open>network\<close> configuration,
  with \<open>dhcp\<close> when the LAN server was switched on.
\<close>

theorem dhcp_client_success:
  assumes "dhcp_client_set exec cfg req w = (Inr response_ok, w')"
  shows "client_request_ok req \<and>
    (cm_proto req = ''static'' \<longrightarrow>
       parse_ip (cm_ip req) \<noteq> [] \<and> (\<exists>n>0. subnet_mask_to_len (cm_netmask req) = Inr n)) \<and>
    (\<exists>pre w1. uci_commit_and_apply exec (pre @ [''network'']) w1 = (None, w') \<and>
       (cm_enable_lan_dhcp req \<longrightarrow> ''dhcp'' \<in> set pre))"
proof -
  from assms have ok: "client_request_ok req"
    using dhcp_client_set_refused [of req exec cfg w] by auto
  with assms obtain w1 w2 where
    i: "uci_set_interface_without_commit exec (client_input req) w = (None, w1)" and
    f: "finish_wan_mode exec cfg (cm_enable_lan_dhcp req) w2 = (None, w')"
    by (auto simp: dhcp_client_set_accepted split: prod.splits option.splits)
  from i have "snd (build_interface_command_batches (client_input req)) = None"
    by (auto simp: uci_set_interface_without_commit_def split: prod.splits)
  then have "cm_proto req = ''static'' \<longrightarrow>
      parse_ip (cm_ip req) \<noteq> [] \<and> (\<exists>n>0. subnet_mask_to_len (cm_netmask req) = Inr n)"
    by (auto simp: interface_batches_ok client_input_def)
  with ok finish_wan_mode_commits [OF f] show ?thesis by blast
qed

text \<open>
  A static request that passes the checks but whose address does not parse is answered
  with an error after the first batch ran: the protocol and the default routes are changed in
  the staged configuration and neither committed nor reverted.
\<close>

theorem dhcp_client_bad_ip_leaves_staged:
  assumes "client_request_ok req" and "cm_proto req = ''static''" and "parse_ip (cm_ip req) = []"
  shows "dhcp_client_set exec cfg req w =
    (Inl ''not a valid IP'',
     snd (batch_run exec
       [''uci set network.wan.defaultroute=0'', ''uci set network.lan.defaultroute=0'',
        ''uci del network.wan.defaultroute'', ''uci set network.wan.proto=static''] 0 w))"
proof -
  have "build_interface_command_batches (client_input req) =
      ([interface_head (client_input req)], Some ''not a valid IP'')"
    using assms(2,3)
    by (simp add: build_interface_command_batches_def interface_head_def client_input_def)
  then show ?thesis
    using assms(2)
    by (simp add: dhcp_client_set_accepted [OF assms(1)] uci_set_interface_without_commit_def
        interface_head_def client_input_def)
qed


definition sample_client :: client_mode_request where
  "sample_client = \<lparr>cm_dns_proto = ''manual'', cm_enable_lan_dhcp = True, cm_gateway = ''10.0.0.1'',
     cm_dns = [''10.0.0.1''], cm_ip = ''bad'', cm_netmask = ''255.255.255.0'', cm_proto = ''static''\<rparr>"

theorem dhcp_client_success_witness:
  "\<exists>pre w1 w'. uci_commit_and_apply recording (pre @ [''network'']) w1 = (None, w') \<and> ''dhcp'' \<in> set pre"
proof -
  have "\<exists>w'. dhcp_client_set recording (\<lambda>_. empty_uci) (sample_client\<lparr>cm_proto := ''dhcp''\<rparr>) [] =
      (Inr response_ok, w')"
    by (simp add: dhcp_client_set_def sample_client_def uci_set_interface_without_commit_def
        build_interface_command_batches_def uci_set_dns_without_commit_def build_dns_command_batches_def
        finish_wan_mode_def delete_lan6_def batch_run_def create_batch_command_def recording_def
        uci_set_lan_masq_def uci_get_firewall_zone_by_name_def sections_or_empty_def empty_uci_def
        build_wan_mode_pending_configs_def enabled_lan_dhcp_server_def enable_lan_dhcp_commands_def
        last_or_empty_def uci_commit_and_apply_def uci_commit_commands_def Let_def)
  then obtain w' where
    w: "dhcp_client_set recording (\<lambda>_. empty_uci) (sample_client\<lparr>cm_proto := ''dhcp''\<rparr>) [] =
      (Inr response_ok, w')" by blast
  from dhcp_client_success [OF w] show ?thesis by (auto simp: sample_client_def)
qed

theorem dhcp_client_bad_ip_leaves_staged_witness:
  "length (snd (dhcp_client_set recording (\<lambda>_. empty_uci) sample_client [])) = 1 \<and>
   fst (dhcp_client_set recording (\<lambda>_. empty_uci) sample_client []) = Inl ''not a valid IP''"
proof -
  have 1: "client_request_ok sample_client" "cm_proto sample_client = ''static''"
    by (simp_all add: client_request_ok_def sample_client_def)
  have 2: "parse_ip (cm_ip sample_client) = []"
    by (simp add: sample_client_def parse_eval)
  show ?thesis
    unfolding dhcp_client_bad_ip_leaves_staged [OF 1 2]
    by (simp add: batch_run_def create_batch_command_def recording_def)
qed

lemma lan_setting_ok:
  "lan_setting exec cfg addr netmask True w = (None, w') \<Longrightarrow>
   \<exists>w1. batch_run exec (lan_setting_commands addr netmask) 0 w = (None, w1) \<and>
     uci_commit_and_apply exec [''network''] w1 = (None, w')"
  by (auto simp: lan_setting_def Let_def split: if_splits sum.splits prod.splits option.splits)

text \<open>
  Saving the LAN page with the DHCP server on, when it succeeds: the pool is written
  first, then the address and the mask, which are committed at once, then the DHCP server is
  switched on, and the \<open>dhcp\<close> configuration is committed last.
\<close>

theorem lan_setting_set_order:
  assumes "lan_setting_set exec cfg req w = Some (Inr r, w')" and "lc_enable_dhcp req"
  shows "\<exists>start limit w1 w2 w3.
    calc_start_and_limit (lc_dhcp_start req) (lc_dhcp_end req) (lc_netmask req) = Some (Inr (start, limit)) \<and>
    batch_run exec (build_lan_dhcp_range_commands start limit) 0 w = (None, w1) \<and>
    batch_run exec (lan_setting_commands (lc_ip req) (lc_netmask req)) 0 w1 = (None, w2) \<and>
    uci_commit_and_apply exec [''network''] w2 = (None, w3) \<and>
    uci_commit_and_apply exec [''dhcp''] (enabled_lan_dhcp_server exec cfg w3) = (None, w') \<and>
    r = response_ok"
proof -
  from assms obtain q w4 where
    q: "set_lan_config exec cfg req w = Some (q, w4)" and
    fin: "(case q of Inl e \<Rightarrow> (Inl e, w4) | Inr pending \<Rightarrow>
       (let apply_pending = filter (\<lambda>item. item \<noteq> ''network'') pending in
        if apply_pending \<noteq> []
        then (case uci_commit_and_apply exec apply_pending w4 of
                (Some e, w2) \<Rightarrow> (Inl e, w2) | (None, w2) \<Rightarrow> (Inr response_ok, w2))
        else (Inr response_ok, w4))) = (Inr r, w')"
    by (auto simp: lan_setting_set_def split: if_splits)
  from q fin assms(2) obtain start limit w1 w3 where s:
    "calc_start_and_limit (lc_dhcp_start req) (lc_dhcp_end req) (lc_netmask req) = Some (Inr (start, limit))"
    "batch_run exec (build_lan_dhcp_range_commands start limit) 0 w = (None, w1)"
    "lan_setting exec cfg (lc_ip req) (lc_netmask req) True w1 = (None, w3)"
    "q = Inr [''dhcp'', ''network'']" "w4 = enabled_lan_dhcp_server exec cfg w3"
    by (auto simp: set_lan_config_def Let_def split: option.splits sum.splits prod.splits)
  from s(4,5) fin have "uci_commit_and_apply exec [''dhcp''] (enabled_lan_dhcp_server exec cfg w3) = (None, w')"
      "r = response_ok"
    by (auto split: prod.splits option.splits)
  with s lan_setting_ok [OF s(3)] show ?thesis by blast
qed

text \<open>
  An invalid LAN address is found only after the new DHCP pool has been written: the
  request fails and the pool stays in the staged configuration.
\<close>

theorem lan_setting_bad_ip_leaves_pool:
  assumes "lc_enable_dhcp req" and "lc_ip req \<noteq> []" and "parse_ip (lc_ip req) = []"
    and "calc_start_and_limit (lc_dhcp_start req) (lc_dhcp_end req) (lc_netmask req) = Some (Inr (start, limit))"
    and "batch_run exec (build_lan_dhcp_range_commands start limit) 0 w = (None, w1)"
  shows "lan_setting_set exec cfg req w = Some (Inl (''ip'' @ not_valid_utf8), w1)"
proof -
  from assms(4) have "parse_ip (lc_dhcp_start req) \<noteq> []" "parse_ip (lc_dhcp_end req) \<noteq> []"
      "parse_ip (lc_netmask req) \<noteq> []"
    by (auto simp: calc_start_and_limit_def split: if_splits)
  then have ne: "lc_dhcp_start req \<noteq> []" "lc_dhcp_end req \<noteq> []" "lc_netmask req \<noteq> []" by auto
  with \<open>parse_ip (lc_dhcp_start req) \<noteq> []\<close> \<open>parse_ip (lc_dhcp_end req) \<noteq> []\<close> assms show ?thesis
    by (simp add: lan_setting_set_def set_lan_config_def lan_setting_def)
qed

definition sample_lan_page :: lan_config where
  "sample_lan_page = \<lparr>lc_ip = dotted 192 168 1 1, lc_netmask = dotted 255 255 255 0, lc_enable_dhcp = True,
     lc_dhcp_start = dotted 192 168 1 100, lc_dhcp_end = dotted 192 168 1 200\<rparr>"

lemma sample_lan_page_calc:
  "calc_start_and_limit (dotted 192 168 1 100) (dotted 192 168 1 200) (dotted 255 255 255 0) = Some (Inr (100, 100))"
  by (simp add: calc_dotted valid_mask_24 quad_def)

theorem lan_setting_bad_ip_leaves_pool_witness:
  "\<exists>w1. lan_setting_set recording (\<lambda>_. empty_uci) (sample_lan_page\<lparr>lc_ip := ''bad''\<rparr>) [] =
     Some (Inl (''ip'' @ not_valid_utf8), w1) \<and> length w1 = 1"
proof -
  let ?r = "sample_lan_page\<lparr>lc_ip := ''bad''\<rparr>"
  have 1: "lc_enable_dhcp ?r" "lc_ip ?r \<noteq> []" "parse_ip (lc_ip ?r) = []"
    by (simp_all add: sample_lan_page_def parse_eval)
  have 2: "calc_start_and_limit (lc_dhcp_start ?r) (lc_dhcp_end ?r) (lc_netmask ?r) = Some (Inr (100, 100))"
    by (simp add: sample_lan_page_def sample_lan_page_calc)
  have 3: "\<exists>w1. batch_run recording (build_lan_dhcp_range_commands 100 100) 0 [] = (None, w1) \<and> length w1 = 1"
    by (simp add: batch_run_def create_batch_command_def build_lan_dhcp_range_commands_def recording_def)
  from 3 obtain w1 where w: "batch_run recording (build_lan_dhcp_range_commands 100 100) 0 [] = (None, w1)"
      "length w1 = 1" by blast
  show ?thesis using lan_setting_bad_ip_leaves_pool [OF 1 2 w(1)] w(2) by blast
qed

theorem lan_setting_set_order_witness:
  "\<exists>start limit. calc_start_and_limit (lc_dhcp_start sample_lan_page) (lc_dhcp_end sample_lan_page)
     (lc_netmask sample_lan_page) = Some (Inr (start, limit))"
proof -
  have prefix: "subnet_mask_to_len (dotted 255 255 255 0) = Inr 24"
  proof -
    have "fst (mask_size [255, 255, 255, 0]) = 24" by code_simp
    then show ?thesis by (simp only: subnet_mask_to_len_dotted)
  qed
  have "dotted 192 168 1 1 \<noteq> []" "dotted 255 255 255 0 \<noteq> []" "dotted 192 168 1 100 \<noteq> []"
      "dotted 192 168 1 200 \<noteq> []"
    by (simp_all add: dotted_def)
  then have "\<exists>r w'. lan_setting_set recording (\<lambda>_. empty_uci) sample_lan_page [] = Some (Inr r, w')"
    by (simp add: lan_setting_set_def sample_lan_page_def set_lan_config_def sample_lan_page_calc
        lan_setting_def prefix lan_setting_commands_def build_lan_dhcp_range_commands_def batch_run_def
        create_batch_command_def recording_def uci_commit_and_apply_def uci_commit_commands_def
        enabled_lan_dhcp_server_def enable_lan_dhcp_commands_def last_or_empty_def empty_uci_def Let_def)
  then obtain r w' where r: "lan_setting_set recording (\<lambda>_. empty_uci) sample_lan_page [] = Some (Inr r, w')"
    by blast
  have e: "lc_enable_dhcp sample_lan_page" by (simp add: sample_lan_page_def)
  from lan_setting_set_order [OF r e] show ?thesis by blast
qed

end
