(* ===== verification/LanStatic.thy ===== *)
theory LanStatic
  imports LanDhcp
begin

text \<open>
  Static assignments of LAN control: \<open>backend/modules/lancontrol/staticassignment/service.go\<close>
  (the conflict check and the command list), \<open>backend/service/lan_static_assignment_write_*.go\<close>
  (store, tag validator, use case) and \<open>backend/service/lan_static_device_list_*.go\<close> (the
  list shown to the user). A result \<open>None\<close> of the tag validator is the panic of the tag
  list on an IPv6 gateway.
\<close>

section \<open>Data\<close>

record static_plan_input =
  pi_action :: string
  pi_mac :: string
  pi_ip :: string
  pi_bind :: bool
  pi_host :: string
  pi_tag :: string
  pi_title :: string

record host_record =
  hr_section :: string
  hr_mac :: string
  hr_ip :: string

record static_input =
  si_action :: string
  si_mac :: string
  si_ip :: string
  si_bind :: bool
  si_host :: string
  si_tag :: string
  si_title :: string
  si_auto :: bool

text \<open>\<open>models.LANStaticAssigned\<close>, an entry of the list.\<close>

record static_item =
  sa_ip :: string
  sa_mac :: string
  sa_bind :: bool
  sa_gateway :: string
  sa_host :: string
  sa_tag :: string
  sa_title :: string

section \<open>The plan\<close>

definition has_duplicate_ip_conflict :: "static_plan_input \<Rightarrow> host_record list \<Rightarrow> bool" where
  "has_duplicate_ip_conflict input hosts =
     (if pi_action input = ''delete'' \<or> \<not> pi_bind input \<or> pi_ip input = [] then False
      else list_ex (\<lambda>h. hr_mac h \<noteq> [] \<and> hr_mac h \<noteq> pi_mac input \<and> hr_ip h = pi_ip input) hosts)"

definition build_static_commands :: "static_plan_input \<Rightarrow> host_record list \<Rightarrow> bool \<Rightarrow> string list" where
  "build_static_commands input hosts include_auto_tag =
     concat (map (\<lambda>h. [''uci del dhcp.'' @ hr_section h, ''uci commit dhcp''])
       (filter (\<lambda>h. hr_mac h = pi_mac input) hosts)) @
     (if pi_action input = ''delete'' then []
      else
        (if include_auto_tag \<and> pi_tag input \<noteq> [] then [''uci set dhcp.'' @ pi_tag input @ ''=tag''] else []) @
        [''uci add dhcp host'',
         ''uci set dhcp.@host[-1].enabled='' @ sq ''1'',
         ''uci set dhcp.@host[-1].mac='' @ sq (pi_mac input)] @
        (if pi_tag input \<noteq> [] then [''uci set dhcp.@host[-1].tag='' @ sq (pi_tag input)] else []) @
        (if pi_title input \<noteq> [] then [''uci set dhcp.@host[-1].tag_title='' @ sq (pi_title input)] else []) @
        (if pi_host input \<noteq> [] then [''uci set dhcp.@host[-1].name='' @ sq (pi_host input)] else []) @
        (if pi_bind input \<and> pi_ip input \<noteq> []
         then [''uci set dhcp.@host[-1].ip='' @ sq (pi_ip input)] else []))"

section \<open>The store\<close>

definition build_static_host_records :: "uci \<Rightarrow> string list \<Rightarrow> host_record list" where
  "build_static_host_records u sections =
     map (\<lambda>sec. \<lparr>hr_section = sec, hr_mac = last_or_empty u ''dhcp'' sec ''mac'',
                 hr_ip = last_or_empty u ''dhcp'' sec ''ip''\<rparr>)
       (filter (\<lambda>sec. last_or_empty u ''dhcp'' sec ''mac'' \<noteq> []) sections)"

definition static_plan_of :: "static_input \<Rightarrow> static_plan_input" where
  "static_plan_of i =
     \<lparr>pi_action = si_action i, pi_mac = si_mac i, pi_ip = si_ip i, pi_bind = si_bind i,
      pi_host = si_host i, pi_tag = si_tag i, pi_title = si_title i\<rparr>"

definition err_ip_in_use :: goerr where
  "err_ip_in_use = ''ip is already in use''"

definition store_static_assignment :: "'w exec \<Rightarrow> ('w \<Rightarrow> uci) \<Rightarrow> static_input \<Rightarrow> 'w eff" where
  "store_static_assignment exec cfg input w =
     (let u = cfg w;
          hosts = build_static_host_records u (sections_or_empty u ''dhcp'' ''host'');
          plan = static_plan_of input
      in if has_duplicate_ip_conflict plan hosts then (Some err_ip_in_use, w)
         else
           (case batch_run exec (build_static_commands plan hosts (si_auto input)) 0 w of
              (Some e, w1) \<Rightarrow> (Some e, w1)
            | (None, w1) \<Rightarrow> uci_commit_and_apply exec [''dhcp''] w1))"

section \<open>The tag validator\<close>

fun pick_tag :: "static_input \<Rightarrow> dhcp_tag_info list \<Rightarrow> static_input result" where
  "pick_tag input [] = Inl ''dhcp tag not found''"
| "pick_tag input (t # ts) =
     (if inf_name t \<noteq> si_tag input then pick_tag input ts
      else
        (let input1 = input\<lparr>si_title := inf_title t\<rparr> in
         if inf_title t = ''default'' then Inr (input1\<lparr>si_tag := []\<rparr>)
         else Inr (if inf_auto t then input1\<lparr>si_auto := True\<rparr> else input1)))"

definition normalize_tag ::
    "('w, lan_status) io \<Rightarrow> ('w, lan_dhcp_state) io \<Rightarrow> static_input
     \<Rightarrow> 'w \<Rightarrow> (static_input result \<times> 'w) option" where
  "normalize_tag read_status load_state input w =
     (if si_tag input = [] then Some (Inr input, w)
      else
        (case read_status w of
           (Inl e, w1) \<Rightarrow> Some (Inl e, w1)
         | (Inr ls, w1) \<Rightarrow>
             (case load_state w1 of
                (Inl e, w2) \<Rightarrow> Some (Inl e, w2)
              | (Inr st, w2) \<Rightarrow>
                  map_option (\<lambda>tags. (pick_tag input tags, w2)) (build_global_dhcp_tags ls (Some st)))))"

section \<open>The use case\<close>

definition is_noop_add :: "static_input \<Rightarrow> bool" where
  "is_noop_add i \<longleftrightarrow> si_action i = ''add'' \<and> si_tag i = [] \<and> si_title i = [] \<and> si_host i = [] \<and> si_ip i = []"

definition apply_static_assignment ::
    "(static_input \<Rightarrow> 'w \<Rightarrow> (static_input result \<times> 'w) option) \<Rightarrow> (static_input \<Rightarrow> 'w eff)
     \<Rightarrow> static_input \<Rightarrow> 'w \<Rightarrow> (goerr option \<times> 'w) option" where
  "apply_static_assignment validate store input w =
     (if trim_space (si_mac input) = [] then Some (Some ''mac address is required'', w)
      else if si_action input \<notin> {''add'', ''modify'', ''delete''} then Some (Some ''invalid action'', w)
      else
        (let input1 = (if si_action input = ''modify'' then input\<lparr>si_action := ''add''\<rparr> else input) in
         if si_action input = ''add'' \<and> is_noop_add input1 then Some (None, w)
         else
           map_option (\<lambda>(r, w1). case r of Inl e \<Rightarrow> (Some e, w1) | Inr normalized \<Rightarrow> store normalized w1)
             (validate input1 w)))"

section \<open>The list\<close>

definition static_tag_key :: "dhcp_tag_info \<Rightarrow> string option" where
  "static_tag_key t = (if inf_name t = [] then None else Some (inf_name t))"

definition build_static_tag_map :: "dhcp_tag_info list \<Rightarrow> (string \<rightharpoonup> dhcp_tag_info)" where
  "build_static_tag_map tags = fold_index static_tag_key (\<lambda>t. t) tags"

definition build_static_item ::
    "string \<Rightarrow> string option \<Rightarrow> string \<Rightarrow> string option \<Rightarrow> string option
     \<Rightarrow> (string \<rightharpoonup> dhcp_tag_info) \<Rightarrow> static_item option" where
  "build_static_item mac ip_opt name tag_opt title_opt tag_map =
     (if trim_space mac = [] then None
      else
        (let ip = (case ip_opt of None \<Rightarrow> [] | Some v \<Rightarrow> v);
             tag = (case tag_opt of None \<Rightarrow> [] | Some v \<Rightarrow> v);
             title = (case title_opt of None \<Rightarrow> [] | Some v \<Rightarrow> v);
             item = \<lparr>sa_ip = ip, sa_mac = to_upper (trim_space mac), sa_bind = (ip \<noteq> []),
                     sa_gateway = [], sa_host = name, sa_tag = [], sa_title = []\<rparr>
         in Some
              (if tag \<noteq> [] then
                 (case tag_map tag of
                    Some t \<Rightarrow> item\<lparr>sa_gateway := inf_gateway t, sa_tag := inf_name t, sa_title := inf_title t\<rparr>
                  | None \<Rightarrow> item)
               else if title \<noteq> [] then item\<lparr>sa_title := title, sa_tag := []\<rparr>
               else item)))"

definition read_static_assignments :: "uci \<Rightarrow> dhcp_tag_info list \<Rightarrow> static_item list" where
  "read_static_assignments u tags =
     (case uci_sections u ''dhcp'' ''host'' of
        None \<Rightarrow> []
      | Some secs \<Rightarrow>
          List.map_filter
            (\<lambda>sec. case uci_last u ''dhcp'' sec ''mac'' of
                None \<Rightarrow> None
              | Some mac \<Rightarrow>
                  build_static_item mac (uci_last u ''dhcp'' sec ''ip'') (last_or_empty u ''dhcp'' sec ''name'')
                    (uci_last u ''dhcp'' sec ''tag'') (uci_last u ''dhcp'' sec ''tag_title'')
                    (build_static_tag_map tags)) secs)"

definition get_list_static_devices ::
    "('w, lan_status) io \<Rightarrow> ('w, lan_dhcp_state) io \<Rightarrow> ('w \<Rightarrow> uci) \<Rightarrow> 'w
     \<Rightarrow> (static_item list result \<times> 'w) option" where
  "get_list_static_devices read_status load_state cfg w =
     (case read_status w of
        (Inl e, w1) \<Rightarrow> Some (Inl e, w1)
      | (Inr ls, w1) \<Rightarrow>
          (case load_state w1 of
             (Inl e, w2) \<Rightarrow> Some (Inl e, w2)
           | (Inr st, w2) \<Rightarrow>
               map_option (\<lambda>tags. (Inr (read_static_assignments (cfg w2) tags), w2))
                 (build_global_dhcp_tags ls (Some st))))"

section \<open>The validator as the use case sees it\<close>

text \<open>
  \<open>StaticAssignmentTagValidator.NormalizeTag\<close> may change the tag, its title and the flag
  that the tag must be created, and nothing else.
\<close>

locale static_tag_validator =
  fixes validate :: "static_input \<Rightarrow> 'w \<Rightarrow> (static_input result \<times> 'w) option"
  assumes validate_keeps:
      "validate i w = Some (Inr n, w') \<Longrightarrow>
         n = i\<lparr>si_tag := si_tag n, si_title := si_title n, si_auto := si_auto n\<rparr>"
    and validate_tag_or_clear:
      "validate i w = Some (Inr n, w') \<Longrightarrow> si_tag n = si_tag i \<or> si_tag n = []"
begin

text \<open>What reaches the store when the use case succeeds without being a no-op.\<close>

lemma store_input:
  assumes "apply_static_assignment validate store i w = Some (None, w')"
    and "\<not> is_noop_add i"
  shows "\<exists>n w1. store n w1 = (None, w') \<and> si_mac n = si_mac i \<and> si_ip n = si_ip i \<and> si_bind n = si_bind i \<and>
    si_host n = si_host i \<and> si_action n \<in> {''add'', ''delete''} \<and>
    (si_action n = ''delete'' \<longleftrightarrow> si_action i = ''delete'') \<and> (si_tag n = si_tag i \<or> si_tag n = [])"
proof -
  define j where "j = (if si_action i = ''modify'' then i\<lparr>si_action := ''add''\<rparr> else i)"
  from assms have act: "si_action i \<in> {''add'', ''modify'', ''delete''}"
    and "map_option (\<lambda>(r, w1). case r of Inl e \<Rightarrow> (Some e, w1) | Inr n \<Rightarrow> store n w1)
        (validate j w) = Some (None, w')"
    by (auto simp: apply_static_assignment_def j_def Let_def split: if_splits)
  then obtain r w1 where "validate j w = Some (r, w1)"
    and "(case r of Inl e \<Rightarrow> (Some e, w1) | Inr n \<Rightarrow> store n w1) = (None, w')"
    by auto
  then obtain n where n: "validate j w = Some (Inr n, w1)" and s: "store n w1 = (None, w')"
    by (cases r) auto
  from validate_keeps [OF n] have "si_mac n = si_mac i" "si_ip n = si_ip i" "si_bind n = si_bind i"
      "si_host n = si_host i" "si_action n = si_action j"
    by (cases n; auto simp: j_def split: if_splits)+
  with s act validate_tag_or_clear [OF n] show ?thesis
    by (intro exI [of _ n] exI [of _ w1]) (auto simp: j_def split: if_splits)
qed

end

lemma pick_tag_keeps:
  assumes "pick_tag i tags = Inr n"
  shows "n = i\<lparr>si_tag := si_tag n, si_title := si_title n, si_auto := si_auto n\<rparr> \<and>
    (si_tag n = si_tag i \<or> si_tag n = [])"
  using assms by (induction i tags rule: pick_tag.induct) (auto simp: Let_def split: if_splits)

interpretation validator: static_tag_validator "normalize_tag read_status load_state" for read_status load_state
proof
  fix i n :: static_input and w w' :: 'a
  assume "normalize_tag read_status load_state i w = Some (Inr n, w')"
  then have "n = i \<or> (\<exists>tags. pick_tag i tags = Inr n)"
    by (auto simp: normalize_tag_def split: if_splits prod.splits sum.splits)
  then have "n = i\<lparr>si_tag := si_tag n, si_title := si_title n, si_auto := si_auto n\<rparr> \<and>
      (si_tag n = si_tag i \<or> si_tag n = [])"
    using pick_tag_keeps by auto
  then show "n = i\<lparr>si_tag := si_tag n, si_title := si_title n, si_auto := si_auto n\<rparr>"
      and "si_tag n = si_tag i \<or> si_tag n = []" by blast+
qed

interpretation static_tags: keyed_index static_tag_key "\<lambda>t. t" build_static_tag_map
  unfolding build_static_tag_map_def [abs_def] by (rule keyed_index_fold)

section \<open>Facts\<close>

lemma static_del_line:
  "''uci del dhcp.'' @ sec \<in> set (build_static_commands input hosts auto) \<longleftrightarrow>
     (\<exists>h\<in>set hosts. hr_mac h = pi_mac input \<and> hr_section h = sec)"
  by (auto simp: build_static_commands_def split: if_splits)

lemma static_ip_line:
  assumes "pi_action input \<noteq> ''delete''"
  shows "''uci set dhcp.@host[-1].ip='' @ sq ip \<in> set (build_static_commands input hosts auto) \<longleftrightarrow>
     pi_bind input \<and> pi_ip input \<noteq> [] \<and> ip = pi_ip input"
  using assms by (auto simp: build_static_commands_def sq_def)

text \<open>The sections a command list leaves in place.\<close>

definition surviving_hosts :: "string list \<Rightarrow> host_record list \<Rightarrow> host_record list" where
  "surviving_hosts cmds hosts = filter (\<lambda>h. ''uci del dhcp.'' @ hr_section h \<notin> set cmds) hosts"

definition bound_ips :: "host_record list \<Rightarrow> string list" where
  "bound_ips hosts = filter (\<lambda>ip. ip \<noteq> []) (map hr_ip hosts)"

lemma surviving_macs:
  "h \<in> set (surviving_hosts (build_static_commands input hosts auto) hosts) \<Longrightarrow> hr_mac h \<noteq> pi_mac input"
  unfolding surviving_hosts_def set_filter mem_Collect_eq static_del_line by blast

lemma distinct_bound_filter:
  "distinct (bound_ips hosts) \<Longrightarrow> distinct (bound_ips (filter P hosts))"
  unfolding bound_ips_def filter_map comp_def filter_filter
  by (induction hosts) (auto split: if_splits)

text \<open>
  C18. A host entry that is added or modified keeps the bound addresses unique: if the
  addresses of the stored entries are distinct and the conflict check passes, the entries
  that the commands leave in place and the new one have distinct addresses again, and no
  entry with the same MAC is left.
\<close>

theorem static_ips_stay_unique:
  assumes "\<forall>h\<in>set hosts. hr_mac h \<noteq> []" and "distinct (bound_ips hosts)"
    and "\<not> has_duplicate_ip_conflict input hosts" and "pi_action input \<noteq> ''delete''"
  shows "(let cmds = build_static_commands input hosts auto; left = surviving_hosts cmds hosts
     in distinct (bound_ips left @ (if pi_bind input \<and> pi_ip input \<noteq> [] then [pi_ip input] else [])) \<and>
        (\<forall>h\<in>set left. hr_mac h \<noteq> pi_mac input) \<and>
        (\<forall>ip. ''uci set dhcp.@host[-1].ip='' @ sq ip \<in> set cmds \<longleftrightarrow>
           pi_bind input \<and> pi_ip input \<noteq> [] \<and> ip = pi_ip input))"
proof -
  let ?left = "surviving_hosts (build_static_commands input hosts auto) hosts"
  have d: "distinct (bound_ips ?left)"
    unfolding surviving_hosts_def by (rule distinct_bound_filter [OF assms(2)])
  have n: "pi_ip input \<notin> set (bound_ips ?left)" if "pi_bind input" "pi_ip input \<noteq> []"
  proof
    assume "pi_ip input \<in> set (bound_ips ?left)"
    then obtain h where h: "h \<in> set ?left" "hr_ip h = pi_ip input" by (auto simp: bound_ips_def)
    then have "h \<in> set hosts" by (simp add: surviving_hosts_def)
    with h surviving_macs [OF h(1)] assms(1,3,4) that show False
      by (auto simp: has_duplicate_ip_conflict_def list_ex_iff)
  qed
  from d n surviving_macs static_ip_line [OF assms(4)] show ?thesis
    by (auto simp: Let_def)
qed

theorem static_ips_stay_unique_witness:
  "bound_ips [\<lparr>hr_section = ''h1'', hr_mac = ''AA'', hr_ip = ''10.0.0.2''\<rparr>] = [''10.0.0.2''] \<and>
   (let hosts = [\<lparr>hr_section = ''h1'', hr_mac = ''AA'', hr_ip = ''10.0.0.2''\<rparr>];
        input = \<lparr>pi_action = ''add'', pi_mac = ''BB'', pi_ip = ''10.0.0.3'', pi_bind = True, pi_host = [],
                 pi_tag = [], pi_title = []\<rparr>
    in distinct (bound_ips (surviving_hosts (build_static_commands input hosts False) hosts) @ [pi_ip input]))"
proof -
  let ?hosts = "[\<lparr>hr_section = ''h1'', hr_mac = ''AA'', hr_ip = ''10.0.0.2''\<rparr>]"
  let ?input = "\<lparr>pi_action = ''add'', pi_mac = ''BB'', pi_ip = ''10.0.0.3'', pi_bind = True, pi_host = [],
                 pi_tag = [], pi_title = []\<rparr>"
  have 1: "\<forall>h\<in>set ?hosts. hr_mac h \<noteq> []" "distinct (bound_ips ?hosts)"
      "\<not> has_duplicate_ip_conflict ?input ?hosts" "pi_action ?input \<noteq> ''delete''"
    by (simp_all add: bound_ips_def has_duplicate_ip_conflict_def)
  from static_ips_stay_unique [OF 1, of False] show ?thesis
    by (simp add: bound_ips_def Let_def)
qed

definition delete_request :: "string \<Rightarrow> static_input" where
  "delete_request mac = \<lparr>si_action = ''delete'', si_mac = mac, si_ip = [], si_bind = False, si_host = [],
     si_tag = [], si_title = [], si_auto = False\<rparr>"

lemma store_delete_no_match:
  assumes "\<forall>sec\<in>set (sections_or_empty (cfg w) ''dhcp'' ''host''). last_or_empty (cfg w) ''dhcp'' sec ''mac'' \<noteq> mac"
  shows "store_static_assignment exec cfg (delete_request mac) w = (Some err_empty, w)"
proof -
  let ?hosts = "build_static_host_records (cfg w) (sections_or_empty (cfg w) ''dhcp'' ''host'')"
  have "filter (\<lambda>h. hr_mac h = mac) ?hosts = []"
    using assms by (auto simp: filter_empty_conv build_static_host_records_def)
  then have "build_static_commands (static_plan_of (delete_request mac)) ?hosts False = []"
    by (simp add: build_static_commands_def static_plan_of_def delete_request_def)
  then show ?thesis
    by (simp add: store_static_assignment_def has_duplicate_ip_conflict_def static_plan_of_def
        delete_request_def Let_def)
qed

lemma apply_static_delete:
  "trim_space mac \<noteq> [] \<Longrightarrow> validate (delete_request mac) w = Some (Inr n, w1) \<Longrightarrow>
     apply_static_assignment validate store (delete_request mac) w = Some (store n w1)"
  by (simp add: apply_static_assignment_def delete_request_def is_noop_add_def)

lemma build_static_item_mac:
  "build_static_item mac ip name tag title m = Some item \<Longrightarrow> sa_mac item = to_upper (trim_space mac)"
  by (auto simp: build_static_item_def Let_def split: if_splits option.splits)

text \<open>
  The list shows every MAC address in upper case, while the store compares it with the
  configuration letter by letter: deleting a listed entry whose stored address is not in
  upper case fails, nothing being run.
\<close>

theorem lower_case_entry_not_deletable:
  assumes "item \<in> set (read_static_assignments (cfg w) tags)" and "trim_space (sa_mac item) \<noteq> []"
    and "\<forall>sec\<in>set (sections_or_empty (cfg w) ''dhcp'' ''host''). last_or_empty (cfg w) ''dhcp'' sec ''mac'' \<noteq> sa_mac item"
  shows "(\<exists>mac. sa_mac item = to_upper (trim_space mac)) \<and>
    apply_static_assignment (normalize_tag read_status load_state) (store_static_assignment exec cfg)
      (delete_request (sa_mac item)) w = Some (Some err_empty, w)"
proof -
  from assms(1) have "\<exists>mac. sa_mac item = to_upper (trim_space mac)"
    unfolding read_static_assignments_def
    by (auto simp: in_map_filter dest: build_static_item_mac split: option.splits)
  moreover have n: "normalize_tag read_status load_state (delete_request (sa_mac item)) w =
      Some (Inr (delete_request (sa_mac item)), w)"
    by (simp add: normalize_tag_def delete_request_def)
  have st: "store_static_assignment exec cfg (delete_request (sa_mac item)) w = (Some err_empty, w)"
    using assms(3) by (rule store_delete_no_match)
  have "apply_static_assignment (normalize_tag read_status load_state) (store_static_assignment exec cfg)
      (delete_request (sa_mac item)) w = Some (store_static_assignment exec cfg (delete_request (sa_mac item)) w)"
    using assms(2) n by (rule apply_static_delete)
  ultimately show ?thesis unfolding st by (rule conjI)
qed

definition lower_case_uci :: uci where
  "lower_case_uci =
     \<lparr>uci_sections = (\<lambda>c t. if c = ''dhcp'' \<and> t = ''host'' then Some [''h1''] else None),
      uci_get = (\<lambda>_ _ _. None),
      uci_last = (\<lambda>c s opt. if c = ''dhcp'' \<and> s = ''h1'' \<and> opt = ''mac'' then Some ''ab'' else None)\<rparr>"

theorem lower_case_entry_not_deletable_witness:
  "\<exists>item. read_static_assignments lower_case_uci [] = [item] \<and> sa_mac item = ''AB'' \<and>
     apply_static_assignment (normalize_tag (\<lambda>w. (Inl [], w)) (\<lambda>w. (Inl [], w)))
       (store_static_assignment recording (\<lambda>_. lower_case_uci)) (delete_request (sa_mac item)) [] =
     Some (Some err_empty, [])"
proof -
  have trim: "trim_space ''ab'' = ''ab''" "trim_space ''AB'' = ''AB''"
    by (simp_all add: trim_space_solid solid_char_def)
  have up: "to_upper ''ab'' = ''AB''" by code_simp
  have "\<exists>item. read_static_assignments lower_case_uci [] = [item] \<and> sa_mac item = ''AB''"
    by (simp add: read_static_assignments_def lower_case_uci_def build_static_item_def trim up Let_def
        last_or_empty_def List.map_filter_simps)
  then obtain item where i: "read_static_assignments lower_case_uci [] = [item]" "sa_mac item = ''AB''" by blast
  have 1: "item \<in> set (read_static_assignments ((\<lambda>_. lower_case_uci) []) [])" by (simp add: i)
  have 2: "trim_space (sa_mac item) \<noteq> []" by (simp add: i trim)
  have 3: "\<forall>sec\<in>set (sections_or_empty ((\<lambda>_. lower_case_uci) []) ''dhcp'' ''host'').
      last_or_empty ((\<lambda>_. lower_case_uci) []) ''dhcp'' sec ''mac'' \<noteq> sa_mac item"
    by (simp add: i sections_or_empty_def last_or_empty_def lower_case_uci_def)
  from lower_case_entry_not_deletable [where cfg = "\<lambda>_. lower_case_uci" and w = "[]", OF 1 2 3] i show ?thesis by blast
qed

lemma pick_tag_found:
  assumes "pick_tag i tags = Inr n"
  shows "\<exists>t\<in>set tags. inf_name t = si_tag i \<and> si_title n = inf_title t \<and>
    si_tag n = (if inf_title t = ''default'' then [] else si_tag i)"
  using assms by (induction i tags rule: pick_tag.induct) (auto simp: Let_def split: if_splits)

text \<open>
  A tag chosen for a host is shown again: when the tag names are distinct, the entry
  written for a validated request is listed with the tag, its title and its gateway, and a
  tag titled \<open>default\<close> is stored by its title alone.
\<close>

theorem static_tag_roundtrip:
  assumes "pick_tag i tags = Inr n" and "si_tag i \<noteq> []" and "distinct (map inf_name tags)"
    and "trim_space mac \<noteq> []"
  shows "\<exists>t\<in>set tags. inf_name t = si_tag i \<and>
    (\<exists>item. build_static_item mac ip name (if si_tag n = [] then None else Some (si_tag n))
        (if si_title n = [] then None else Some (si_title n)) (build_static_tag_map tags) = Some item \<and>
      sa_title item = inf_title t \<and>
      (if inf_title t = ''default'' then sa_tag item = []
       else sa_tag item = si_tag i \<and> sa_gateway item = inf_gateway t))"
proof -
  from pick_tag_found [OF assms(1)] obtain t where
    t: "t \<in> set tags" "inf_name t = si_tag i" "si_title n = inf_title t"
      "si_tag n = (if inf_title t = ''default'' then [] else si_tag i)" by blast
  have "build_static_tag_map tags (si_tag i) = Some t"
  proof (rule static_tags.index_unique [OF t(1)])
    show "static_tag_key t = Some (si_tag i)" using t(2) assms(2) by (simp add: static_tag_key_def)
    show "\<forall>y\<in>set tags. static_tag_key y = Some (si_tag i) \<longrightarrow> y = t"
      using assms(3) t(1,2)
      by (auto simp: static_tag_key_def distinct_map inj_on_def split: if_splits)
  qed
  with t assms(2,4) show ?thesis
    by (intro bexI [OF _ t(1)]) (auto simp: build_static_item_def Let_def)
qed

theorem static_tag_roundtrip_witness:
  "\<exists>n. \<exists>item :: static_item. pick_tag (delete_request ''AB''\<lparr>si_action := ''add'', si_tag := ''guest''\<rparr>)
      [auto_tag_info ''Guests'' ''guest'' ''10.0.0.9''] = Inr n \<and> sa_tag item = ''guest'' \<and>
      sa_gateway item = ''10.0.0.9''"
proof -
  let ?i = "delete_request ''AB''\<lparr>si_action := ''add'', si_tag := ''guest''\<rparr>"
  let ?tags = "[auto_tag_info ''Guests'' ''guest'' ''10.0.0.9'']"
  have "\<exists>n. pick_tag ?i ?tags = Inr n" by (simp add: auto_tag_info_def Let_def)
  then obtain n where n: "pick_tag ?i ?tags = Inr n" by blast
  have 2: "si_tag ?i \<noteq> []" "distinct (map inf_name ?tags)" by simp_all
  have 3: "trim_space ''AB'' \<noteq> []" by (simp add: trim_space_solid solid_char_def)
  from static_tag_roundtrip [OF n 2 3, of None "[]"] obtain item :: static_item where
      "sa_tag item = ''guest''" "sa_gateway item = ''10.0.0.9''"
    by (auto simp: auto_tag_info_def)
  with n show ?thesis by blast
qed

text \<open>
  When the use case succeeds on a request that is not an empty addition, the store was
  called once, with the addresses and the host name of the request, with \<open>modify\<close> turned
  into \<open>add\<close>, and with the tag of the request or none.
\<close>

theorem static_use_case_calls_store:
  assumes "apply_static_assignment (normalize_tag read_status load_state) store i w = Some (None, w')"
    and "\<not> is_noop_add i"
  shows "\<exists>n w1. store n w1 = (None, w') \<and> si_mac n = si_mac i \<and> si_ip n = si_ip i \<and> si_bind n = si_bind i \<and>
    si_host n = si_host i \<and> si_action n \<in> {''add'', ''delete''} \<and>
    (si_action n = ''delete'' \<longleftrightarrow> si_action i = ''delete'') \<and> (si_tag n = si_tag i \<or> si_tag n = [])"
  by (rule validator.store_input [OF assms])

theorem static_use_case_calls_store_witness:
  "\<exists>n :: static_input. \<exists>w1. (\<lambda>n w. (None, w @ [si_action n])) n w1 = (None, [''delete'']) \<and> si_mac n = ''AB''"
proof -
  have trim: "trim_space ''AB'' = ''AB''" by (simp add: trim_space_solid solid_char_def)
  have 1: "apply_static_assignment (normalize_tag (\<lambda>w. (Inl [], w)) (\<lambda>w. (Inl [], w)))
      (\<lambda>n w. (None, w @ [si_action n])) (delete_request ''AB'') [] = Some (None, [''delete''])"
    by (simp add: apply_static_assignment_def normalize_tag_def delete_request_def trim)
  have 2: "\<not> is_noop_add (delete_request ''AB'')" by (simp add: is_noop_add_def delete_request_def)
  from static_use_case_calls_store [OF 1 2] obtain n :: static_input and w1 where
      "(\<lambda>n w. (None, w @ [si_action n])) n w1 = (None, [''delete''])" "si_mac n = si_mac (delete_request ''AB'')"
    by blast
  then show ?thesis by (intro exI [of _ n] exI [of _ w1]) (simp add: delete_request_def)
qed

end
