(* ===== verification/LanSpeed.thy ===== *)
theory LanSpeed
  imports Shell
begin

text \<open>
  Speed limits and blocked devices of LAN control:
  \<open>backend/service/lan_speed_limit_write_*.go\<close> (plan, command list, store, use case),
  \<open>lan_speed_limit_rule_store.go\<close> (the stored rules) and
  \<open>lan_speed_limited_device_list_*.go\<close> (the merged list). A device is limited by an
  \<open>eqos\<close> section for its address or blocked by a firewall rule for its MAC. Speeds are Go
  \<open>int64\<close>s.
\<close>

section \<open>Data\<close>

record speed_item =
  sp_action :: string
  sp_comment :: string
  sp_download :: int
  sp_enabled :: bool
  sp_ip :: string
  sp_mac :: string
  sp_access :: bool
  sp_upload :: int
  sp_hostname :: string

definition empty_speed_item :: speed_item where
  "empty_speed_item =
     \<lparr>sp_action = [], sp_comment = [], sp_download = 0, sp_enabled = False, sp_ip = [], sp_mac = [],
      sp_access = False, sp_upload = 0, sp_hostname = []\<rparr>"

record speed_write_input =
  swi_action :: string
  swi_ip :: string
  swi_mac :: string
  swi_access :: bool
  swi_upload :: int
  swi_download :: int
  swi_comment :: string

record speed_module_input =
  smi_enabled :: bool
  smi_upload :: int
  smi_download :: int

record rule_match =
  rm_config :: string
  rm_section :: string
  rm_ip :: string
  rm_mac :: string

record speed_write_plan =
  wp_input :: speed_write_input
  wp_delete :: "rule_match list"
  wp_add_speed :: bool
  wp_add_block :: bool

text \<open>\<open>models.DeviceInfo\<close> and the two indexes of the inventory.\<close>

record device_info =
  dv_ip4 :: string
  dv_ip6 :: string
  dv_mac :: string
  dv_name :: string
  dv_type :: string

record speed_inventory =
  inv_by_mac :: "string \<rightharpoonup> device_info"
  inv_by_ip :: "string \<rightharpoonup> device_info"

definition empty_inventory :: speed_inventory where
  "empty_inventory = \<lparr>inv_by_mac = Map.empty, inv_by_ip = Map.empty\<rparr>"

definition normalize_mac :: "string \<Rightarrow> string" where
  "normalize_mac mac = to_upper (trim_space mac)"

section \<open>The stored rules\<close>

definition build_blocked_device_rule :: "string \<Rightarrow> string \<Rightarrow> string \<Rightarrow> speed_item option" where
  "build_blocked_device_rule mac name target =
     (let m = normalize_mac mac in
      if m = [] \<or> \<not> has_prefix name ''BL_'' \<or> target \<noteq> ''REJECT'' then None
      else Some (empty_speed_item\<lparr>sp_mac := m, sp_access := False, sp_enabled := True\<rparr>))"

definition build_speed_limit_rule :: "string \<Rightarrow> string \<Rightarrow> string \<Rightarrow> string \<Rightarrow> speed_item" where
  "build_speed_limit_rule ip upload download comment =
     empty_speed_item\<lparr>sp_ip := ip, sp_upload := fst (parse_int 64 upload),
       sp_download := fst (parse_int 64 download), sp_comment := comment, sp_access := True\<rparr>"

definition blocked_rule_of :: "uci \<Rightarrow> string \<Rightarrow> speed_item option" where
  "blocked_rule_of u sec =
     build_blocked_device_rule (last_or_empty u ''firewall'' sec ''src_mac'')
       (last_or_empty u ''firewall'' sec ''name'') (last_or_empty u ''firewall'' sec ''target'')"

definition read_rule_lists :: "uci \<Rightarrow> (speed_item list \<times> speed_item list) result" where
  "read_rule_lists u =
     (case uci_sections u ''eqos'' ''device'' of
        None \<Rightarrow> Inl ''eqos device section not found''
      | Some eqos \<Rightarrow>
          (case uci_sections u ''firewall'' ''rule'' of
             None \<Rightarrow> Inl ''firewall rule section not found''
           | Some fw \<Rightarrow>
               Inr (List.map_filter (blocked_rule_of u) fw,
                    map (\<lambda>sec. build_speed_limit_rule (last_or_empty u ''eqos'' sec ''ip'')
                           (last_or_empty u ''eqos'' sec ''upload'') (last_or_empty u ''eqos'' sec ''download'')
                           (last_or_empty u ''eqos'' sec ''comment'')) eqos)))"

section \<open>Writing a rule\<close>

definition find_match_by_ip :: "rule_match list \<Rightarrow> string \<Rightarrow> rule_match option" where
  "find_match_by_ip ms ip = find (\<lambda>m. rm_ip m = ip) ms"

definition find_match_by_mac :: "rule_match list \<Rightarrow> string \<Rightarrow> rule_match option" where
  "find_match_by_mac ms mac = find (\<lambda>m. normalize_mac (rm_mac m) = normalize_mac mac) ms"

definition build_blocked_rule_name :: "string \<Rightarrow> string" where
  "build_blocked_rule_name mac = ''BL_'' @ remove_char CHR '':'' (normalize_mac mac)"

definition build_speed_write_plan ::
    "speed_write_input \<Rightarrow> rule_match list \<Rightarrow> rule_match list \<Rightarrow> speed_write_plan" where
  "build_speed_write_plan input eqos firewall =
     \<lparr>wp_input = input,
      wp_delete =
        (case find_match_by_ip eqos (swi_ip input) of None \<Rightarrow> [] | Some m \<Rightarrow> [m]) @
        (case find_match_by_mac firewall (swi_mac input) of None \<Rightarrow> [] | Some m \<Rightarrow> [m]),
      wp_add_speed = (swi_action input \<in> {''add'', ''modify''} \<and> swi_access input),
      wp_add_block = (swi_action input \<in> {''add'', ''modify''} \<and> \<not> swi_access input)\<rparr>"

definition build_speed_write_commands :: "speed_write_input \<Rightarrow> speed_write_plan \<Rightarrow> string list" where
  "build_speed_write_commands input plan =
     concat (map (\<lambda>m. [''uci del '' @ rm_config m @ ''.'' @ rm_section m, ''uci commit '' @ rm_config m])
       (wp_delete plan)) @
     (if wp_add_speed plan then
        [''uci add eqos device'',
         ''uci set eqos.@device[-1].ip='' @ sq (swi_ip input),
         ''uci set eqos.@device[-1].download='' @ sq (fmt_int (swi_download input)),
         ''uci set eqos.@device[-1].upload='' @ sq (fmt_int (swi_upload input)),
         ''uci set eqos.@device[-1].comment='' @ sq (swi_comment input)] else []) @
     (if wp_add_block plan then
        [''uci add firewall rule'',
         ''uci set firewall.@rule[-1].name='' @ sq (build_blocked_rule_name (swi_mac input)),
         ''uci set firewall.@rule[-1].src='' @ sq ''lan'',
         ''uci set firewall.@rule[-1].dest='' @ sq ''wan'',
         ''uci set firewall.@rule[-1].target='' @ sq ''REJECT'',
         ''uci set firewall.@rule[-1].proto='' @ sq ''all'',
         ''uci set firewall.@rule[-1].src_mac='' @ sq (normalize_mac (swi_mac input))] else [])"

definition read_rule_matches :: "uci \<Rightarrow> (rule_match list \<times> rule_match list) result" where
  "read_rule_matches u =
     (case uci_sections u ''eqos'' ''device'' of
        None \<Rightarrow> Inl ''fetch eqos device failed''
      | Some eqos \<Rightarrow>
          (case uci_sections u ''firewall'' ''rule'' of
             None \<Rightarrow> Inl ''fetch firewall rule failed''
           | Some fw \<Rightarrow>
               Inr (map (\<lambda>sec. \<lparr>rm_config = ''eqos'', rm_section = sec,
                           rm_ip = last_or_empty u ''eqos'' sec ''ip'', rm_mac = []\<rparr>) eqos,
                    map (\<lambda>sec. \<lparr>rm_config = ''firewall'', rm_section = sec, rm_ip = [],
                           rm_mac = normalize_mac (last_or_empty u ''firewall'' sec ''src_mac'')\<rparr>)
                      (filter (\<lambda>sec. blocked_rule_of u sec \<noteq> None) fw))))"

definition upsert_speed_limit_rule :: "'w exec \<Rightarrow> ('w \<Rightarrow> uci) \<Rightarrow> speed_write_input \<Rightarrow> 'w eff" where
  "upsert_speed_limit_rule exec cfg input0 w =
     (if swi_action input0 = [] then (Some ''action is required'', w)
      else if swi_action input0 \<noteq> ''delete'' \<and> trim_space (swi_mac input0) = []
      then (Some ''mac is required'', w)
      else
        (let input = input0\<lparr>swi_mac := normalize_mac (swi_mac input0)\<rparr> in
         case read_rule_matches (cfg w) of
           Inl e \<Rightarrow> (Some e, w)
         | Inr (eqos, firewall) \<Rightarrow>
             (let plan = build_speed_write_plan input eqos firewall in
              if wp_delete plan = [] \<and> \<not> wp_add_speed plan \<and> \<not> wp_add_block plan then (None, w)
              else
                (case batch_run exec (build_speed_write_commands (wp_input plan) plan) 0 w of
                   (Some e, w1) \<Rightarrow> (Some e, w1)
                 | (None, w1) \<Rightarrow> uci_commit_and_apply exec [''eqos'', ''firewall''] w1))))"

definition build_speed_module_commands :: "speed_module_input \<Rightarrow> string list" where
  "build_speed_module_commands input =
     [''uci set eqos.@eqos[0].enabled='' @ sq (if smi_enabled input then ''1'' else ''0''),
      ''uci set eqos.@eqos[0].upload='' @ sq (fmt_int (smi_upload input)),
      ''uci set eqos.@eqos[0].download='' @ sq (fmt_int (smi_download input)),
      ''uci commit eqos'']"

definition set_speed_limit_module :: "'w exec \<Rightarrow> speed_module_input \<Rightarrow> 'w eff" where
  "set_speed_limit_module exec input0 w =
     (let input = input0
            \<lparr>smi_download := (if smi_download input0 = 0 then 2000 else smi_download input0),
             smi_upload := (if smi_upload input0 = 0 then 200 else smi_upload input0)\<rparr>
      in case batch_run exec (build_speed_module_commands input) 0 w of
           (Some e, w1) \<Rightarrow> (Some e, w1)
         | (None, w1) \<Rightarrow> uci_commit_and_apply exec [''eqos''] w1)"

section \<open>The merged list\<close>

definition inventory_mac_key :: "device_info \<Rightarrow> string option" where
  "inventory_mac_key d =
     (if dv_mac d = [] \<or> dv_ip4 d = [] then None else Some (normalize_mac (dv_mac d)))"

definition inventory_ip_key :: "device_info \<Rightarrow> string option" where
  "inventory_ip_key d = (if dv_mac d = [] \<or> dv_ip4 d = [] then None else Some (dv_ip4 d))"

definition build_speed_inventory :: "device_info list \<Rightarrow> speed_inventory" where
  "build_speed_inventory devices =
     \<lparr>inv_by_mac = fold_index inventory_mac_key (\<lambda>d. d) devices,
      inv_by_ip = fold_index inventory_ip_key (\<lambda>d. d) devices\<rparr>"

definition hostname_key :: "string \<times> string \<Rightarrow> string option" where
  "hostname_key r = (if fst r = [] then None else Some (normalize_mac (fst r)))"

definition build_speed_hostname_map :: "(string \<times> string) list \<Rightarrow> (string \<rightharpoonup> string)" where
  "build_speed_hostname_map records = fold_index hostname_key snd records"

definition read_speed_hostnames :: "uci \<Rightarrow> (string \<rightharpoonup> string)" where
  "read_speed_hostnames u =
     (case uci_sections u ''dhcp'' ''host'' of
        None \<Rightarrow> Map.empty
      | Some secs \<Rightarrow>
          build_speed_hostname_map
            (map (\<lambda>sec. (last_or_empty u ''dhcp'' sec ''mac'', last_or_empty u ''dhcp'' sec ''name'')) secs))"

definition block_key :: "speed_item \<Rightarrow> string option" where
  "block_key b = (if normalize_mac (sp_mac b) = [] then None else Some (normalize_mac (sp_mac b)))"

definition block_val :: "speed_item \<Rightarrow> speed_item" where
  "block_val b = b\<lparr>sp_mac := normalize_mac (sp_mac b)\<rparr>"

definition remaining_blocks :: "speed_item list \<Rightarrow> (string \<rightharpoonup> speed_item)" where
  "remaining_blocks blocks = fold_index block_key block_val blocks"

text \<open>The loop over the speed limits; a block that is merged is taken out of the table.\<close>

fun merge_speed_items ::
    "speed_inventory \<Rightarrow> speed_item list \<Rightarrow> (string \<rightharpoonup> speed_item)
     \<Rightarrow> speed_item list \<times> (string \<rightharpoonup> speed_item)" where
  "merge_speed_items dev [] left = ([], left)"
| "merge_speed_items dev (s # ss) left =
     (case inv_by_ip dev (sp_ip s) of
        None \<Rightarrow> (let (out, left1) = merge_speed_items dev ss left in (s # out, left1))
      | Some d \<Rightarrow>
          (let m = normalize_mac (dv_mac d); c = s\<lparr>sp_mac := m\<rparr> in
           if left m \<noteq> None then
             (let (out, left1) = merge_speed_items dev ss (left(m := None))
              in (c\<lparr>sp_access := False\<rparr> # out, left1))
           else (let (out, left1) = merge_speed_items dev ss left in (c # out, left1))))"

fun merge_block_items ::
    "speed_inventory \<Rightarrow> (string \<rightharpoonup> speed_item) \<Rightarrow> speed_item list \<Rightarrow> speed_item list" where
  "merge_block_items dev left [] = []"
| "merge_block_items dev left (b # bs) =
     (let m = normalize_mac (sp_mac b) in
      case left m of
        None \<Rightarrow> merge_block_items dev left bs
      | Some r \<Rightarrow>
          (case inv_by_mac dev m of
             None \<Rightarrow> merge_block_items dev left bs
           | Some d \<Rightarrow> r\<lparr>sp_ip := dv_ip4 d\<rparr> # merge_block_items dev left bs))"

definition merge_speed_limited ::
    "speed_item list \<Rightarrow> speed_item list \<Rightarrow> speed_inventory \<Rightarrow> speed_item list" where
  "merge_speed_limited blocks speeds dev =
     (let (out, left) = merge_speed_items dev speeds (remaining_blocks blocks)
      in out @ merge_block_items dev left blocks)"

definition attach_speed_hostnames :: "speed_item list \<Rightarrow> (string \<rightharpoonup> string) \<Rightarrow> speed_item list" where
  "attach_speed_hostnames items names =
     map (\<lambda>i. i\<lparr>sp_hostname := (case names (normalize_mac (sp_mac i)) of None \<Rightarrow> [] | Some n \<Rightarrow> n)\<rparr>) items"

definition list_speed_limited_devices ::
    "uci \<Rightarrow> device_info list result \<Rightarrow> speed_item list result" where
  "list_speed_limited_devices u devices =
     (case read_rule_lists u of
        Inl e \<Rightarrow> Inl e
      | Inr (blocks, speeds) \<Rightarrow>
          (let dev = (case devices of Inl _ \<Rightarrow> empty_inventory | Inr ds \<Rightarrow> build_speed_inventory ds)
           in Inr (attach_speed_hostnames (merge_speed_limited blocks speeds dev) (read_speed_hostnames u))))"

section \<open>Indexes\<close>

interpretation inventory_by_mac: keyed_index inventory_mac_key "\<lambda>d. d" "\<lambda>ds. inv_by_mac (build_speed_inventory ds)"
  unfolding build_speed_inventory_def speed_inventory.simps by (rule keyed_index_fold)

interpretation inventory_by_ip: keyed_index inventory_ip_key "\<lambda>d. d" "\<lambda>ds. inv_by_ip (build_speed_inventory ds)"
  unfolding build_speed_inventory_def speed_inventory.simps by (rule keyed_index_fold)

interpretation speed_hostnames: keyed_index hostname_key snd build_speed_hostname_map
  unfolding build_speed_hostname_map_def [abs_def] by (rule keyed_index_fold)

interpretation blocks: keyed_index block_key block_val remaining_blocks
  unfolding remaining_blocks_def [abs_def] by (rule keyed_index_fold)

section \<open>Facts\<close>

lemma normalize_mac_idem [simp]: "normalize_mac (normalize_mac mac) = normalize_mac mac"
  by (simp add: normalize_mac_def trim_space_upper)

text \<open>
  The firewall rule written to block a device is recognised when the rules are read, as a
  block of the normalised MAC address, and every spelling of that address finds it again; an
  empty address writes a rule that no reader recognises.
\<close>

theorem blocked_rule_roundtrip:
  "build_blocked_device_rule (normalize_mac mac) (build_blocked_rule_name mac) ''REJECT'' =
     (if normalize_mac mac = [] then None
      else Some (empty_speed_item\<lparr>sp_mac := normalize_mac mac, sp_enabled := True\<rparr>)) \<and>
   (find_match_by_mac [\<lparr>rm_config = ''firewall'', rm_section = sec, rm_ip = [], rm_mac = normalize_mac mac\<rparr>] other
      \<noteq> None \<longleftrightarrow> normalize_mac other = normalize_mac mac) \<and>
   (wp_add_block plan \<longrightarrow>
      {''uci set firewall.@rule[-1].name='' @ sq (build_blocked_rule_name (swi_mac input)),
       ''uci set firewall.@rule[-1].target='' @ sq ''REJECT'',
       ''uci set firewall.@rule[-1].src_mac='' @ sq (normalize_mac (swi_mac input))}
      \<subseteq> set (build_speed_write_commands input plan))"
proof -
  have "has_prefix (build_blocked_rule_name mac) ''BL_''"
    by (simp add: build_blocked_rule_name_def has_prefix_def)
  then have "build_blocked_device_rule (normalize_mac mac) (build_blocked_rule_name mac) ''REJECT'' =
     (if normalize_mac mac = [] then None
      else Some (empty_speed_item\<lparr>sp_mac := normalize_mac mac, sp_enabled := True\<rparr>))"
    by (simp add: build_blocked_device_rule_def empty_speed_item_def)
  then show ?thesis
    by (auto simp: find_match_by_mac_def build_speed_write_commands_def)
qed

theorem blocked_rule_roundtrip_witness:
  "{''uci set firewall.@rule[-1].target='' @ sq ''REJECT''} \<subseteq> set (build_speed_write_commands
     \<lparr>swi_action = ''add'', swi_ip = [], swi_mac = ''AB'', swi_access = False, swi_upload = 0, swi_download = 0,
      swi_comment = []\<rparr>
     (build_speed_write_plan
       \<lparr>swi_action = ''add'', swi_ip = [], swi_mac = ''AB'', swi_access = False, swi_upload = 0, swi_download = 0,
        swi_comment = []\<rparr> [] []))"
proof -
  let ?i = "\<lparr>swi_action = ''add'', swi_ip = [], swi_mac = ''AB'', swi_access = False, swi_upload = 0,
    swi_download = 0, swi_comment = []\<rparr>"
  have "wp_add_block (build_speed_write_plan ?i [] [])" by (simp add: build_speed_write_plan_def)
  with blocked_rule_roundtrip [where plan = "build_speed_write_plan ?i [] []" and input = ?i]
  show ?thesis by blast
qed





lemma merge_speed_items_spec:
  "merge_speed_items dev ss left = (out, left1) \<Longrightarrow>
     list_all2 (\<lambda>s t. \<exists>m a. t = s\<lparr>sp_mac := m, sp_access := a\<rparr>) ss out \<and>
     (\<forall>m. left1 m = left m \<or> (left1 m = None \<and> (\<exists>t\<in>set out. sp_mac t = m \<and> \<not> sp_access t)))"
proof (induction ss arbitrary: left out left1)
  case Nil
  then show ?case by simp
next
  case (Cons s ss)
  have keep: "\<exists>m a. s = s\<lparr>sp_mac := m, sp_access := a\<rparr>"
      "\<exists>m' a. s\<lparr>sp_mac := m\<rparr> = s\<lparr>sp_mac := m', sp_access := a\<rparr>" for m
    by (intro exI [of _ "sp_mac s"] exI [of _ "sp_access s"], simp)
      (intro exI [of _ m] exI [of _ "sp_access s"], simp)
  show ?case
  proof (cases "inv_by_ip dev (sp_ip s)")
    case None
    with Cons.prems obtain o1 where o: "merge_speed_items dev ss left = (o1, left1)" "out = s # o1"
      by (auto simp: Let_def split: prod.splits)
    with Cons.IH [OF o(1)] keep show ?thesis by auto
  next
    case (Some d)
    let ?m = "normalize_mac (dv_mac d)"
    show ?thesis
    proof (cases "left ?m = None")
      case True
      with Some Cons.prems obtain o1 where
        o: "merge_speed_items dev ss left = (o1, left1)" "out = s\<lparr>sp_mac := ?m\<rparr> # o1"
        by (auto simp: Let_def split: prod.splits)
      with Cons.IH [OF o(1)] keep show ?thesis by auto
    next
      case False
      with Some Cons.prems obtain o1 where
        o: "merge_speed_items dev ss (left(?m := None)) = (o1, left1)"
          "out = s\<lparr>sp_mac := ?m, sp_access := False\<rparr> # o1"
        by (auto simp: Let_def split: prod.splits)
      have "left1 m = left m \<or> (left1 m = None \<and> (\<exists>t\<in>set out. sp_mac t = m \<and> \<not> sp_access t))" for m
      proof -
        from Cons.IH [OF o(1)] have ih: "left1 m = (left(?m := None)) m \<or>
            (left1 m = None \<and> (\<exists>t\<in>set o1. sp_mac t = m \<and> \<not> sp_access t))"
          by (rule conjunct2 [THEN spec])
        show ?thesis
        proof (cases "m = ?m")
          case True
          with ih have "left1 m = None" by auto
          with True o(2) show ?thesis by auto
        next
          case False
          with ih o(2) show ?thesis by auto
        qed
      qed
      with Cons.IH [OF o(1)] o(2) show ?thesis by auto
    qed
  qed
qed

lemma merge_block_items_mem:
  "b \<in> set bs \<Longrightarrow> left (normalize_mac (sp_mac b)) = Some r \<Longrightarrow>
     inv_by_mac dev (normalize_mac (sp_mac b)) = Some d \<Longrightarrow>
     r\<lparr>sp_ip := dv_ip4 d\<rparr> \<in> set (merge_block_items dev left bs)"
  by (induction bs) (auto simp: Let_def split: option.splits)

text \<open>
  The merged list starts with the speed limits in their stored order, only the MAC address
  and the access flag being filled in, and every blocked device that the inventory knows
  appears in it without network access.
\<close>

theorem merge_speed_limited_complete:
  assumes "\<forall>b\<in>set blocks. \<not> sp_access b"
  shows "list_all2 (\<lambda>s t. \<exists>m a. t = s\<lparr>sp_mac := m, sp_access := a\<rparr>) speeds
      (take (length speeds) (merge_speed_limited blocks speeds dev)) \<and>
    (\<forall>b\<in>set blocks. normalize_mac (sp_mac b) \<noteq> [] \<and> inv_by_mac dev (normalize_mac (sp_mac b)) \<noteq> None \<longrightarrow>
       (\<exists>t\<in>set (merge_speed_limited blocks speeds dev).
          sp_mac t = normalize_mac (sp_mac b) \<and> \<not> sp_access t))"
proof -
  obtain out left where o: "merge_speed_items dev speeds (remaining_blocks blocks) = (out, left)"
    by fastforce
  from merge_speed_items_spec [OF o] have
    spec: "list_all2 (\<lambda>s t. \<exists>m a. t = s\<lparr>sp_mac := m, sp_access := a\<rparr>) speeds out"
      "left m = remaining_blocks blocks m \<or> (left m = None \<and> (\<exists>t\<in>set out. sp_mac t = m \<and> \<not> sp_access t))" for m
    by blast+
  have m: "merge_speed_limited blocks speeds dev = out @ merge_block_items dev left blocks"
    by (simp add: merge_speed_limited_def o)
  have "\<exists>t\<in>set (out @ merge_block_items dev left blocks). sp_mac t = k \<and> \<not> sp_access t"
    if b: "b \<in> set blocks" and k: "k = normalize_mac (sp_mac b)" "k \<noteq> []" "inv_by_mac dev k \<noteq> None" for b k
  proof (cases "left k")
    case None
    from b k(1,2) have "remaining_blocks blocks k \<noteq> None"
      by (auto simp: blocks.index_None_iff block_key_def)
    with spec(2) [of k] None show ?thesis by auto
  next
    case (Some r)
    from k(3) obtain d where d: "inv_by_mac dev k = Some d" by blast
    from spec(2) [of k] Some have "remaining_blocks blocks k = Some r" by auto
    from blocks.index_mem [OF this] obtain b1 where
      b1: "b1 \<in> set blocks" "block_key b1 = Some k" "block_val b1 = r" by blast
    then have "sp_mac r = k" "\<not> sp_access r"
      using assms by (auto simp: block_key_def block_val_def split: if_splits)
    moreover have "r\<lparr>sp_ip := dv_ip4 d\<rparr> \<in> set (merge_block_items dev left blocks)"
      by (rule merge_block_items_mem [OF b]) (use Some d k(1) in simp_all)
    ultimately show ?thesis
      by (intro bexI [of _ "r\<lparr>sp_ip := dv_ip4 d\<rparr>"]) simp_all
  qed
  then show ?thesis
    unfolding m using spec(1) list_all2_lengthD [OF spec(1)] by simp
qed

theorem merge_speed_limited_complete_witness:
  "\<exists>t\<in>set (merge_speed_limited [empty_speed_item\<lparr>sp_mac := ''AB''\<rparr>] []
       (build_speed_inventory [\<lparr>dv_ip4 = ''10.0.0.2'', dv_ip6 = [], dv_mac = ''AB'', dv_name = [], dv_type = []\<rparr>])).
     sp_mac t = ''AB'' \<and> \<not> sp_access t"
proof -
  let ?b = "empty_speed_item\<lparr>sp_mac := ''AB''\<rparr>"
  let ?d = "\<lparr>dv_ip4 = ''10.0.0.2'', dv_ip6 = [], dv_mac = ''AB'', dv_name = [], dv_type = []\<rparr>"
  have "trim_space ''AB'' = ''AB''" by (simp add: trim_space_solid solid_char_def)
  moreover have "to_upper ''AB'' = ''AB''" by code_simp
  ultimately have n: "normalize_mac ''AB'' = ''AB''" by (simp add: normalize_mac_def)
  have 1: "\<forall>b\<in>set [?b]. \<not> sp_access b" by (simp add: empty_speed_item_def)
  have 2: "inv_by_mac (build_speed_inventory [?d]) ''AB'' \<noteq> None"
    by (simp add: build_speed_inventory_def fold_index_def inventory_mac_key_def n)
  from merge_speed_limited_complete [OF 1, of "[]" "build_speed_inventory [?d]"] 2 n
  show ?thesis by simp
qed

end
