(* ===== verification/LanFloat.thy ===== *)
theory LanFloat
  imports LanDhcp
begin

text \<open>
  The floating gateway and the overview page of LAN control:
  \<open>backend/modules/lancontrol/floatgateway/service.go\<close>,
  \<open>backend/service/lan_float_gateway_write_*.go\<close> and
  \<open>backend/service/lan_global_config_*.go\<close> (the tag list of the page is in \<open>LanDhcp\<close>). The
  result \<open>None\<close> of the overview is the panic of the tag functions on an IPv6 gateway.
\<close>

section \<open>The plan\<close>

record float_input =
  fg_enabled :: bool
  fg_role :: string
  fg_set_ip :: string
  fg_check_ip :: string
  fg_check_url :: string
  fg_timeout :: int

record float_config =
  fc_enabled :: bool
  fc_role :: string
  fc_set_ip :: string
  fc_use_set_ip :: bool
  fc_scalar_check_ip :: string
  fc_use_scalar_check_ip :: bool
  fc_check_url :: string
  fc_timeout :: int
  fc_use_url_probe :: bool
  fc_check_ips :: "string list"

definition empty_float_config :: float_config where
  "empty_float_config =
     \<lparr>fc_enabled = False, fc_role = [], fc_set_ip = [], fc_use_set_ip = False, fc_scalar_check_ip = [],
      fc_use_scalar_check_ip = False, fc_check_url = [], fc_timeout = 0, fc_use_url_probe = False,
      fc_check_ips = []\<rparr>"

record float_state =
  fs_enabled :: bool
  fs_set_ip :: string
  fs_check_ip :: string

record dhcp_cleanup_plan =
  cp_tags :: "string list"
  cp_hosts :: "string list"

definition build_float_config :: "float_input \<Rightarrow> float_config" where
  "build_float_config input =
     (if fg_role input = ''fallback'' then
        empty_float_config
          \<lparr>fc_enabled := fg_enabled input, fc_role := fg_role input, fc_set_ip := fg_set_ip input,
           fc_use_set_ip := True, fc_scalar_check_ip := fg_check_ip input, fc_use_scalar_check_ip := True\<rparr>
      else if fg_role input = ''main'' then
        empty_float_config
          \<lparr>fc_enabled := fg_enabled input, fc_role := fg_role input, fc_set_ip := fg_set_ip input,
           fc_use_set_ip := True, fc_check_url := fg_check_url input, fc_timeout := fg_timeout input,
           fc_use_url_probe := True, fc_check_ips := [fg_check_ip input]\<rparr>
      else empty_float_config)"

definition should_cleanup_dhcp :: "float_state \<Rightarrow> float_input \<Rightarrow> bool" where
  "should_cleanup_dhcp st input \<longleftrightarrow>
     (fs_enabled st \<and> \<not> fg_enabled input) \<or> fs_set_ip st \<noteq> fg_set_ip input \<or>
     fs_check_ip st \<noteq> fg_check_ip input"

text \<open>Hosts are (section, tag) pairs, as in \<open>host_binding\<close>.\<close>

definition build_dhcp_cleanup_plan :: "string list \<Rightarrow> host_binding list \<Rightarrow> dhcp_cleanup_plan" where
  "build_dhcp_cleanup_plan tags hosts =
     (let auto = filter (\<lambda>t. has_prefix t ''t_auto_'') tags in
      \<lparr>cp_tags = auto,
       cp_hosts = map hb_section (filter (\<lambda>h. hb_tag h \<in> set auto) hosts)\<rparr>)"

section \<open>The store and the use case\<close>

definition build_float_config_commands :: "float_config \<Rightarrow> string list" where
  "build_float_config_commands c =
     [''uci del floatip.main'', ''uci commit floatip''] @
     (if fc_role c = [] then []
      else
        [''uci set floatip.main=floatip'',
         ''uci set floatip.main.enabled='' @ sq (if fc_enabled c then ''1'' else ''0''),
         ''uci set floatip.main.role='' @ sq (fc_role c)] @
        (if fc_use_scalar_check_ip c
         then [''uci set floatip.main.check_ip='' @ sq (fc_scalar_check_ip c)] else []) @
        (if fc_use_set_ip c then [''uci set floatip.main.set_ip='' @ sq (fc_set_ip c)] else []) @
        (if fc_use_url_probe c
         then [''uci set floatip.main.check_url='' @ sq (fc_check_url c),
               ''uci set floatip.main.check_url_timeout='' @ sq (fmt_int (fc_timeout c))] else []) @
        map (\<lambda>ip. ''uci add_list floatip.main.check_ip='' @ sq ip) (fc_check_ips c))"

definition build_float_cleanup_commands :: "dhcp_cleanup_plan \<Rightarrow> string list" where
  "build_float_cleanup_commands plan =
     map (\<lambda>s. ''uci del dhcp.'' @ s) (cp_tags plan) @ map (\<lambda>s. ''uci del dhcp.'' @ s) (cp_hosts plan)"

definition read_float_state :: "uci \<Rightarrow> float_state \<times> string list \<times> host_binding list" where
  "read_float_state u =
     (\<lparr>fs_enabled = (fst (atoi (last_or_empty u ''floatip'' ''main'' ''enabled'')) = 1),
       fs_set_ip = last_or_empty u ''floatip'' ''main'' ''set_ip'',
       fs_check_ip = last_or_empty u ''floatip'' ''main'' ''check_ip''\<rparr>,
      sections_or_empty u ''dhcp'' ''tag'', load_host_bindings u)"

definition set_float_gateway :: "'w exec \<Rightarrow> ('w \<Rightarrow> uci) \<Rightarrow> float_input \<Rightarrow> 'w eff" where
  "set_float_gateway exec cfg input w =
     (let (st, tags, hosts) = read_float_state (cfg w);
          cleanup = (if should_cleanup_dhcp st input then build_dhcp_cleanup_plan tags hosts
                     else \<lparr>cp_tags = [], cp_hosts = []\<rparr>);
          cmds = build_float_config_commands (build_float_config input) @ build_float_cleanup_commands cleanup
      in case batch_run exec cmds 0 w of
           (Some e, w1) \<Rightarrow> (Some e, w1)
         | (None, w1) \<Rightarrow> uci_commit_and_apply exec [''floatip'', ''dhcp'', ''dnsmasq''] w1)"

section \<open>The overview page\<close>

record float_ip_status =
  fis_installed :: bool
  fis_enabled :: bool
  fis_role :: string
  fis_set_ip :: string
  fis_check_ip :: string
  fis_check_url :: string
  fis_timeout :: int

record speed_limit_status =
  sls_installed :: bool
  sls_enabled :: bool
  sls_upload :: int
  sls_download :: int

definition build_float_ip_status ::
    "bool \<Rightarrow> string \<Rightarrow> string \<Rightarrow> string \<Rightarrow> string \<Rightarrow> string \<Rightarrow> string \<Rightarrow> float_ip_status" where
  "build_float_ip_status installed enabled role set_ip check_ip check_url timeout =
     \<lparr>fis_installed = installed, fis_enabled = (enabled = ''1''), fis_role = role, fis_set_ip = set_ip,
      fis_check_ip = check_ip,
      fis_check_url = (if role = ''main'' then check_url else []),
      fis_timeout = (if role = ''main'' then fst (parse_int 64 timeout) else 0)\<rparr>"

definition build_speed_limit_status :: "bool \<Rightarrow> string \<Rightarrow> string \<Rightarrow> string \<Rightarrow> speed_limit_status" where
  "build_speed_limit_status installed enabled upload download =
     \<lparr>sls_installed = installed, sls_enabled = (enabled = ''1''), sls_upload = fst (parse_int 64 upload),
      sls_download = fst (parse_int 64 download)\<rparr>"

text \<open>\<open>CheckAppIsInstalled\<close> reads the package database: its result is an argument.\<close>

definition read_float_ip_status :: "bool result \<Rightarrow> uci \<Rightarrow> float_ip_status result" where
  "read_float_ip_status installed u =
     (case installed of
        Inl e \<Rightarrow> Inl e
      | Inr i \<Rightarrow>
          Inr (build_float_ip_status i (last_or_empty u ''floatip'' ''main'' ''enabled'')
                 (last_or_empty u ''floatip'' ''main'' ''role'') (last_or_empty u ''floatip'' ''main'' ''set_ip'')
                 (last_or_empty u ''floatip'' ''main'' ''check_ip'') (last_or_empty u ''floatip'' ''main'' ''check_url'')
                 (last_or_empty u ''floatip'' ''main'' ''check_url_timeout'')))"

definition read_speed_limit_status :: "bool \<Rightarrow> uci \<Rightarrow> speed_limit_status" where
  "read_speed_limit_status installed u =
     build_speed_limit_status installed (last_or_empty u ''eqos'' ''@eqos[0]'' ''enabled'')
       (last_or_empty u ''eqos'' ''@eqos[0]'' ''upload'') (last_or_empty u ''eqos'' ''@eqos[0]'' ''download'')"

record gateway_sel =
  gs_title :: string
  gs_gateway :: string

record dhcp_global_config =
  dgc_enabled :: bool
  dgc_gateway :: string
  dgc_sels :: "gateway_sel list"

definition build_dhcp_global_config :: "lan_status \<Rightarrow> dhcp_tag_plan \<Rightarrow> dhcp_global_config" where
  "build_dhcp_global_config ls plan =
     (let gw = (if tp_gateway plan = ls_addr ls then [] else tp_gateway plan);
          myself = \<lparr>gs_title = ''myself'', gs_gateway = []\<rparr>
      in \<lparr>dgc_enabled = tp_enabled plan, dgc_gateway = gw,
          dgc_sels =
            (if gw = [] \<or> gw = ls_nexthop ls then
               (if ls_nexthop ls \<noteq> []
                then [myself, \<lparr>gs_title = ''parent'', gs_gateway = ls_nexthop ls\<rparr>] else [myself])
             else [myself, \<lparr>gs_title = [], gs_gateway = gw\<rparr>])\<rparr>)"

record lan_overview =
  ov_tags :: "dhcp_tag_info list"
  ov_dhcp :: dhcp_global_config
  ov_float :: float_ip_status
  ov_speed :: speed_limit_status

definition get_global_configs ::
    "lan_status result \<Rightarrow> lan_dhcp_state result \<Rightarrow> float_ip_status result \<Rightarrow> speed_limit_status result
     \<Rightarrow> lan_overview result option" where
  "get_global_configs status loaded float speed =
     (case status of
        Inl e \<Rightarrow> Some (Inl e)
      | Inr ls \<Rightarrow>
          (let st = (case loaded of Inl _ \<Rightarrow> empty_dhcp_state | Inr s \<Rightarrow> s) in
           case float of
             Inl e \<Rightarrow> Some (Inl e)
           | Inr fl \<Rightarrow>
               (case speed of
                  Inl e \<Rightarrow> Some (Inl e)
                | Inr sp \<Rightarrow>
                    Option.bind (build_auto_dhcp_plan ls (Some st)) (\<lambda>plan.
                      map_option (\<lambda>tags. Inr \<lparr>ov_tags = tags, ov_dhcp = build_dhcp_global_config ls plan,
                                              ov_float = fl, ov_speed = sp\<rparr>)
                        (build_global_dhcp_tags ls (Some st))))))"

section \<open>Facts\<close>

lemma float_cleanup_line:
  "''uci del dhcp.'' @ s \<in> set (build_float_cleanup_commands plan) \<longleftrightarrow> s \<in> set (cp_tags plan) \<union> set (cp_hosts plan)"
  by (auto simp: build_float_cleanup_commands_def)

lemma float_config_no_dhcp:
  "''uci del dhcp.'' @ s \<notin> set (build_float_config_commands c)"
  by (auto simp: build_float_config_commands_def)

definition float_commands :: "uci \<Rightarrow> float_input \<Rightarrow> string list" where
  "float_commands u input =
     (let (st, tags, hosts) = read_float_state u in
      build_float_config_commands (build_float_config input) @
      build_float_cleanup_commands
        (if should_cleanup_dhcp st input then build_dhcp_cleanup_plan tags hosts
         else \<lparr>cp_tags = [], cp_hosts = []\<rparr>))"

lemma set_float_gateway_commands:
  "set_float_gateway exec cfg input w =
     (case batch_run exec (float_commands (cfg w) input) 0 w of
        (Some e, w1) \<Rightarrow> (Some e, w1)
      | (None, w1) \<Rightarrow> uci_commit_and_apply exec [''floatip'', ''dhcp'', ''dnsmasq''] w1)"
  by (simp add: set_float_gateway_def float_commands_def Let_def split: prod.splits)

text \<open>
  C30. When the floating gateway is switched off or one of its addresses changes, the commands
  delete exactly the sections of the automatic DHCP tags (those named by \<open>ipToDhcpTag\<close> among
  them) and the hosts bound to one of them; otherwise no DHCP section is deleted.
\<close>

theorem float_gateway_cleanup:
  "(let u = cfg w; (st, tags, hosts) = read_float_state u; cmds = float_commands u input;
        gone = {s. ''uci del dhcp.'' @ s \<in> set cmds} in
    gone = (if should_cleanup_dhcp st input
            then {t \<in> set tags. has_prefix t ''t_auto_''} \<union>
                 {hb_section h |h. h \<in> set hosts \<and> hb_tag h \<in> set tags \<and> has_prefix (hb_tag h) ''t_auto_''}
            else {}) \<and>
    {t \<in> set tags. should_cleanup_dhcp st input \<and> t \<noteq> [] \<and> (\<exists>ip. ip_to_dhcp_tag ip = Some t)} \<subseteq> gone \<and>
    set_float_gateway exec cfg input w =
      (case batch_run exec cmds 0 w of
         (Some e, w1) \<Rightarrow> (Some e, w1)
       | (None, w1) \<Rightarrow> uci_commit_and_apply exec [''floatip'', ''dhcp'', ''dnsmasq''] w1))"
proof -
  obtain st tags hosts where r: "read_float_state (cfg w) = (st, tags, hosts)"
    by (cases "read_float_state (cfg w)")
  have gone: "{s. ''uci del dhcp.'' @ s \<in> set (float_commands (cfg w) input)} =
      (if should_cleanup_dhcp st input
       then {t \<in> set tags. has_prefix t ''t_auto_''} \<union>
            {hb_section h |h. h \<in> set hosts \<and> hb_tag h \<in> set tags \<and> has_prefix (hb_tag h) ''t_auto_''}
       else {})"
    unfolding float_commands_def r
    by (auto simp: float_cleanup_line float_config_no_dhcp build_dhcp_cleanup_plan_def simp del: append.simps append_Cons)
  show ?thesis
    unfolding Let_def r prod.case gone
    by (auto simp: set_float_gateway_commands dest: ip_to_dhcp_tag_prefix)
qed

text \<open>
  The page offers at most two gateways without repetition, the router itself first; the
  gateway that is set is one of them, and the LAN address is shown as the router itself.
\<close>

theorem overview_gateway_offered:
  "(let c = build_dhcp_global_config ls plan; offered = map gs_gateway (dgc_sels c) in
    hd offered = [] \<and> length offered \<le> 2 \<and> distinct offered \<and> dgc_gateway c \<in> set offered \<and>
    dgc_gateway c = (if tp_gateway plan = ls_addr ls then [] else tp_gateway plan))"
  by (auto simp: build_dhcp_global_config_def Let_def)

end
