(* ===== verification/ByteCount.thy ===== *)
theory ByteCount
  imports GoStrings "HOL-Library.Word"
begin

text \<open>
  \<open>backend/utils/byte.go\<close>: the text of a number of bytes. \<open>%.1f\<close> of the quotient of two
  64-bit floating point numbers is modelled exactly: both conversions, the division and the
  decimal rounding round to nearest, ties to even.
\<close>

section \<open>Floating point quotients\<close>

fun bit_len :: "nat \<Rightarrow> nat" where
  "bit_len n = (if n = 0 then 0 else Suc (bit_len (n div 2)))"

declare bit_len.simps [simp del]

definition round_even :: "nat \<Rightarrow> nat \<Rightarrow> nat" where
  "round_even a b =
     (let q = a div b; r = a mod b in
      if 2 * r < b then q else if 2 * r > b then q + 1 else if even q then q else q + 1)"

definition float64_of :: "nat \<Rightarrow> nat" where
  "float64_of n = (if n < 2 ^ 53 then n else (let s = bit_len n - 53 in round_even n (2 ^ s) * 2 ^ s))"

text \<open>The tenths printed for \<open>float64(b) / float64(d)\<close>, when the quotient is at least 1.\<close>

definition quotient_tenths :: "nat \<Rightarrow> nat \<Rightarrow> nat" where
  "quotient_tenths b d =
     (let fb = float64_of b; fd = float64_of d; s = 53 - bit_len (fb div fd);
          m = round_even (fb * 2 ^ s) fd
      in round_even (10 * m) (2 ^ s))"

definition fmt_tenths :: "nat \<Rightarrow> string" where
  "fmt_tenths t = fmt_nat (t div 10) @ ''.'' @ fmt_nat (t mod 10)"

section \<open>Byte counts\<close>

text \<open>The loop \<open>for n := b / unit; n >= unit; n /= unit\<close>, returning \<open>div\<close> and \<open>exp\<close>.\<close>

function byte_unit :: "nat \<Rightarrow> nat \<Rightarrow> nat \<Rightarrow> nat \<Rightarrow> nat \<times> nat" where
  "byte_unit unit n dv ex =
     (if unit < 2 \<or> n < unit then (dv, ex) else byte_unit unit (n div unit) (dv * unit) (ex + 1))"
  by auto
termination
  by (relation "measure (\<lambda>(unit, n, dv, ex). n)") auto

declare byte_unit.simps [simp del]

definition byte_count :: "nat \<Rightarrow> string \<Rightarrow> 64 word \<Rightarrow> string" where
  "byte_count unit suffix w =
     (let b = unat w in
      if b < unit then fmt_nat b @ '' B''
      else (let (dv, ex) = byte_unit unit (b div unit) unit 0
            in fmt_tenths (quotient_tenths b dv) @ '' '' @ [''KMGTPE'' ! ex] @ suffix))"

definition byte_count_decimal :: "64 word \<Rightarrow> string" where
  "byte_count_decimal w = byte_count 1000 ''B'' w"

definition byte_count_binary :: "64 word \<Rightarrow> string" where
  "byte_count_binary w = byte_count 1024 ''iB'' w"

text \<open>\<open>PartedByteCountBinary\<close>: the unit that \<open>parted\<close> takes.\<close>

definition parted_byte_count :: "64 word \<Rightarrow> string" where
  "parted_byte_count w = fmt_nat (unat w) @ ''B''"

text \<open>The rate the pages show for a speed; Go converts the \<open>int64\<close> to \<open>uint64\<close>.\<close>

definition speed_text :: "int \<Rightarrow> string" where
  "speed_text v = byte_count_decimal (word_of_int v) @ ''/s''"

section \<open>Facts\<close>

lemma byte_unit_spec:
  assumes "2 \<le> unit" "0 < n"
  shows "\<exists>k. byte_unit unit n dv ex = (dv * unit ^ k, ex + k) \<and> unit ^ k \<le> n \<and> n < unit ^ Suc k"
  using assms
proof (induction unit n dv ex rule: byte_unit.induct)
  case (1 unit n dv ex)
  show ?case
  proof (cases "n < unit")
    case True
    with 1(2,3) show ?thesis
      by (intro exI [of _ 0]) (simp add: byte_unit.simps [of unit n])
  next
    case False
    with 1(2) have "0 < n div unit" by (simp add: div_greater_zero_iff)
    with 1(1) False 1(2) obtain k where
      k: "byte_unit unit (n div unit) (dv * unit) (ex + 1) = (dv * unit * unit ^ k, ex + 1 + k)"
        "unit ^ k \<le> n div unit" "n div unit < unit ^ Suc k" by auto
    have "byte_unit unit n dv ex = byte_unit unit (n div unit) (dv * unit) (ex + 1)"
      using False 1(2) by (simp add: byte_unit.simps [of unit n])
    moreover have "unit ^ Suc k \<le> n"
      using k(2) 1(2) by (simp add: less_eq_div_iff_mult_less_eq mult.commute)
    moreover have "n < unit ^ Suc (Suc k)"
      using k(3) 1(2) by (simp add: div_less_iff_less_mult mult.commute mult.left_commute)
    ultimately show ?thesis using k(1) by (intro exI [of _ "Suc k"]) simp
  qed
qed

lemma unit_exponent:
  assumes "2 \<le> unit" "unit \<le> b" "b < 2 ^ 64" "2 ^ 64 \<le> unit ^ 7"
  shows "\<exists>k<6. byte_unit unit (b div unit) unit 0 = (unit ^ Suc k, k) \<and>
    unit ^ Suc k \<le> b \<and> b < unit ^ Suc (Suc k)"
proof -
  from assms(1,2) have "0 < b div unit" by (simp add: div_greater_zero_iff)
  from byte_unit_spec [OF assms(1) this, of unit 0] obtain k where
    k: "byte_unit unit (b div unit) unit 0 = (unit * unit ^ k, 0 + k)"
      "unit ^ k \<le> b div unit" "b div unit < unit ^ Suc k" by blast
  have lo: "unit ^ Suc k \<le> b"
    using k(2) assms(1) by (simp add: less_eq_div_iff_mult_less_eq mult.commute)
  have hi: "b < unit ^ Suc (Suc k)"
    using k(3) assms(1) by (simp add: div_less_iff_less_mult mult.commute mult.left_commute)
  have "k < 6"
  proof (rule ccontr)
    assume "\<not> k < 6"
    then have "unit ^ 7 \<le> unit ^ Suc k" using assms(1) by (intro power_increasing) simp_all
    with lo assms(3,4) show False by linarith
  qed
  with k(1) lo hi show ?thesis by (intro exI [of _ k]) simp
qed

lemma byte_count_unit:
  fixes w :: "64 word"
  assumes "unit = 1000 \<or> unit = 1024" "\<not> unat w < unit"
  shows "\<exists>k<6. byte_unit unit (unat w div unit) unit 0 = (unit ^ Suc k, k) \<and>
    unit ^ Suc k \<le> unat w \<and> unat w < unit ^ Suc (Suc k)"
proof (rule unit_exponent)
  show "unat w < 2 ^ 64" using unsigned_less [of w] by simp
qed (use assms in auto)

lemma byte_count_unit_ok:
  fixes w :: "64 word"
  assumes u: "unit = 1000 \<or> unit = 1024"
  shows "unat w < unit \<or>
    (\<exists>k. byte_unit unit (unat w div unit) unit 0 = (unit ^ Suc k, k) \<and> k < length ''KMGTPE'' \<and>
       unit ^ Suc k \<le> unat w \<and> unat w < unit ^ Suc (Suc k) \<and> unit ^ Suc k < 2 ^ 63)"
proof (cases "unat w < unit")
  case False
  with byte_count_unit [of unit w] u obtain k where k: "k < 6"
    "byte_unit unit (unat w div unit) unit 0 = (unit ^ Suc k, k)"
    "unit ^ Suc k \<le> unat w" "unat w < unit ^ Suc (Suc k)" by auto
  have "unit ^ Suc k \<le> unit ^ 6" using k(1) u by (intro power_increasing) auto
  also have "\<dots> < 2 ^ 63" using u by auto
  finally show ?thesis using k by auto
qed simp

text \<open>
  For every 64-bit count of at least one unit the loop picks the greatest power of the unit
  (1000 or 1024) that the count reaches, the index into \<open>KMGTPE\<close> is in range, and the divisor
  is an \<open>int64\<close>: the text never panics and never divides by a wrapped number.
\<close>

theorem byte_count_in_range:
  fixes w :: "64 word"
  shows "(unat w < 1000 \<or>
     (\<exists>k. byte_unit 1000 (unat w div 1000) 1000 0 = (1000 ^ Suc k, k) \<and> k < length ''KMGTPE'' \<and>
        1000 ^ Suc k \<le> unat w \<and> unat w < 1000 ^ Suc (Suc k) \<and> (1000 :: nat) ^ Suc k < 2 ^ 63)) \<and>
    (unat w < 1024 \<or>
     (\<exists>k. byte_unit 1024 (unat w div 1024) 1024 0 = (1024 ^ Suc k, k) \<and> k < length ''KMGTPE'' \<and>
        1024 ^ Suc k \<le> unat w \<and> unat w < 1024 ^ Suc (Suc k) \<and> (1024 :: nat) ^ Suc k < 2 ^ 63))"
  using byte_count_unit_ok [of 1000 w] byte_count_unit_ok [of 1024 w] by blast

text \<open>The decimal rounding can reach the next unit: a count just below it shows 1000.\<close>

lemma byte_unit_999999: "byte_unit 1000 999 1000 0 = (1000,0)" by (simp add: byte_unit.simps)
lemma bit_len_999: "bit_len 999 = 10" by (simp add: bit_len.simps)
lemma quotient_999999: "quotient_tenths 999999 1000 = 10000"
  by (simp add: quotient_tenths_def float64_of_def bit_len_999 round_even_def)
lemma byte_count_rounds_up: "byte_count_decimal 999999 = ''1000.0 KB''"
  by (simp add: byte_count_decimal_def byte_count_def byte_unit_999999 quotient_999999 fmt_tenths_def number_eval)

end
