(* ===== verification/LanDevices.thy ===== *)
theory LanDevices
  imports LanStatic LanSpeed ByteCount
begin

text \<open>
  The device list of LAN control: \<open>backend/service/lan_device_list_*.go\<close>. Every device of
  the inventory is enriched from five tables (host hints, wireless stations, static
  assignments, traffic, speed limits), each of which is empty when its reader fails. The
  vendor lookup \<open>GomanufSearch\<close> is a parameter.
\<close>

section \<open>Data\<close>

record lan_device =
  ld_download :: int
  ld_download_str :: string
  ld_host_img :: string
  ld_hostname :: string
  ld_intr :: string
  ld_ip :: string
  ld_mac :: string
  ld_vendor :: string
  ld_speed :: "speed_item option"
  ld_static :: "static_item option"
  ld_upload :: int
  ld_upload_str :: string

record traffic_stat =
  ts_upload :: int
  ts_download :: int

record device_state =
  as_devices :: "lan_device list"
  as_hints :: "string \<rightharpoonup> string"
  as_wifi :: "string set"
  as_traffic :: "string \<rightharpoonup> traffic_stat"
  as_static :: "string \<rightharpoonup> static_item"
  as_blocks :: "string \<rightharpoonup> speed_item"
  as_speeds :: "string \<rightharpoonup> speed_item"

definition empty_static_item :: static_item where
  "empty_static_item =
     \<lparr>sa_ip = [], sa_mac = [], sa_bind = False, sa_gateway = [], sa_host = [], sa_tag = [], sa_title = []\<rparr>"

section \<open>The inventory\<close>

definition build_device_inventory_item ::
    "(string \<Rightarrow> string) \<Rightarrow> string \<Rightarrow> string \<Rightarrow> lan_device option" where
  "build_device_inventory_item vendor ip0 mac0 =
     (let ip = trim_space ip0; mac = to_upper (trim_space mac0) in
      if ip = [] \<or> mac = [] then None
      else Some
        \<lparr>ld_download = 0, ld_download_str = [], ld_host_img = [], ld_hostname = [], ld_intr = ''lan'',
         ld_ip = ip, ld_mac = mac, ld_vendor = vendor (trim_space mac),
         ld_speed = Some (empty_speed_item\<lparr>sp_ip := ip, sp_mac := mac, sp_access := True\<rparr>),
         ld_static = Some (empty_static_item\<lparr>sa_mac := mac, sa_ip := ip\<rparr>),
         ld_upload = 0, ld_upload_str = []\<rparr>)"


section \<open>The tables\<close>

text \<open>
  The pattern \<open>^(.+)\.\<close>: the longest non-empty part of the first line that is followed by a
  dot.
\<close>

definition build_host_hint_hostname :: "string \<Rightarrow> string" where
  "build_host_hint_hostname name =
     (let line = takeWhile (\<lambda>c. c \<noteq> newline) name;
          r = dropWhile (\<lambda>c. c \<noteq> CHR ''.'') (rev line)
      in if r = [] then [] else rev (tl r))"

text \<open>
  \<open>raw\<close> is the answer of ubus as a list of its entries; two entries whose addresses have
  the same normal form are merged in the iteration order of a Go map, here the list's.
\<close>

definition build_best_effort_host_hints :: "(string \<times> string) list result \<Rightarrow> (string \<rightharpoonup> string)" where
  "build_best_effort_host_hints raw =
     (case raw of
        Inl _ \<Rightarrow> Map.empty
      | Inr hints \<Rightarrow>
          fold_index (\<lambda>h. Some (normalize_mac (fst h))) (\<lambda>h. build_host_hint_hostname (snd h)) hints)"

definition static_item_key :: "static_item \<Rightarrow> string option" where
  "static_item_key i = (if sa_mac i = [] then None else Some (sa_mac i))"

definition build_best_effort_static :: "static_item list result \<Rightarrow> (string \<rightharpoonup> static_item)" where
  "build_best_effort_static items =
     (case items of Inl _ \<Rightarrow> Map.empty | Inr xs \<Rightarrow> fold_index static_item_key (\<lambda>i. i) xs)"

definition block_item_key :: "speed_item \<Rightarrow> string option" where
  "block_item_key i = (if sp_mac i = [] then None else Some (sp_mac i))"

definition speed_item_key :: "speed_item \<Rightarrow> string option" where
  "speed_item_key i = (if sp_ip i = [] then None else Some (sp_ip i))"

definition build_best_effort_speed_maps ::
    "(speed_item list \<times> speed_item list) result \<Rightarrow> (string \<rightharpoonup> speed_item) \<times> (string \<rightharpoonup> speed_item)" where
  "build_best_effort_speed_maps r =
     (case r of
        Inl _ \<Rightarrow> (Map.empty, Map.empty)
      | Inr (blocks, speeds) \<Rightarrow>
          (fold_index block_item_key (\<lambda>i. i) blocks, fold_index speed_item_key (\<lambda>i. i) speeds))"


section \<open>The merge\<close>

definition merge_host_hint :: "(string \<rightharpoonup> string) \<Rightarrow> lan_device \<Rightarrow> lan_device" where
  "merge_host_hint hints d =
     (case hints (ld_mac d) of
        None \<Rightarrow> d
      | Some h \<Rightarrow> if h = [] then d else d\<lparr>ld_hostname := h\<rparr>)"

definition merge_wifi_assoc :: "string set \<Rightarrow> lan_device \<Rightarrow> lan_device" where
  "merge_wifi_assoc macs d = (if ld_mac d \<in> macs then d\<lparr>ld_intr := ''wifi''\<rparr> else d)"

definition ensure_static_assigned :: "lan_device \<Rightarrow> static_item" where
  "ensure_static_assigned d =
     (case ld_static d of
        Some i \<Rightarrow> i\<lparr>sa_ip := (if sa_ip i = [] then ld_ip d else sa_ip i),
                    sa_mac := (if sa_mac i = [] then ld_mac d else sa_mac i)\<rparr>
      | None \<Rightarrow> empty_static_item\<lparr>sa_ip := ld_ip d, sa_mac := ld_mac d\<rparr>)"

definition merge_static_assignment :: "(string \<rightharpoonup> static_item) \<Rightarrow> lan_device \<Rightarrow> lan_device" where
  "merge_static_assignment tab d =
     (case tab (ld_mac d) of
        None \<Rightarrow> d
      | Some v \<Rightarrow>
          (let own = ensure_static_assigned d;
               attached = v\<lparr>sa_ip := sa_ip own, sa_mac := sa_mac own\<rparr>;
               d1 = d\<lparr>ld_static := Some attached\<rparr>
           in if sa_host attached \<noteq> [] then d1\<lparr>ld_hostname := sa_host attached\<rparr> else d1))"

definition merge_traffic_stat ::
    "(string \<rightharpoonup> traffic_stat) \<Rightarrow> lan_device \<Rightarrow> lan_device" where
  "merge_traffic_stat tab d =
     (case tab (ld_ip d) of
        None \<Rightarrow> d
      | Some v \<Rightarrow>
          d\<lparr>ld_upload := ts_upload v, ld_download := ts_download v,
            ld_upload_str := speed_text (ts_upload v), ld_download_str := speed_text (ts_download v)\<rparr>)"

definition ensure_speed_limit :: "lan_device \<Rightarrow> speed_item" where
  "ensure_speed_limit d =
     (case ld_speed d of
        Some i \<Rightarrow> i\<lparr>sp_ip := (if sp_ip i = [] then ld_ip d else sp_ip i),
                    sp_mac := (if sp_mac i = [] then ld_mac d else sp_mac i)\<rparr>
      | None \<Rightarrow> empty_speed_item\<lparr>sp_ip := ld_ip d, sp_mac := ld_mac d, sp_access := True\<rparr>)"

definition merge_speed_limit ::
    "(string \<rightharpoonup> speed_item) \<Rightarrow> (string \<rightharpoonup> speed_item) \<Rightarrow> lan_device \<Rightarrow> lan_device" where
  "merge_speed_limit blocks speeds d =
     (let own = ensure_speed_limit d in
      d\<lparr>ld_speed := Some
        (case (blocks (ld_mac d), speeds (ld_ip d)) of
           (Some b, Some s) \<Rightarrow>
             own\<lparr>sp_ip := sp_ip s, sp_mac := sp_mac b, sp_upload := sp_upload s, sp_download := sp_download s,
                 sp_comment := sp_comment s, sp_access := False, sp_enabled := True\<rparr>
         | (None, Some s) \<Rightarrow>
             own\<lparr>sp_ip := sp_ip s, sp_upload := sp_upload s, sp_download := sp_download s,
                 sp_comment := sp_comment s, sp_access := True, sp_enabled := True\<rparr>
         | (Some b, None) \<Rightarrow> own\<lparr>sp_mac := sp_mac b, sp_access := False, sp_enabled := True\<rparr>
         | (None, None) \<Rightarrow> own)\<rparr>)"

definition merge_device :: "device_state \<Rightarrow> lan_device \<Rightarrow> lan_device" where
  "merge_device st d =
     merge_speed_limit (as_blocks st) (as_speeds st)
       (merge_traffic_stat (as_traffic st)
         (merge_static_assignment (as_static st)
           (merge_wifi_assoc (as_wifi st) (merge_host_hint (as_hints st) d))))"



interpretation hints: keyed_index "\<lambda>h. Some (normalize_mac (fst h))" "\<lambda>h. build_host_hint_hostname (snd h)"
    "\<lambda>xs. build_best_effort_host_hints (Inr xs)"
  unfolding build_best_effort_host_hints_def sum.case by (rule keyed_index_fold)

interpretation statics: keyed_index static_item_key "\<lambda>i. i" "\<lambda>xs. build_best_effort_static (Inr xs)"
  unfolding build_best_effort_static_def sum.case by (rule keyed_index_fold)


interpretation speed_map: keyed_index speed_item_key "\<lambda>i. i"
    "\<lambda>xs. snd (build_best_effort_speed_maps (Inr ([], xs)))"
  unfolding build_best_effort_speed_maps_def sum.case prod.case snd_conv by (rule keyed_index_fold)

section \<open>Facts\<close>

lemma merge_steps_keep [simp]:
  "ld_ip (merge_host_hint h d) = ld_ip d" "ld_mac (merge_host_hint h d) = ld_mac d"
  "ld_speed (merge_host_hint h d) = ld_speed d" "ld_static (merge_host_hint h d) = ld_static d"
  "ld_ip (merge_wifi_assoc m d) = ld_ip d" "ld_mac (merge_wifi_assoc m d) = ld_mac d"
  "ld_speed (merge_wifi_assoc m d) = ld_speed d" "ld_static (merge_wifi_assoc m d) = ld_static d"
  "ld_ip (merge_static_assignment s d) = ld_ip d" "ld_mac (merge_static_assignment s d) = ld_mac d"
  "ld_speed (merge_static_assignment s d) = ld_speed d"
  "ld_ip (merge_traffic_stat t d) = ld_ip d" "ld_mac (merge_traffic_stat t d) = ld_mac d"
  "ld_speed (merge_traffic_stat t d) = ld_speed d" "ld_static (merge_traffic_stat t d) = ld_static d"
  "ld_ip (merge_speed_limit b sp d) = ld_ip d" "ld_mac (merge_speed_limit b sp d) = ld_mac d"
  "ld_static (merge_speed_limit b sp d) = ld_static d"
  by (simp_all add: merge_host_hint_def merge_wifi_assoc_def merge_static_assignment_def
      merge_traffic_stat_def merge_speed_limit_def Let_def split: option.splits)

lemma inventory_item:
  assumes "build_device_inventory_item vendor ip mac = Some d"
  shows "ld_ip d = trim_space ip" "ld_mac d = normalize_mac mac" "ld_mac d \<noteq> []" "ld_ip d \<noteq> []"
    "ld_speed d = Some (empty_speed_item\<lparr>sp_ip := ld_ip d, sp_mac := ld_mac d, sp_access := True\<rparr>)"
    "ld_static d = Some (empty_static_item\<lparr>sa_mac := ld_mac d, sa_ip := ld_ip d\<rparr>)"
  using assms by (auto simp: build_device_inventory_item_def normalize_mac_def Let_def split: if_splits)

lemma merge_device_row:
  assumes "build_device_inventory_item vendor ip mac = Some d"
  shows "(let row = merge_device st d; sp = the (ld_speed row); own = the (ld_static row) in
    ld_ip row = trim_space ip \<and> ld_mac row = normalize_mac mac \<and>
    sa_ip own = ld_ip row \<and> sa_mac own = ld_mac row \<and>
    sp_access sp = (as_blocks st (ld_mac row) = None) \<and>
    sp_enabled sp = (as_blocks st (ld_mac row) \<noteq> None \<or> as_speeds st (ld_ip row) \<noteq> None) \<and>
    sp_upload sp = (case as_speeds st (ld_ip row) of None \<Rightarrow> 0 | Some s \<Rightarrow> sp_upload s) \<and>
    sp_download sp = (case as_speeds st (ld_ip row) of None \<Rightarrow> 0 | Some s \<Rightarrow> sp_download s))"
proof -
  note d = inventory_item [OF assms]
  have st: "\<exists>i. ld_static (merge_static_assignment tab e) = Some i \<and> sa_ip i = ld_ip e \<and> sa_mac i = ld_mac e"
    if "ld_static e = Some (empty_static_item\<lparr>sa_mac := ld_mac e, sa_ip := ld_ip e\<rparr>)" for tab e
    using that by (auto simp: merge_static_assignment_def ensure_static_assigned_def Let_def split: option.splits)
  have "\<exists>i. ld_static (merge_device st d) = Some i \<and> sa_ip i = ld_ip d \<and> sa_mac i = ld_mac d"
    using st [of "merge_wifi_assoc (as_wifi st) (merge_host_hint (as_hints st) d)" "as_static st"] d(6)
    by (simp add: merge_device_def)
  then obtain i where i: "ld_static (merge_device st d) = Some i" "sa_ip i = ld_ip d" "sa_mac i = ld_mac d"
    by blast
  have keep: "ld_ip (merge_device st d) = ld_ip d" "ld_mac (merge_device st d) = ld_mac d"
    by (simp_all add: merge_device_def)
  have sp: "ensure_speed_limit e = empty_speed_item\<lparr>sp_ip := ld_ip e, sp_mac := ld_mac e, sp_access := True\<rparr>"
    if "ld_speed e = Some (empty_speed_item\<lparr>sp_ip := ld_ip e, sp_mac := ld_mac e, sp_access := True\<rparr>)" for e
    using that by (simp add: ensure_speed_limit_def)
  show ?thesis
    unfolding Let_def keep i(1) option.sel
    using i(2,3) d(1,2,5)
    by (simp add: merge_device_def merge_speed_limit_def sp Let_def empty_speed_item_def split: option.splits)
qed

text \<open>
  A row of the device list keeps the address and the MAC of the inventory, also in its
  static assignment; it is shown without network access exactly when the table of blocks has
  its MAC, and its limits are those of the speed table for its address, zero when there are
  none.
\<close>

theorem device_row:
  assumes "build_device_inventory_item vendor ip mac = Some d"
  shows "(let row = merge_device st d; sp = the (ld_speed row); own = the (ld_static row) in
    ld_ip row = trim_space ip \<and> ld_mac row = normalize_mac mac \<and>
    sa_ip own = ld_ip row \<and> sa_mac own = ld_mac row \<and>
    sp_access sp = (as_blocks st (ld_mac row) = None) \<and>
    sp_enabled sp = (as_blocks st (ld_mac row) \<noteq> None \<or> as_speeds st (ld_ip row) \<noteq> None) \<and>
    sp_upload sp = (case as_speeds st (ld_ip row) of None \<Rightarrow> 0 | Some s \<Rightarrow> sp_upload s) \<and>
    sp_download sp = (case as_speeds st (ld_ip row) of None \<Rightarrow> 0 | Some s \<Rightarrow> sp_download s))"
  by (rule merge_device_row [OF assms])

definition sample_state :: device_state where
  "sample_state = \<lparr>as_devices = [], as_hints = Map.empty, as_wifi = {}, as_traffic = Map.empty,
     as_static = Map.empty, as_blocks = Map.empty, as_speeds = Map.empty\<rparr>"

theorem device_row_witness:
  "\<exists>d. build_device_inventory_item (\<lambda>_. []) ''10.0.0.2'' ''AB'' = Some d \<and>
     sp_access (the (ld_speed (merge_device sample_state d)))"
proof -
  have trim: "trim_space ''AB'' = ''AB''" "trim_space ''10.0.0.2'' = ''10.0.0.2''"
    by (simp_all add: trim_space_solid solid_char_def)
  have "to_upper ''AB'' \<noteq> []" by simp
  then have "\<exists>d. build_device_inventory_item (\<lambda>_. []) ''10.0.0.2'' ''AB'' = Some d"
    by (simp add: build_device_inventory_item_def trim Let_def)
  then obtain d where d: "build_device_inventory_item (\<lambda>_. []) ''10.0.0.2'' ''AB'' = Some d" by blast
  from device_row [OF d, of sample_state] d show ?thesis
    by (simp add: Let_def sample_state_def)
qed





end
