(* ===== verification/Stats.thy ===== *)
theory Stats
  imports Prelude ByteCount
begin

text \<open>
  Traffic statistics: \<open>backend/service/wan_stats.go\<close>, \<open>backend/service/lan_stats_linux.go\<close> and
  \<open>backend/modules/lancontrol/speedstats/service.go\<close>. A sampler goroutine answers requests
  and samples the counters on a timer; it stops by itself when nobody asks. Each pass of its
  loop is a step: a request or a tick. Times are nanoseconds of a monotonic clock, 0 being
  the zero \<open>time.Time\<close>; what the outside returns (the outbound device, its counters, the
  conntrack flows) is an argument of the step.
\<close>

section \<open>Samples\<close>

record stat_item =
  it_start :: int
  it_end :: int
  it_tx_start :: int
  it_rx_start :: int
  it_tx_avg :: int
  it_rx_avg :: int
  it_device :: "string option"

definition zero_item :: stat_item where
  "zero_item = \<lparr>it_start = 0, it_end = 0, it_tx_start = 0, it_rx_start = 0, it_tx_avg = 0, it_rx_avg = 0,
     it_device = None\<rparr>"

definition slots :: nat where
  "slots = 12"

definition second :: int where
  "second = 1000000000"

text \<open>Milliseconds of \<open>end.Sub(start)\<close>, plus one.\<close>

definition duration_ms :: "int \<Rightarrow> int \<Rightarrow> int" where
  "duration_ms start stop = int64 (go_quot (stop - start) 1000000 + 1)"

definition average :: "int \<Rightarrow> int \<Rightarrow> int \<Rightarrow> int" where
  "average now before duration = go_quot (int64 (1000 * int64 (now - before))) duration"

text \<open>The window: at \<open>slots\<close> items the oldest is shifted out, then the new one is appended.\<close>

definition push_item :: "'a list \<Rightarrow> 'a \<Rightarrow> 'a list" where
  "push_item items x =
     (if length items \<ge> slots then take (slots - 1) (map (\<lambda>i. if i < slots - 1 then items ! (i + 1) else items ! i) [0..<length items]) @ [x]
      else items @ [x])"

section \<open>The WAN sampler\<close>

record wan_stats =
  ws_armed :: bool
  ws_running :: bool
  ws_asked :: int
  ws_last :: stat_item
  ws_items :: "stat_item list"

definition new_wan_stats :: wan_stats where
  "new_wan_stats =
     \<lparr>ws_armed = True, ws_running = False, ws_asked = 0, ws_last = zero_item, ws_items = []\<rparr>"

definition wan_tick :: int where
  "wan_tick = 5 * second"

text \<open>\<open>fetchItems\<close>: \<open>got\<close> is the device and its counters (received, sent), or an error.\<close>

definition wan_fetch :: "int \<Rightarrow> (string \<times> int \<times> int) result \<Rightarrow> wan_stats \<Rightarrow> wan_stats" where
  "wan_fetch tnow got w =
     (case got of
        Inl _ \<Rightarrow> w
      | Inr (device, rx, tx) \<Rightarrow>
          (let l = ws_last w in
           if it_device l \<noteq> Some device \<or> rx < it_rx_start l \<or> tx < it_tx_start l then
             w\<lparr>ws_last := l\<lparr>it_device := Some device, it_rx_start := rx, it_tx_start := tx, it_start := tnow\<rparr>\<rparr>
           else
             (let d = duration_ms (it_start l) tnow;
                  l1 = l\<lparr>it_end := tnow, it_rx_avg := average rx (it_rx_start l) d,
                         it_tx_avg := average tx (it_tx_start l) d\<rparr>
              in w\<lparr>ws_items := push_item (ws_items w) l1,
                   ws_last := zero_item\<lparr>it_start := tnow, it_device := Some device, it_rx_start := rx,
                                it_tx_start := tx\<rparr>\<rparr>)))"

text \<open>A request; the answer is the list of items.\<close>

definition wan_request ::
    "int \<Rightarrow> int \<Rightarrow> (string \<times> int \<times> int) result \<Rightarrow> wan_stats \<Rightarrow> stat_item list \<times> wan_stats" where
  "wan_request now tnow got w =
     (if ws_running w then (ws_items w, w\<lparr>ws_asked := now\<rparr>)
      else
        (let w1 = wan_fetch tnow got (w\<lparr>ws_armed := True, ws_asked := now, ws_running := True\<rparr>)
         in (ws_items w1, w1)))"

definition wan_timer :: "int \<Rightarrow> int \<Rightarrow> (string \<times> int \<times> int) result \<Rightarrow> wan_stats \<Rightarrow> wan_stats" where
  "wan_timer now tnow got w =
     (if ws_asked w + 10 * wan_tick < now then w\<lparr>ws_running := False, ws_armed := False\<rparr>
      else (wan_fetch tnow got (w\<lparr>ws_armed := False\<rparr>))\<lparr>ws_armed := True\<rparr>)"

text \<open>
  The loop as a machine over the clock and the sampler: \<open>now\<close> is read when the pass starts and
  \<open>tnow\<close> after the counters were read, so the clock only moves forward.
\<close>

inductive wan_step :: "int \<times> wan_stats \<Rightarrow> int \<times> wan_stats \<Rightarrow> bool" where
  wan_asked:
    "clock \<le> now \<Longrightarrow> now \<le> tnow \<Longrightarrow> snd (wan_request now tnow got w) = w' \<Longrightarrow>
     wan_step (clock, w) (tnow, w')"
| wan_fired:
    "ws_armed w \<Longrightarrow> clock \<le> now \<Longrightarrow> now \<le> tnow \<Longrightarrow> wan_timer now tnow got w = w' \<Longrightarrow>
     wan_step (clock, w) (tnow, w')"

inductive_cases wan_stepE: "wan_step (clock, w) (clock', w')"

section \<open>The LAN sampler\<close>

record lan_host =
  lh_rx_total :: int
  lh_tx_total :: int
  lh_last :: "stat_item option"
  lh_items :: "stat_item list"

record lan_stats =
  st_armed :: bool
  st_running :: bool
  st_conn :: bool
  st_asked :: int
  st_hosts :: "string \<rightharpoonup> lan_host"

definition new_lan_stats :: lan_stats where
  "new_lan_stats =
     \<lparr>st_armed = True, st_running = False, st_conn = False, st_asked = 0, st_hosts = Map.empty\<rparr>"

definition lan_tick :: int where
  "lan_tick = 3 * second"

text \<open>A conntrack flow; \<open>fl_special\<close>: one of its addresses is unspecified or multicast.\<close>

record flow =
  fl_src :: string
  fl_dst :: string
  fl_special :: bool
  fl_src_valid :: bool
  fl_dst_valid :: bool
  fl_orig :: "64 word"
  fl_reply :: "64 word"

definition is_lan_ip :: "string \<Rightarrow> bool" where
  "is_lan_ip ip = True"

definition add_speeds :: "string \<Rightarrow> int \<Rightarrow> int \<Rightarrow> (string \<rightharpoonup> lan_host) \<Rightarrow> (string \<rightharpoonup> lan_host)" where
  "add_speeds ip tx rx hosts =
     (case hosts ip of
        None \<Rightarrow> hosts(ip \<mapsto> \<lparr>lh_rx_total = rx, lh_tx_total = tx, lh_last = None, lh_items = []\<rparr>)
      | Some h \<Rightarrow> hosts(ip \<mapsto> h\<lparr>lh_rx_total := int64 (lh_rx_total h + rx),
                               lh_tx_total := int64 (lh_tx_total h + tx)\<rparr>))"

definition add_flow :: "flow \<Rightarrow> (string \<rightharpoonup> lan_host) \<Rightarrow> (string \<rightharpoonup> lan_host)" where
  "add_flow f hosts =
     (if fl_special f then hosts
      else
        (let up = sint (fl_orig f); down = sint (fl_reply f) in
         if fl_src_valid f \<and> \<not> is_lan_ip (fl_src f) then hosts
         else
           (let hosts1 = (if fl_src_valid f then add_speeds (fl_src f) up down hosts else hosts) in
            if fl_dst_valid f \<and> is_lan_ip (fl_dst f) then add_speeds (fl_dst f) down up hosts1 else hosts1)))"

definition process_host :: "int \<Rightarrow> int \<Rightarrow> int \<Rightarrow> lan_host \<Rightarrow> lan_host" where
  "process_host tnow tx rx h =
     (case lh_last h of
        None \<Rightarrow>
          h\<lparr>lh_last := Some (zero_item\<lparr>it_tx_start := tx, it_rx_start := rx, it_start := tnow\<rparr>), lh_items := []\<rparr>
      | Some l \<Rightarrow>
          (let d = duration_ms (it_start l) tnow;
               tx_avg = (if tx < it_tx_start l
                         then (if lh_items h = [] then it_tx_avg l else it_tx_avg (last (lh_items h)))
                         else average tx (it_tx_start l) d);
               rx_avg = (if rx < it_rx_start l
                         then (if lh_items h = [] then it_rx_avg l else it_rx_avg (last (lh_items h)))
                         else average rx (it_rx_start l) d)
           in h\<lparr>lh_items := push_item (lh_items h) (l\<lparr>it_end := tnow, it_tx_avg := tx_avg, it_rx_avg := rx_avg\<rparr>),
                lh_last := Some (zero_item\<lparr>it_start := tnow, it_rx_start := rx, it_tx_start := tx\<rparr>)\<rparr>))"

text \<open>The totals are reset before the host is processed.\<close>

definition sample_host :: "int \<Rightarrow> lan_host \<Rightarrow> lan_host" where
  "sample_host tnow h =
     process_host tnow (lh_tx_total h) (lh_rx_total h) (h\<lparr>lh_rx_total := 0, lh_tx_total := 0\<rparr>)"

text \<open>\<open>fetchItems\<close>: \<open>None\<close> when conntrack cannot be dialled or dumped.\<close>

definition lan_fetch :: "int \<Rightarrow> bool \<Rightarrow> flow list option \<Rightarrow> lan_stats \<Rightarrow> lan_stats" where
  "lan_fetch tnow dialled flows s =
     (if \<not> st_conn s \<and> \<not> dialled then s
      else
        (case flows of
           None \<Rightarrow> s\<lparr>st_conn := True\<rparr>
         | Some fs \<Rightarrow>
             s\<lparr>st_conn := True,
               st_hosts := (\<lambda>ip. map_option (sample_host tnow) (fold add_flow fs (st_hosts s) ip))\<rparr>))"

definition resp_host :: "bool \<Rightarrow> lan_host \<Rightarrow> stat_item list" where
  "resp_host speed_only h =
     (if speed_only then (if lh_items h = [] then [] else [last (lh_items h)]) else lh_items h)"

text \<open>
  \<open>respHosts\<close>: the answer for one address, or for all of them in the order the Go map is
  walked, given as \<open>order\<close>.
\<close>

definition resp_hosts ::
    "string list \<Rightarrow> string \<Rightarrow> bool \<Rightarrow> lan_stats \<Rightarrow> (string \<times> stat_item list) list" where
  "resp_hosts order host_ip speed_only s =
     List.map_filter (\<lambda>ip. map_option (\<lambda>h. (ip, resp_host speed_only h)) (st_hosts s ip))
       (if host_ip \<noteq> [] then [host_ip] else order)"

definition lan_request :: "int \<Rightarrow> int \<Rightarrow> bool \<Rightarrow> flow list option \<Rightarrow> lan_stats \<Rightarrow> lan_stats" where
  "lan_request now tnow dialled flows s =
     (if st_running s then s\<lparr>st_asked := now\<rparr>
      else lan_fetch tnow dialled flows (s\<lparr>st_armed := True, st_asked := now, st_running := True\<rparr>))"

definition lan_timer :: "int \<Rightarrow> int \<Rightarrow> bool \<Rightarrow> flow list option \<Rightarrow> lan_stats \<Rightarrow> lan_stats" where
  "lan_timer now tnow dialled flows s =
     (if st_asked s + 10 * lan_tick < now
      then s\<lparr>st_running := False, st_armed := False, st_conn := False\<rparr>
      else (lan_fetch tnow dialled flows (s\<lparr>st_armed := False\<rparr>))\<lparr>st_armed := True\<rparr>)"

inductive lan_step :: "int \<times> lan_stats \<Rightarrow> int \<times> lan_stats \<Rightarrow> bool" where
  lan_asked:
    "clock \<le> now \<Longrightarrow> now \<le> tnow \<Longrightarrow> lan_request now tnow dialled flows s = s' \<Longrightarrow>
     lan_step (clock, s) (tnow, s')"
| lan_fired:
    "st_armed s \<Longrightarrow> clock \<le> now \<Longrightarrow> now \<le> tnow \<Longrightarrow> lan_timer now tnow dialled flows s = s' \<Longrightarrow>
     lan_step (clock, s) (tnow, s')"

inductive_cases lan_stepE: "lan_step (clock, s) (clock', s')"

section \<open>The responses\<close>

record device_speed =
  dsp_ip :: string
  dsp_download :: int
  dsp_upload :: int
  dsp_download_str :: string
  dsp_upload_str :: string

definition build_all_device_response :: "(string \<times> stat_item list) list \<Rightarrow> device_speed list" where
  "build_all_device_response hosts =
     List.map_filter
       (\<lambda>(ip, samples). case samples of
            [] \<Rightarrow> None
          | s # _ \<Rightarrow> Some \<lparr>dsp_ip = ip, dsp_download = it_rx_avg s, dsp_upload = it_tx_avg s,
                          dsp_download_str = speed_text (it_rx_avg s),
                          dsp_upload_str = speed_text (it_tx_avg s)\<rparr>)
       hosts"

record history_item =
  hi_start :: int
  hi_end :: int
  hi_upload :: int
  hi_download :: int

definition build_history_response :: "stat_item list \<Rightarrow> nat \<times> history_item list" where
  "build_history_response samples =
     (slots, map (\<lambda>s. \<lparr>hi_start = it_start s div second, hi_end = it_end s div second,
                       hi_upload = it_tx_avg s, hi_download = it_rx_avg s\<rparr>) samples)"

section \<open>The window keeps the last twelve samples\<close>

lemma push_item_room: "length xs < slots \<Longrightarrow> push_item xs x = xs @ [x]"
  by (simp add: push_item_def)

lemma push_item_full:
  assumes "length xs = slots"
  shows "push_item xs x = tl xs @ [x]"
proof -
  have "take (slots - 1) (map (\<lambda>i. if i < slots - 1 then xs ! (i + 1) else xs ! i) [0..<length xs]) = tl xs"
    using assms by (intro nth_equalityI) (auto simp: nth_tl slots_def)
  with assms show ?thesis by (simp add: push_item_def)
qed

interpretation sample_ring: sample_window slots push_item
  by unfold_locales (simp_all add: push_item_room push_item_full slots_def)

section \<open>An idle sampler stops\<close>

text \<open>
  Both samplers stop themselves by the same rule: a tick that comes more than ten periods
  after the last request stops the timer, any other tick arms it again.
\<close>

text \<open>Consecutive ticks, without a request in between; a stopped timer does not fire.\<close>

fun run_ticks :: "('s \<Rightarrow> bool) \<Rightarrow> ('e \<Rightarrow> 's \<Rightarrow> 's) \<Rightarrow> 'e list \<Rightarrow> 's \<Rightarrow> 's" where
  "run_ticks armed tick [] s = s"
| "run_ticks armed tick (e # es) s = (if armed s then run_ticks armed tick es (tick e s) else s)"

lemma run_ticks_preserves:
  "P s \<Longrightarrow> (\<And>e s. P s \<Longrightarrow> P (tick e s)) \<Longrightarrow> P (run_ticks armed tick es s)"
  by (induction es arbitrary: s) auto

locale idle_sampler =
  fixes tick :: "'e \<Rightarrow> 's \<Rightarrow> 's"
    and at :: "'e \<Rightarrow> int"
    and armed :: "'s \<Rightarrow> bool"
    and running :: "'s \<Rightarrow> bool"
    and asked :: "'s \<Rightarrow> int"
    and period :: int
  assumes period_pos: "0 < period"
    and tick_stops: "asked s + 10 * period < at e \<Longrightarrow> \<not> armed (tick e s) \<and> \<not> running (tick e s)"
    and tick_goes: "\<not> asked s + 10 * period < at e \<Longrightarrow> armed (tick e s) \<and> running (tick e s) = running s \<and> asked (tick e s) = asked s"
begin

abbreviation ticks :: "'e list \<Rightarrow> 's \<Rightarrow> 's" where
  "ticks \<equiv> run_ticks armed tick"

lemma ticks_stopped: "\<not> armed s \<Longrightarrow> ticks es s = s"
  by (cases es) auto

lemma ticks_armed_iff:
  "armed s \<Longrightarrow> armed (ticks es s) \<longleftrightarrow> (\<forall>e\<in>set es. at e \<le> asked s + 10 * period)"
proof (induction es arbitrary: s)
  case (Cons e es)
  show ?case
  proof (cases "asked s + 10 * period < at e")
    case True
    then have "\<not> armed (tick e s)" using tick_stops by blast
    with Cons.prems True show ?thesis by (auto simp: ticks_stopped)
  next
    case False
    then have "armed (tick e s)" "asked (tick e s) = asked s" using tick_goes by blast+
    with Cons.prems Cons.IH [of "tick e s"] False show ?thesis by auto
  qed
qed simp

lemma ticks_running: "armed s \<Longrightarrow> running (ticks es s) \<longleftrightarrow> running s \<and> armed (ticks es s)"
proof (induction es arbitrary: s)
  case (Cons e es)
  show ?case
  proof (cases "asked s + 10 * period < at e")
    case True
    then have "\<not> armed (tick e s) \<and> \<not> running (tick e s)" using tick_stops by blast
    with Cons.prems show ?thesis by (auto simp: ticks_stopped)
  next
    case False
    then have "armed (tick e s)" "running (tick e s) = running s" using tick_goes by blast+
    with Cons.prems Cons.IH [of "tick e s"] show ?thesis by simp
  qed
qed simp

lemma eleven_ticks_stop:
  assumes "armed s" "11 \<le> length es"
    and "\<forall>i<length es. asked s + (int i + 1) * period \<le> at (es ! i)"
  shows "\<not> armed (ticks es s) \<and> \<not> running (ticks es s)"
proof -
  have "asked s + (int 10 + 1) * period \<le> at (es ! 10)"
    using assms(2,3) by (metis Suc_le_lessD eval_nat_numeral(3) semiring_norm(26,27,28))
  then have "asked s + 10 * period < at (es ! 10)"
    using period_pos by simp
  moreover have "es ! 10 \<in> set es" using assms(2) by simp
  ultimately have "\<not> armed (ticks es s)"
    using ticks_armed_iff [OF assms(1)] by force
  with ticks_running [OF assms(1)] show ?thesis by blast
qed

end


type_synonym wan_event = "int \<times> int \<times> (string \<times> int \<times> int) result"
type_synonym lan_event = "int \<times> int \<times> bool \<times> flow list option"

definition wan_tick_at :: "wan_event \<Rightarrow> wan_stats \<Rightarrow> wan_stats" where
  "wan_tick_at = (\<lambda>(now, tnow, got). wan_timer now tnow got)"

definition lan_tick_at :: "lan_event \<Rightarrow> lan_stats \<Rightarrow> lan_stats" where
  "lan_tick_at = (\<lambda>(now, tnow, dialled, flows). lan_timer now tnow dialled flows)"

lemma wan_fetch_keeps:
  "ws_armed (wan_fetch t got w) = ws_armed w" "ws_running (wan_fetch t got w) = ws_running w"
  "ws_asked (wan_fetch t got w) = ws_asked w"
  by (simp_all add: wan_fetch_def Let_def split: sum.split)

lemma lan_fetch_keeps:
  "st_armed (lan_fetch t dialled flows s) = st_armed s" "st_running (lan_fetch t dialled flows s) = st_running s"
  "st_asked (lan_fetch t dialled flows s) = st_asked s"
  by (simp_all add: lan_fetch_def split: option.split)

interpretation wan_idle: idle_sampler wan_tick_at fst ws_armed ws_running ws_asked wan_tick
  by unfold_locales
    (auto simp: wan_tick_at_def wan_timer_def wan_fetch_keeps wan_tick_def second_def)

interpretation lan_idle: idle_sampler lan_tick_at fst st_armed st_running st_asked lan_tick
  by unfold_locales
    (auto simp: lan_tick_at_def lan_timer_def lan_fetch_keeps lan_tick_def second_def)

text \<open>
  Without requests the WAN sampler stops: ticks come at least one period apart, and the
  eleventh tick after the last request at the latest disarms the timer and ends the run, whatever
  the device and its counters return. It is still running after any ticks within the 50 seconds
  that follow the request (the comment in the source says 30).
\<close>

theorem wan_sampler_stops:
  assumes "ws_armed w"
    and "\<forall>i<length es. ws_asked w + (int i + 1) * wan_tick \<le> fst (es ! i)"
  shows "(11 \<le> length es \<longrightarrow>
      \<not> ws_armed (run_ticks ws_armed wan_tick_at es w) \<and> \<not> ws_running (run_ticks ws_armed wan_tick_at es w)) \<and>
    (ws_armed (run_ticks ws_armed wan_tick_at es w) \<longleftrightarrow>
      (\<forall>e\<in>set es. fst e \<le> ws_asked w + 50 * second))"
proof -
  have "(50::int) * second = 10 * wan_tick" by (simp add: wan_tick_def)
  then have "ws_armed (run_ticks ws_armed wan_tick_at es w) \<longleftrightarrow>
      (\<forall>e\<in>set es. fst e \<le> ws_asked w + 50 * second)"
    by (simp only: wan_idle.ticks_armed_iff [OF assms(1)])
  with assms show ?thesis by (blast dest: wan_idle.eleven_ticks_stop)
qed

theorem wan_sampler_stops_witness:
  "\<not> ws_armed (run_ticks ws_armed wan_tick_at (map (\<lambda>i. (int i * wan_tick, int i * wan_tick, Inl [])) [1..<12]) new_wan_stats)"
proof -
  let ?es = "map (\<lambda>i. (int i * wan_tick, int i * wan_tick, Inl [])) [1..<12] :: wan_event list"
  have "\<forall>i<length ?es. ws_asked new_wan_stats + (int i + 1) * wan_tick \<le> fst (?es ! i)"
    by (simp add: new_wan_stats_def algebra_simps)
  with wan_sampler_stops [of new_wan_stats ?es] show ?thesis
    by (simp add: new_wan_stats_def)
qed

text \<open>
  The LAN sampler stops in the same way, after 30 seconds without a request, and on that tick
  the conntrack connection is closed: it is never left open by a stopped sampler.
\<close>

theorem lan_sampler_stops:
  assumes "st_armed s" "11 \<le> length es"
    and "\<forall>i<length es. st_asked s + (int i + 1) * lan_tick \<le> fst (es ! i)"
  shows "\<not> st_armed (run_ticks st_armed lan_tick_at es s) \<and> \<not> st_running (run_ticks st_armed lan_tick_at es s) \<and>
    \<not> st_conn (run_ticks st_armed lan_tick_at es s)"
proof -
  have "st_armed (run_ticks st_armed lan_tick_at es s) \<or> \<not> st_conn (run_ticks st_armed lan_tick_at es s)"
    by (rule run_ticks_preserves) (auto simp: assms(1) lan_tick_at_def lan_timer_def split: if_splits)
  with lan_idle.eleven_ticks_stop [OF assms] show ?thesis by blast
qed

theorem lan_sampler_stops_witness:
  "\<not> st_conn (run_ticks st_armed lan_tick_at
      (map (\<lambda>i. (int i * lan_tick, int i * lan_tick, True, Some [])) [1..<12]) new_lan_stats)"
proof -
  let ?es = "map (\<lambda>i. (int i * lan_tick, int i * lan_tick, True, Some [])) [1..<12] :: lan_event list"
  have "\<forall>i<length ?es. st_asked new_lan_stats + (int i + 1) * lan_tick \<le> fst (?es ! i)"
    by (simp add: new_lan_stats_def algebra_simps)
  with lan_sampler_stops [of new_lan_stats ?es] show ?thesis
    by (simp add: new_lan_stats_def)
qed

section \<open>Invariants of the samplers\<close>

text \<open>The windows of the items follow each other in time.\<close>

definition in_order :: "int \<Rightarrow> stat_item list \<Rightarrow> stat_item \<Rightarrow> bool" where
  "in_order clock items l \<longleftrightarrow>
     length items \<le> slots \<and> (\<forall>i\<in>set items. it_start i \<le> it_end i) \<and>
     successively (\<lambda>i j. it_end i \<le> it_start j) (items @ [l]) \<and> it_start l \<le> clock"

lemma successively_tl: "successively P xs \<Longrightarrow> successively P (tl xs)"
  by (cases xs rule: remdups_adj.cases) auto

lemma successively_mono_last:
  "successively P (xs @ [a]) \<Longrightarrow> (\<And>x. P x a \<Longrightarrow> P x b) \<Longrightarrow> successively P (xs @ [b])"
  by (auto simp: successively_append_iff)

lemma in_order_later: "in_order clock items l \<Longrightarrow> clock \<le> clock' \<Longrightarrow> in_order clock' items l"
  by (auto simp: in_order_def)

lemma in_order_restart:
  assumes "in_order clock items l" "clock \<le> it_start l'" "it_start l' \<le> clock'"
  shows "in_order clock' items l'"
  using assms successively_mono_last [of "\<lambda>i j. it_end i \<le> it_start j" items l l']
  by (auto simp: in_order_def)

lemma in_order_push:
  assumes "in_order clock items l" "it_start l1 = it_start l" "it_end l1 = it_start l'"
    and "clock \<le> it_start l'" "it_start l' \<le> clock'"
  shows "in_order clock' (push_item items l1) l'"
proof -
  from assms(1) have len: "length items \<le> slots" by (simp add: in_order_def)
  have "successively (\<lambda>i j. it_end i \<le> it_start j) (items @ [l1])"
    using assms(1,2) successively_mono_last [of "\<lambda>i j. it_end i \<le> it_start j" items l l1]
    by (simp add: in_order_def)
  then have all: "successively (\<lambda>i j. it_end i \<le> it_start j) (items @ [l1, l'])"
    using assms(3) by (auto simp: successively_append_iff)
  have "successively (\<lambda>i j. it_end i \<le> it_start j) (push_item items l1 @ [l'])"
  proof (cases "length items = slots")
    case True
    then have "push_item items l1 @ [l'] = tl (items @ [l1, l'])"
      by (cases items) (simp_all add: push_item_full slots_def)
    with successively_tl [OF all] show ?thesis by simp
  next
    case False
    with len all show ?thesis by (simp add: push_item_room)
  qed
  moreover have "\<forall>i\<in>set (push_item items l1). it_start i \<le> it_end i"
    using sample_ring.push_set [OF len, of l1] assms by (auto simp: in_order_def)
  ultimately show ?thesis
    using sample_ring.push_length [OF len] assms(5) by (simp add: in_order_def)
qed

definition wan_inv :: "int \<times> wan_stats \<Rightarrow> bool" where
  "wan_inv = (\<lambda>(clock, w).
     in_order clock (ws_items w) (ws_last w) \<and> (ws_running w \<longrightarrow> ws_armed w) \<and> ws_asked w \<le> clock)"

lemma wan_fetch_in_order:
  assumes "in_order clock (ws_items w) (ws_last w)" "clock \<le> t"
  shows "in_order t (ws_items (wan_fetch t got w)) (ws_last (wan_fetch t got w))"
proof (cases got)
  case (Inl a)
  then show ?thesis using assms by (simp add: wan_fetch_def in_order_later)
next
  case (Inr p)
  then show ?thesis
    using assms
    by (cases p) (auto simp: wan_fetch_def Let_def zero_item_def intro: in_order_restart in_order_push)
qed

lemma wan_request_inv:
  assumes "wan_inv (clock, w)" "clock \<le> now" "now \<le> tnow"
  shows "wan_inv (tnow, snd (wan_request now tnow got w))"
proof (cases "ws_running w")
  case True
  with assms in_order_later [of clock _ _ tnow] show ?thesis by (simp add: wan_inv_def wan_request_def)
next
  case False
  let ?w = "w\<lparr>ws_armed := True, ws_asked := now, ws_running := True\<rparr>"
  have "in_order tnow (ws_items (wan_fetch tnow got ?w)) (ws_last (wan_fetch tnow got ?w))"
    using assms by (intro wan_fetch_in_order [of clock]) (simp_all add: wan_inv_def)
  with False assms show ?thesis by (simp add: wan_inv_def wan_request_def Let_def wan_fetch_keeps)
qed

lemma wan_timer_inv:
  assumes "wan_inv (clock, w)" "clock \<le> now" "now \<le> tnow"
  shows "wan_inv (tnow, wan_timer now tnow got w)"
proof (cases "ws_asked w + 10 * wan_tick < now")
  case True
  with assms in_order_later [of clock _ _ tnow] show ?thesis by (simp add: wan_inv_def wan_timer_def)
next
  case False
  let ?w = "w\<lparr>ws_armed := False\<rparr>"
  have "in_order tnow (ws_items (wan_fetch tnow got ?w)) (ws_last (wan_fetch tnow got ?w))"
    using assms by (intro wan_fetch_in_order [of clock]) (simp_all add: wan_inv_def)
  with False assms show ?thesis by (simp add: wan_inv_def wan_timer_def wan_fetch_keeps)
qed

interpretation wan_machine: machine_invariant "(0, new_wan_stats)" wan_step wan_inv
proof
  show "wan_inv (0, new_wan_stats)"
    by (simp add: wan_inv_def in_order_def new_wan_stats_def zero_item_def)
  show "wan_inv t" if "wan_inv s" "wan_step s t" for s t
    using that(2,1) by cases (auto intro: wan_request_inv wan_timer_inv)
qed

text \<open>
  C26. In every state the WAN sampler can reach, whatever its requests, ticks, devices and counters:
  it holds at most twelve items, the windows of the items are disjoint, in the order of time and
  none of them ends before it starts, the open window starts after the last item, nothing lies in the
  future, and a running sampler has its timer armed, so that it samples again.
\<close>

theorem wan_stats_reachable:
  assumes "reach (0, new_wan_stats) wan_step (clock, w)"
  shows "length (ws_items w) \<le> 12 \<and> (\<forall>i\<in>set (ws_items w). it_start i \<le> it_end i) \<and>
    successively (\<lambda>i j. it_end i \<le> it_start j) (ws_items w @ [ws_last w]) \<and>
    it_start (ws_last w) \<le> clock \<and> (ws_running w \<longrightarrow> ws_armed w)"
  using wan_machine.inv_reach [OF assms] by (simp add: wan_inv_def in_order_def slots_def)

theorem wan_stats_reachable_witness:
  "ws_items (snd (wan_request 1 2 (Inr (''eth0'', 0, 0)) new_wan_stats)) = []"
proof -
  have "reach (0, new_wan_stats) wan_step (0, new_wan_stats)" by (rule reach_init)
  moreover have "wan_step (0, new_wan_stats) (2, snd (wan_request 1 2 (Inr (''eth0'', 0, 0)) new_wan_stats))"
    by (rule wan_step.wan_asked [where now = 1]) simp_all
  ultimately have "reach (0, new_wan_stats) wan_step (2, snd (wan_request 1 2 (Inr (''eth0'', 0, 0)) new_wan_stats))"
    by (rule reach_step)
  from wan_stats_reachable [OF this] show ?thesis
    by (simp add: wan_request_def wan_fetch_def new_wan_stats_def Let_def zero_item_def)
qed

definition host_ok :: "int \<Rightarrow> lan_host \<Rightarrow> bool" where
  "host_ok clock h =
     (case lh_last h of None \<Rightarrow> lh_items h = [] | Some l \<Rightarrow> in_order clock (lh_items h) l)"

definition hosts_ok :: "int \<Rightarrow> (string \<rightharpoonup> lan_host) \<Rightarrow> bool" where
  "hosts_ok clock hosts \<longleftrightarrow> (\<forall>ip h. hosts ip = Some h \<longrightarrow> host_ok clock h)"

lemma hosts_okD: "hosts_ok clock hosts \<Longrightarrow> hosts ip = Some h \<Longrightarrow> host_ok clock h"
  by (simp add: hosts_ok_def)

lemma hosts_ok_upd: "hosts_ok clock hosts \<Longrightarrow> host_ok clock h \<Longrightarrow> hosts_ok clock (hosts(ip \<mapsto> h))"
  by (simp add: hosts_ok_def)

lemma host_ok_later: "host_ok clock h \<Longrightarrow> clock \<le> t \<Longrightarrow> host_ok t h"
  by (auto simp: host_ok_def intro: in_order_later split: option.split_asm option.split)

lemma hosts_ok_later: "hosts_ok clock hosts \<Longrightarrow> clock \<le> t \<Longrightarrow> hosts_ok t hosts"
  unfolding hosts_ok_def by (metis host_ok_later)

lemma host_ok_totals: "host_ok clock (h\<lparr>lh_rx_total := a, lh_tx_total := b\<rparr>) = host_ok clock h"
  by (simp add: host_ok_def split: option.split)

lemma add_speeds_ok: "hosts_ok clock hosts \<Longrightarrow> hosts_ok clock (add_speeds a tx rx hosts)"
  unfolding add_speeds_def
  by (auto simp: host_ok_totals split: option.split intro!: hosts_ok_upd dest: hosts_okD)
    (simp add: host_ok_def)

lemma add_flow_ok: "hosts_ok clock hosts \<Longrightarrow> hosts_ok clock (add_flow f hosts)"
  by (simp add: add_flow_def Let_def add_speeds_ok)

lemma add_flows_ok: "hosts_ok clock hosts \<Longrightarrow> hosts_ok clock (fold add_flow fs hosts)"
  by (induction fs arbitrary: hosts) (auto intro: add_flow_ok)

lemma sample_host_ok:
  assumes "host_ok clock h" "clock \<le> t"
  shows "host_ok t (sample_host t h)"
proof (cases "lh_last h")
  case None
  then show ?thesis
    by (simp add: sample_host_def process_host_def in_order_def zero_item_def host_ok_def)
next
  case (Some l)
  with assms show ?thesis
    by (auto simp: sample_host_def process_host_def Let_def zero_item_def host_ok_def intro!: in_order_push [of clock])
qed

lemma lan_fetch_ok:
  assumes "hosts_ok clock (st_hosts s)" "clock \<le> t"
  shows "hosts_ok t (st_hosts (lan_fetch t dialled flows s))"
proof (cases flows)
  case None
  with assms show ?thesis by (simp add: lan_fetch_def hosts_ok_later)
next
  case (Some fs)
  have "hosts_ok t (\<lambda>ip. map_option (sample_host t) (fold add_flow fs (st_hosts s) ip))"
    using add_flows_ok [OF assms(1)] sample_host_ok [OF _ assms(2)]
    by (fastforce simp: hosts_ok_def)
  with Some assms show ?thesis by (simp add: lan_fetch_def hosts_ok_later)
qed

definition lan_inv :: "int \<times> lan_stats \<Rightarrow> bool" where
  "lan_inv = (\<lambda>(clock, s). hosts_ok clock (st_hosts s) \<and> (st_running s \<longrightarrow> st_armed s) \<and> (st_conn s \<longrightarrow> st_armed s))"

lemma lan_request_inv:
  assumes "lan_inv (clock, s)" "clock \<le> now" "now \<le> tnow"
  shows "lan_inv (tnow, lan_request now tnow dialled flows s)"
proof (cases "st_running s")
  case True
  with assms hosts_ok_later [of clock _ tnow] show ?thesis by (simp add: lan_inv_def lan_request_def)
next
  case False
  let ?s = "s\<lparr>st_armed := True, st_asked := now, st_running := True\<rparr>"
  have "hosts_ok tnow (st_hosts (lan_fetch tnow dialled flows ?s))"
    using assms by (intro lan_fetch_ok [of clock]) (simp_all add: lan_inv_def)
  with False show ?thesis by (simp add: lan_inv_def lan_request_def lan_fetch_keeps)
qed

lemma lan_timer_inv:
  assumes "lan_inv (clock, s)" "clock \<le> now" "now \<le> tnow"
  shows "lan_inv (tnow, lan_timer now tnow dialled flows s)"
proof (cases "st_asked s + 10 * lan_tick < now")
  case True
  with assms hosts_ok_later [of clock _ tnow] show ?thesis by (simp add: lan_inv_def lan_timer_def)
next
  case False
  have "hosts_ok tnow (st_hosts (lan_fetch tnow dialled flows (s\<lparr>st_armed := False\<rparr>)))"
    using assms by (intro lan_fetch_ok [of clock]) (simp_all add: lan_inv_def)
  with False show ?thesis by (simp add: lan_inv_def lan_timer_def)
qed

interpretation lan_machine: machine_invariant "(0, new_lan_stats)" lan_step lan_inv
proof
  show "lan_inv (0, new_lan_stats)"
    by (simp add: lan_inv_def hosts_ok_def new_lan_stats_def)
  show "lan_inv t" if "lan_inv s" "lan_step s t" for s t
    using that(2,1) by cases (auto intro: lan_request_inv lan_timer_inv)
qed

text \<open>
  In every reachable state of the LAN sampler each host has at most twelve items, with disjoint
  windows in the order of time and none in the future; a host without an open window has no items;
  and a sampler that runs, or holds a conntrack connection, has its timer armed.
\<close>

theorem lan_stats_reachable:
  assumes "reach (0, new_lan_stats) lan_step (clock, s)" "st_hosts s ip = Some h"
  shows "length (lh_items h) \<le> 12 \<and> (\<forall>i\<in>set (lh_items h). it_start i \<le> it_end i) \<and>
    (case lh_last h of None \<Rightarrow> lh_items h = []
     | Some l \<Rightarrow> successively (\<lambda>i j. it_end i \<le> it_start j) (lh_items h @ [l]) \<and> it_start l \<le> clock) \<and>
    (st_running s \<longrightarrow> st_armed s) \<and> (st_conn s \<longrightarrow> st_armed s)"
proof -
  have inv: "lan_inv (clock, s)" using assms(1) by (rule lan_machine.inv_reach)
  then have "host_ok clock h" using assms(2) by (simp add: lan_inv_def hosts_ok_def)
  then have "length (lh_items h) \<le> 12 \<and> (\<forall>i\<in>set (lh_items h). it_start i \<le> it_end i) \<and>
    (case lh_last h of None \<Rightarrow> lh_items h = []
     | Some l \<Rightarrow> successively (\<lambda>i j. it_end i \<le> it_start j) (lh_items h @ [l]) \<and> it_start l \<le> clock)"
    by (cases "lh_last h") (simp_all add: host_ok_def in_order_def slots_def)
  with inv show ?thesis by (simp add: lan_inv_def)
qed

text \<open>A sample flow: 5 bytes up and 7 down between two hosts.\<close>

definition example_flow :: flow where
  "example_flow = \<lparr>fl_src = ''a'', fl_dst = ''b'', fl_special = False, fl_src_valid = True, fl_dst_valid = True,
     fl_orig = 5, fl_reply = 7\<rparr>"

theorem lan_stats_reachable_witness:
  "\<exists>h. st_hosts (lan_request 1 2 True (Some [example_flow]) new_lan_stats) ''a'' = Some h \<and> length (lh_items h) \<le> 12"
proof -
  let ?s = "lan_request 1 2 True (Some [example_flow]) new_lan_stats"
  have "reach (0, new_lan_stats) lan_step (0, new_lan_stats)" by (rule reach_init)
  moreover have "lan_step (0, new_lan_stats) (2, ?s)"
    by (rule lan_step.lan_asked [where now = 1]) simp_all
  ultimately have "reach (0, new_lan_stats) lan_step (2, ?s)"
    by (rule reach_step)
  note * = lan_stats_reachable [OF this]
  have "st_hosts ?s ''a'' \<noteq> None"
    by (simp add: lan_request_def lan_fetch_def new_lan_stats_def example_flow_def add_flow_def add_speeds_def
        is_lan_ip_def)
  then obtain h where "st_hosts ?s ''a'' = Some h" by auto
  with * [OF this] show ?thesis by blast
qed

section \<open>What is counted\<close>

text \<open>What a flow adds to the upload (first) and download (second) of an address.\<close>

definition flow_bytes :: "string \<Rightarrow> flow \<Rightarrow> int \<times> int" where
  "flow_bytes ip f =
     (if fl_special f then (0, 0)
      else
        ((if fl_src_valid f \<and> fl_src f = ip then sint (fl_orig f) else 0) +
           (if fl_dst_valid f \<and> fl_dst f = ip then sint (fl_reply f) else 0),
         (if fl_src_valid f \<and> fl_src f = ip then sint (fl_reply f) else 0) +
           (if fl_dst_valid f \<and> fl_dst f = ip then sint (fl_orig f) else 0)))"

definition mentions :: "string \<Rightarrow> flow \<Rightarrow> bool" where
  "mentions ip f \<longleftrightarrow> \<not> fl_special f \<and> (fl_src_valid f \<and> fl_src f = ip \<or> fl_dst_valid f \<and> fl_dst f = ip)"

definition tx_of :: "(string \<rightharpoonup> lan_host) \<Rightarrow> string \<Rightarrow> int" where
  "tx_of hosts ip = (case hosts ip of None \<Rightarrow> 0 | Some h \<Rightarrow> lh_tx_total h)"

definition rx_of :: "(string \<rightharpoonup> lan_host) \<Rightarrow> string \<Rightarrow> int" where
  "rx_of hosts ip = (case hosts ip of None \<Rightarrow> 0 | Some h \<Rightarrow> lh_rx_total h)"

lemma int64_sint [simp]: "int64 (sint (x :: 64 word)) = sint x"
  using sint_ge [of x] sint_lt [of x] by (intro int64_id) simp_all

lemma add_speeds_totals:
  assumes "int64 tx = tx" "int64 rx = rx"
  shows "tx_of (add_speeds a tx rx hosts) ip = (if ip = a then int64 (tx_of hosts ip + tx) else tx_of hosts ip)"
    and "rx_of (add_speeds a tx rx hosts) ip = (if ip = a then int64 (rx_of hosts ip + rx) else rx_of hosts ip)"
  using assms by (auto simp: add_speeds_def tx_of_def rx_of_def split: option.split)

lemma add_flow_totals:
  "int64 (tx_of (add_flow f hosts) ip) = int64 (tx_of hosts ip + fst (flow_bytes ip f))"
  "int64 (rx_of (add_flow f hosts) ip) = int64 (rx_of hosts ip + snd (flow_bytes ip f))"
  by (auto simp: add_flow_def Let_def is_lan_ip_def add_speeds_totals flow_bytes_def add.assoc add_ac)

lemma add_flows_totals:
  "int64 (tx_of (fold add_flow fs hosts) ip) = int64 (tx_of hosts ip + (\<Sum>f\<leftarrow>fs. fst (flow_bytes ip f)))"
  "int64 (rx_of (fold add_flow fs hosts) ip) = int64 (rx_of hosts ip + (\<Sum>f\<leftarrow>fs. snd (flow_bytes ip f)))"
proof (induction fs arbitrary: hosts)
  case (Cons f fs)
  {
    case 1
    have "int64 (tx_of (fold add_flow fs (add_flow f hosts)) ip) =
        int64 (int64 (tx_of (add_flow f hosts) ip) + (\<Sum>f\<leftarrow>fs. fst (flow_bytes ip f)))"
      by (simp add: Cons)
    then show ?case by (simp only: add_flow_totals) (simp add: add.assoc)
  next
    case 2
    have "int64 (rx_of (fold add_flow fs (add_flow f hosts)) ip) =
        int64 (int64 (rx_of (add_flow f hosts) ip) + (\<Sum>f\<leftarrow>fs. snd (flow_bytes ip f)))"
      by (simp add: Cons)
    then show ?case by (simp only: add_flow_totals) (simp add: add.assoc)
  }
qed simp_all

lemma add_flows_hosts: "fold add_flow fs hosts ip \<noteq> None \<longleftrightarrow> hosts ip \<noteq> None \<or> (\<exists>f\<in>set fs. mentions ip f)"
proof (induction fs arbitrary: hosts)
  case (Cons f fs)
  have "add_flow f hosts ip \<noteq> None \<longleftrightarrow> hosts ip \<noteq> None \<or> mentions ip f"
    by (auto simp: add_flow_def Let_def is_lan_ip_def add_speeds_def mentions_def split: option.splits)
  with Cons.IH [of "add_flow f hosts"] show ?case by auto
qed simp

lemma sample_host_totals: "lh_tx_total (sample_host t h) = 0" "lh_rx_total (sample_host t h) = 0"
  by (simp_all add: sample_host_def process_host_def Let_def split: option.split)

definition zero_totals :: "int \<times> lan_stats \<Rightarrow> bool" where
  "zero_totals = (\<lambda>(_, s). \<forall>ip h. st_hosts s ip = Some h \<longrightarrow> lh_tx_total h = 0 \<and> lh_rx_total h = 0)"

lemma zero_totals_cong: "st_hosts s = st_hosts s' \<Longrightarrow> zero_totals (c, s) = zero_totals (c', s')"
  by (simp add: zero_totals_def)

lemma zero_totals_fetch: "zero_totals (c, s) \<Longrightarrow> zero_totals (c', lan_fetch t dialled flows s)"
  by (cases flows) (auto simp: zero_totals_def lan_fetch_def sample_host_totals)

lemma zero_totals_request:
  assumes "zero_totals (c, s)"
  shows "zero_totals (c', lan_request now tnow dialled flows s)"
proof -
  have "zero_totals (c', s\<lparr>st_asked := now\<rparr>)" "zero_totals (c', s\<lparr>st_armed := True, st_asked := now, st_running := True\<rparr>)"
    using assms by (simp_all add: zero_totals_def)
  then show ?thesis by (simp add: lan_request_def zero_totals_fetch)
qed

lemma zero_totals_timer:
  assumes "zero_totals (c, s)"
  shows "zero_totals (c', lan_timer now tnow dialled flows s)"
proof -
  have "zero_totals (c', s\<lparr>st_running := False, st_armed := False, st_conn := False\<rparr>)"
      "zero_totals (c', s\<lparr>st_armed := False\<rparr>)"
    using assms by (simp_all add: zero_totals_def)
  then show ?thesis
    using zero_totals_fetch [of c' "s\<lparr>st_armed := False\<rparr>" c' tnow dialled flows]
      zero_totals_cong [of "(lan_fetch tnow dialled flows (s\<lparr>st_armed := False\<rparr>))\<lparr>st_armed := True\<rparr>"
        "lan_fetch tnow dialled flows (s\<lparr>st_armed := False\<rparr>)" c' c']
    by (simp add: lan_timer_def)
qed

interpretation lan_totals: machine_invariant "(0, new_lan_stats)" lan_step zero_totals
proof
  show "zero_totals (0, new_lan_stats)"
    by (simp add: zero_totals_def new_lan_stats_def)
  show "zero_totals t" if "zero_totals s" "lan_step s t" for s t
    using that(2,1) by cases (auto intro: zero_totals_request zero_totals_timer)
qed

lemma lan_fetch_hosts:
  "st_conn s \<or> dialled \<Longrightarrow>
   st_hosts (lan_fetch t dialled (Some fs) s) = (\<lambda>ip. map_option (sample_host t) (fold add_flow fs (st_hosts s) ip))"
  by (auto simp: lan_fetch_def)

definition kept_host :: "string \<Rightarrow> lan_host \<Rightarrow> (string \<rightharpoonup> lan_host) \<Rightarrow> bool" where
  "kept_host ip h hosts \<longleftrightarrow>
     (case hosts ip of None \<Rightarrow> False
      | Some g \<Rightarrow> lh_last g = lh_last h \<and> lh_items g = lh_items h \<and> int64 (lh_tx_total g) = lh_tx_total g)"

lemma add_speeds_kept: "kept_host ip h hosts \<Longrightarrow> kept_host ip h (add_speeds a tx rx hosts)"
  by (auto simp: kept_host_def add_speeds_def split: option.splits)

lemma add_flow_kept: "kept_host ip h hosts \<Longrightarrow> kept_host ip h (add_flow f hosts)"
  by (simp add: add_flow_def Let_def add_speeds_kept)

lemma add_flows_kept: "kept_host ip h hosts \<Longrightarrow> kept_host ip h (fold add_flow fs hosts)"
  by (induction fs arbitrary: hosts) (auto intro: add_flow_kept)

text \<open>
  C27. A pass of the LAN sampler in a reachable state, with connection and flows: a host whose upload
  did not fall gets a new last item for the time since its window opened, with the average upload
  over that time computed from the sum of the bytes of all flows the host takes part in (origin
  bytes where it is the source, reply bytes where it is the destination), and a new window opens at
  that sum. A host is known afterwards exactly when it was known before or a flow mentions it.
\<close>

theorem lan_sample_counts_flows:
  assumes "reach (0, new_lan_stats) lan_step (clock, s)" "st_conn s \<or> dialled"
    and "st_hosts s ip = Some h" "lh_last h = Some l"
    and "up = int64 (\<Sum>f\<leftarrow>fs. fst (flow_bytes ip f))" "it_tx_start l \<le> up"
  shows "(\<exists>h'. st_hosts (lan_fetch t dialled (Some fs) s) ip = Some h' \<and>
      it_start (last (lh_items h')) = it_start l \<and> it_end (last (lh_items h')) = t \<and>
      it_tx_avg (last (lh_items h')) = average up (it_tx_start l) (duration_ms (it_start l) t) \<and>
      map_option it_tx_start (lh_last h') = Some up \<and> map_option it_start (lh_last h') = Some t) \<and>
    (\<forall>a. st_hosts (lan_fetch t dialled (Some fs) s) a \<noteq> None \<longleftrightarrow>
       st_hosts s a \<noteq> None \<or> (\<exists>f\<in>set fs. mentions a f))"
proof -
  have zero: "lh_tx_total h = 0"
    using lan_totals.inv_reach [OF assms(1)] assms(3) by (auto simp: zero_totals_def)
  have "host_ok clock h"
    using lan_machine.inv_reach [OF assms(1)] assms(3) by (simp add: lan_inv_def hosts_ok_def)
  then have len: "length (lh_items h) \<le> slots" using assms(4) by (simp add: host_ok_def in_order_def)
  have "kept_host ip h (fold add_flow fs (st_hosts s))"
    using assms(3) zero by (intro add_flows_kept) (simp add: kept_host_def int64_id)
  then obtain g where g: "fold add_flow fs (st_hosts s) ip = Some g"
    and same: "lh_last g = lh_last h \<and> lh_items g = lh_items h \<and> int64 (lh_tx_total g) = lh_tx_total g"
    by (auto simp: kept_host_def split: option.splits)
  have "int64 (lh_tx_total g) = up"
    using add_flows_totals(1) [of fs "st_hosts s" ip] zero assms(3,5) by (simp add: g tx_of_def)
  with same have "lh_tx_total g = up" by simp
  with g same assms(2-4,6) len have "\<exists>h'. st_hosts (lan_fetch t dialled (Some fs) s) ip = Some h' \<and>
      it_start (last (lh_items h')) = it_start l \<and> it_end (last (lh_items h')) = t \<and>
      it_tx_avg (last (lh_items h')) = average up (it_tx_start l) (duration_ms (it_start l) t) \<and>
      map_option it_tx_start (lh_last h') = Some up \<and> map_option it_start (lh_last h') = Some t"
    by (simp add: lan_fetch_hosts sample_host_def process_host_def Let_def sample_ring.push_last zero_item_def)
  moreover have "st_hosts (lan_fetch t dialled (Some fs) s) a \<noteq> None \<longleftrightarrow>
       st_hosts s a \<noteq> None \<or> (\<exists>f\<in>set fs. mentions a f)" for a
    using assms(2) add_flows_hosts [of fs "st_hosts s" a] by (simp add: lan_fetch_hosts)
  ultimately show ?thesis by blast
qed

theorem lan_sample_counts_flows_witness:
  "\<exists>h. st_hosts (lan_fetch 1000000002 True (Some [example_flow])
      (lan_request 1 2 True (Some [example_flow]) new_lan_stats)) ''a'' = Some h \<and>
    it_tx_avg (last (lh_items h)) = 0 \<and> it_end (last (lh_items h)) = 1000000002"
proof -
  let ?s = "lan_request 1 2 True (Some [example_flow]) new_lan_stats"
  let ?l = "zero_item\<lparr>it_tx_start := 5, it_rx_start := 7, it_start := 2\<rparr>"
  let ?h = "\<lparr>lh_rx_total = 0, lh_tx_total = 0, lh_last = Some ?l, lh_items = []\<rparr>"
  have "reach (0, new_lan_stats) lan_step (0, new_lan_stats)" by (rule reach_init)
  moreover have "lan_step (0, new_lan_stats) (2, ?s)"
    by (rule lan_step.lan_asked [where now = 1]) simp_all
  ultimately have r: "reach (0, new_lan_stats) lan_step (2, ?s)" by (rule reach_step)
  have h: "st_hosts ?s ''a'' = Some ?h"
    by (simp add: lan_request_def lan_fetch_def new_lan_stats_def example_flow_def add_flow_def add_speeds_def
        is_lan_ip_def sample_host_def process_host_def)
  have up: "(5::int) = int64 (\<Sum>f\<leftarrow>[example_flow]. fst (flow_bytes ''a'' f))"
    by (simp add: example_flow_def flow_bytes_def int64_id)
  have "average 5 5 (duration_ms 2 1000000002) = 0"
    by (simp add: average_def go_quot_def int64_id)
  then show ?thesis
    using lan_sample_counts_flows [OF r _ h _ up, of True ?l 1000000002] by (auto simp: zero_item_def)
qed

section \<open>Answers\<close>

lemma map_filter_bind:
  "List.map_filter f (List.map_filter g xs) = List.map_filter (\<lambda>x. Option.bind (g x) f) xs"
  by (induction xs) (auto simp: List.map_filter_simps split: option.split)

lemma map_filter_keyed_distinct:
  assumes "distinct xs" "\<And>x y. f x = Some y \<Longrightarrow> g y = x"
  shows "distinct (map g (List.map_filter f xs))"
  using assms(1)
proof (induction xs)
  case (Cons a xs)
  have "g ` set (List.map_filter f xs) \<subseteq> set xs"
    using assms(2) by (auto simp: in_map_filter)
  with Cons show ?case
    by (auto simp: List.map_filter_simps dest: assms(2) split: option.splits)
qed (simp add: List.map_filter_simps)

lemma map_filter_keyed_row:
  assumes "distinct xs" "\<And>x y. f x = Some y \<Longrightarrow> g y = x"
  shows "filter (\<lambda>y. g y = x) (List.map_filter f xs) = (if x \<in> set xs then case f x of None \<Rightarrow> [] | Some y \<Rightarrow> [y] else [])"
  using assms(1)
proof (induction xs)
  case (Cons a xs)
  show ?case
  proof (cases "f a")
    case None
    with Cons show ?thesis by (auto simp: List.map_filter_simps)
  next
    case (Some y)
    with assms(2) have "g y = a" by blast
    with Cons Some show ?thesis by (auto simp: List.map_filter_simps)
  qed
qed (simp add: List.map_filter_simps)

definition speed_row :: "lan_stats \<Rightarrow> string \<Rightarrow> device_speed option" where
  "speed_row s ip = (case st_hosts s ip of None \<Rightarrow> None
     | Some h \<Rightarrow>
         if lh_items h = [] then None
         else Some \<lparr>dsp_ip = ip, dsp_download = it_rx_avg (last (lh_items h)), dsp_upload = it_tx_avg (last (lh_items h)),
                dsp_download_str = speed_text (it_rx_avg (last (lh_items h))),
                dsp_upload_str = speed_text (it_tx_avg (last (lh_items h)))\<rparr>)"

lemma speeds_rows:
  "build_all_device_response (resp_hosts order [] True s) = List.map_filter (speed_row s) order"
proof -
  have "(\<lambda>ip. Option.bind (map_option (\<lambda>h. (ip, resp_host True h)) (st_hosts s ip))
      (\<lambda>(ip, samples). case samples of [] \<Rightarrow> None
         | x # _ \<Rightarrow> Some \<lparr>dsp_ip = ip, dsp_download = it_rx_avg x, dsp_upload = it_tx_avg x,
                          dsp_download_str = speed_text (it_rx_avg x),
                          dsp_upload_str = speed_text (it_tx_avg x)\<rparr>)) = speed_row s"
    by (rule ext) (simp add: speed_row_def resp_host_def split: option.split)
  then show ?thesis
    by (simp add: build_all_device_response_def resp_hosts_def map_filter_bind)
qed

lemma speed_row_ip: "speed_row s ip = Some r \<Longrightarrow> dsp_ip r = ip"
  by (auto simp: speed_row_def split: option.splits if_splits)

text \<open>
  The list of all device speeds: when the Go map is walked in any order without repeats that
  covers the known hosts, the answer has a row for exactly the hosts that have a sample, no two rows for
  one address, and each row shows the averages of the host's latest sample.
\<close>

theorem all_device_speeds:
  assumes "distinct order" "set order = dom (st_hosts s)"
  shows "distinct (map dsp_ip (build_all_device_response (resp_hosts order [] True s))) \<and>
    (\<forall>ip h. st_hosts s ip = Some h \<longrightarrow>
      filter (\<lambda>r. dsp_ip r = ip) (build_all_device_response (resp_hosts order [] True s)) =
        (if lh_items h = [] then []
         else [\<lparr>dsp_ip = ip, dsp_download = it_rx_avg (last (lh_items h)), dsp_upload = it_tx_avg (last (lh_items h)),
                dsp_download_str = speed_text (it_rx_avg (last (lh_items h))),
                dsp_upload_str = speed_text (it_tx_avg (last (lh_items h)))\<rparr>]))"
  unfolding speeds_rows
  using map_filter_keyed_distinct [where f = "speed_row s" and g = dsp_ip, OF assms(1) speed_row_ip]
    map_filter_keyed_row [where f = "speed_row s" and g = dsp_ip, OF assms(1) speed_row_ip] assms(2)
  by (auto simp: speed_row_def)

theorem all_device_speeds_witness:
  "build_all_device_response (resp_hosts [] [] True new_lan_stats) = []"
proof -
  have "set [] = dom (st_hosts new_lan_stats)" by (simp add: new_lan_stats_def)
  from all_device_speeds [OF _ this]
  show ?thesis by (simp add: build_all_device_response_def resp_hosts_def List.map_filter_simps)
qed

end
