(* ===== verification/DhnsPlan.thy ===== *)
theory DhnsPlan
  imports Shell IpUtil
begin

text \<open>
  The decisions of DHNS (a second DHCP client and name space that keep the router reachable when
  LAN and WAN addresses collide): \<open>backend/modules/dhns\<close>, packages \<open>conflict\<close>, \<open>events\<close>,
  \<open>httpresult\<close>, \<open>netns\<close>, \<open>netsections\<close>, \<open>recovery\<close> and \<open>udhcp\<close>, and the handlers of
  \<open>routes.go\<close>. They are pure; the worker that runs them is in \<open>DhnsWorker\<close>.
\<close>

section \<open>Address conflicts\<close>

record net_section =
  ns_section :: string
  ns_proto :: string
  ns_gateway :: string
  ns_net :: ipnet

record conflict_decision =
  cd_need :: bool
  cd_new_ip :: string
  cd_overlaps :: bool

record wan_lan_plan =
  wl_need :: bool
  wl_commands :: "string list"
  wl_reload :: bool

definition empty_conflict :: conflict_decision where
  "empty_conflict = \<lparr>cd_need = False, cd_new_ip = [], cd_overlaps = False\<rparr>"

definition empty_wan_lan_plan :: wan_lan_plan where
  "empty_wan_lan_plan = \<lparr>wl_need = False, wl_commands = [], wl_reload = False\<rparr>"

definition spare_ip1 :: string where
  "spare_ip1 = ''192.168.100.1''"

definition spare_ip2 :: string where
  "spare_ip2 = ''192.168.101.1''"

definition no_conflict_ip :: "ipnet \<Rightarrow> ipnet \<Rightarrow> string" where
  "no_conflict_ip n1 n2 =
     (let ip1 = parse_ip spare_ip1; ip2 = parse_ip spare_ip2 in
      if \<not> net_contains n2 ip1 \<and> \<not> net_contains n1 ip1 then ip_string ip1
      else if \<not> net_contains n2 ip2 \<and> \<not> net_contains n1 ip2 then ip_string ip2
      else [])"

definition evaluate_wan_lan_conflict :: "net_section \<Rightarrow> net_section \<Rightarrow> bool \<Rightarrow> conflict_decision" where
  "evaluate_wan_lan_conflict wan lan dhcp_disabled =
     (if ns_proto lan = ''dhcp'' \<or> (ns_proto lan = ''static'' \<and> ns_gateway lan \<noteq> [])
      then empty_conflict\<lparr>cd_need := True\<rparr>
      else if net_contains (ns_net wan) (net_ip (ns_net lan)) \<or> net_contains (ns_net lan) (net_ip (ns_net wan))
      then empty_conflict\<lparr>cd_new_ip := no_conflict_ip (ns_net wan) (ns_net lan), cd_overlaps := True\<rparr>
      else if dhcp_disabled then empty_conflict\<lparr>cd_need := True\<rparr>
      else empty_conflict)"

definition plan_wan_lan_conflict :: "net_section \<Rightarrow> net_section \<Rightarrow> bool \<Rightarrow> wan_lan_plan" where
  "plan_wan_lan_conflict wan lan dhcp_disabled =
     (let d = evaluate_wan_lan_conflict wan lan dhcp_disabled in
      if cd_overlaps d then
        (if cd_new_ip d = [] then empty_wan_lan_plan
         else empty_wan_lan_plan
           \<lparr>wl_commands := [''set network.'' @ ns_section lan @ ''.ipaddr='' @ cd_new_ip d, ''commit network''],
            wl_reload := True\<rparr>)
      else if cd_need d then empty_wan_lan_plan\<lparr>wl_need := True\<rparr>
      else empty_wan_lan_plan)"

section \<open>Events and answers\<close>

record dhns_change =
  dc_action :: string
  dc_params :: "string list"

record dhcp_info =
  di_ip :: string
  di_gateway :: string
  di_subnet :: string
  di_dns :: string

definition should_trigger_iface_event :: "dhns_change \<Rightarrow> bool" where
  "should_trigger_iface_event e =
     (if dc_action e = ''ifaceEvent''
      then length (dc_params e) = 2 \<and> (dc_params e ! 0 = ''up'' \<or> dc_params e ! 0 = ''down'')
      else dc_action e = ''uciChange'')"

definition http_is_ok :: "int \<Rightarrow> string result \<Rightarrow> bool" where
  "http_is_ok status body =
     (case body of Inl _ \<Rightarrow> False | Inr b \<Rightarrow> status = 200 \<and> contains_str b ''OK'')"

text \<open>The HTTP handlers: the status and body they answer, and whether the event is passed on.\<close>

definition bad_request :: nat where
  "bad_request = 400"

definition handle_dhns_change :: "(dhns_change result) \<Rightarrow> nat \<times> string" where
  "handle_dhns_change body =
     (case body of
        Inl e \<Rightarrow> (bad_request, e)
      | Inr evt \<Rightarrow> if should_trigger_iface_event evt then (200, ''OK'') else (bad_request, ''error event''))"

definition handle_dhcp_valid :: "dhcp_info result \<Rightarrow> (nat \<times> string) \<times> dhcp_info option" where
  "handle_dhcp_valid body =
     (case body of
        Inl e \<Rightarrow> ((bad_request, e), None)
      | Inr info \<Rightarrow>
          if di_ip info = [] \<or> di_subnet info = [] \<or> di_gateway info = []
          then ((bad_request, ''empty ip''), None)
          else ((200, ''Found DHCP Server''), Some info))"

section \<open>The name space\<close>

definition veth_host_device :: string where
  "veth_host_device = ''dheth0''"

definition create_interface_commands :: "string list" where
  "create_interface_commands =
     [''ip netns add dhns'', ''ip link add dheth0 type veth peer name dheth1'',
      ''ip link set dheth1 netns dhns'', ''ip link set dheth0 up'', ''echo OK'']"

definition validate_create_output :: "string result \<Rightarrow> goerr option" where
  "validate_create_output out =
     (case out of
        Inl e \<Rightarrow> Some e
      | Inr o1 \<Rightarrow> if contains_str o1 ''OK'' then None else Some ''unknown error'')"

definition bridge_ports_query :: "string list" where
  "bridge_ports_query = [''uci get network.@device[0].ports'']"

definition plan_bridge_port_commands :: "string result \<Rightarrow> string list result" where
  "plan_bridge_port_commands out =
     (case out of
        Inl e \<Rightarrow> Inl e
      | Inr o1 \<Rightarrow>
          if contains_str o1 veth_host_device then Inr []
          else Inr [''uci add_list network.@device[0].ports=dheth0'', ''uci commit network'',
                    ''/etc/init.d/network reload''])"

definition start_commands :: "string list" where
  "start_commands = [''ip netns exec dhns killall startdhns'', ''ip netns exec dhns /usr/sbin/startdhns dhns &'']"

definition stop_commands :: "string list" where
  "stop_commands = [''killall startdhns'', ''ip netns exec dhns ip addr flush dev dheth1'']"

section \<open>The interfaces of the network configuration\<close>

record sec_info =
  se_name :: string
  se_device :: string
  se_proto :: string
  se_gateway :: string
  se_net :: ipnet
  se_up :: bool

text \<open>The address of a static section, before its netmask option is read.\<close>

definition static_net :: "string \<Rightarrow> ipnet" where
  "static_net v =
     (if contains_str v ''/'' then
        (case parse_cidr v of Some (ip, cidr) \<Rightarrow> \<lparr>net_ip = ip, net_mask = net_mask cidr\<rparr> | None \<Rightarrow> nil_net)
      else \<lparr>net_ip = parse_ip v, net_mask = []\<rparr>)"

definition static_section_net :: "uci \<Rightarrow> string \<Rightarrow> ipnet option" where
  "static_section_net u sec =
     (case uci_last u ''network'' sec ''ipaddr'' of
        None \<Rightarrow> None
      | Some v \<Rightarrow>
          (let n = static_net v in
           if net_ip n = [] then None
           else
             (case uci_last u ''network'' sec ''netmask'' of
                Some m \<Rightarrow> Some (n\<lparr>net_mask := parse_ip m\<rparr>)
              | None \<Rightarrow> if net_mask n = [] then None else Some n)))"

text \<open>One pass of the loop; \<open>None\<close> is \<open>continue\<close>.\<close>

definition collect_section :: "uci \<Rightarrow> (string \<Rightarrow> ipnet result) \<Rightarrow> string \<Rightarrow> sec_info option" where
  "collect_section u resolve sec =
     (if sec = ''loopback'' then None
      else
        (case uci_last u ''network'' sec ''device'' of
           None \<Rightarrow> None
         | Some dev \<Rightarrow>
             (let gw = last_or_empty u ''network'' sec ''gateway'';
                  info = (\<lambda>p n. \<lparr>se_name = sec, se_device = dev, se_proto = p, se_gateway = gw, se_net = n,
                                 se_up = False\<rparr>)
              in case uci_last u ''network'' sec ''proto'' of
                   None \<Rightarrow> None
                 | Some p \<Rightarrow>
                     if p = ''dhcp'' then (case resolve dev of Inl _ \<Rightarrow> None | Inr n \<Rightarrow> Some (info p n))
                     else if p = ''static'' then map_option (info p) (static_section_net u sec)
                     else None)))"

definition collect_sections :: "uci \<Rightarrow> (string \<Rightarrow> ipnet result) \<Rightarrow> (string \<rightharpoonup> sec_info)" where
  "collect_sections u resolve =
     (case uci_sections u ''network'' ''interface'' of
        None \<Rightarrow> Map.empty
      | Some secs \<Rightarrow>
          foldl (\<lambda>m sec. case collect_section u resolve sec of None \<Rightarrow> m | Some i \<Rightarrow> m(sec \<mapsto> i)) Map.empty secs)"

section \<open>Recovery\<close>

record rec_section =
  rs_device :: string
  rs_proto :: string
  rs_gateway :: string
  rs_net :: ipnet
  rs_up :: bool

record dhcp_lease =
  dl_ip :: string
  dl_subnet :: string
  dl_gateway :: string

record dhcp_decision =
  dd_valid :: bool
  dd_conflict :: bool
  dd_restart_lan :: bool
  dd_create_planb :: bool
  dd_ifup_planb :: bool
  dd_commands :: "string list"

record iface_decision =
  ifd_stop_udhcpc :: bool
  ifd_stop_dhns :: bool
  ifd_setup_static :: bool
  ifd_check_conflict :: bool
  ifd_ifdown_planb :: bool
  ifd_ifdown_planb_ifup_lan :: bool
  ifd_ifup_lan :: bool
  ifd_check_lan_ip :: bool
  ifd_start_udhcpc :: bool

definition empty_dhcp_decision :: dhcp_decision where
  "empty_dhcp_decision =
     \<lparr>dd_valid = False, dd_conflict = False, dd_restart_lan = False, dd_create_planb = False,
      dd_ifup_planb = False, dd_commands = []\<rparr>"

definition empty_iface_decision :: iface_decision where
  "empty_iface_decision =
     \<lparr>ifd_stop_udhcpc = False, ifd_stop_dhns = False, ifd_setup_static = False, ifd_check_conflict = False,
      ifd_ifdown_planb = False, ifd_ifdown_planb_ifup_lan = False, ifd_ifup_lan = False,
      ifd_check_lan_ip = False, ifd_start_udhcpc = False\<rparr>"

definition lease_net :: "dhcp_lease \<Rightarrow> ipnet" where
  "lease_net d = \<lparr>net_ip = parse_ip (dl_ip d), net_mask = parse_ip (dl_subnet d)\<rparr>"

definition planb_up :: "rec_section option \<Rightarrow> bool" where
  "planb_up p = (case p of None \<Rightarrow> False | Some s \<Rightarrow> rs_up s)"

definition plan_dhcp_change :: "rec_section \<Rightarrow> rec_section option \<Rightarrow> dhcp_lease \<Rightarrow> dhcp_decision" where
  "plan_dhcp_change lan planb lease =
     (let new = lease_net lease in
      if net_ip new = [] \<or> net_mask new = [] then empty_dhcp_decision
      else if net_contains new (net_ip (rs_net lan)) \<or> net_contains (rs_net lan) (net_ip new)
      then empty_dhcp_decision\<lparr>dd_valid := True, dd_conflict := True, dd_restart_lan := planb_up planb\<rparr>
      else
        empty_dhcp_decision
          \<lparr>dd_valid := True, dd_create_planb := (planb = None),
           dd_commands :=
             (if planb = None
              then [''set network.planb=interface'', ''set network.planb.proto=dhcp'',
                    ''set network.planb.device='' @ rs_device lan, ''set network.planb.auto=0'']
              else []),
           dd_ifup_planb := (planb = None \<or> \<not> planb_up planb)\<rparr>)"

definition lan_needs_dhns :: "rec_section \<Rightarrow> bool" where
  "lan_needs_dhns lan \<longleftrightarrow> rs_proto lan = ''dhcp'' \<or> (rs_proto lan = ''static'' \<and> rs_gateway lan \<noteq> [])"

definition plan_iface_change ::
    "rec_section \<Rightarrow> rec_section option \<Rightarrow> rec_section option \<Rightarrow> bool \<Rightarrow> iface_decision" where
  "plan_iface_change lan wan planb network_ok =
     (if planb_up wan then
        empty_iface_decision
          \<lparr>ifd_stop_udhcpc := True, ifd_ifdown_planb := (planb \<noteq> None),
           ifd_setup_static := lan_needs_dhns lan, ifd_check_conflict := \<not> lan_needs_dhns lan,
           ifd_ifup_lan := (\<not> rs_up lan \<or> planb_up planb)\<rparr>
      else if lan_needs_dhns lan then
        empty_iface_decision
          \<lparr>ifd_stop_udhcpc := True, ifd_check_lan_ip := True, ifd_setup_static := True,
           ifd_ifdown_planb_ifup_lan := planb_up planb,
           ifd_ifup_lan := (\<not> planb_up planb \<and> \<not> rs_up lan)\<rparr>
      else if network_ok then empty_iface_decision\<lparr>ifd_stop_udhcpc := True\<rparr>
      else if (case planb of None \<Rightarrow> False | Some s \<Rightarrow> rs_up s \<and> net_ip (rs_net s) \<noteq> [])
      then empty_iface_decision\<lparr>ifd_stop_udhcpc := True\<rparr>
      else empty_iface_decision\<lparr>ifd_ifup_lan := \<not> rs_up lan, ifd_start_udhcpc := True\<rparr>)"

section \<open>The DHCP client process\<close>

definition pid_file :: string where
  "pid_file = ''/tmp/run/udhns.pid''"

record start_plan =
  sp_running :: bool
  sp_remove :: bool
  sp_commands :: "string list"

record stop_plan =
  st_remove :: bool
  st_commands :: "string list"

definition pid_from_file :: "string result \<Rightarrow> int" where
  "pid_from_file data = (case data of Inl _ \<Rightarrow> 0 | Inr s \<Rightarrow> fst (atoi (trim_char newline s)))"

definition udhcpc_command :: "string \<Rightarrow> string" where
  "udhcpc_command dev =
     ''udhcpc -t 0 -x hostname:dhns -x lease:120 -s '' @ [CHR 0x22] @ ''/usr/libexec/quickstart/dhcpvalid.sh''
       @ [CHR 0x22] @ '' -i '' @ dev @ '' -p '' @ pid_file"

definition plan_start :: "string \<Rightarrow> int \<Rightarrow> bool \<Rightarrow> start_plan" where
  "plan_start dev pid pid_exists =
     (if pid > 0 \<and> pid_exists then \<lparr>sp_running = True, sp_remove = False, sp_commands = []\<rparr>
      else \<lparr>sp_running = False, sp_remove = (pid > 0), sp_commands = [udhcpc_command dev]\<rparr>)"

definition plan_stop :: "int \<Rightarrow> bool \<Rightarrow> stop_plan" where
  "plan_stop pid pid_exists =
     (if pid \<le> 0 then \<lparr>st_remove = False, st_commands = []\<rparr>
      else \<lparr>st_remove = True, st_commands = (if pid_exists then [''kill '' @ fmt_int pid] else [])\<rparr>)"

section \<open>Networks with a prefix length\<close>

text \<open>An IPv4 network of address \<open>x\<close> and prefix length \<open>i\<close>, its mask in the 4-byte or the mapped form.\<close>

definition v4_net :: "ipnet \<Rightarrow> ip \<Rightarrow> nat \<Rightarrow> bool" where
  "v4_net n x i \<longleftrightarrow>
     to4 (net_ip n) = x \<and> length x = 4 \<and> i \<le> 32 \<and>
     (net_mask n = cidr_mask i 32 \<or> net_mask n = v4_prefix @ cidr_mask i 32)"

definition same_prefix :: "nat \<Rightarrow> ip \<Rightarrow> ip \<Rightarrow> bool" where
  "same_prefix i x y \<longleftrightarrow> map2 (AND) x (cidr_mask i 32) = map2 (AND) y (cidr_mask i 32)"

lemma four_cases:
  assumes "length x = 4"
  obtains a b c d where "x = [a, b, c, d]"
  using assms by (auto simp: numeral_eq_Suc length_Suc_conv)

lemma net_contains_v4:
  assumes "v4_net n x i" "to4 p = y" "length y = 4"
  shows "net_contains n p \<longleftrightarrow> same_prefix i x y"
proof -
  from assms(1) have "length x = 4" by (simp add: v4_net_def)
  then obtain a b c d where x: "x = [a, b, c, d]" by (rule four_cases)
  from assms(3) obtain a' b' c' d' where y: "y = [a', b', c', d']" by (rule four_cases)
  have "length (cidr_mask i 32) = 4" by simp
  then obtain q r s t where m: "cidr_mask i 32 = [q, r, s, t]" by (rule four_cases)
  from assms(1) consider "net_mask n = [q, r, s, t]" | "net_mask n = ipv4 q r s t"
    by (auto simp: v4_net_def m ipv4_def)
  then show ?thesis
  proof cases
    case 1
    then show ?thesis
      using net_contains_ipv4 [of n a b c d q r s t p a' b' c' d'] assms by (simp add: v4_net_def x y m same_prefix_def)
  next
    case 2
    then show ?thesis
      using net_contains_ipv4_mapped_mask [of n a b c d q r s t p a' b' c' d'] assms
      by (simp add: v4_net_def x y m same_prefix_def)
  qed
qed

lemma prefix_byte_and:
  "\<forall>k\<in>set [0..<9]. \<forall>l\<in>set [0..<9].
     (word_of_nat (256 - 2 ^ (8 - k)) AND word_of_nat (256 - 2 ^ (8 - l)) :: byte) = word_of_nat (256 - 2 ^ (8 - min k l))"
  by code_simp

lemma cidr_mask_and:
  assumes "j \<le> i"
  shows "map2 (AND) (cidr_mask i 32) (cidr_mask j 32) = cidr_mask j 32"
proof -
  have "(word_of_nat (256 - 2 ^ (8 - min 8 (i - 8 * k))) AND word_of_nat (256 - 2 ^ (8 - min 8 (j - 8 * k))) :: byte) =
      word_of_nat (256 - 2 ^ (8 - min 8 (j - 8 * k)))" for k
  proof -
    have "min 8 (i - 8 * k) \<in> set [0..<9]" "min 8 (j - 8 * k) \<in> set [0..<9]" by auto
    then have "(word_of_nat (256 - 2 ^ (8 - min 8 (i - 8 * k))) AND word_of_nat (256 - 2 ^ (8 - min 8 (j - 8 * k))) :: byte) =
        word_of_nat (256 - 2 ^ (8 - min (min 8 (i - 8 * k)) (min 8 (j - 8 * k))))"
      using prefix_byte_and by blast
    moreover have "min (min 8 (i - 8 * k)) (min 8 (j - 8 * k)) = min 8 (j - 8 * k)"
      using assms by auto
    ultimately show ?thesis by simp
  qed
  then show ?thesis by (simp add: cidr_mask_def map2_map_map)
qed

lemma same_prefix_shorter:
  assumes "same_prefix i x y" "j \<le> i"
  shows "same_prefix j x y"
proof -
  have and3: "map2 (AND) z (map2 (AND) m m') = map2 (AND) (map2 (AND) z m) m'" for z m m' :: ip
  proof (induction z arbitrary: m m')
    case (Cons u z)
    then show ?case by (cases m; cases m') (simp_all add: and.assoc)
  qed simp
  from assms(1) show ?thesis
    unfolding same_prefix_def by (metis and3 cidr_mask_and [OF assms(2)])
qed

lemma same_prefix_sym: "same_prefix i x y \<Longrightarrow> same_prefix i y x"
  by (simp add: same_prefix_def)

lemma same_prefix_trans: "same_prefix i x y \<Longrightarrow> same_prefix i y z \<Longrightarrow> same_prefix i x z"
  by (simp add: same_prefix_def)

section \<open>The new LAN address\<close>

lemma spare_ips:
  "parse_ip spare_ip1 = ipv4 192 168 100 1" "parse_ip spare_ip2 = ipv4 192 168 101 1"
  "dotted 192 168 100 1 = spare_ip1" "dotted 192 168 101 1 = spare_ip2"
proof -
  show s: "dotted 192 168 100 1 = spare_ip1" "dotted 192 168 101 1 = spare_ip2"
    by (simp_all add: spare_ip1_def spare_ip2_def dotted_def number_eval)
  show "parse_ip spare_ip1 = ipv4 192 168 100 1" "parse_ip spare_ip2 = ipv4 192 168 101 1"
    by (simp_all flip: s)
qed

lemma no_conflict_ip_outside:
  assumes "no_conflict_ip n1 n2 \<noteq> []"
  shows "\<not> net_contains n1 (parse_ip (no_conflict_ip n1 n2)) \<and> \<not> net_contains n2 (parse_ip (no_conflict_ip n1 n2)) \<and>
    length (to4 (parse_ip (no_conflict_ip n1 n2))) = 4"
  using assms by (auto simp: no_conflict_ip_def Let_def spare_ips split: if_splits)

text \<open>The networks overlap, as the code tests it.\<close>

definition overlap :: "ipnet \<Rightarrow> ipnet \<Rightarrow> bool" where
  "overlap n1 n2 \<longleftrightarrow> net_contains n1 (net_ip n2) \<or> net_contains n2 (net_ip n1)"

text \<open>
  C12. Renumbering the LAN works: when WAN and LAN are IPv4 networks with prefix masks that overlap
  and the plan sets a new LAN address, the LAN with that address and its old mask no longer
  overlaps the WAN; the commands are exactly the assignment of that address and the commit, followed by
  a reload.
\<close>

theorem wan_lan_conflict_resolved:
  assumes "v4_net (ns_net wan) w i" "v4_net (ns_net lan) l j"
    and "plan_wan_lan_conflict wan lan dis = p" "wl_commands p \<noteq> []"
  shows "\<exists>addr. wl_commands p = [''set network.'' @ ns_section lan @ ''.ipaddr='' @ addr, ''commit network''] \<and>
    wl_reload p \<and> \<not> wl_need p \<and> overlap (ns_net wan) (ns_net lan) \<and>
    \<not> overlap (ns_net wan) ((ns_net lan)\<lparr>net_ip := parse_ip addr\<rparr>)"
proof -
  let ?a = "no_conflict_ip (ns_net wan) (ns_net lan)"
  let ?y = "to4 (parse_ip ?a)"
  have over: "overlap (ns_net wan) (ns_net lan)" and ne: "?a \<noteq> []"
    and p: "p = \<lparr>wl_need = False, wl_commands = [''set network.'' @ ns_section lan @ ''.ipaddr='' @ ?a, ''commit network''],
              wl_reload = True\<rparr>"
    using assms(3,4)
    by (auto simp: plan_wan_lan_conflict_def evaluate_wan_lan_conflict_def Let_def overlap_def empty_conflict_def
        empty_wan_lan_plan_def split: if_splits)
  note out = no_conflict_ip_outside [OF ne]
  have wl: "length w = 4" "length l = 4" "to4 (net_ip (ns_net wan)) = w" "to4 (net_ip (ns_net lan)) = l"
    using assms(1,2) by (simp_all add: v4_net_def)
  have new: "v4_net ((ns_net lan)\<lparr>net_ip := parse_ip ?a\<rparr>) ?y j"
    using assms(2) out by (simp add: v4_net_def)
  have 1: "\<not> same_prefix i w ?y" "\<not> same_prefix j l ?y"
    using out net_contains_v4 [OF assms(1) refl] net_contains_v4 [OF assms(2) refl] by auto
  have 2: "same_prefix i w l \<or> same_prefix j l w"
    using over wl net_contains_v4 [OF assms(1) wl(4)] net_contains_v4 [OF assms(2) wl(3)] by (auto simp: overlap_def)
  have "\<not> same_prefix j ?y w"
  proof
    assume yw: "same_prefix j ?y w"
    show False
    proof (cases "i \<le> j")
      case True
      with yw 1 show False by (metis same_prefix_shorter same_prefix_sym)
    next
      case False
      with 2 have "same_prefix j l w" by (metis nat_le_linear same_prefix_shorter same_prefix_sym)
      with yw 1 show False by (metis same_prefix_sym same_prefix_trans)
    qed
  qed
  then have "\<not> overlap (ns_net wan) ((ns_net lan)\<lparr>net_ip := parse_ip ?a\<rparr>)"
    using out wl net_contains_v4 [OF new wl(3)] by (simp add: overlap_def)
  with over p show ?thesis by auto
qed

definition example_net :: "byte \<Rightarrow> ipnet" where
  "example_net c = \<lparr>net_ip = ipv4 192 168 c 1, net_mask = [255, 255, 255, 0]\<rparr>"

theorem wan_lan_conflict_resolved_witness:
  "\<not> overlap (example_net 1) ((example_net 1)\<lparr>net_ip := parse_ip spare_ip1\<rparr>)"
proof -
  let ?s = "\<lparr>ns_section = ''lan'', ns_proto = ''static'', ns_gateway = [], ns_net = example_net 1\<rparr>"
  have m: "cidr_mask 24 32 = [255, 255, 255, 0]" by code_simp
  have v: "v4_net (ns_net ?s) [192, 168, 1, 1] 24"
    by (simp add: v4_net_def example_net_def m)
  have c: "net_contains (example_net 1) p \<longleftrightarrow> same_prefix 24 [192, 168, 1, 1] (to4 p)" if "length (to4 p) = 4" for p
    using net_contains_v4 [OF v refl that] by simp
  have n: "no_conflict_ip (example_net 1) (example_net 1) = spare_ip1"
    by (simp add: no_conflict_ip_def spare_ips c same_prefix_def m)
  have o: "net_contains (example_net 1) (net_ip (example_net 1))"
    by (rule net_contains_self) (simp_all add: example_net_def)
  have p: "wl_commands (plan_wan_lan_conflict ?s ?s False) = [''set network.lan.ipaddr='' @ spare_ip1, ''commit network'']"
    by (simp add: plan_wan_lan_conflict_def evaluate_wan_lan_conflict_def o n empty_conflict_def empty_wan_lan_plan_def
        spare_ip1_def)
  from wan_lan_conflict_resolved [OF v v refl, of False] p show ?thesis by auto
qed

end
