(* ===== verification/DhnsState.thy ===== *)
theory DhnsState
  imports DhnsPlan
begin

text \<open>
  \<open>backend/modules/dhns/runtime/state.go\<close>: the state shared by the handlers and the worker
  goroutine \<open>dhnsChanging\<close> of \<open>backend/service/dhns.go\<close>. Every operation holds the lock, so each is
  one step; the worker is modelled by where it is in its loop. Waiter channels are numbers.
\<close>

section \<open>The operations\<close>

record pending =
  pe_iface :: bool
  pe_dhcp_change :: bool
  pe_dhcp :: "dhcp_info option"

record dhns_state =
  dh_running :: bool
  dh_iface :: bool
  dh_dhcp_change :: bool
  dh_last_dhcp :: "dhcp_info option"
  dh_waiter :: "nat option"

definition new_state :: dhns_state where
  "new_state =
     \<lparr>dh_running = False, dh_iface = False, dh_dhcp_change = False, dh_last_dhcp = None, dh_waiter = None\<rparr>"

text \<open>The result \<open>True\<close> asks the caller to start the worker.\<close>

definition ensure_running :: "dhns_state \<Rightarrow> bool \<times> dhns_state" where
  "ensure_running s = (if dh_running s then (False, s) else (True, s\<lparr>dh_running := True\<rparr>))"

definition mark_iface_change :: "dhns_state \<Rightarrow> bool \<times> dhns_state" where
  "mark_iface_change s = ensure_running (s\<lparr>dh_iface := True\<rparr>)"

definition drain :: "dhns_state \<Rightarrow> pending \<times> dhns_state" where
  "drain s =
     (\<lparr>pe_iface = dh_iface s, pe_dhcp_change = dh_dhcp_change s, pe_dhcp = dh_last_dhcp s\<rparr>,
      s\<lparr>dh_iface := False, dh_dhcp_change := False\<rparr>)"

definition finish :: "dhns_state \<Rightarrow> dhns_state" where
  "finish s = s\<lparr>dh_running := False\<rparr>"

definition register_dhcp_waiter :: "nat \<Rightarrow> dhns_state \<Rightarrow> bool \<times> dhns_state" where
  "register_dhcp_waiter ch s =
     (if dh_waiter s \<noteq> None then (False, s) else (True, s\<lparr>dh_waiter := Some ch\<rparr>))"

definition clear_dhcp_waiter :: "dhns_state \<Rightarrow> dhns_state" where
  "clear_dhcp_waiter s = s\<lparr>dh_waiter := None\<rparr>"

definition mark_dhcp_valid :: "dhcp_info \<Rightarrow> dhns_state \<Rightarrow> (bool \<times> nat option) \<times> dhns_state" where
  "mark_dhcp_valid info s =
     (let notify = dh_waiter s;
          (start, s1) = ensure_running (s\<lparr>dh_waiter := None, dh_dhcp_change := True, dh_last_dhcp := Some info\<rparr>)
      in ((start, notify), s1))"

definition reset_dhcp :: "dhns_state \<Rightarrow> dhns_state" where
  "reset_dhcp s = s\<lparr>dh_last_dhcp := None, dh_dhcp_change := False\<rparr>"

section \<open>The handlers and the worker as a machine\<close>

text \<open>
  A worker is about to drain, handles what it drained, or has drained nothing and will call
  \<open>Finish\<close>. The machine holds the workers that are alive.
\<close>

datatype worker = Draining | Handling pending | Leaving

type_synonym dhns_machine = "dhns_state \<times> worker list"

definition started :: "bool \<Rightarrow> worker list \<Rightarrow> worker list" where
  "started start ws = (if start then ws @ [Draining] else ws)"

definition drained :: "pending \<Rightarrow> worker" where
  "drained p = (if \<not> pe_iface p \<and> \<not> pe_dhcp_change p then Leaving else Handling p)"

inductive dhns_step :: "dhns_machine \<Rightarrow> dhns_machine \<Rightarrow> bool" where
  iface_event:
    "mark_iface_change s = (start, s') \<Longrightarrow> dhns_step (s, ws) (s', started start ws)"
| dhcp_event:
    "mark_dhcp_valid info s = ((start, notify), s') \<Longrightarrow> dhns_step (s, ws) (s', started start ws)"
| worker_drains:
    "ws = us @ Draining # vs \<Longrightarrow> drain s = (p, s') \<Longrightarrow> dhns_step (s, ws) (s', us @ drained p # vs)"
| worker_resets:
    "ws = us @ Handling p # vs \<Longrightarrow> dhns_step (s, ws) (reset_dhcp s, ws)"
| worker_waits:
    "ws = us @ Handling p # vs \<Longrightarrow> register_dhcp_waiter ch s = (ok, s') \<Longrightarrow> dhns_step (s, ws) (s', ws)"
| worker_loops:
    "ws = us @ Handling p # vs \<Longrightarrow> dhns_step (s, ws) (s, us @ Draining # vs)"
| worker_leaves:
    "ws = us @ Leaving # vs \<Longrightarrow> dhns_step (s, ws) (finish s, us @ vs)"
| waiter_times_out:
    "dhns_step (s, ws) (clear_dhcp_waiter s, ws)"

inductive_cases dhns_stepE: "dhns_step m m'"

text \<open>
  At most one worker is alive, exactly while \<open>running\<close> is set; a DHCP change comes with its lease,
  in the state and in what a worker drained.
\<close>

definition dhns_inv :: "dhns_machine \<Rightarrow> bool" where
  "dhns_inv = (\<lambda>(s, ws).
     (if dh_running s then \<exists>w. ws = [w] else ws = []) \<and>
     (dh_dhcp_change s \<longrightarrow> dh_last_dhcp s \<noteq> None) \<and>
     (\<forall>p. Handling p \<in> set ws \<longrightarrow> (pe_iface p \<or> pe_dhcp_change p) \<and> (pe_dhcp_change p \<longrightarrow> pe_dhcp p \<noteq> None)))"

lemmas dhns_ops = mark_iface_change_def mark_dhcp_valid_def ensure_running_def drain_def finish_def
  register_dhcp_waiter_def clear_dhcp_waiter_def reset_dhcp_def Let_def started_def drained_def

lemma dhns_inv_step: "dhns_step m m' \<Longrightarrow> dhns_inv m \<Longrightarrow> dhns_inv m'"
  by (erule dhns_stepE)
    (auto simp: dhns_inv_def dhns_ops append_eq_Cons_conv split: if_splits)

interpretation dhns: machine_invariant "(new_state, [])" dhns_step dhns_inv
proof
  show "dhns_inv (new_state, [])" by (simp add: dhns_inv_def new_state_def)
qed (rule dhns_inv_step)

text \<open>
  C11. In every interleaving of interface events, DHCP events, timeouts and worker steps there is at
  most one worker, alive exactly while the state says it is running; and a worker that handles a DHCP
  change has the lease of that change, so reading its address never dereferences \<open>nil\<close>.
\<close>

theorem dhns_single_worker:
  assumes "reach (new_state, []) dhns_step (s, ws)"
  shows "length ws = (if dh_running s then 1 else 0) \<and>
    (\<forall>p. Handling p \<in> set ws \<longrightarrow> pe_dhcp_change p \<longrightarrow> pe_dhcp p \<noteq> None)"
  using dhns.inv_reach [OF assms] by (auto simp: dhns_inv_def split: if_splits)

lemma reach_steps: "step\<^sup>*\<^sup>* init s \<Longrightarrow> reach init step s"
  by (induction rule: rtranclp_induct) (auto intro: reach.intros)

definition fresh_lease :: dhcp_info where
  "fresh_lease = \<lparr>di_ip = ''192.168.9.7'', di_gateway = ''192.168.9.1'', di_subnet = ''255.255.255.0'', di_dns = []\<rparr>"

lemma lease_is_handled:
  "reach (new_state, []) dhns_step
     (\<lparr>dh_running = True, dh_iface = False, dh_dhcp_change = False, dh_last_dhcp = Some fresh_lease, dh_waiter = None\<rparr>,
      [Handling \<lparr>pe_iface = False, pe_dhcp_change = True, pe_dhcp = Some fresh_lease\<rparr>])"
proof -
  let ?a = "\<lparr>dh_running = True, dh_iface = False, dh_dhcp_change = True, dh_last_dhcp = Some fresh_lease, dh_waiter = None\<rparr>"
  let ?b = "\<lparr>dh_running = True, dh_iface = False, dh_dhcp_change = False, dh_last_dhcp = Some fresh_lease, dh_waiter = None\<rparr>"
  let ?p = "\<lparr>pe_iface = False, pe_dhcp_change = True, pe_dhcp = Some fresh_lease\<rparr>"
  have "dhns_step (new_state, []) (?a, started True [])"
    by (rule dhcp_event [where info = fresh_lease and notify = None]) (simp add: dhns_ops new_state_def)
  moreover have "dhns_step (?a, started True []) (?b, [] @ drained ?p # [])"
    by (rule worker_drains) (simp_all add: dhns_ops)
  ultimately have "dhns_step\<^sup>*\<^sup>* (new_state, []) (?b, [] @ drained ?p # [])" by simp
  then show ?thesis by (intro reach_steps) (simp add: dhns_ops)
qed

theorem dhns_single_worker_witness:
  "length [Handling \<lparr>pe_iface = False, pe_dhcp_change = True, pe_dhcp = Some fresh_lease\<rparr>] = 1"
  using dhns_single_worker [OF lease_is_handled] by simp

text \<open>
  An event can be lost: between the worker's last \<open>Drain\<close> and its \<open>Finish\<close> an interface event
  finds \<open>running\<close> still set, so nobody starts a worker, and the worker leaves. The state that follows
  has the event pending, no worker and \<open>running\<close> unset, and it stays pending until another event comes: the
  only steps from there are events and timeouts.
\<close>

theorem dhns_event_lost:
  "\<exists>s. reach (new_state, []) dhns_step (s, []) \<and> dh_iface s \<and> \<not> dh_running s \<and>
     (\<forall>m. dhns_step (s, []) m \<longrightarrow>
        (\<exists>s'. m = (s', [Draining]) \<and> (mark_iface_change s = (True, s') \<or>
               (\<exists>info n. mark_dhcp_valid info s = ((True, n), s')))) \<or>
        m = (clear_dhcp_waiter s, []))"
proof (intro exI conjI)
  let ?idle = "\<lparr>dh_running = True, dh_iface = False, dh_dhcp_change = False, dh_last_dhcp = None, dh_waiter = None\<rparr>"
  let ?ev = "?idle\<lparr>dh_iface := True\<rparr>"
  let ?p = "\<lparr>pe_iface = True, pe_dhcp_change = False, pe_dhcp = None\<rparr>"
  let ?no = "\<lparr>pe_iface = False, pe_dhcp_change = False, pe_dhcp = None\<rparr>"
  have "dhns_step (new_state, []) (?ev, [Draining])"
    using iface_event [of new_state True ?ev "[]"] by (simp add: dhns_ops new_state_def)
  moreover have "dhns_step (?ev, [Draining]) (?idle, [Handling ?p])"
    using worker_drains [of "[Draining]" "[]" "[]" ?ev ?p ?idle] by (simp add: dhns_ops)
  moreover have "dhns_step (?idle, [Handling ?p]) (?idle, [Draining])"
    using worker_loops [of "[Handling ?p]" "[]" ?p "[]" ?idle] by simp
  moreover have "dhns_step (?idle, [Draining]) (?idle, [Leaving])"
    using worker_drains [of "[Draining]" "[]" "[]" ?idle ?no ?idle] by (simp add: dhns_ops)
  moreover have "dhns_step (?idle, [Leaving]) (?ev, [Leaving])"
    using iface_event [of ?idle False ?ev "[Leaving]"] by (simp add: dhns_ops)
  moreover have "dhns_step (?ev, [Leaving]) (?ev\<lparr>dh_running := False\<rparr>, [])"
    using worker_leaves [of "[Leaving]" "[]" "[]" ?ev] by (simp add: dhns_ops)
  ultimately have "dhns_step\<^sup>*\<^sup>* (new_state, []) (?ev\<lparr>dh_running := False\<rparr>, [])"
    by (meson converse_rtranclp_into_rtranclp rtranclp.rtrancl_refl)
  then show "reach (new_state, []) dhns_step (?ev\<lparr>dh_running := False\<rparr>, [])" by (rule reach_steps)
  show "\<forall>m. dhns_step (?ev\<lparr>dh_running := False\<rparr>, []) m \<longrightarrow>
        (\<exists>s'. m = (s', [Draining]) \<and> (mark_iface_change (?ev\<lparr>dh_running := False\<rparr>) = (True, s') \<or>
               (\<exists>info n. mark_dhcp_valid info (?ev\<lparr>dh_running := False\<rparr>) = ((True, n), s')))) \<or>
        m = (clear_dhcp_waiter (?ev\<lparr>dh_running := False\<rparr>), [])"
  proof (intro allI impI)
    fix m
    assume "dhns_step (?ev\<lparr>dh_running := False\<rparr>, []) m"
    then show "(\<exists>s'. m = (s', [Draining]) \<and> (mark_iface_change (?ev\<lparr>dh_running := False\<rparr>) = (True, s') \<or>
               (\<exists>info n. mark_dhcp_valid info (?ev\<lparr>dh_running := False\<rparr>) = ((True, n), s')))) \<or>
        m = (clear_dhcp_waiter (?ev\<lparr>dh_running := False\<rparr>), [])"
      by cases (auto simp: dhns_ops)
  qed
qed simp_all

theorem dhns_event_lost_witness:
  "\<exists>s. reach (new_state, []) dhns_step (s, []) \<and> dh_iface s \<and>
     (\<exists>s'. dhns_step (s, []) (s', [Draining]) \<and> mark_iface_change s = (True, s'))"
proof -
  obtain s where s: "reach (new_state, []) dhns_step (s, [])" "dh_iface s" "\<not> dh_running s"
    using dhns_event_lost by blast
  have "dhns_step (s, []) (snd (mark_iface_change s), [Draining])"
    using iface_event [of s True "snd (mark_iface_change s)" "[]"] s(3) by (simp add: dhns_ops)
  with s show ?thesis by (auto simp: dhns_ops)
qed

end
