(* ===== verification/Trace.thy ===== *)
theory Trace
  imports Prelude "HOL-Library.State_Monad"
begin

text \<open>
  Programs that act on the outside world and get answers from it. The state is the history of
  the actions performed so far, with the program's own state; an answer of the outside world is
  any function of the history, so a proof holds for every behaviour of the outside. The logic of
  \<open>does m Q\<close> relates the result of a program to the actions it performs.
\<close>

type_synonym ('e, 's, 'a) prog = "('e list \<times> 's, 'a) state"

definition act :: "'e \<Rightarrow> ('e, 's, unit) prog" where
  "act e = State (\<lambda>(h, s). ((), (h @ [e], s)))"

definition ask :: "('e list \<Rightarrow> 'a) \<Rightarrow> ('e, 's, 'a) prog" where
  "ask f = State (\<lambda>(h, s). (f h, (h, s)))"

definition own :: "('s \<Rightarrow> 'a \<times> 's) \<Rightarrow> ('e, 's, 'a) prog" where
  "own f = State (\<lambda>(h, s). (case f s of (a, s') \<Rightarrow> (a, (h, s'))))"

definition skip :: "('e, 's, unit) prog" where
  "skip = State_Monad.return ()"

definition act_if :: "bool \<Rightarrow> ('e, 's, unit) prog \<Rightarrow> ('e, 's, unit) prog" where
  "act_if b m = (if b then m else skip)"

lemma run_prims [simp]:
  "run_state (act e) (h, s) = ((), (h @ [e], s))"
  "run_state (ask f) (h, s) = (f h, (h, s))"
  "run_state (own g) (h, s) = (fst (g s), (h, snd (g s)))"
  "run_state skip (h, s) = ((), (h, s))"
  by (simp_all add: act_def ask_def own_def skip_def split: prod.split)

definition does :: "('e, 's, 'a) prog \<Rightarrow> ('a \<Rightarrow> 'e list \<Rightarrow> bool) \<Rightarrow> bool" where
  "does m Q \<longleftrightarrow> (\<forall>h s. \<exists>as. fst (snd (run_state m (h, s))) = h @ as \<and> Q (fst (run_state m (h, s))) as)"

named_theorems does_intro \<open>rules for the actions a program performs\<close>

lemma does_return [does_intro]: "Q a [] \<Longrightarrow> does (State_Monad.return a) Q"
  by (simp add: does_def)

lemma does_skip [does_intro]: "Q () [] \<Longrightarrow> does skip Q"
  by (simp add: does_def)

lemma does_act [does_intro]: "Q () [e] \<Longrightarrow> does (act e) Q"
  by (simp add: does_def)

lemma does_ask [does_intro]: "(\<And>a. Q a []) \<Longrightarrow> does (ask f) Q"
  by (simp add: does_def)

lemma does_own [does_intro]: "(\<And>a. Q a []) \<Longrightarrow> does (own f) Q"
  by (simp add: does_def)

lemma does_bind:
  assumes "does m Q" "\<And>a as. Q a as \<Longrightarrow> does (f a) (\<lambda>b bs. R b (as @ bs))"
  shows "does (m \<bind> f) R"
  unfolding does_def
proof (intro allI)
  fix h s
  obtain a h1 s1 where m: "run_state m (h, s) = (a, (h1, s1))" by (metis prod.collapse)
  with assms(1) obtain as where as: "h1 = h @ as" "Q a as"
    unfolding does_def by (metis fst_conv snd_conv)
  from assms(2) [OF as(2)] obtain bs where
    "fst (snd (run_state (f a) (h1, s1))) = h1 @ bs" "R (fst (run_state (f a) (h1, s1))) (as @ bs)"
    unfolding does_def by blast
  then show "\<exists>as. fst (snd (run_state (m \<bind> f) (h, s))) = h @ as \<and> R (fst (run_state (m \<bind> f) (h, s))) as"
    by (intro exI [of _ "as @ bs"]) (simp add: m as(1))
qed

lemma does_if [does_intro]:
  "(b \<Longrightarrow> does m Q) \<Longrightarrow> (\<not> b \<Longrightarrow> does n Q) \<Longrightarrow> does (if b then m else n) Q"
  by simp

lemma does_act_if [does_intro]:
  "(b \<Longrightarrow> does m Q) \<Longrightarrow> (\<not> b \<Longrightarrow> Q () []) \<Longrightarrow> does (act_if b m) Q"
  by (simp add: act_if_def does_skip)

lemma does_option [does_intro]:
  "(x = None \<Longrightarrow> does m Q) \<Longrightarrow> (\<And>y. x = Some y \<Longrightarrow> does (f y) Q) \<Longrightarrow>
   does (case x of None \<Rightarrow> m | Some y \<Rightarrow> f y) Q"
  by (cases x) simp_all

lemma does_sum [does_intro]:
  "(\<And>e. x = Inl e \<Longrightarrow> does (g e) Q) \<Longrightarrow> (\<And>y. x = Inr y \<Longrightarrow> does (f y) Q) \<Longrightarrow>
   does (case x of Inl e \<Rightarrow> g e | Inr y \<Rightarrow> f y) Q"
  by (cases x) simp_all

lemma does_mono: "does m Q \<Longrightarrow> (\<And>a as. Q a as \<Longrightarrow> R a as) \<Longrightarrow> does m R"
  unfolding does_def by meson

lemma does_conj: "does m Q \<Longrightarrow> does m R \<Longrightarrow> does m (\<lambda>a as. Q a as \<and> R a as)"
  unfolding does_def by (metis same_append_eq)

text \<open>Every action has a property.\<close>

definition only :: "('e \<Rightarrow> bool) \<Rightarrow> ('e, 's, 'a) prog \<Rightarrow> bool" where
  "only P m \<longleftrightarrow> does m (\<lambda>_ as. \<forall>a\<in>set as. P a)"

named_theorems only_intro \<open>rules for the actions a program may perform\<close>

lemma only_bind [only_intro]: "only P m \<Longrightarrow> (\<And>a. only P (f a)) \<Longrightarrow> only P (m \<bind> f)"
  unfolding only_def
  by (rule does_bind, assumption, rule does_mono, assumption) auto

lemma only_prims [only_intro]:
  "only P (State_Monad.return a)" "only P skip" "P e \<Longrightarrow> only P (act e)" "only P (ask f)" "only P (own g)"
  by (simp_all add: only_def does_return does_skip does_act does_ask does_own)

lemma only_if [only_intro]: "(b \<Longrightarrow> only P m) \<Longrightarrow> (\<not> b \<Longrightarrow> only P n) \<Longrightarrow> only P (if b then m else n)"
  by simp

lemma only_act_if [only_intro]: "(b \<Longrightarrow> only P m) \<Longrightarrow> only P (act_if b m)"
  by (simp add: act_if_def only_prims)

lemma only_option [only_intro]:
  "(x = None \<Longrightarrow> only P m) \<Longrightarrow> (\<And>y. x = Some y \<Longrightarrow> only P (f y)) \<Longrightarrow>
   only P (case x of None \<Rightarrow> m | Some y \<Rightarrow> f y)"
  by (cases x) simp_all

lemma only_sum [only_intro]:
  "(\<And>e. x = Inl e \<Longrightarrow> only P (g e)) \<Longrightarrow> (\<And>y. x = Inr y \<Longrightarrow> only P (f y)) \<Longrightarrow>
   only P (case x of Inl e \<Rightarrow> g e | Inr y \<Rightarrow> f y)"
  by (cases x) simp_all

lemma only_prod [only_intro]: "(\<And>x y. only P (f x y)) \<Longrightarrow> only P (case z of (x, y) \<Rightarrow> f x y)"
  by (cases z) simp

lemma only_let [only_intro]: "only P (f x) \<Longrightarrow> only P (let y = x in f y)"
  by simp

lemma does_prod [does_intro]: "(\<And>x y. z = (x, y) \<Longrightarrow> does (f x y) Q) \<Longrightarrow> does (case z of (x, y) \<Rightarrow> f x y) Q"
  by (cases z) simp

lemma does_let [does_intro]: "does (f x) Q \<Longrightarrow> does (let y = x in f y) Q"
  by simp

lemma only_does: "only P m \<Longrightarrow> (\<And>a as. \<forall>x\<in>set as. P x \<Longrightarrow> Q a as) \<Longrightarrow> does m Q"
  unfolding only_def by (rule does_mono)

lemma only_run:
  "only P m \<Longrightarrow> run_state m ([], s) = (a, (as, s')) \<Longrightarrow> x \<in> set as \<Longrightarrow> P x"
  unfolding only_def does_def by (metis append_Nil fst_conv snd_conv)

text \<open>Every result has a property.\<close>

definition gives :: "('a \<Rightarrow> bool) \<Rightarrow> ('e, 's, 'a) prog \<Rightarrow> bool" where
  "gives P m \<longleftrightarrow> (\<forall>w. P (fst (run_state m w)))"

lemma gives_return: "P a \<Longrightarrow> gives P (State_Monad.return a)"
  by (simp add: gives_def)

lemma gives_bind: "(\<And>a. gives P (f a)) \<Longrightarrow> gives P (m \<bind> f)"
  by (simp add: gives_def split: prod.split)

lemma does_gives: "does m Q \<Longrightarrow> gives P m \<Longrightarrow> does m (\<lambda>a as. Q a as \<and> P a)"
  unfolding does_def gives_def by blast

lemma does_run:
  "does m Q \<Longrightarrow> run_state m ([], s) = (a, (as, s')) \<Longrightarrow> Q a as"
  unfolding does_def by (metis append_Nil fst_conv snd_conv)

section \<open>Errors and loops\<close>

definition ok_then :: "('e, 's, 'a result) prog \<Rightarrow> ('a \<Rightarrow> ('e, 's, 'b result) prog) \<Rightarrow> ('e, 's, 'b result) prog" where
  "ok_then m f = do { x \<leftarrow> m; case x of Inl e \<Rightarrow> State_Monad.return (Inl e) | Inr y \<Rightarrow> f y }"

definition done_then :: "('e, 's, goerr option) prog \<Rightarrow> ('e, 's, 'b result) prog \<Rightarrow> ('e, 's, 'b result) prog" where
  "done_then m n = do { x \<leftarrow> m; case x of Some e \<Rightarrow> State_Monad.return (Inl e) | None \<Rightarrow> n }"

definition done_then_done :: "('e, 's, goerr option) prog \<Rightarrow> ('e, 's, goerr option) prog \<Rightarrow> ('e, 's, goerr option) prog" where
  "done_then_done m n = do { x \<leftarrow> m; case x of Some e \<Rightarrow> State_Monad.return (Some e) | None \<Rightarrow> n }"

primrec for_each :: "('a \<Rightarrow> ('e, 's, unit) prog) \<Rightarrow> 'a list \<Rightarrow> ('e, 's, unit) prog" where
  "for_each f [] = skip"
| "for_each f (x # xs) = do { _ \<leftarrow> f x; for_each f xs }"

primrec map_each :: "('a \<Rightarrow> ('e, 's, 'b) prog) \<Rightarrow> 'a list \<Rightarrow> ('e, 's, 'b list) prog" where
  "map_each f [] = State_Monad.return []"
| "map_each f (x # xs) = do { y \<leftarrow> f x; ys \<leftarrow> map_each f xs; State_Monad.return (y # ys) }"

primrec each_done :: "('a \<Rightarrow> ('e, 's, goerr option) prog) \<Rightarrow> 'a list \<Rightarrow> ('e, 's, goerr option) prog" where
  "each_done f [] = State_Monad.return None"
| "each_done f (x # xs) = done_then_done (f x) (each_done f xs)"

primrec map_ok :: "('a \<Rightarrow> ('e, 's, 'b result) prog) \<Rightarrow> 'a list \<Rightarrow> ('e, 's, 'b list result) prog" where
  "map_ok f [] = State_Monad.return (Inr [])"
| "map_ok f (x # xs) = ok_then (f x) (\<lambda>y. ok_then (map_ok f xs) (\<lambda>ys. State_Monad.return (Inr (y # ys))))"

lemma only_ok_then [only_intro]: "only P m \<Longrightarrow> (\<And>x. only P (f x)) \<Longrightarrow> only P (ok_then m f)"
  unfolding ok_then_def by (intro only_intro)

lemma only_done_then [only_intro]: "only P m \<Longrightarrow> only P n \<Longrightarrow> only P (done_then m n)"
  unfolding done_then_def by (intro only_intro)

lemma only_done_then_done [only_intro]: "only P m \<Longrightarrow> only P n \<Longrightarrow> only P (done_then_done m n)"
  unfolding done_then_done_def by (intro only_intro)

lemma only_for_each [only_intro]: "(\<And>x. x \<in> set xs \<Longrightarrow> only P (f x)) \<Longrightarrow> only P (for_each f xs)"
  by (induction xs) (auto intro!: only_intro)

lemma only_map_each [only_intro]: "(\<And>x. x \<in> set xs \<Longrightarrow> only P (f x)) \<Longrightarrow> only P (map_each f xs)"
  by (induction xs) (auto intro!: only_intro)

lemma only_each_done [only_intro]: "(\<And>x. x \<in> set xs \<Longrightarrow> only P (f x)) \<Longrightarrow> only P (each_done f xs)"
  by (induction xs) (auto intro!: only_intro)

lemma only_map_ok [only_intro]: "(\<And>x. x \<in> set xs \<Longrightarrow> only P (f x)) \<Longrightarrow> only P (map_ok f xs)"
  by (induction xs) (auto intro!: only_intro)

lemma does_ok_then:
  assumes "does m Q" "\<And>e as. Q (Inl e) as \<Longrightarrow> R (Inl e) as" "\<And>y as. Q (Inr y) as \<Longrightarrow> does (f y) (\<lambda>b bs. R b (as @ bs))"
  shows "does (ok_then m f) R"
  unfolding ok_then_def using assms by (intro does_bind [OF assms(1)]) (auto intro!: does_intro split: sum.split)

lemma does_done_then:
  assumes "does m Q" "\<And>e as. Q (Some e) as \<Longrightarrow> R (Inl e) as" "\<And>as. Q None as \<Longrightarrow> does n (\<lambda>b bs. R b (as @ bs))"
  shows "does (done_then m n) R"
  unfolding done_then_def using assms by (intro does_bind [OF assms(1)]) (auto intro!: does_intro split: option.split)

lemma does_done_then_done:
  assumes "does m Q" "\<And>e as. Q (Some e) as \<Longrightarrow> R (Some e) as" "\<And>as. Q None as \<Longrightarrow> does n (\<lambda>b bs. R b (as @ bs))"
  shows "does (done_then_done m n) R"
  unfolding done_then_done_def using assms by (intro does_bind [OF assms(1)]) (auto intro!: does_intro split: option.split)

lemma does_run_from:
  "does m Q \<Longrightarrow> run_state m (h, s) = (a, (h', s')) \<Longrightarrow> \<exists>as. h' = h @ as \<and> Q a as"
  unfolding does_def by (metis fst_conv snd_conv)

text \<open>A loop that stops at the first error: what holds of the actions of a full round, and of a stopped one.\<close>

lemma does_each_done:
  assumes "\<And>x. x \<in> set xs \<Longrightarrow> does (f x) (\<lambda>r as. if r = None then N x as else E x as)"
    and "\<And>ys x zs es. xs = ys @ x # zs \<Longrightarrow> list_all2 N ys es \<Longrightarrow> (\<And>as e. E x as \<Longrightarrow> R (Some e) (concat es @ as))"
    and "\<And>es. list_all2 N xs es \<Longrightarrow> R None (concat es)"
  shows "does (each_done f xs) R"
  using assms
proof (induction xs arbitrary: R)
  case Nil
  then show ?case by (auto intro!: does_intro)
next
  case (Cons x xs)
  show ?case
    unfolding each_done.simps
  proof (rule does_done_then_done [OF Cons.prems(1)])
    show "x \<in> set (x # xs)" by simp
    show "R (Some e) as" if "if Some e = None then N x as else E x as" for e as
      using Cons.prems(2) [of "[]" x xs "[]" as e] that by simp
  next
    fix as assume "if None = (None :: goerr option) then N x as else E x as"
    then have "N x as" by simp
    then show "does (each_done f xs) (\<lambda>b bs. R b (as @ bs))"
      apply (intro Cons.IH)
      subgoal using Cons.prems(1) by simp
      subgoal for ys y zs es bs e using Cons.prems(2) [of "x # ys" y zs "as # es" bs e] by simp
      subgoal for es using Cons.prems(3) [of "as # es"] by simp
      done
  qed
qed

section \<open>A run from a history\<close>

definition result_of :: "('e, unit, 'a) prog \<Rightarrow> 'e list \<Rightarrow> 'a" where
  "result_of m h = fst (run_state m (h, ()))"

definition after :: "('e, unit, 'a) prog \<Rightarrow> 'e list \<Rightarrow> 'e list" where
  "after m h = fst (snd (run_state m (h, ())))"

lemma does_after: "does m Q \<Longrightarrow> \<exists>as. after m h = h @ as \<and> Q (result_of m h) as"
  unfolding does_def after_def result_of_def by blast

lemma run_split: "run_state m (h, ()) = (result_of m h, (after m h, ()))"
  by (simp add: result_of_def after_def prod_eq_iff)

lemma bind_run [simp]:
  "result_of (m \<bind> f) h = result_of (f (result_of m h)) (after m h)"
  "after (m \<bind> f) h = after (f (result_of m h)) (after m h)"
  by (cases "run_state m (h, ())"; simp add: result_of_def after_def case_prod_beta)+

lemma prim_run [simp]:
  "result_of (State_Monad.return a) h = a" "after (State_Monad.return a) h = h"
  "result_of (act e) h = ()" "after (act e) h = h @ [e]"
  "result_of (ask g) h = g h" "after (ask g) h = h"
  "after skip h = h"
  by (simp_all add: result_of_def after_def)

lemma then_run [simp]:
  "result_of (ok_then m f) h = (case result_of m h of Inl e \<Rightarrow> Inl e | Inr y \<Rightarrow> result_of (f y) (after m h))"
  "after (ok_then m f) h = (case result_of m h of Inl e \<Rightarrow> after m h | Inr y \<Rightarrow> after (f y) (after m h))"
  "result_of (done_then k n) h = (case result_of k h of Some e \<Rightarrow> Inl e | None \<Rightarrow> result_of n (after k h))"
  "after (done_then k n) h = (case result_of k h of Some e \<Rightarrow> after k h | None \<Rightarrow> after n (after k h))"
  "result_of (done_then_done k q) h = (case result_of k h of Some e \<Rightarrow> Some e | None \<Rightarrow> result_of q (after k h))"
  "after (done_then_done k q) h = (case result_of k h of Some e \<Rightarrow> after k h | None \<Rightarrow> after q (after k h))"
  by (simp_all add: ok_then_def done_then_def done_then_done_def split: sum.split option.split)

section \<open>Steps in order\<close>

text \<open>
  A program that does steps one after the other and stops at the first that fails. \<open>good h a\<close> says that the
  action at the end of the history succeeded.
\<close>

fun all_ok :: "('e list \<Rightarrow> 'e \<Rightarrow> bool) \<Rightarrow> 'e list \<Rightarrow> 'e list \<Rightarrow> bool" where
  "all_ok good h [] \<longleftrightarrow> True"
| "all_ok good h (a # as) \<longleftrightarrow> good (h @ [a]) a \<and> all_ok good (h @ [a]) as"

text \<open>The first \<open>k\<close> actions of a list were done, all but the last with success; for an answer all of them.\<close>

definition stopped_at :: "('e list \<Rightarrow> 'e \<Rightarrow> bool) \<Rightarrow> 'e list \<Rightarrow> 'e list \<Rightarrow> nat \<Rightarrow> 'a result \<Rightarrow> bool" where
  "stopped_at good h all k r \<longleftrightarrow> k \<le> length all \<and> all_ok good h (take (k - 1) all) \<and>
     (case r of Inl _ \<Rightarrow> True | Inr _ \<Rightarrow> k = length all \<and> all_ok good h all)"

definition steps_in_order :: "('e list \<Rightarrow> 'e \<Rightarrow> bool) \<Rightarrow> ('e list \<Rightarrow> bool) \<Rightarrow> ('e, unit, 'a result) prog \<Rightarrow> bool" where
  "steps_in_order good P m \<longleftrightarrow> (\<forall>h. \<exists>all k. P all \<and> after m h = h @ take k all \<and> stopped_at good h all k (result_of m h))"

lemma stopped_first: "stopped_at good h (a # as) 1 (Inl err)" "stopped_at good h as 0 (Inl err)"
  by (simp_all add: stopped_at_def)

lemma stopped_next:
  assumes "stopped_at good (h @ [a]) as k r" and ok: "good (h @ [a]) a"
  shows "stopped_at good h (a # as) (Suc k) r"
  using assms by (cases k) (auto simp: stopped_at_def split: sum.splits)

lemma steps_in_order_step:
  assumes one: "\<And>h. (\<exists>a. A a \<and> after m h = h @ [a] \<and> (result_of m h = None \<longrightarrow> good (h @ [a]) a)) \<or>
      result_of m h \<noteq> None \<and> after m h = h"
    and some: "A b" and rest: "steps_in_order good P n"
  shows "steps_in_order good (\<lambda>all. \<exists>a rest. all = a # rest \<and> A a \<and> P rest) (done_then m n)"
  unfolding steps_in_order_def
proof
  fix h
  from rest obtain ls k where n: "P ls" "after n (after m h) = after m h @ take k ls"
      "stopped_at good (after m h) ls k (result_of n (after m h))"
    unfolding steps_in_order_def by metis
  consider (act) a where "A a" "after m h = h @ [a]" "result_of m h = None" "good (h @ [a]) a"
    | (bad) a err where "A a" "after m h = h @ [a]" "result_of m h = Some err"
    | (stop) err where "result_of m h = Some err" "after m h = h"
    using one [of h] by (cases "result_of m h") auto
  then show "\<exists>all k. (\<exists>a rest. all = a # rest \<and> A a \<and> P rest) \<and> after (done_then m n) h = h @ take k all \<and>
      stopped_at good h all k (result_of (done_then m n) h)"
  proof cases
    case act
    with n show ?thesis by (intro exI [of _ "a # ls"] exI [of _ "Suc k"]) (auto intro!: stopped_next)
  next
    case bad
    with n(1) show ?thesis by (intro exI [of _ "a # ls"] exI [of _ 1]) (auto simp: stopped_first [simplified])
  next
    case stop
    with n(1) some show ?thesis by (intro exI [of _ "b # ls"] exI [of _ 0]) (auto simp: stopped_first)
  qed
qed

lemma steps_in_order_mono: "steps_in_order good P m \<Longrightarrow> (\<And>all. P all \<Longrightarrow> Q all) \<Longrightarrow> steps_in_order good Q m"
  unfolding steps_in_order_def by blast

end
