(* ===== verification/DhnsWorker.thy ===== *)
theory DhnsWorker
  imports DhnsState Trace
begin

text \<open>
  \<open>backend/service/dhns.go\<close>: what the DHNS worker does with the events it drained, and the
  handlers that feed it. Actions are recorded in the order they are performed; what the outside
  answers (configuration, addresses, processes, the name space's HTTP server) is a record of functions of
  the history. The shared state of \<open>DhnsState\<close> is the program's own state; goroutines the code
  starts are actions too, and their bodies are definitions of their own.
\<close>

section \<open>Actions and answers\<close>

record dhns_static =
  stc_ip :: string
  stc_mask :: string
  stc_gateway :: string
  stc_check :: bool

datatype dhns_action =
    Run "string list" nat
  | RunOut "string list" nat
  | UciRun "string list" string
  | RemoveFile string
  | Dial string
  | Sleep nat
  | LoadConfig string
  | GetAlive
  | PostStatic dhns_static
  | StartWorker
  | StartLanCheck string
  | StartDhcpWait nat
  | Notify nat

type_synonym dhns_history = "dhns_action list"
type_synonym 'a dhns = "(dhns_action, dhns_state, 'a) prog"

record dhns_env =
  en_uci :: "dhns_history \<Rightarrow> uci"
  en_ipv4 :: "dhns_history \<Rightarrow> string \<Rightarrow> ipnet result"
  en_up :: "dhns_history \<Rightarrow> string \<Rightarrow> bool result"
  en_pid_file :: "dhns_history \<Rightarrow> string result"
  en_pid_exists :: "dhns_history \<Rightarrow> int \<Rightarrow> bool"
  en_dial :: "dhns_history \<Rightarrow> string \<Rightarrow> bool"
  en_out :: "dhns_history \<Rightarrow> string list \<Rightarrow> string result"
  en_dev :: "dhns_history \<Rightarrow> string \<Rightarrow> bool"
  en_alive :: "dhns_history \<Rightarrow> (int \<times> string result) result"
  en_static :: "dhns_history \<Rightarrow> dhns_static \<Rightarrow> (int \<times> string result) result"
  en_chan :: "dhns_history \<Rightarrow> nat"

section \<open>Network, processes and the name space\<close>

definition dhns_is_network_ok :: "dhns_env \<Rightarrow> bool dhns" where
  "dhns_is_network_ok e = do {
     act (Dial ''114.114.114.114:53'');
     ok \<leftarrow> ask (\<lambda>h. en_dial e h ''114.114.114.114:53'');
     if ok then State_Monad.return True
     else do {
       act (Dial ''223.5.5.5:53'');
       ask (\<lambda>h. en_dial e h ''223.5.5.5:53'')
     }
   }"

definition get_iface_status :: "dhns_env \<Rightarrow> string \<Rightarrow> bool dhns" where
  "get_iface_status e n = ask (\<lambda>h. case en_up e h n of Inl _ \<Rightarrow> False | Inr up \<Rightarrow> up)"

definition read_pid :: "dhns_env \<Rightarrow> (int \<times> bool) dhns" where
  "read_pid e = do {
     data \<leftarrow> ask (en_pid_file e);
     let pid = pid_from_file data;
     alive \<leftarrow> (if pid > 0 then ask (\<lambda>h. en_pid_exists e h pid) else State_Monad.return False);
     State_Monad.return (pid, alive)
   }"

definition start_udhcpc :: "dhns_env \<Rightarrow> string \<Rightarrow> unit dhns" where
  "start_udhcpc e dev = do {
     (pid, alive) \<leftarrow> read_pid e;
     let plan = plan_start dev pid alive;
     if sp_running plan then skip
     else do {
       act_if (sp_remove plan) (act (RemoveFile pid_file));
       ch \<leftarrow> ask (en_chan e);
       wait \<leftarrow> own (register_dhcp_waiter ch);
       act_if wait (act (StartDhcpWait ch));
       act (Run (sp_commands plan) 10)
     }
   }"

definition stop_udhcpc :: "dhns_env \<Rightarrow> unit dhns" where
  "stop_udhcpc e = do {
     (pid, alive) \<leftarrow> read_pid e;
     let plan = plan_stop pid alive;
     act_if (st_commands plan \<noteq> []) (act (Run (st_commands plan) 5));
     act_if (st_remove plan) (act (RemoveFile pid_file));
     own (\<lambda>s. ((), reset_dhcp s))
   }"

definition answer_ok :: "(int \<times> string result) result \<Rightarrow> bool" where
  "answer_ok r = (case r of Inl _ \<Rightarrow> False | Inr (status, body) \<Rightarrow> http_is_ok status body)"

definition dhns_alive :: "dhns_env \<Rightarrow> bool dhns" where
  "dhns_alive e = do { act GetAlive; ask (\<lambda>h. answer_ok (en_alive e h)) }"

definition create_dhns_interface :: "dhns_env \<Rightarrow> goerr option dhns" where
  "create_dhns_interface e = do {
     dev \<leftarrow> ask (\<lambda>h. en_dev e h veth_host_device);
     created \<leftarrow> (if dev then State_Monad.return None
       else do {
         act (RunOut create_interface_commands 5);
         ask (\<lambda>h. validate_create_output (en_out e h create_interface_commands))
       });
     case created of
       Some err \<Rightarrow> State_Monad.return (Some err)
     | None \<Rightarrow> do {
         act (RunOut bridge_ports_query 5);
         plan \<leftarrow> ask (\<lambda>h. plan_bridge_port_commands (en_out e h bridge_ports_query));
         case plan of
           Inl err \<Rightarrow> State_Monad.return (Some err)
         | Inr cmds \<Rightarrow> do {
             act_if (cmds \<noteq> []) (act (Run cmds 10));
             State_Monad.return None
           }
       }
   }"

fun wait_alive :: "dhns_env \<Rightarrow> nat \<Rightarrow> bool dhns" where
  "wait_alive e 0 = State_Monad.return False"
| "wait_alive e (Suc n) = do {
     alive \<leftarrow> dhns_alive e;
     if alive then State_Monad.return True
     else do { act (Sleep 1); wait_alive e n }
   }"

definition start_dhns :: "dhns_env \<Rightarrow> bool dhns" where
  "start_dhns e = do {
     alive \<leftarrow> dhns_alive e;
     if alive then State_Monad.return True
     else do {
       _ \<leftarrow> create_dhns_interface e;
       act (Run start_commands 0);
       wait_alive e 3
     }
   }"

definition stop_dhns :: "unit dhns" where
  "stop_dhns = act (Run stop_commands 5)"

definition dhns_setup_network :: "dhns_env \<Rightarrow> dhns_static \<Rightarrow> bool dhns" where
  "dhns_setup_network e net = do { act (PostStatic net); ask (\<lambda>h. answer_ok (en_static e h net)) }"

definition setup_static_ip_in_other_ns :: "dhns_env \<Rightarrow> ipnet \<Rightarrow> unit dhns" where
  "setup_static_ip_in_other_ns e lan =
     (let ip1 = parse_ip spare_ip1; ip2 = parse_ip spare_ip2;
          ip = (if \<not> net_contains lan ip1 then Some ip1 else if \<not> net_contains lan ip2 then Some ip2 else None)
      in case ip of
           None \<Rightarrow> stop_dhns
         | Some x \<Rightarrow> do {
             started \<leftarrow> start_dhns e;
             act_if started (do {
               _ \<leftarrow> dhns_setup_network e
                 \<lparr>stc_ip = ip_string x, stc_mask = ip_string (net_mask lan), stc_gateway = [], stc_check = False\<rparr>;
               skip
             })
           })"

section \<open>Conflicts\<close>

definition to_conflict_section :: "sec_info option \<Rightarrow> net_section" where
  "to_conflict_section sec =
     (case sec of
        None \<Rightarrow> \<lparr>ns_section = [], ns_proto = [], ns_gateway = [], ns_net = nil_net\<rparr>
      | Some s \<Rightarrow> \<lparr>ns_section = se_name s, ns_proto = se_proto s, ns_gateway = se_gateway s, ns_net = se_net s\<rparr>)"

definition to_recovery_section :: "sec_info \<Rightarrow> rec_section" where
  "to_recovery_section s =
     \<lparr>rs_device = se_device s, rs_proto = se_proto s, rs_gateway = se_gateway s, rs_net = se_net s,
      rs_up = se_up s\<rparr>"

definition lan_ignore_query :: "string list" where
  "lan_ignore_query = [''uci -q get dhcp.lan.ignore'']"

definition dhns_lan_dhcp_disabled :: "dhns_env \<Rightarrow> bool dhns" where
  "dhns_lan_dhcp_disabled e = do {
     act (RunOut lan_ignore_query 0);
     ask (\<lambda>h. case en_out e h lan_ignore_query of Inl _ \<Rightarrow> False | Inr out \<Rightarrow> contains_str out ''1'')
   }"

definition reload_network :: string where
  "reload_network = ''/etc/init.d/network reload''"

definition dhns_conflict_wan_and_lan :: "dhns_env \<Rightarrow> sec_info option \<Rightarrow> sec_info \<Rightarrow> bool dhns" where
  "dhns_conflict_wan_and_lan e wan lan = do {
     disabled \<leftarrow> dhns_lan_dhcp_disabled e;
     let plan = plan_wan_lan_conflict (to_conflict_section wan) (to_conflict_section (Some lan)) disabled;
     act_if (wl_commands plan \<noteq> []) (act (UciRun (wl_commands plan) (if wl_reload plan then reload_network else [])));
     State_Monad.return (wl_need plan)
   }"

section \<open>One pass of the worker\<close>

definition with_status :: "dhns_env \<Rightarrow> (string \<rightharpoonup> sec_info) \<Rightarrow> string \<Rightarrow> sec_info option dhns" where
  "with_status e secs n =
     (case secs n of
        None \<Rightarrow> State_Monad.return None
      | Some s \<Rightarrow> do { up \<leftarrow> get_iface_status e n; State_Monad.return (Some (s\<lparr>se_up := up\<rparr>)) })"

definition section_up :: "sec_info option \<Rightarrow> bool" where
  "section_up s = (case s of None \<Rightarrow> False | Some i \<Rightarrow> se_up i)"

text \<open>The answer says whether the pass goes on to the DHCP change.\<close>

definition handle_iface_change ::
    "dhns_env \<Rightarrow> sec_info \<Rightarrow> sec_info option \<Rightarrow> sec_info option \<Rightarrow> bool dhns" where
  "handle_iface_change e lan wan planb = do {
     network_ok \<leftarrow>
       (if \<not> section_up wan \<and>
           \<not> (se_proto lan = ''dhcp'' \<or> (se_proto lan = ''static'' \<and> se_gateway lan \<noteq> []))
        then dhns_is_network_ok e else State_Monad.return False);
     let d = plan_iface_change (to_recovery_section lan) (map_option to_recovery_section wan)
               (map_option to_recovery_section planb) network_ok;
     act_if (ifd_stop_udhcpc d) (stop_udhcpc e);
     act_if (ifd_ifdown_planb d) (act (Run [''ifdown planb''] 0));
     (if ifd_ifdown_planb_ifup_lan d then act (Run [''ifdown planb && ifup lan''] 0)
      else act_if (ifd_ifup_lan d) (act (Run [''ifup lan''] 0)));
     act_if (ifd_check_lan_ip d) (act (StartLanCheck (se_device lan)));
     (if ifd_check_conflict d then do {
        need \<leftarrow> dhns_conflict_wan_and_lan e wan lan;
        if need then setup_static_ip_in_other_ns e (se_net lan) else stop_dhns
      }
      else if ifd_setup_static d then setup_static_ip_in_other_ns e (se_net lan)
      else act_if (ifd_stop_dhns d) stop_dhns);
     if ifd_start_udhcpc d then do { start_udhcpc e (se_device lan); State_Monad.return True }
     else State_Monad.return False
   }"

text \<open>The answer \<open>False\<close> is the panic on a DHCP change without a lease.\<close>

definition handle_dhcp_change ::
    "dhns_env \<Rightarrow> sec_info \<Rightarrow> sec_info option \<Rightarrow> dhcp_info option \<Rightarrow> bool dhns" where
  "handle_dhcp_change e lan planb got = do {
     started \<leftarrow> start_dhns e;
     if \<not> started then State_Monad.return True
     else case got of
       None \<Rightarrow> State_Monad.return False
     | Some info \<Rightarrow> do {
         let d = plan_dhcp_change ((to_recovery_section lan)\<lparr>rs_proto := [], rs_gateway := []\<rparr>)
                   (map_option (\<lambda>s. (to_recovery_section s)\<lparr>rs_proto := [], rs_gateway := []\<rparr>) planb)
                   \<lparr>dl_ip = di_ip info, dl_subnet = di_subnet info, dl_gateway = di_gateway info\<rparr>;
         if \<not> dd_valid d then State_Monad.return True
         else if dd_conflict d then do {
           act_if (dd_restart_lan d) (act (Run [''ifdown planb && ifup lan''] 10));
           State_Monad.return True
         }
         else do {
           ok \<leftarrow> dhns_setup_network e
             \<lparr>stc_ip = di_ip info, stc_mask = di_subnet info, stc_gateway = di_gateway info, stc_check = False\<rparr>;
           if \<not> ok then State_Monad.return True
           else do {
             network_ok \<leftarrow> dhns_is_network_ok e;
             stop_udhcpc e;
             act_if (\<not> network_ok) (do {
               act_if (dd_commands d \<noteq> []) (act (UciRun (dd_commands d @ [''commit network'']) reload_network));
               act (Run [join_on '' && '' (if dd_ifup_planb d then [''ifup planb''] else [])] 10);
               stop_dhns
             });
             State_Monad.return True
           }
         }
       }
   }"

definition dhns_pass :: "dhns_env \<Rightarrow> pending \<Rightarrow> bool dhns" where
  "dhns_pass e p = do {
     idle \<leftarrow> (if pe_iface p then State_Monad.return False else dhns_is_network_ok e);
     if idle then State_Monad.return True
     else do {
       act (LoadConfig ''network'');
       secs \<leftarrow> ask (\<lambda>h. collect_sections (en_uci e h) (en_ipv4 e h));
       lan \<leftarrow> with_status e secs ''lan'';
       planb \<leftarrow> with_status e secs ''planb'';
       wan \<leftarrow> with_status e secs ''wan'';
       case lan of
         None \<Rightarrow> State_Monad.return True
       | Some l \<Rightarrow> do {
           go_on \<leftarrow> (if pe_iface p then handle_iface_change e l wan planb else State_Monad.return True);
           if go_on \<and> pe_dhcp_change p then handle_dhcp_change e l planb (pe_dhcp p)
           else State_Monad.return True
         }
     }
   }"

section \<open>Handlers and goroutines\<close>

definition sent_iface_event :: "unit dhns" where
  "sent_iface_event = do { start \<leftarrow> own mark_iface_change; act_if start (act StartWorker) }"

definition backend_dhns_change :: "dhns_change \<Rightarrow> bool dhns" where
  "backend_dhns_change evt =
     (if \<not> should_trigger_iface_event evt then State_Monad.return False
      else do { sent_iface_event; State_Monad.return True })"

definition backend_dhcp_valid :: "dhcp_info \<Rightarrow> unit dhns" where
  "backend_dhcp_valid info = do {
     (start, notify) \<leftarrow> own (mark_dhcp_valid info);
     (case notify of None \<Rightarrow> skip | Some ch \<Rightarrow> act (Notify ch));
     act_if start (act StartWorker)
   }"

text \<open>\<open>startUdhcpc\<close>'s goroutine when its timer fires first, and the check of the LAN address.\<close>

definition dhcp_wait_timeout :: "unit dhns" where
  "dhcp_wait_timeout = do { own (\<lambda>s. ((), clear_dhcp_waiter s)); sent_iface_event }"

fun lan_check_loop :: "dhns_env \<Rightarrow> string \<Rightarrow> nat \<Rightarrow> unit dhns" where
  "lan_check_loop e dev 0 = act (Run [''ifup lan''] 0)"
| "lan_check_loop e dev (Suc n) = do {
     r \<leftarrow> ask (\<lambda>h. en_ipv4 e h dev);
     case r of
       Inr _ \<Rightarrow> skip
     | Inl _ \<Rightarrow> do { act (Sleep 2); lan_check_loop e dev n }
   }"

definition lan_check :: "dhns_env \<Rightarrow> string \<Rightarrow> unit dhns" where
  "lan_check e dev = do { act (Sleep 3); lan_check_loop e dev 2 }"

definition setup_dhns :: "dhns_env \<Rightarrow> bool dhns" where
  "setup_dhns e = do {
     act (LoadConfig ''quickstart'');
     v \<leftarrow> ask (\<lambda>h. uci_last (en_uci e h) ''quickstart'' ''main'' ''disable_dhns'');
     if v = Some ''1'' then do { stop_udhcpc e; stop_dhns; State_Monad.return True }
     else State_Monad.return False
   }"

section \<open>What each part may do\<close>

text \<open>
  An action is quiet when it changes no configuration, posts no address to the name space and starts
  no DHCP client.
\<close>

fun quiet :: "dhns_action \<Rightarrow> bool" where
  "quiet (UciRun _ _) = False"
| "quiet (PostStatic _) = False"
| "quiet (Run cs _) = (\<forall>c\<in>set cs. \<not> has_prefix c ''udhcpc '')"
| "quiet _ = True"













lemma quiet_does: "only quiet m \<Longrightarrow> (\<And>b as. \<forall>x\<in>set as. quiet x \<Longrightarrow> Q b as) \<Longrightarrow> does m Q"
  by (rule only_does)


















section \<open>An interface change\<close>















end
