(* ===== verification/DhnsWire.thy ===== *)
theory DhnsWire
  imports DhnsWorker
begin

text \<open>
  The wire of DHNS: \<open>backend/message/msg.go\<close> (framing), \<open>connRead\<close> of
  \<open>backend/dhns/client.go\<close> and the HTTP handlers of \<open>backend/dhns/client_serve.go\<close>. A connection to read
  from is the list of the bytes that still arrive before it is closed; JSON texts are parameters. The result
  \<open>None\<close> is a run-time panic.
\<close>

section \<open>Framing\<close>

definition msg_type_ping :: nat where "msg_type_ping = 1"

definition msg_type_pong :: nat where "msg_type_pong = 2"

definition msg_type_new_conn :: nat where "msg_type_new_conn = 10"

definition put_uint16 :: "16 word \<Rightarrow> byte list" where
  "put_uint16 w = [ucast w, ucast (drop_bit 8 w)]"

fun uint16 :: "byte list \<Rightarrow> nat" where
  "uint16 (a # b # _) = unat a + 256 * unat b"
| "uint16 _ = 0"

definition err_eof :: goerr where "err_eof = ''EOF''"

definition err_unexpected_eof :: goerr where "err_unexpected_eof = ''unexpected EOF''"

text \<open>\<open>io.ReadFull\<close> of \<open>n > 0\<close> bytes.\<close>

definition read_full :: "nat \<Rightarrow> byte list \<Rightarrow> byte list result \<times> byte list" where
  "read_full n input =
     (if input = [] then (Inl err_eof, [])
      else if length input < n then (Inl err_unexpected_eof, [])
      else (Inr (take n input), drop n input))"

text \<open>
  \<open>ReadMessage\<close> into a buffer of \<open>cap\<close> bytes: the length and the type it returns, and what the buffer
  holds up to that length.
\<close>

definition read_message :: "nat \<Rightarrow> byte list \<Rightarrow> ((int \<times> nat \<times> byte list) result \<times> byte list) option" where
  "read_message cap input =
     (if cap < 4 then None
      else
        (case read_full 4 input of
           (Inl err, rest) \<Rightarrow> Some (Inl err, rest)
         | (Inr header, rest) \<Rightarrow>
             (let size = uint16 header; typ = uint16 (drop 2 header) in
              if int size > int cap - 4 then Some (Inl ''size to max'', rest)
              else if size > 4 then
                (case read_full (size - 4) rest of
                   (Inl err, rest1) \<Rightarrow> Some (Inl err, rest1)
                 | (Inr body, rest1) \<Rightarrow> Some (Inr (int size - 4, typ, body), rest1))
              else Some (Inr (int size - 4, typ, []), rest))))"

text \<open>\<open>WriteMessage\<close>; \<open>wr\<close> is \<open>c.Write\<close>.\<close>

definition message_header :: "16 word \<Rightarrow> byte list \<Rightarrow> byte list" where
  "message_header typ json = put_uint16 (word_of_nat (length json + 4)) @ put_uint16 typ"

definition write_message :: "(byte list \<Rightarrow> 'w eff) \<Rightarrow> 16 word \<Rightarrow> byte list result \<Rightarrow> 'w eff" where
  "write_message wr typ data w =
     (case data of
        Inl err \<Rightarrow> (Some err, w)
      | Inr json \<Rightarrow>
          (case wr (message_header typ json) w of
             (Some err, w1) \<Rightarrow> (Some err, w1)
           | (None, w1) \<Rightarrow> wr json w1))"

definition append_bytes :: "byte list \<Rightarrow> byte list eff" where
  "append_bytes bs w = (None, w @ bs)"

section \<open>The client's read loop\<close>

text \<open>
  What a message makes the client do: dial a new connection with the identifier it carries.
  \<open>parse\<close> is the JSON decoder of \<open>MessageDhnsNewConn\<close>.
\<close>

definition on_message :: "(byte list \<Rightarrow> string result) \<Rightarrow> int \<Rightarrow> nat \<Rightarrow> byte list \<Rightarrow> string list option" where
  "on_message parse n typ body =
     (if typ = msg_type_new_conn then
        (if n < 0 then None
         else (case parse body of Inl _ \<Rightarrow> Some [] | Inr conn_id \<Rightarrow> Some [conn_id]))
      else Some [])"

definition client_buffer :: nat where "client_buffer = 4096"

lemma read_message_shorter:
  "read_message cap input = Some (Inr r, rest) \<Longrightarrow> length rest < length input"
  by (auto simp: read_message_def read_full_def Let_def split: if_splits)

function conn_read :: "(byte list \<Rightarrow> string result) \<Rightarrow> byte list \<Rightarrow> string list option" where
  "conn_read parse input =
     (case read_message client_buffer input of
        None \<Rightarrow> None
      | Some (Inl _, _) \<Rightarrow> Some []
      | Some (Inr (n, typ, body), rest) \<Rightarrow>
          (case on_message parse n typ body of
             None \<Rightarrow> None
           | Some ids \<Rightarrow> map_option (\<lambda>more. ids @ more) (conn_read parse rest)))"
  by pat_completeness auto

termination
  by (relation "measure (\<lambda>(_, input). length input)") (auto intro: read_message_shorter)

declare conn_read.simps [simp del]

section \<open>The HTTP handlers in the name space\<close>

definition serve_check_alive :: "nat \<times> string" where
  "serve_check_alive = (200, ''OK'')"

text \<open>
  \<open>serveStaticIP\<close>: the request as decoded, the shell and the network check as parameters; the answer
  is the status and the body written. A netmask that is no address makes the handler call
  \<open>Error\<close> of the \<open>nil\<close> error.
\<close>

definition static_commands :: "dhns_static \<Rightarrow> ip \<Rightarrow> string list" where
  "static_commands net mask_ip =
     [''ip link set dheth1 up''] @
     (if stc_check net then [] else [''ip addr flush dev dheth1'']) @
     [''ip addr add '' @ stc_ip net @ ''/'' @ fmt_nat (fst (mask_size (to4 mask_ip))) @ '' dev dheth1''] @
     (if stc_gateway net \<noteq> [] then [''ip route add default via '' @ stc_gateway net] else [])"

definition serve_static_ip ::
    "'w exec \<Rightarrow> ('w \<Rightarrow> bool \<times> 'w) \<Rightarrow> dhns_static result \<Rightarrow> 'w \<Rightarrow> ((nat \<times> string) \<times> 'w) option" where
  "serve_static_ip exec check req w =
     (case req of
        Inl err \<Rightarrow> Some ((400, err), w)
      | Inr net \<Rightarrow>
          (let mask_ip = parse_ip (stc_mask net) in
           if mask_ip = [] then None
           else
             (case batch_run exec (static_commands net mask_ip) 5 w of
                (Some err, w1) \<Rightarrow> Some ((500, err), w1)
              | (None, w1) \<Rightarrow>
                  if stc_check net then
                    (let (ok, w2) = check w1;
                         del = ''ip addr del '' @ stc_ip net @ ''/'' @ fmt_nat (fst (mask_size (to4 mask_ip)))
                                 @ '' dev dheth1'';
                         (_, w3) = batch_run exec [del] 5 w2
                     in Some ((200, if ok then ''OK'' else ''FAILED''), w3))
                  else Some ((200, ''OK''), w1))))"

section \<open>Facts\<close>

lemma put_uint16_read: "uint16 (put_uint16 w @ bs) = unat w"
proof -
  have lo: "unat (ucast w :: byte) = unat w mod 256"
    by (simp add: unsigned_ucast_eq take_bit_eq_mod)
  have "unat (drop_bit 8 w) = unat w div 256"
    unfolding unat_drop_bit_eq by (simp add: drop_bit_eq_div)
  moreover have "unat w < 2 ^ 16" using unsigned_less [of w] by simp
  ultimately have hi: "unat (ucast (drop_bit 8 w) :: byte) = unat w div 256"
    by (simp add: unsigned_ucast_eq take_bit_eq_mod)
  have "unat w mod 256 + 256 * (unat w div 256) = unat w" by simp
  with lo hi show ?thesis by (simp add: put_uint16_def)
qed

lemma length_put_uint16 [simp]: "length (put_uint16 w) = 2"
  by (simp add: put_uint16_def)

lemma header_read:
  "uint16 (message_header typ json) = (length json + 4) mod 2 ^ 16"
  "uint16 (drop 2 (message_header typ json)) = unat typ"
proof -
  have "unat (word_of_nat (length json + 4) :: 16 word) = (length json + 4) mod 2 ^ 16"
    by (simp only: unat_of_nat) simp
  then show "uint16 (message_header typ json) = (length json + 4) mod 2 ^ 16"
    unfolding message_header_def by (simp only: put_uint16_read)
  show "uint16 (drop 2 (message_header typ json)) = unat typ"
    using put_uint16_read [of "typ" "[]"] by (simp add: message_header_def)
qed

lemma length_header [simp]: "length (message_header typ json) = 4"
  by (simp add: message_header_def)

lemma read_full_exact: "bs \<noteq> [] \<Longrightarrow> read_full (length bs) (bs @ rest) = (Inr bs, rest)"
  by (simp add: read_full_def)

definition fits :: "nat \<Rightarrow> byte list \<Rightarrow> bool" where
  "fits cap json \<longleftrightarrow> length json + 8 \<le> cap \<and> length json + 4 < 2 ^ 16"

lemma read_written:
  assumes "fits cap json"
  shows "read_message cap (message_header typ json @ json @ rest) = Some (Inr (int (length json), unat typ, json), rest)"
proof -
  have h: "read_full 4 (message_header typ json @ bs) = (Inr (message_header typ json), bs)" for bs
    using read_full_exact [of "message_header typ json" bs] by (metis length_header list.size(3) zero_neq_numeral)
  have s: "uint16 (message_header typ json) = length json + 4"
    using assms by (simp add: header_read fits_def)
  show ?thesis
  proof (cases "json = []")
    case True
    with assms s h [of rest] show ?thesis
      by (simp add: read_message_def header_read(2) fits_def)
  next
    case False
    with assms show ?thesis
      by (simp add: read_message_def h s header_read(2) fits_def read_full_exact)
  qed
qed

text \<open>A sequence of messages written one after the other; what it makes the client do.\<close>

definition encode :: "16 word \<times> byte list \<Rightarrow> byte list" where
  "encode m = message_header (fst m) (snd m) @ snd m"

definition new_conn_ids :: "(byte list \<Rightarrow> string result) \<Rightarrow> (16 word \<times> byte list) list \<Rightarrow> string list" where
  "new_conn_ids parse ms =
     concat (map (\<lambda>m. if unat (fst m) = msg_type_new_conn then (case parse (snd m) of Inl _ \<Rightarrow> [] | Inr i \<Rightarrow> [i]) else []) ms)"

lemma write_is_encode: "write_message append_bytes typ (Inr json) w = (None, w @ encode (typ, json))"
  by (simp add: write_message_def append_bytes_def encode_def)

lemma conn_read_encoded:
  assumes "\<forall>m\<in>set ms. fits client_buffer (snd m)"
  shows "conn_read parse (concat (map encode ms) @ tail) = map_option (\<lambda>more. new_conn_ids parse ms @ more) (conn_read parse tail)"
  using assms
proof (induction ms)
  case Nil
  then show ?case by (simp add: new_conn_ids_def option.map_ident)
next
  case (Cons m ms)
  obtain t j where m: "m = (t, j)" by (cases m)
  have "read_message client_buffer (encode m @ concat (map encode ms) @ tail) =
      Some (Inr (int (length j), unat t, j), concat (map encode ms) @ tail)"
    using read_written [of client_buffer j t "concat (map encode ms) @ tail"] Cons.prems by (simp add: encode_def m)
  moreover have "on_message parse (int (length j)) (unat t) j = Some (new_conn_ids parse [m])"
    by (simp add: on_message_def new_conn_ids_def m split: sum.split)
  ultimately show ?case
    using Cons by (subst conn_read.simps) (cases "conn_read parse tail"; simp add: new_conn_ids_def)
qed

lemma partial_message:
  assumes "fits cap json" "length part < length (encode (typ, json))" "encode (typ, json) = part @ rest"
  shows "\<exists>err rest. read_message cap part = Some (Inl err, rest)"
proof (cases "length part < 4")
  case True
  then have "\<exists>err. read_full 4 part = (Inl err, [])" by (simp add: read_full_def)
  with assms(1) show ?thesis by (auto simp: read_message_def fits_def)
next
  case False
  have "take 4 (encode (typ, json)) = message_header typ json" by (simp add: encode_def)
  with False assms(3) have t: "take 4 part = message_header typ json" by (metis append_take_drop_id length_header not_less take_append take_all_iff diff_is_0_eq take0 append_Nil2)
  have h: "read_full 4 part = (Inr (message_header typ json), drop 4 part)"
    using False by (auto simp: read_full_def t)
  have s: "uint16 (message_header typ json) = length json + 4"
    using assms(1) by (simp add: header_read fits_def)
  have l: "length (drop 4 part) < length json" using assms(2) False by (simp add: encode_def)
  then have "\<exists>err. read_full (length json) (drop 4 part) = (Inl err, [])" by (simp add: read_full_def)
  with l assms(1) show ?thesis by (auto simp: read_message_def h s fits_def Let_def)
qed

text \<open>
  C13. The framing round-trips: whatever messages the server writes that fit the client's buffer, the client's read
  loop, which always ends, dials exactly the connections announced in them, in order and without a panic, also when the
  connection breaks in the middle of a further message.
\<close>

theorem messages_roundtrip:
  assumes "\<forall>m\<in>set ms. fits client_buffer (snd m)"
    and "fits client_buffer json" "length part < length (encode (typ, json))" "encode (typ, json) = part @ rest"
  shows "conn_read parse (snd (foldl (\<lambda>(e, w) m. write_message append_bytes (fst m) (Inr (snd m)) w) (None, []) ms) @ part) =
    Some (new_conn_ids parse ms)"
proof -
  have w: "snd (foldl (\<lambda>(e, w) m. write_message append_bytes (fst m) (Inr (snd m)) w) (e, w) ms) = w @ concat (map encode ms)" for e w
    by (induction ms arbitrary: e w) (simp_all add: write_is_encode)
  have "conn_read parse part = Some []"
    using partial_message [OF assms(2-4)] by (subst conn_read.simps) auto
  then show ?thesis
    by (simp add: w conn_read_encoded [OF assms(1)])
qed

theorem messages_roundtrip_witness:
  "conn_read (\<lambda>b. Inr (map (\<lambda>x. char_of (unat x)) b)) (encode (10, [97, 98]) @ [5]) = Some [''ab'']"
proof -
  have f: "fits client_buffer [97, 98]" "fits client_buffer [1]" by (simp_all add: fits_def client_buffer_def)
  have e: "encode (2, [1]) = [5] @ [0, 2, 0, 1]"
    by (simp add: encode_def message_header_def put_uint16_def)
  have "snd (foldl (\<lambda>(e, w) m. write_message append_bytes (fst m) (Inr (snd m)) w) (None, []) [(10, [97, 98])]) =
      encode (10, [97, 98])"
    by (simp add: write_is_encode)
  with messages_roundtrip [of "[(10, [97, 98])]" "[1]" "[5]" 2 "[0, 2, 0, 1]" "\<lambda>b. Inr (map (\<lambda>x. char_of (unat x)) b)"] f e
  show ?thesis by (simp add: new_conn_ids_def msg_type_new_conn_def char_of_def bit_simps)
qed

lemma short_header:
  assumes "sz < 4"
  shows "conn_read parse (put_uint16 (word_of_nat sz) @ put_uint16 10 @ tail) = None"
proof -
  let ?h = "put_uint16 (word_of_nat sz) @ put_uint16 10"
  have h: "read_full 4 (?h @ tail) = (Inr ?h, tail)"
    by (simp add: read_full_def put_uint16_def)
  have s: "uint16 ?h = sz" "uint16 (drop 2 ?h) = 10"
    using assms put_uint16_read [of "word_of_nat sz" "put_uint16 10"] put_uint16_read [of 10 "[]"]
    by (simp_all add: unat_of_nat)
  have "read_message client_buffer (?h @ tail) = Some (Inr (int sz - 4, 10, []), tail)"
    unfolding read_message_def h using assms by (simp add: s [simplified] Let_def client_buffer_def)
  then show ?thesis
    using assms by (subst conn_read.simps) (simp add: on_message_def msg_type_new_conn_def)
qed

text \<open>
  Two messages the framing does not carry: a header that announces a length below its own
  makes the client slice a buffer with a negative bound, a panic of the process; and the length field of a
  written message is the length modulo \<open>2 ^ 16\<close>, so a text of 65532 bytes is written with the length 0,
  which the reader takes for such a header.
\<close>

theorem short_header_panics:
  assumes "sz < 4" "length json = 65532"
  shows "conn_read parse (put_uint16 (word_of_nat sz) @ put_uint16 10 @ tail) = None \<and>
    conn_read parse (encode (10, json)) = None"
proof -
  have "encode (10, json) = put_uint16 (word_of_nat 0) @ put_uint16 10 @ json"
  proof -
    have "(word_of_nat (length json + 4) :: 16 word) = word_of_nat 0"
      by (rule word_unat_eq_iff [THEN iffD2]) (simp only: unat_of_nat, simp add: assms(2))
    then show ?thesis by (simp only: encode_def message_header_def fst_conv snd_conv append_assoc)
  qed
  with short_header [of 0 parse json] short_header [OF assms(1)] show ?thesis by simp
qed

theorem short_header_panics_witness:
  "conn_read (\<lambda>_. Inr []) (encode (10, replicate 65532 0)) = None"
proof -
  have "length (replicate 65532 (0 :: byte)) = 65532" by (rule length_replicate)
  from short_header_panics [OF zero_less_numeral this] show ?thesis by blast
qed

section \<open>The address in the name space\<close>

lemma mask_size_cidr: "\<forall>n\<in>set [0..<33]. mask_size (cidr_mask n 32) = (n, 32)"
  by code_simp

lemma ip_string_four: "ip_string [a, b, c, d] = dotted a b c d"
  by (simp add: ip_string_def)

lemma mask_text_prefix:
  assumes "v4_net lan x n"
  shows "parse_ip (ip_string (net_mask lan)) \<noteq> [] \<and> fst (mask_size (to4 (parse_ip (ip_string (net_mask lan))))) = n"
proof -
  have "length (cidr_mask n 32) = 4" by simp
  then obtain a b c d where m: "cidr_mask n 32 = [a, b, c, d]" by (rule four_cases)
  have "n \<in> set [0..<33]" using assms by (auto simp: v4_net_def)
  with mask_size_cidr have "mask_size [a, b, c, d] = (n, 32)" unfolding m [symmetric] by blast
  moreover have "net_mask lan = [a, b, c, d] \<or> net_mask lan = ipv4 a b c d"
    using assms by (auto simp: v4_net_def m ipv4_def)
  then have "ip_string (net_mask lan) = dotted a b c d" by (auto simp: ip_string_four)
  ultimately show ?thesis by simp
qed

lemma answer_ok_iff: "answer_ok (Inr (int status, Inr body)) \<longleftrightarrow> status = 200 \<and> contains_str body ''OK''"
  by (auto simp: answer_ok_def http_is_ok_def)

text \<open>
  What the router posts for a LAN and what the name space does with it agree: for a LAN with a prefix
  mask the handler brings the device up, replaces its addresses by the posted one with the LAN's
  prefix length, and the router takes the answer for a success exactly when the commands
  succeeded and no network check was asked for. A netmask that is no address is a panic of the handler.
\<close>

theorem static_ip_served:
  assumes "v4_net lan x n" "parse_ip bad = []"
  shows "(let net = \<lparr>stc_ip = ip, stc_mask = ip_string (net_mask lan), stc_gateway = [], stc_check = False\<rparr>;
        cmds = [''ip link set dheth1 up'', ''ip addr flush dev dheth1'',
                ''ip addr add '' @ ip @ ''/'' @ fmt_nat n @ '' dev dheth1'']
    in serve_static_ip exec check (Inr net) w =
         (case batch_run exec cmds 5 w of
            (Some err, w1) \<Rightarrow> Some ((500, err), w1)
          | (None, w1) \<Rightarrow> Some ((200, ''OK''), w1)) \<and>
       (\<forall>status body w1. serve_static_ip exec check (Inr net) w = Some ((status, body), w1) \<longrightarrow>
          (answer_ok (Inr (int status, Inr body)) \<longleftrightarrow> fst (batch_run exec cmds 5 w) = None)) \<and>
       serve_static_ip exec check (Inr (net\<lparr>stc_mask := bad\<rparr>)) w = None)"
proof -
  let ?net = "\<lparr>stc_ip = ip, stc_mask = ip_string (net_mask lan), stc_gateway = [], stc_check = False\<rparr>"
  let ?cmds = "[''ip link set dheth1 up'', ''ip addr flush dev dheth1'',
      ''ip addr add '' @ ip @ ''/'' @ fmt_nat n @ '' dev dheth1'']"
  note m = mask_text_prefix [OF assms(1)]
  have c: "static_commands ?net (parse_ip (ip_string (net_mask lan))) = ?cmds"
    using m by (simp add: static_commands_def)
  have s: "serve_static_ip exec check (Inr ?net) w =
      (case batch_run exec ?cmds 5 w of
         (Some err, w1) \<Rightarrow> Some ((500, err), w1) | (None, w1) \<Rightarrow> Some ((200, ''OK''), w1))"
    using m by (simp only: serve_static_ip_def sum.case Let_def dhns_static.simps c if_False simp_thms)
  have "contains_str ''OK'' ''OK''" by (simp add: has_prefix_def)
  then have a: "\<forall>status body w1. serve_static_ip exec check (Inr ?net) w = Some ((status, body), w1) \<longrightarrow>
      (answer_ok (Inr (int status, Inr body)) \<longleftrightarrow> fst (batch_run exec ?cmds 5 w) = None)"
    unfolding s answer_ok_iff by (auto split: prod.splits option.splits)
  have b: "serve_static_ip exec check (Inr (?net\<lparr>stc_mask := bad\<rparr>)) w = None"
    by (simp add: serve_static_ip_def assms(2))
  from s a b show ?thesis unfolding Let_def by blast
qed

theorem static_ip_served_witness:
  "serve_static_ip recording (\<lambda>w. (True, w))
     (Inr \<lparr>stc_ip = ''192.168.100.1'', stc_mask = ip_string (net_mask (example_net 1)), stc_gateway = [], stc_check = False\<rparr>) [] =
   Some ((200, ''OK''),
     [BashStdin (concat (map (\<lambda>c. c @ [newline]) [''ip link set dheth1 up'', ''ip addr flush dev dheth1'',
        ''ip addr add 192.168.100.1/24 dev dheth1'']))])"
proof -
  have m: "cidr_mask 24 32 = [255, 255, 255, 0]" by code_simp
  have v: "v4_net (example_net 1) [192, 168, 1, 1] 24"
    by (simp add: v4_net_def example_net_def m)
  have "fmt_nat 24 = ''24''" by (simp add: number_eval)
  with static_ip_served [OF v parse_ip_empty, of "''192.168.100.1''" recording "\<lambda>w. (True, w)" "[]"]
  show ?thesis
    by (simp add: Let_def batch_run_def create_batch_command_def recording_def)
qed

end
