(* ===== verification/DhnsServer.thy ===== *)
theory DhnsServer
  imports Prelude
begin

text \<open>
  \<open>backend/dhns/server.go\<close>: the connection bus, which hands connections that come in under an identifier
  to the goroutines that asked for them (\<open>DialDhns\<close>), and the control connection with its writer
  goroutines; and \<open>backend/dhns/muxlistener.go\<close>. Items and connections are numbers; the channel of an item
  (capacity 1) is its content and whether it is closed. A result \<open>None\<close> is a panic: closing a closed
  channel or sending on one; blocking on a full channel is \<open>None\<close> too. Times are nanoseconds.
\<close>

section \<open>The connection bus\<close>

record conn_item =
  ci_id :: string
  ci_time :: int
  ci_conn :: "nat option"
  ci_closed :: bool

text \<open>\<open>bus_order\<close> is the list the code keeps beside the map, oldest item first; \<open>bus_regist\<close> the channel of
  items on their way to the bus.\<close>

record bus =
  bus_items :: "nat \<rightharpoonup> conn_item"
  bus_map :: "string \<rightharpoonup> nat"
  bus_order :: "nat list"
  bus_regist :: "nat list"
  bus_dropped :: "nat list"

definition new_bus :: bus where
  "new_bus = \<lparr>bus_items = Map.empty, bus_map = Map.empty, bus_order = [], bus_regist = [], bus_dropped = []\<rparr>"

definition bus_timeout_ns :: int where
  "bus_timeout_ns = 10 * 1000000000"

definition close_item :: "nat \<Rightarrow> bus \<Rightarrow> bus option" where
  "close_item n b =
     (case bus_items b n of
        None \<Rightarrow> None
      | Some it \<Rightarrow> if ci_closed it then None else Some (b\<lparr>bus_items := (bus_items b)(n \<mapsto> it\<lparr>ci_closed := True\<rparr>)\<rparr>))"

definition send_item :: "nat \<Rightarrow> nat \<Rightarrow> bus \<Rightarrow> bus option" where
  "send_item n c b =
     (case bus_items b n of
        None \<Rightarrow> None
      | Some it \<Rightarrow>
          if ci_closed it \<or> ci_conn it \<noteq> None then None
          else Some (b\<lparr>bus_items := (bus_items b)(n \<mapsto> it\<lparr>ci_conn := Some c\<rparr>)\<rparr>))"

lemma close_item_order: "close_item n b = Some b' \<Longrightarrow> bus_order b' = bus_order b"
  by (auto simp: close_item_def split: option.splits if_splits)

text \<open>The ticker: items older than ten seconds are removed from the front of the list and closed.\<close>

function bus_tick :: "int \<Rightarrow> bus \<Rightarrow> bus option" where
  "bus_tick now b =
     (case bus_order b of
        [] \<Rightarrow> Some b
      | n # ns \<Rightarrow>
          (case bus_items b n of
             None \<Rightarrow> None
           | Some it \<Rightarrow>
               if ci_time it < now - bus_timeout_ns then
                 Option.bind (close_item n (b\<lparr>bus_map := (bus_map b)(ci_id it := None), bus_order := ns\<rparr>)) (bus_tick now)
               else Some b))"
  by pat_completeness auto

termination
  by (relation "measure (\<lambda>(_, b). length (bus_order b))") (auto dest: close_item_order)

declare bus_tick.simps [simp del]

text \<open>An item arrives on \<open>connBusRegist\<close>.\<close>

definition bus_register :: "int \<Rightarrow> nat \<Rightarrow> bus \<Rightarrow> bus option" where
  "bus_register now n b =
     (case bus_items b n of
        None \<Rightarrow> None
      | Some it \<Rightarrow>
          if bus_map b (ci_id it) = None then
            Some (b\<lparr>bus_map := (bus_map b)(ci_id it \<mapsto> n),
                    bus_items := (bus_items b)(n \<mapsto> it\<lparr>ci_time := now\<rparr>),
                    bus_order := bus_order b @ [n]\<rparr>)
          else close_item n b)"

text \<open>A connection arrives on \<open>connBusNotify\<close>.\<close>

definition bus_notify :: "string \<Rightarrow> nat \<Rightarrow> bus \<Rightarrow> bus option" where
  "bus_notify i c b =
     (case bus_map b i of
        None \<Rightarrow> Some (b\<lparr>bus_dropped := bus_dropped b @ [c]\<rparr>)
      | Some n \<Rightarrow>
          Option.bind
            (send_item n c (b\<lparr>bus_map := (bus_map b)(i := None), bus_order := remove1 n (bus_order b)\<rparr>))
            (close_item n))"

text \<open>\<open>DialDhns\<close> makes an item and sends it to the bus; later it gets the connection, or an error when the
  channel was closed without one.\<close>

definition bus_dial :: "nat \<Rightarrow> string \<Rightarrow> bus \<Rightarrow> bus" where
  "bus_dial n i b =
     b\<lparr>bus_items := (bus_items b)(n \<mapsto> \<lparr>ci_id = i, ci_time = 0, ci_conn = None, ci_closed = False\<rparr>),
       bus_regist := bus_regist b @ [n]\<rparr>"


inductive bus_step :: "int \<times> bus \<Rightarrow> int \<times> bus \<Rightarrow> bool" where
  dialled: "bus_items b n = None \<Longrightarrow> bus_step (t, b) (t, bus_dial n i b)"
| registered:
    "t \<le> now \<Longrightarrow> bus_regist b = n # ns \<Longrightarrow> bus_register now n (b\<lparr>bus_regist := ns\<rparr>) = Some b' \<Longrightarrow>
     bus_step (t, b) (now, b')"
| ticked: "t \<le> now \<Longrightarrow> bus_tick now b = Some b' \<Longrightarrow> bus_step (t, b) (now, b')"
| notified: "bus_notify i c b = Some b' \<Longrightarrow> bus_step (t, b) (t, b')"

inductive_cases bus_stepE: "bus_step s s'"

section \<open>The bus keeps its books\<close>

definition fresh_item :: "bus \<Rightarrow> nat \<Rightarrow> bool" where
  "fresh_item b n \<longleftrightarrow> (\<exists>it. bus_items b n = Some it \<and> \<not> ci_closed it \<and> ci_conn it = None)"

definition item_id :: "bus \<Rightarrow> nat \<Rightarrow> string" where
  "item_id b n = (case bus_items b n of None \<Rightarrow> [] | Some it \<Rightarrow> ci_id it)"

definition item_time :: "bus \<Rightarrow> nat \<Rightarrow> int" where
  "item_time b n = (case bus_items b n of None \<Rightarrow> 0 | Some it \<Rightarrow> ci_time it)"

text \<open>
  The map holds exactly the items of the list, each under its identifier; waiting items are open and
  empty; the list is in the order of time; an item that is neither waiting nor on its way is closed.
\<close>

definition bus_inv :: "int \<times> bus \<Rightarrow> bool" where
  "bus_inv = (\<lambda>(t, b).
     distinct (bus_order b @ bus_regist b) \<and>
     (\<forall>n\<in>set (bus_order b @ bus_regist b). fresh_item b n) \<and>
     (\<forall>i n. bus_map b i = Some n \<longleftrightarrow> n \<in> set (bus_order b) \<and> item_id b n = i) \<and>
     sorted (map (item_time b) (bus_order b)) \<and> (\<forall>n\<in>set (bus_order b). item_time b n \<le> t) \<and>
     (\<forall>n it. bus_items b n = Some it \<longrightarrow> ci_closed it \<or> n \<in> set (bus_order b @ bus_regist b)))"

lemma item_upd [simp]:
  "item_id (b\<lparr>bus_items := (bus_items b)(n \<mapsto> it)\<rparr>) m = (if m = n then ci_id it else item_id b m)"
  "item_time (b\<lparr>bus_items := (bus_items b)(n \<mapsto> it)\<rparr>) m = (if m = n then ci_time it else item_time b m)"
  "fresh_item (b\<lparr>bus_items := (bus_items b)(n \<mapsto> it)\<rparr>) m =
     (if m = n then \<not> ci_closed it \<and> ci_conn it = None else fresh_item b m)"
  by (simp_all add: item_id_def item_time_def fresh_item_def)

lemma item_other [simp]:
  "item_id (b\<lparr>bus_map := x\<rparr>) = item_id b" "item_id (b\<lparr>bus_order := y\<rparr>) = item_id b"
  "item_id (b\<lparr>bus_regist := y\<rparr>) = item_id b" "item_id (b\<lparr>bus_dropped := y\<rparr>) = item_id b"
  "item_time (b\<lparr>bus_map := x\<rparr>) = item_time b" "item_time (b\<lparr>bus_order := y\<rparr>) = item_time b"
  "item_time (b\<lparr>bus_regist := y\<rparr>) = item_time b" "item_time (b\<lparr>bus_dropped := y\<rparr>) = item_time b"
  "fresh_item (b\<lparr>bus_map := x\<rparr>) = fresh_item b" "fresh_item (b\<lparr>bus_order := y\<rparr>) = fresh_item b"
  "fresh_item (b\<lparr>bus_regist := y\<rparr>) = fresh_item b" "fresh_item (b\<lparr>bus_dropped := y\<rparr>) = fresh_item b"
  by (simp_all add: item_id_def item_time_def fresh_item_def fun_eq_iff)

lemma sorted_map_remove1: "distinct xs \<Longrightarrow> sorted (map f xs) \<Longrightarrow> sorted (map f (remove1 x xs))"
  by (simp add: distinct_remove1_removeAll removeAll_filter_not_eq sorted_filter)

text \<open>Taking a waiting item out of the books and closing its channel.\<close>

definition retire :: "nat \<Rightarrow> nat option \<Rightarrow> conn_item \<Rightarrow> bus \<Rightarrow> bus" where
  "retire n c it b =
     b\<lparr>bus_map := (bus_map b)(ci_id it := None), bus_order := remove1 n (bus_order b),
       bus_items := (bus_items b)(n \<mapsto> it\<lparr>ci_conn := c, ci_closed := True\<rparr>)\<rparr>"

lemma retire_select [simp]:
  "bus_map (retire n c it b) = (bus_map b)(ci_id it := None)"
  "bus_order (retire n c it b) = remove1 n (bus_order b)"
  "bus_regist (retire n c it b) = bus_regist b"
  "bus_items (retire n c it b) = (bus_items b)(n \<mapsto> it\<lparr>ci_conn := c, ci_closed := True\<rparr>)"
  "item_id (retire n c it b) m = (if m = n then ci_id it else item_id b m)"
  "item_time (retire n c it b) m = (if m = n then ci_time it else item_time b m)"
  "fresh_item (retire n c it b) m = (m \<noteq> n \<and> fresh_item b m)"
  by (simp_all add: retire_def item_id_def item_time_def fresh_item_def)

lemma retire_inv:
  assumes inv: "bus_inv (t, b)" and n: "n \<in> set (bus_order b)" "bus_items b n = Some it"
  shows "bus_inv (t, retire n c it b)"
proof -
  have d: "distinct (bus_order b)" "n \<notin> set (bus_regist b)" using inv n(1) by (auto simp: bus_inv_def)
  have it: "item_id b n = ci_id it" using n by (simp add: item_id_def)
  have map_eq: "map (item_time (retire n c it b)) (remove1 n (bus_order b)) = map (item_time b) (remove1 n (bus_order b))"
    using d by simp
  have others: "m \<in> set (bus_order b) \<and> item_id b m = ci_id it \<longleftrightarrow> m = n" for m
  proof -
    have "bus_map b (ci_id it) = Some n" using inv n(1) it by (simp add: bus_inv_def)
    then have "bus_map b (ci_id it) = Some m \<longleftrightarrow> m = n" by auto
    then show ?thesis using inv by (simp add: bus_inv_def)
  qed
  show ?thesis
    using inv d others n(2) unfolding bus_inv_def prod.case retire_select(2) map_eq
    by (auto simp: sorted_map_remove1)
qed

lemma bus_later: "bus_inv (t, b) \<Longrightarrow> t \<le> t' \<Longrightarrow> bus_inv (t', b)"
  by (auto simp: bus_inv_def)

lemma waiting_item:
  assumes "bus_inv (t, b)" "n \<in> set (bus_order b)"
  obtains it where "bus_items b n = Some it" "\<not> ci_closed it" "ci_conn it = None" "ci_id it = item_id b n"
    "bus_map b (ci_id it) = Some n"
proof -
  from assms have "fresh_item b n" by (auto simp: bus_inv_def)
  then obtain it where it: "bus_items b n = Some it" "\<not> ci_closed it" "ci_conn it = None"
    by (auto simp: fresh_item_def)
  then have id: "ci_id it = item_id b n" by (simp add: item_id_def)
  with assms have "bus_map b (ci_id it) = Some n" by (simp add: bus_inv_def)
  with it id show ?thesis by (rule that)
qed

lemma tick_retires:
  assumes "bus_inv (t, b)" "bus_order b = n # ns" "bus_items b n = Some it" "\<not> ci_closed it" "ci_conn it = None"
  shows "bus_tick now b = (if ci_time it < now - bus_timeout_ns then bus_tick now (retire n None it b) else Some b)"
proof -
  have "close_item n (b\<lparr>bus_map := (bus_map b)(ci_id it := None), bus_order := ns\<rparr>) = Some (retire n None it b)"
    using assms(2-5) by (cases it) (simp add: close_item_def retire_def)
  with assms(2,3) show ?thesis by (subst bus_tick.simps) simp
qed

lemma notify_retires:
  assumes "bus_items b n = Some it" "\<not> ci_closed it" "ci_conn it = None" "bus_map b i = Some n" "ci_id it = i"
  shows "bus_notify i c b = Some (retire n (Some c) it b)"
  using assms by (simp add: bus_notify_def send_item_def close_item_def retire_def)

lemma bus_tick_spec:
  "bus_inv (t, b) \<Longrightarrow> \<exists>b'. bus_tick now b = Some b' \<and> bus_inv (t, b') \<and> bus_regist b' = bus_regist b \<and>
     bus_order b' = dropWhile (\<lambda>n. item_time b n < now - bus_timeout_ns) (bus_order b) \<and>
     dom (bus_items b') = dom (bus_items b)"
proof (induction "bus_order b" arbitrary: b)
  case Nil
  then show ?case by (subst bus_tick.simps) simp
next
  case (Cons n ns)
  from Cons.hyps(2) have n: "n \<in> set (bus_order b)" by (metis list.set_intros(1))
  from waiting_item [OF Cons.prems n] obtain it where it: "bus_items b n = Some it" "\<not> ci_closed it" "ci_conn it = None"
    by metis
  note tick = tick_retires [OF Cons.prems Cons.hyps(2) [symmetric] it]
  have tm: "item_time b n = ci_time it" using it by (simp add: item_time_def)
  show ?case
  proof (cases "ci_time it < now - bus_timeout_ns")
    case True
    let ?r = "retire n None it b"
    have ord: "ns = bus_order ?r" using Cons.hyps(2) by (metis remove1.simps(2) retire_select(2))
    have "n \<notin> set ns" using Cons.prems by (auto simp: bus_inv_def simp flip: Cons.hyps(2))
    then have dw: "dropWhile (\<lambda>m. item_time ?r m < now - bus_timeout_ns) ns =
        dropWhile (\<lambda>m. item_time b m < now - bus_timeout_ns) ns"
      by (intro dropWhile_cong) auto
    from Cons.hyps(1) [OF ord retire_inv [OF Cons.prems n it(1)]] obtain b' where
      b': "bus_tick now ?r = Some b'" "bus_inv (t, b')" "bus_regist b' = bus_regist ?r"
        "bus_order b' = dropWhile (\<lambda>m. item_time ?r m < now - bus_timeout_ns) (bus_order ?r)"
        "dom (bus_items b') = dom (bus_items ?r)" by blast
    have "dom (bus_items ?r) = dom (bus_items b)" using it(1) by auto
    with b' dw True tick tm show ?thesis
      unfolding ord [symmetric] Cons.hyps(2) [symmetric] by (intro exI [of _ b']) simp
  next
    case False
    then have "dropWhile (\<lambda>m. item_time b m < now - bus_timeout_ns) (n # ns) = n # ns" using tm by simp
    then have "dropWhile (\<lambda>m. item_time b m < now - bus_timeout_ns) (bus_order b) = bus_order b"
      unfolding Cons.hyps(2) .
    with tick Cons.prems False show ?thesis by auto
  qed
qed

lemma bus_register_spec:
  assumes inv: "bus_inv (t, b)" and le: "t \<le> now" and reg: "bus_regist b = n # ns"
  shows "\<exists>b'. bus_register now n (b\<lparr>bus_regist := ns\<rparr>) = Some b' \<and> bus_inv (now, b')"
proof -
  have fresh: "fresh_item b n" "n \<notin> set (bus_order b)" "n \<notin> set ns"
    using inv reg by (auto simp: bus_inv_def)
  then obtain it where it: "bus_items b n = Some it" "\<not> ci_closed it" "ci_conn it = None"
    by (auto simp: fresh_item_def)
  have id: "item_id b n = ci_id it" using it by (simp add: item_id_def)
  show ?thesis
  proof (cases "bus_map b (ci_id it)")
    case None
    let ?b = "b\<lparr>bus_regist := ns, bus_map := (bus_map b)(ci_id it \<mapsto> n),
        bus_items := (bus_items b)(n \<mapsto> it\<lparr>ci_time := now\<rparr>), bus_order := bus_order b @ [n]\<rparr>"
    have r: "bus_register now n (b\<lparr>bus_regist := ns\<rparr>) = Some ?b"
      using it None by (simp add: bus_register_def)
    have sel: "item_id ?b m = item_id b m" "item_time ?b m = (if m = n then now else item_time b m)"
      "fresh_item ?b m = fresh_item b m" for m
      using it id by (auto simp: item_id_def item_time_def fresh_item_def)
    have "item_time ?b k = item_time b k" if "k \<in> set (bus_order b)" for k
      using sel(2) [of k] fresh(2) that by (metis (full_types))
    then have "map (item_time ?b) (bus_order b) = map (item_time b) (bus_order b)"
      by (intro map_cong refl)
    then have m: "map (item_time ?b) (bus_order b @ [n]) = map (item_time b) (bus_order b) @ [now]"
      by (simp only: map_append list.map sel(2) if_True refl simp_thms)
    have "sorted (map (item_time b) (bus_order b) @ [now])"
      using inv le by (auto simp: bus_inv_def sorted_append)
    then have so: "sorted (map (item_time ?b) (bus_order b @ [n]))" unfolding m .
    have mp: "((bus_map b)(ci_id it \<mapsto> n)) i = Some k \<longleftrightarrow> k \<in> set (bus_order b @ [n]) \<and> item_id b k = i" for i k
    proof -
      have "bus_map b i = Some k \<longleftrightarrow> k \<in> set (bus_order b) \<and> item_id b k = i" using inv by (simp add: bus_inv_def)
      with None id fresh(2) show ?thesis by (cases "i = ci_id it") auto
    qed
    have "bus_inv (now, ?b)"
      using inv fresh it le reg so mp unfolding bus_inv_def prod.case sel
      by (auto simp: bus_inv_def)
    with r show ?thesis by blast
  next
    case (Some k)
    let ?b = "b\<lparr>bus_regist := ns, bus_items := (bus_items b)(n \<mapsto> it\<lparr>ci_closed := True\<rparr>)\<rparr>"
    have r: "bus_register now n (b\<lparr>bus_regist := ns\<rparr>) = Some ?b"
      using it Some by (simp add: bus_register_def close_item_def)
    have sel: "item_id ?b m = item_id b m" "item_time ?b m = item_time b m"
      "fresh_item ?b m = (m \<noteq> n \<and> fresh_item b m)" for m
      using it by (auto simp: item_id_def item_time_def fresh_item_def)
    have m: "item_time ?b = item_time b" using sel(2) by auto
    have "bus_inv (now, ?b)"
      using inv fresh it le reg unfolding bus_inv_def prod.case sel m
      by (auto simp: bus_inv_def)
    with r show ?thesis by blast
  qed
qed

lemma bus_notify_spec:
  assumes "bus_inv (t, b)"
  shows "\<exists>b'. bus_notify i c b = Some b' \<and> bus_inv (t, b')"
proof (cases "bus_map b i")
  case None
  then show ?thesis using assms by (simp add: bus_notify_def bus_inv_def)
next
  case (Some n)
  then have n: "n \<in> set (bus_order b)" "item_id b n = i" using assms by (auto simp: bus_inv_def)
  from waiting_item [OF assms n(1)] obtain it where it: "bus_items b n = Some it" "\<not> ci_closed it" "ci_conn it = None"
      "ci_id it = item_id b n" by metis
  with n Some notify_retires [OF it(1-3) Some] retire_inv [OF assms n(1) it(1)] show ?thesis by auto
qed

lemma bus_dial_inv:
  assumes inv: "bus_inv (t, b)" and n: "bus_items b n = None"
  shows "bus_inv (t, bus_dial n i b)"
proof -
  have "\<not> fresh_item b n" using n by (simp add: fresh_item_def)
  then have out: "n \<notin> set (bus_order b)" "n \<notin> set (bus_regist b)" using inv by (auto simp: bus_inv_def)
  have m: "map (item_time (bus_dial n i b)) (bus_order b) = map (item_time b) (bus_order b)"
    using out by (auto simp: bus_dial_def item_time_def)
  have sel: "bus_order (bus_dial n i b) = bus_order b" "bus_regist (bus_dial n i b) = bus_regist b @ [n]"
    "bus_map (bus_dial n i b) = bus_map b"
    "fresh_item (bus_dial n i b) k = (k = n \<or> fresh_item b k)"
    "k \<noteq> n \<Longrightarrow> item_id (bus_dial n i b) k = item_id b k" "k \<noteq> n \<Longrightarrow> item_time (bus_dial n i b) k = item_time b k"
    "k \<noteq> n \<Longrightarrow> bus_items (bus_dial n i b) k = bus_items b k" for k
    by (auto simp: bus_dial_def fresh_item_def item_id_def item_time_def)
  have mp: "k \<in> set (bus_order b) \<Longrightarrow> item_id (bus_dial n i b) k = item_id b k" for k
    using sel(5) [of k] out by metis
  have tm: "k \<in> set (bus_order b) \<Longrightarrow> item_time (bus_dial n i b) k = item_time b k" for k
    using sel(6) [of k] out by metis
  show ?thesis
    unfolding bus_inv_def prod.case sel(1-4) m
  proof (intro conjI allI impI)
    show "bus_map b j = Some k \<longleftrightarrow> k \<in> set (bus_order b) \<and> item_id (bus_dial n i b) k = j" for j k
      using inv mp [of k] by (auto simp: bus_inv_def)
    show "ci_closed it \<or> k \<in> set (bus_order b @ bus_regist b @ [n])" if "bus_items (bus_dial n i b) k = Some it" for k it
      using inv that sel(7) [of k] by (cases "k = n") (auto simp: bus_inv_def)
  qed (use inv out tm in \<open>auto simp: bus_inv_def\<close>)
qed

interpretation bus: machine_invariant "(0, new_bus)" bus_step bus_inv
proof
  show "bus_inv (0, new_bus)" by (simp add: bus_inv_def new_bus_def)
  show "bus_inv s'" if "bus_inv s" "bus_step s s'" for s s'
    using that(2,1)
  proof cases
    case (dialled b n t i)
    with that(1) bus_dial_inv show ?thesis by auto
  next
    case (registered t now b n ns b')
    with that(1) bus_register_spec [of t b now n ns] show ?thesis by auto
  next
    case (ticked t now b b')
    with that(1) bus_tick_spec [of t b now] bus_later show ?thesis by auto
  next
    case (notified i c b b' t)
    with that(1) bus_notify_spec [of t b i c] show ?thesis by auto
  qed
qed





text \<open>
  C1. The connection bus never panics and never blocks: in every reachable state a tick, the next registration and any
  notification succeed, that is no channel is closed twice, sent to after it was closed, or sent to when full;
  and its map and its list hold the same items, one for each identifier.
\<close>

theorem bus_never_panics:
  assumes "reach (0, new_bus) bus_step (t, b)" "t \<le> now"
  shows "bus_tick now b \<noteq> None \<and> bus_notify i c b \<noteq> None \<and>
    (case bus_regist b of [] \<Rightarrow> True | n # ns \<Rightarrow> bus_register now n (b\<lparr>bus_regist := ns\<rparr>) \<noteq> None) \<and>
    distinct (bus_order b) \<and> ran (bus_map b) = set (bus_order b) \<and> inj_on (bus_map b) (dom (bus_map b))"
proof -
  have inv: "bus_inv (t, b)" using assms(1) by (rule bus.inv_reach)
  have mp: "bus_map b j = Some n \<longleftrightarrow> n \<in> set (bus_order b) \<and> item_id b n = j" for j n
    using inv by (simp add: bus_inv_def)
  have "ran (bus_map b) = set (bus_order b)" by (auto simp: ran_def mp)
  moreover have "inj_on (bus_map b) (dom (bus_map b))"
    by (rule inj_onI) (metis domD mp)
  moreover have "distinct (bus_order b)" using inv by (simp add: bus_inv_def)
  moreover have "case bus_regist b of [] \<Rightarrow> True | n # ns \<Rightarrow> bus_register now n (b\<lparr>bus_regist := ns\<rparr>) \<noteq> None"
    using bus_register_spec [OF inv assms(2)] by (cases "bus_regist b") auto
  ultimately show ?thesis using bus_tick_spec [OF inv, of now] bus_notify_spec [OF inv, of i c] by auto
qed


text \<open>A bus with one registered request.\<close>

definition one_request :: bus where
  "one_request =
     \<lparr>bus_items = [0 \<mapsto> \<lparr>ci_id = ''x'', ci_time = 0, ci_conn = None, ci_closed = False\<rparr>], bus_map = [''x'' \<mapsto> 0],
      bus_order = [0], bus_regist = [], bus_dropped = []\<rparr>"

lemma one_request_reachable: "reach (0, new_bus) bus_step (0, one_request)"
proof -
  have "bus_step (0, new_bus) (0, bus_dial 0 ''x'' new_bus)"
    by (rule dialled) (simp add: new_bus_def)
  moreover have "bus_step (0, bus_dial 0 ''x'' new_bus) (0, one_request)"
    by (rule registered [where n = 0 and ns = "[]"])
      (simp_all add: new_bus_def bus_dial_def bus_register_def one_request_def)
  ultimately show ?thesis using reach_init reach_step by metis
qed

theorem bus_never_panics_witness:
  "bus_notify ''x'' 7 one_request \<noteq> None"
  using bus_never_panics [OF one_request_reachable order_refl] by blast


section \<open>The control connection and its writers\<close>

text \<open>
  \<open>HandleConn\<close> accepts one control connection at a time and starts a \<open>dhnsWrite\<close> goroutine for it; the writers
  take messages from one channel. A writer ends only when a write fails. \<open>sv_sent\<close> are the messages written
  to an open connection, \<open>sv_lost\<close> those taken by a writer whose connection is closed.
\<close>

record 'm control =
  sv_last :: "nat option"
  sv_open :: "nat set"
  sv_writers :: "nat list"
  sv_queue :: "'m list"
  sv_sent :: "'m list"
  sv_lost :: "'m list"

definition new_control :: "'m control" where
  "new_control = \<lparr>sv_last = None, sv_open = {}, sv_writers = [], sv_queue = [], sv_sent = [], sv_lost = []\<rparr>"

definition handle_conn :: "nat \<Rightarrow> 'm control \<Rightarrow> 'm control" where
  "handle_conn c s =
     (case sv_last s of
        None \<Rightarrow> s\<lparr>sv_last := Some c, sv_open := insert c (sv_open s), sv_writers := sv_writers s @ [c]\<rparr>
      | Some _ \<Rightarrow> s)"

definition close_conn :: "nat \<Rightarrow> 'm control \<Rightarrow> 'm control" where
  "close_conn c s =
     (if sv_last s = Some c then s\<lparr>sv_last := None, sv_open := sv_open s - {c}\<rparr> else s)"

text \<open>A writer takes the next message; \<open>fails\<close> is a write error of an open connection.\<close>

definition dhns_write :: "nat \<Rightarrow> bool \<Rightarrow> 'm \<Rightarrow> 'm control \<Rightarrow> 'm control" where
  "dhns_write c fails m s =
     (if c \<in> sv_open s \<and> \<not> fails then s\<lparr>sv_sent := sv_sent s @ [m]\<rparr>
      else (close_conn c s)\<lparr>sv_writers := remove1 c (sv_writers s), sv_lost := sv_lost s @ [m]\<rparr>)"

inductive control_step :: "'m control \<Rightarrow> 'm control \<Rightarrow> bool" where
  accepted: "c \<notin> sv_open s \<Longrightarrow> c \<notin> set (sv_writers s) \<Longrightarrow> control_step s (handle_conn c s)"
| queued: "control_step s (s\<lparr>sv_queue := sv_queue s @ [m]\<rparr>)"
| read_failed: "sv_last s = Some c \<Longrightarrow> control_step s (close_conn c s)"
| written: "c \<in> set (sv_writers s) \<Longrightarrow> sv_queue s = m # ms \<Longrightarrow>
    control_step s (dhns_write c fails m (s\<lparr>sv_queue := ms\<rparr>))"

inductive_cases control_stepE: "control_step s s'"

definition control_inv :: "'m control \<Rightarrow> bool" where
  "control_inv s \<longleftrightarrow>
     sv_open s = set_option (sv_last s) \<and> distinct (sv_writers s) \<and> set_option (sv_last s) \<subseteq> set (sv_writers s)"

interpretation control: machine_invariant new_control control_step control_inv
proof
  show "control_inv new_control" by (simp add: control_inv_def new_control_def)
  show "control_inv s'" if "control_inv s" "control_step s s'" for s s' :: "'m control"
    using that(2,1)
    by (elim control_stepE)
      (auto simp: control_inv_def handle_conn_def close_conn_def dhns_write_def split: option.splits if_splits)
qed

text \<open>
  The server has at most one open control connection, the current one, and that connection has a writer; but the
  writer of a connection that was closed by its reader lives on and may take the next message for the name space: a
  state is reachable where the current connection is open and its writer ready, and a message is lost to the
  old connection.
\<close>

theorem stale_writer_loses_message:
  "(\<forall>s. reach new_control control_step s \<longrightarrow>
      sv_open s = set_option (sv_last s) \<and> set_option (sv_last s) \<subseteq> set (sv_writers s)) \<and>
   (\<exists>s s'. reach new_control control_step s \<and> control_step s s' \<and> sv_last s = Some 1 \<and> sv_open s = {1} \<and>
      1 \<in> set (sv_writers s) \<and> sv_queue s = [m] \<and> sv_sent s' = [] \<and> sv_lost s' = [m] \<and> sv_last s' = Some 1)"
proof (intro conjI allI impI)
  fix s :: "'m control"
  assume "reach new_control control_step s"
  then have "control_inv s" by (rule control.inv_reach)
  then show "sv_open s = set_option (sv_last s)" "set_option (sv_last s) \<subseteq> set (sv_writers s)"
    by (simp_all add: control_inv_def)
next
  let ?a = "handle_conn 0 new_control :: 'm control"
  let ?b = "close_conn 0 ?a"
  let ?c = "handle_conn 1 ?b"
  let ?d = "?c\<lparr>sv_queue := sv_queue ?c @ [m]\<rparr>"
  let ?e = "dhns_write 0 False m (?d\<lparr>sv_queue := []\<rparr>)"
  note ev = handle_conn_def close_conn_def dhns_write_def new_control_def
  have 1: "control_step new_control ?a" by (rule accepted) (simp_all add: ev)
  have 2: "control_step ?a ?b" by (rule read_failed) (simp add: ev)
  have 3: "control_step ?b ?c" by (rule accepted) (simp_all add: ev)
  have 4: "control_step ?c ?d" by (rule queued)
  have 5: "control_step ?d ?e" by (rule written) (simp_all add: ev)
  have "reach new_control control_step ?d"
    by (rule reach_step, rule reach_step, rule reach_step, rule reach_step, rule reach_init, rule 1, rule 2, rule 3, rule 4)
  with 5 show "\<exists>s s'. reach new_control control_step s \<and> control_step s s' \<and> sv_last s = Some 1 \<and> sv_open s = {1} \<and>
      1 \<in> set (sv_writers s) \<and> sv_queue s = [m] \<and> sv_sent s' = [] \<and> sv_lost s' = [m] \<and> sv_last s' = Some 1"
    by (intro exI [of _ ?d] exI [of _ ?e]) (simp add: ev)
qed

theorem stale_writer_loses_message_witness:
  "sv_open (handle_conn 0 new_control :: string control) = {0}"
proof -
  have "control_step new_control (handle_conn 0 new_control :: string control)"
    by (rule accepted) (simp_all add: new_control_def)
  then have r: "reach new_control control_step (handle_conn 0 new_control :: string control)"
    using reach_init reach_step by metis
  have "sv_open (handle_conn 0 new_control :: string control) = set_option (sv_last (handle_conn 0 new_control :: string control))"
    using stale_writer_loses_message [of "[]"] r by blast
  then show ?thesis by (simp add: handle_conn_def new_control_def)
qed

end
