(* ===== verification/GoRegex.thy ===== *)
theory GoRegex
  imports GoStrings
begin

text \<open>
  Go's \<open>regexp\<close> package, as far as the program uses it: matching is leftmost-first, a greedy star
  prefers the longer match and a lazy one the shorter. A matcher returns every way to match, the
  preferred one first. A subject is a list of bytes, with a flag that says whether the position is the
  start of the text. The bodies of the stars the program uses never match the empty string.
\<close>

section \<open>Expressions and matches\<close>

datatype re =
    Eps
  | Ch "char \<Rightarrow> bool"
  | Cat re re
  | Alt re re
  | Star bool re
  | Cap nat re
  | Bol
  | Eol
  | LineEnd

type_synonym captures = "(nat \<times> string) list"
type_synonym subject = "bool \<times> string"

definition width :: "subject \<Rightarrow> nat" where
  "width s = length (snd s)"

definition eaten :: "subject \<Rightarrow> subject \<Rightarrow> string" where
  "eaten s t = take (width s - width t) (snd s)"

function star_match :: "bool \<Rightarrow> (subject \<Rightarrow> (captures \<times> subject) list) \<Rightarrow> subject \<Rightarrow> (captures \<times> subject) list" where
  "star_match g m s =
     (let more = concat (map (\<lambda>(c, t). if width t < width s then map (\<lambda>(d, u). (c @ d, u)) (star_match g m t) else []) (m s))
      in if g then more @ [([], s)] else ([], s) # more)"
  by pat_completeness auto
termination
  by (relation "measure (\<lambda>(g, m, s). width s)") auto

declare star_match.simps [simp del]

primrec re_match :: "re \<Rightarrow> subject \<Rightarrow> (captures \<times> subject) list" where
  "re_match Eps s = [([], s)]"
| "re_match (Ch p) s = (case snd s of [] \<Rightarrow> [] | c # cs \<Rightarrow> if p c then [([], (False, cs))] else [])"
| "re_match (Cat r q) s = concat (map (\<lambda>(c, t). map (\<lambda>(d, u). (c @ d, u)) (re_match q t)) (re_match r s))"
| "re_match (Alt r q) s = re_match r s @ re_match q s"
| "re_match (Star g r) s = star_match g (re_match r) s"
| "re_match (Cap n r) s = map (\<lambda>(c, t). (c @ [(n, eaten s t)], t)) (re_match r s)"
| "re_match Bol s = (if fst s then [([], s)] else [])"
| "re_match Eol s = (if snd s = [] then [([], s)] else [])"
| "re_match LineEnd s = (if snd s = [] \<or> hd (snd s) = CHR 0x0A then [([], s)] else [])"

text \<open>The first position with a match, its captures and what is left of the subject after it.\<close>

fun re_search :: "re \<Rightarrow> bool \<Rightarrow> string \<Rightarrow> (captures \<times> subject) option" where
  "re_search r b [] = (case re_match r (b, []) of [] \<Rightarrow> None | x # _ \<Rightarrow> Some x)"
| "re_search r b (c # cs) =
     (case re_match r (b, c # cs) of [] \<Rightarrow> re_search r False cs | x # _ \<Rightarrow> Some x)"

definition cap :: "captures \<Rightarrow> nat \<Rightarrow> string" where
  "cap cs n = (case find (\<lambda>(k, v). k = n) (rev cs) of None \<Rightarrow> [] | Some (k, v) \<Rightarrow> v)"

text \<open>\<open>MatchString\<close> and \<open>FindStringSubmatch\<close>; group 0 is not used by the program.\<close>

definition re_matches :: "re \<Rightarrow> string \<Rightarrow> bool" where
  "re_matches r s \<longleftrightarrow> re_search r True s \<noteq> None"

definition re_find :: "re \<Rightarrow> string \<Rightarrow> captures option" where
  "re_find r s = map_option fst (re_search r True s)"

text \<open>\<open>FindAllSubmatch\<close> of an expression whose matches are not empty.\<close>

function re_find_all :: "re \<Rightarrow> bool \<Rightarrow> string \<Rightarrow> captures list" where
  "re_find_all r b s =
     (case re_search r b s of
        None \<Rightarrow> []
      | Some (c, (b', t)) \<Rightarrow> if length t < length s then c # re_find_all r b' t else [c])"
  by pat_completeness auto
termination
  by (relation "measure (\<lambda>(r, b, s). length s)") auto

declare re_find_all.simps [simp del]

section \<open>Character classes and strings\<close>

fun seq :: "re list \<Rightarrow> re" where
  "seq [] = Eps"
| "seq [r] = r"
| "seq (r # rs) = Cat r (seq rs)"

definition lit :: "string \<Rightarrow> re" where
  "lit s = seq (map (\<lambda>c. Ch (\<lambda>d. d = c)) s)"

definition plus :: "bool \<Rightarrow> re \<Rightarrow> re" where
  "plus g r = Cat r (Star g r)"

definition digit_class :: "char \<Rightarrow> bool" where
  "digit_class c \<longleftrightarrow> (of_char c :: nat) \<in> {48..57}"

definition space_class :: "char \<Rightarrow> bool" where
  "space_class c \<longleftrightarrow> c \<in> {CHR 0x09, CHR 0x0A, CHR 0x0C, CHR 0x0D, CHR 0x20}"

definition word_class :: "char \<Rightarrow> bool" where
  "word_class c \<longleftrightarrow> (of_char c :: nat) \<in> {48..57} \<union> {65..90} \<union> {95} \<union> {97..122}"

abbreviation any_re :: re where
  "any_re \<equiv> Ch (\<lambda>c. c \<noteq> CHR 0x0A)"

abbreviation digits_re :: re where
  "digits_re \<equiv> plus True (Ch digit_class)"

abbreviation spaces_re :: re where
  "spaces_re \<equiv> plus True (Ch space_class)"

section \<open>What the matcher does on a run of characters\<close>

lemma re_match_Ch [simp]:
  "re_match (Ch p) (b, c # cs) = (if p c then [([], (False, cs))] else [])"
  "re_match (Ch p) (b, []) = []"
  by simp_all

declare re_match.simps(2) [simp del]

definition run_ends :: "(char \<Rightarrow> bool) \<Rightarrow> subject \<Rightarrow> (captures \<times> subject) list" where
  "run_ends p s = map (\<lambda>k. ([], (if k = 0 then fst s else False, drop k (snd s)))) [0..<Suc (length (takeWhile p (snd s)))]"

lemma run_ends_Cons:
  "run_ends p (b, c # cs) = ([], (b, c # cs)) # (if p c then run_ends p (False, cs) else [])"
  by (cases "p c") (auto simp: run_ends_def upt_rec [of 0] map_Suc_upt [symmetric] simp del: upt_Suc)

lemma run_ends_Nil [simp]: "run_ends p (b, []) = [([], (b, []))]"
  by (simp add: run_ends_def)

lemma star_match_class:
  "star_match g (re_match (Ch p)) (b, s) = (if g then rev (run_ends p (b, s)) else run_ends p (b, s))"
proof (induction s arbitrary: b)
  case Nil
  then show ?case by (subst star_match.simps) (simp add: Let_def)
next
  case (Cons c cs)
  have "map (\<lambda>(d, u). ([] @ d, u)) xs = xs" for xs :: "(captures \<times> subject) list" by (simp add: case_prod_beta)
  then show ?case
    using Cons.IH [of False]
    by (cases g; subst star_match.simps) (simp_all add: Let_def run_ends_Cons width_def)
qed

end
