(* ===== verification/DiskModel.thy ===== *)
theory DiskModel
  imports ByteCount GoRegex "HOL-Library.Word"
begin

text \<open>
  The disks and partitions the storage modules exchange (\<open>models/nas_disk_info.go\<close>,
  \<open>models/partition_info.go\<close>) and the readers of the text that \<open>parted\<close>, \<open>df\<close>, \<open>mount\<close>,
  \<open>mdadm\<close> and the kernel print (\<open>modules/raid/inventory\<close>). Pointers to partitions and disks
  in lists are never nil: every list is built by appending fresh values, so the nil guards of the code are
  dead and lists hold the values. Device names have no special characters of regular expressions.
\<close>

section \<open>Disks and partitions\<close>

record partition =
  pt_filesystem :: string
  pt_docker_root :: bool
  pt_raid_on :: bool
  pt_read_only :: bool
  pt_system_root :: bool
  pt_mount_point :: string
  pt_name :: string
  pt_number :: "64 word"
  pt_path :: string
  pt_sec_end :: "64 word"
  pt_sec_start :: "64 word"
  pt_size_int :: string
  pt_total :: string
  pt_usage :: "32 word"
  pt_used :: string
  pt_uuid :: string

definition no_partition :: partition where
  "no_partition = \<lparr>pt_filesystem = [], pt_docker_root = False, pt_raid_on = False, pt_read_only = False,
     pt_system_root = False, pt_mount_point = [], pt_name = [], pt_number = 0, pt_path = [], pt_sec_end = 0,
     pt_sec_start = 0, pt_size_int = [], pt_total = [], pt_usage = 0, pt_used = [], pt_uuid = []\<rparr>"

record disk =
  dk_active :: string
  dk_childrens :: "partition list"
  dk_docker_root :: bool
  dk_external :: bool
  dk_system_root :: bool
  dk_level :: string
  dk_members :: "string list"
  dk_name :: string
  dk_label_type :: string
  dk_path :: string
  dk_rebuild_status :: string
  dk_size :: string
  dk_size_int :: string
  dk_smart_warning :: bool
  dk_status :: string
  dk_total :: string
  dk_tran :: string
  dk_usage :: "32 word"
  dk_used :: string
  dk_used_int :: string
  dk_model :: string

definition no_disk :: disk where
  "no_disk = \<lparr>dk_active = [], dk_childrens = [], dk_docker_root = False, dk_external = False,
     dk_system_root = False, dk_level = [], dk_members = [], dk_name = [], dk_label_type = [], dk_path = [],
     dk_rebuild_status = [], dk_size = [], dk_size_int = [], dk_smart_warning = False, dk_status = [],
     dk_total = [], dk_tran = [], dk_usage = 0, dk_used = [], dk_used_int = [], dk_model = []\<rparr>"

section \<open>Numbers in text\<close>

definition uint_or_max :: "string \<Rightarrow> 64 word" where
  "uint_or_max s = word_of_nat (fst (parse_uint (2 ^ 64 - 1) s))"

definition fmt_u64 :: "64 word \<Rightarrow> string" where
  "fmt_u64 w = fmt_nat (unat w)"

definition sectors_to_bytes :: "string \<Rightarrow> string \<Rightarrow> 64 word" where
  "sectors_to_bytes sz sector = uint_or_max (trim_char CHR ''s'' sz) * uint_or_max sector"

section \<open>Readers of text (\<open>parsers.go\<close>)\<close>

type_synonym fields = "(string \<times> string) list"

definition fld :: "fields \<Rightarrow> string \<Rightarrow> string" where
  "fld m k = (case map_of m k of None \<Rightarrow> [] | Some v \<Rightarrow> v)"

definition parted_re :: re where
  "parted_re = seq [Cap 1 (Star False any_re), Ch (\<lambda>c. c = CHR '':'' \<or> c = CHR '';'')]"

definition parse_parted_info :: "string list \<Rightarrow> string \<Rightarrow> fields" where
  "parse_parted_info ks line = zip ks (map (\<lambda>c. cap c 1) (re_find_all parted_re True line))"

definition disk_to_part :: "string \<Rightarrow> string \<Rightarrow> string" where
  "disk_to_part device number =
     (if re_matches (seq [Ch digit_class, Eol]) device then device @ ''p'' @ number else device @ number)"

definition df_re :: re where
  "df_re = seq [spaces_re, digits_re, spaces_re, Cap 1 digits_re, spaces_re, Cap 2 digits_re, spaces_re,
     Cap 3 digits_re, lit ''%'', Star False (Ch space_class)]"

definition parse_partition_usage :: "string \<Rightarrow> string \<times> string \<times> string" where
  "parse_partition_usage s = (case re_find df_re s of
       None \<Rightarrow> ([], [], [])
     | Some c \<Rightarrow> (cap c 1, cap c 2, cap c 3))"

definition parse_mount_point :: "string \<Rightarrow> string \<Rightarrow> string" where
  "parse_mount_point mounts part =
     (case re_find (seq [lit (''/dev/'' @ part @ '' on ''), Cap 1 (Star True (Ch (\<lambda>c. c \<noteq> CHR '' '')))]) mounts of
        None \<Rightarrow> []
      | Some c \<Rightarrow> cap c 1)"

text \<open>\<open>strings.SplitAfter(s, "\n")\<close>.\<close>

fun split_after :: "char \<Rightarrow> string \<Rightarrow> string list" where
  "split_after d [] = [[]]"
| "split_after d (c # cs) =
     (if c = d then [c] # split_after d cs
      else (case split_after d cs of [] \<Rightarrow> [[c]] | w # ws \<Rightarrow> (c # w) # ws))"

definition md_line_re :: re where
  "md_line_re = seq [Cap 1 (seq [lit ''md'', Star False any_re]), lit '':'', Cap 2 (plus True any_re)]"

fun raid_member_lines :: "string list \<Rightarrow> string \<Rightarrow> string" where
  "raid_member_lines [] part = []"
| "raid_member_lines (l # ls) part = (case re_find md_line_re l of
       None \<Rightarrow> raid_member_lines ls part
     | Some c \<Rightarrow> if contains_str (cap c 2) part then ''Raid Member: '' @ cap c 1 else raid_member_lines ls part)"

definition parse_raid_member :: "string \<Rightarrow> string \<Rightarrow> string" where
  "parse_raid_member mdstat part = raid_member_lines (split_after (CHR 0x0A) mdstat) part"

definition md_path_re :: re where
  "md_path_re = seq [Bol, lit ''/dev/md'', digits_re, Eol]"

definition detail_re :: re where
  "detail_re = seq [Bol, Star True (Ch space_class), Cap 1 (plus True any_re), lit '' : '', Cap 2 (plus True any_re)]"

definition parse_md_detail :: "string \<Rightarrow> string \<Rightarrow> string \<rightharpoonup> string" where
  "parse_md_detail path out =
     (if \<not> re_matches md_path_re path then Map.empty
      else foldl (\<lambda>m l. case re_find detail_re l of
                    None \<Rightarrow> m
                  | Some c \<Rightarrow> if cap c 1 = [] then m else m(cap c 1 \<mapsto> cap c 2))
             Map.empty (split_on (CHR 0x0A) out))"

section \<open>A disk from the text of \<open>parted\<close> (\<open>diskinfo.go\<close>)\<close>

definition parted_device_keys :: "string list" where
  "parted_device_keys = [''path'', ''size'', ''type'', ''logic_sec'', ''phy_sec'', ''p_table'', ''model'', ''flags'']"

definition parted_partition_keys :: "string list" where
  "parted_partition_keys = [''number'', ''sec_start'', ''sec_end'', ''size'', ''fs'', ''tag_name'', ''flags'']"

definition fill_disk_info :: "disk \<Rightarrow> string \<Rightarrow> fields \<Rightarrow> disk" where
  "fill_disk_info d device m = (let bytes = sectors_to_bytes (fld m ''size'') (fld m ''logic_sec'') in
     d\<lparr>dk_path := fld m ''path'', dk_name := device,
       dk_label_type := (if fld m ''p_table'' = ''msdos'' then ''MBR'' else to_upper (fld m ''p_table'')),
       dk_model := fld m ''model'', dk_tran := fld m ''type'',
       dk_size_int := fmt_u64 bytes, dk_size := byte_count_binary bytes\<rparr>)"

definition build_parted_partition :: "string \<Rightarrow> bool \<Rightarrow> fields \<Rightarrow> string \<Rightarrow> partition option" where
  "build_parted_partition device include_free dm line =
     (let m = parse_parted_info parted_partition_keys line;
          free = fld m ''fs'' = ''free'';
          p0 = no_partition\<lparr>pt_filesystem := fld m ''fs''\<rparr>;
          p1 = (if free then p0\<lparr>pt_filesystem := ''Free Space''\<rparr>
                else if fld dm ''p_table'' = ''loop'' then p0\<lparr>pt_name := device\<rparr>
                else p0\<lparr>pt_name := disk_to_part device (fld m ''number''), pt_number := uint_or_max (fld m ''number'')\<rparr>);
          bytes = sectors_to_bytes (fld m ''size'') (fld dm ''logic_sec'');
          p2 = (if fld m ''size'' \<noteq> [] then p1\<lparr>pt_size_int := fmt_u64 bytes, pt_total := byte_count_binary bytes\<rparr> else p1);
          p3 = p2\<lparr>pt_sec_start := uint_or_max (trim_char CHR ''s'' (fld m ''sec_start'')),
                 pt_sec_end := uint_or_max (trim_char CHR ''s'' (fld m ''sec_end'')),
                 pt_raid_on := contains_str (fld m ''flags'') ''raid''\<rparr>;
          p4 = (if fld m ''fs'' = [] then p3\<lparr>pt_filesystem := ''No FileSystem''\<rparr> else p3)
      in if free \<and> \<not> include_free then None else Some p4)"

definition is_parted_partition_line :: "string \<Rightarrow> bool" where
  "is_parted_partition_line line \<longleftrightarrow>
     (case line of [] \<Rightarrow> False | c # _ \<Rightarrow> digit_class c \<and> contains_str line '':'')"

definition parted_line :: "string \<Rightarrow> bool \<Rightarrow> disk \<times> fields \<Rightarrow> string \<Rightarrow> disk \<times> fields" where
  "parted_line device include_free s line =
     (if has_prefix line (''/dev/'' @ device @ '':'') then
        (let m = parse_parted_info parted_device_keys line in (fill_disk_info (fst s) device m, m))
      else if \<not> is_parted_partition_line line then s
      else (case build_parted_partition device include_free (snd s) line of
              None \<Rightarrow> s
            | Some p \<Rightarrow> ((fst s)\<lparr>dk_childrens := dk_childrens (fst s) @ [p]\<rparr>, snd s)))"

definition build_disk_info_from_parted :: "string \<Rightarrow> bool \<Rightarrow> string \<Rightarrow> disk" where
  "build_disk_info_from_parted device include_free out =
     fst (foldl (parted_line device include_free) (no_disk, []) (split_on (CHR 0x0A) out))"

section \<open>The fields of a line\<close>

fun split_where :: "(char \<Rightarrow> bool) \<Rightarrow> string \<Rightarrow> string list" where
  "split_where p [] = [[]]"
| "split_where p (c # cs) =
     (if p c then [] # split_where p cs
      else (case split_where p cs of [] \<Rightarrow> [[c]] | w # ws \<Rightarrow> (c # w) # ws))"

lemma split_where_nonempty [simp]: "split_where p s \<noteq> []"
  by (induction s) (auto split: list.splits)

lemma split_where_none: "list_all (\<lambda>c. \<not> p c) s \<Longrightarrow> split_where p s = [s]"
  by (induction s) auto

lemma split_where_append: "list_all (\<lambda>c. \<not> p c) u \<Longrightarrow> p c \<Longrightarrow> split_where p (u @ c # t) = u # split_where p t"
  by (induction u) auto

definition field_end :: "char \<Rightarrow> bool" where
  "field_end c \<longleftrightarrow> c = CHR '':'' \<or> c = CHR '';''"

lemma parted_re_match:
  assumes "CHR 0x0A \<notin> set s"
  shows "re_match parted_re (b, s) = concat (map (\<lambda>k. case drop k s of [] \<Rightarrow> [] | c # cs \<Rightarrow>
      if field_end c then [([(1, take k s)], (False, cs))] else []) [0..<Suc (length s)])"
proof -
  have all: "takeWhile (\<lambda>c. c \<noteq> CHR 0x0A) s = s"
    using assms by (simp add: takeWhile_eq_all_conv) metis
  show ?thesis
    unfolding parted_re_def seq.simps re_match.simps star_match_class
    by (simp add: run_ends_def all eaten_def width_def map_concat comp_def field_end_def del: upt_Suc)
       (auto intro!: arg_cong [where f = concat] map_cong simp: field_end_def split: list.split)
qed

lemma parted_re_none:
  assumes "CHR 0x0A \<notin> set s" "list_all (\<lambda>c. \<not> field_end c) s"
  shows "re_match parted_re (b, s) = []"
proof -
  have "(case drop k s of [] \<Rightarrow> [] | c # cs \<Rightarrow> if field_end c then [([(1, take k s)], (False, cs))] else []) = ([] :: (captures \<times> subject) list)" for k
  proof (cases "drop k s")
    case (Cons c cs)
    then have "c \<in> set s" by (metis in_set_dropD list.set_intros(1))
    then show ?thesis using assms(2) Cons by (simp add: list_all_iff)
  qed simp
  then show ?thesis by (simp add: parted_re_match [OF assms(1)])
qed

lemma search_none:
  "CHR 0x0A \<notin> set s \<Longrightarrow> list_all (\<lambda>c. \<not> field_end c) s \<Longrightarrow> re_search parted_re b s = None"
proof (induction s arbitrary: b)
  case Nil
  then show ?case using parted_re_none [of "[]" b] by simp
next
  case (Cons c cs)
  then show ?case using parted_re_none [of "c # cs" b] by simp
qed

lemma search_field:
  assumes "CHR 0x0A \<notin> set (u @ c # t)" "list_all (\<lambda>c. \<not> field_end c) u" "field_end c"
  shows "re_search parted_re b (u @ c # t) = Some ([(1, u)], (False, t))"
proof -
  let ?s = "u @ c # t"
  let ?F = "\<lambda>k. case drop k ?s of [] \<Rightarrow> [] | c # cs \<Rightarrow> if field_end c then [([(1 :: nat, take k ?s)], (False, cs))] else []"
  have "?F k = []" if "k < length u" for k
    using that assms(2) by (auto simp: list_all_length Cons_nth_drop_Suc [symmetric])
  then have "concat (map ?F [0..<length u]) = []" by simp
  moreover have "[0..<Suc (length ?s)] = [0..<length u] @ length u # [Suc (length u)..<Suc (length ?s)]"
    using upt_add_eq_append [of 0 "length u" "Suc (Suc (length t))"] by (simp add: upt_conv_Cons [symmetric] del: upt_Suc)
  ultimately have "re_match parted_re (b, ?s) = ?F (length u) @ concat (map ?F [Suc (length u)..<Suc (length ?s)])"
    unfolding parted_re_match [OF assms(1)] by (simp del: upt_Suc)
  then have "\<exists>rest. re_match parted_re (b, ?s) = ([(1, u)], (False, t)) # rest"
    using assms(3) by simp
  then show ?thesis by (cases u) auto
qed

lemma find_all_fields:
  "CHR 0x0A \<notin> set s \<Longrightarrow> map (\<lambda>c. cap c 1) (re_find_all parted_re b s) = butlast (split_where field_end s)"
proof (induction "length s" arbitrary: s b rule: less_induct)
  case less
  show ?case
  proof (cases "list_all (\<lambda>c. \<not> field_end c) s")
    case True
    then show ?thesis using less.prems by (subst re_find_all.simps) (simp add: search_none split_where_none)
  next
    case False
    then have "\<exists>x\<in>set s. field_end x" by (simp add: list_all_iff)
    then obtain u c t where s: "s = u @ c # t" "list_all (\<lambda>c. \<not> field_end c) u" "field_end c"
      using split_list_first_prop [of s field_end] by (auto simp: list_all_iff)
    have "map (\<lambda>c. cap c 1) (re_find_all parted_re False t) = butlast (split_where field_end t)"
      using less.hyps [of t False] less.prems s by simp
    then show ?thesis
      using less.prems s by (subst re_find_all.simps) (simp add: search_field split_where_append cap_def)
  qed
qed

text \<open>
  Reading the fields of a line of \<open>parted\<close> with the expression \<open>(.*?)[:;]\<close> is splitting the line at its colons and semicolons
  and dropping what follows the last one; the fields are named in order, and fields without a name are ignored.
\<close>

theorem parted_fields_split:
  assumes "CHR 0x0A \<notin> set line"
  shows "parse_parted_info ks line = zip ks (butlast (split_where field_end line))"
  using find_all_fields [OF assms, of True] by (simp add: parse_parted_info_def)

theorem parted_fields_split_witness:
  "parse_parted_info parted_partition_keys ''1:2048s:;'' = [(''number'', ''1''), (''sec_start'', ''2048s''), (''sec_end'', [])]"
  using parted_fields_split [of "''1:2048s:;''" parted_partition_keys] by (simp add: parted_partition_keys_def field_end_def)

section \<open>The partitions of a disk are well formed\<close>

lemma disk_to_part_not_empty: "device \<noteq> [] \<Longrightarrow> disk_to_part device n \<noteq> []"
  by (simp add: disk_to_part_def)

definition partition_ok :: "bool \<Rightarrow> partition \<Rightarrow> bool" where
  "partition_ok include_free p \<longleftrightarrow> pt_filesystem p \<noteq> [] \<and> pt_mount_point p = [] \<and> pt_path p = [] \<and>
     (pt_name p = [] \<longrightarrow> include_free \<and> pt_filesystem p = ''Free Space'' \<and> pt_number p = 0)"

lemma parted_partition_ok:
  "device \<noteq> [] \<Longrightarrow> build_parted_partition device b m line = Some p \<Longrightarrow> partition_ok b p"
  by (auto simp: build_parted_partition_def Let_def partition_ok_def no_partition_def disk_to_part_not_empty split: if_splits)

lemma parted_line_ok:
  "device \<noteq> [] \<Longrightarrow> list_all (partition_ok b) (dk_childrens (fst s)) \<Longrightarrow> list_all (partition_ok b) (dk_childrens (fst (parted_line device b s line)))"
  by (auto simp: parted_line_def fill_disk_info_def Let_def dest: parted_partition_ok split: option.split)

text \<open>
  C35. Every partition read from the text of \<open>parted\<close>, whatever that text is, is well formed: it has a file system name, it is not yet
  placed in the file system, and it has a name unless it is free space that was asked for, which has no number.
\<close>

theorem parted_partitions_well_formed:
  assumes "device \<noteq> []"
  shows "list_all (\<lambda>p. pt_filesystem p \<noteq> [] \<and> pt_mount_point p = [] \<and> pt_path p = [] \<and>
     (if pt_name p = [] then include_free \<and> pt_filesystem p = ''Free Space'' \<and> pt_number p = 0 else True))
     (dk_childrens (build_disk_info_from_parted device include_free out))"
proof -
  have "list_all (partition_ok include_free) (dk_childrens (fst s)) \<Longrightarrow>
      list_all (partition_ok include_free) (dk_childrens (fst (foldl (parted_line device include_free) s ls)))" for s ls
    by (induction ls arbitrary: s) (simp_all add: parted_line_ok [OF assms])
  from this [of "(no_disk, [])"] show ?thesis
    by (auto simp: build_disk_info_from_parted_def no_disk_def partition_ok_def list_all_iff)
qed

theorem parted_partitions_well_formed_witness:
  "list_all (\<lambda>p. pt_filesystem p \<noteq> [] \<and> pt_mount_point p = [] \<and> pt_path p = [] \<and>
     (if pt_name p = [] then False \<and> pt_filesystem p = ''Free Space'' \<and> pt_number p = 0 else True))
     (dk_childrens (build_disk_info_from_parted ''sda'' False ''1:2048s:4095s:2048s:ext4:;''))"
  by (rule parted_partitions_well_formed) simp

end
