(* ===== verification/DiskStatus.thy ===== *)
theory DiskStatus
  imports DiskModel
begin

text \<open>
  \<open>modules/nas/diskinventory/service.go\<close> and the pure half of \<open>modules/nas/diskstatus/service.go\<close>: the
  disks as \<open>lsblk\<close> reports them, their translation into the disks the service shows, and the decisions
  which partitions and disks are shown. The JSON decoder is outside the model: it delivers \<open>lsblk_disk\<close>
  records. A value of the Go type \<open>interface{}\<close> is a \<open>json_any\<close>; \<open>JNumber\<close> holds the value of a
  non-negative integral number below \<open>2^64\<close>, which is what \<open>lsblk -b\<close> prints.
\<close>

section \<open>The report of \<open>lsblk\<close>\<close>

datatype json_any = JNull | JNumber "64 word" | JString string | JOther

definition to_uint64 :: "json_any \<Rightarrow> 64 word" where
  "to_uint64 v = (case v of JNull \<Rightarrow> 0 | JNumber w \<Rightarrow> w | JString s \<Rightarrow> uint_or_max s | JOther \<Rightarrow> 0)"

record lsblk_item =
  ls_name :: string
  ls_mount_point :: string
  ls_uuid :: string
  ls_read_only :: bool
  ls_size :: "64 word"
  ls_type :: string
  ls_fstype :: string
  ls_fssize :: json_any
  ls_fsused :: json_any
  ls_fsused_percent :: string
  ls_vendor :: string
  ls_model :: string
  ls_serial :: string
  ls_path :: string
  ls_pttype :: string
  ls_tran :: string
  ls_label :: string

record lsblk_disk = lsblk_item +
  ls_childs :: "lsblk_item list"

record disk_root =
  dr_name :: string
  dr_display_name :: string
  dr_path :: string
  dr_ptype :: string
  dr_tran :: string
  dr_size_int_str :: string
  dr_size_str :: string
  dr_type :: string

record disk_child =
  dc_name :: string
  dc_type :: string
  dc_mountpoint :: string
  dc_uuid :: string
  dc_read_only :: bool
  dc_size_int :: "64 word"
  dc_fstype :: string
  dc_fssize :: "64 word"
  dc_fsused :: "64 word"
  dc_fsused_percent :: string
  dc_path :: string
  dc_label :: string

record disk_report =
  di_root :: disk_root
  di_children :: "disk_child list"

definition trim_blank :: "string \<Rightarrow> string" where
  "trim_blank = trim_char CHR '' ''"

definition lsblk_child :: "string \<Rightarrow> 'a lsblk_item_scheme \<Rightarrow> disk_child" where
  "lsblk_child kind c = \<lparr>dc_name = ls_name c, dc_type = kind, dc_mountpoint = ls_mount_point c, dc_uuid = ls_uuid c,
     dc_read_only = ls_read_only c, dc_size_int = ls_size c, dc_fstype = ls_fstype c,
     dc_fssize = to_uint64 (ls_fssize c), dc_fsused = to_uint64 (ls_fsused c),
     dc_fsused_percent = ls_fsused_percent c, dc_path = ls_path c, dc_label = ls_label c\<rparr>"

definition lsblk_report :: "lsblk_disk \<Rightarrow> disk_report" where
  "lsblk_report item =
     (let pttype = (if ls_pttype item = ''dos'' then ''mbr'' else ls_pttype item);
          whole = (ls_fstype item \<noteq> [] \<or> ls_mount_point item \<noteq> []) \<and> pttype = []
      in \<lparr>di_root = \<lparr>dr_name = ls_name item,
            dr_display_name = (if ls_vendor item = [] \<and> ls_model item = [] then []
              else trim_blank (trim_blank (ls_vendor item) @ '' '' @ trim_blank (ls_model item) @ '' '' @ trim_blank (ls_serial item))),
            dr_path = ls_path item,
            dr_ptype = (if whole then ''LOOP'' else to_upper pttype),
            dr_tran = ls_tran item,
            dr_size_int_str = fmt_u64 (ls_size item),
            dr_size_str = byte_count_binary (ls_size item),
            dr_type = ls_type item\<rparr>,
          di_children = map (lsblk_child (ls_type item)) (ls_childs item) @
            (if whole then [lsblk_child (ls_type item) item] else [])\<rparr>)"

definition parse_lsblk_disks :: "lsblk_disk list \<Rightarrow> disk_report list" where
  "parse_lsblk_disks items =
     map lsblk_report (filter (\<lambda>i. \<not> (ls_fstype i = ''swap'' \<and> ls_mount_point i = ''[SWAP]'')) items)"

section \<open>What the service shows of it\<close>

definition build_disk_info :: "disk_report \<Rightarrow> disk option" where
  "build_disk_info r = (let t = di_root r in
     if dr_type t \<noteq> ''disk'' then None
     else Some (no_disk\<lparr>dk_name := dr_name t, dk_path := dr_path t, dk_size := dr_size_str t,
       dk_size_int := dr_size_int_str t, dk_model := dr_display_name t, dk_label_type := dr_ptype t,
       dk_tran := dr_tran t, dk_external := dr_tran t \<noteq> []\<rparr>))"

record usage_summary =
  us_used :: "64 word"
  us_total :: "64 word"

definition build_partition_info :: "disk_child \<Rightarrow> partition \<times> usage_summary" where
  "build_partition_info c =
     (let tot = dc_size_int c; used = dc_fsused c;
          usage = (if tot > 0 then ucast (used * 100 div tot) else 0)
      in (no_partition\<lparr>pt_filesystem := (if dc_fstype c = [] then (if dc_mountpoint c = [] then ''No FileSystem'' else ''unknown'') else dc_fstype c),
            pt_mount_point := dc_mountpoint c, pt_name := dc_name c, pt_path := dc_path c, pt_uuid := dc_uuid c,
            pt_total := byte_count_binary tot, pt_size_int := fmt_u64 tot, pt_used := byte_count_binary used,
            pt_usage := usage\<rparr>,
          \<lparr>us_used = used, us_total = tot\<rparr>))"

definition should_include_partition :: "string \<Rightarrow> partition \<Rightarrow> 64 word \<Rightarrow> bool" where
  "should_include_partition label p bytes \<longleftrightarrow>
     \<not> (label = ''kernel'' \<or> pt_mount_point p = ''/rom'') \<and>
     \<not> (\<not> pt_system_root p \<and> bytes < 64 * 1024 * 1024)"

definition apply_disk_usage :: "disk \<Rightarrow> 64 word \<Rightarrow> 64 word \<Rightarrow> disk" where
  "apply_disk_usage d used tot =
     (let d = d\<lparr>dk_used := byte_count_binary used, dk_used_int := fmt_int (sint used),
                dk_total := byte_count_binary tot\<rparr>
      in if tot > 0 then d\<lparr>dk_usage := ucast (used * 100 div tot)\<rparr> else d)"

definition build_free_space_partition :: "64 word \<Rightarrow> 64 word \<Rightarrow> partition option" where
  "build_free_space_partition bytes tot =
     (if bytes \<le> tot \<or> bytes - tot \<le> 1024 * 1024 * 1024 then None
      else Some (no_partition\<lparr>pt_name := ''Free Space'', pt_filesystem := ''Free Space'',
             pt_total := byte_count_binary (bytes - tot), pt_size_int := fmt_u64 (bytes - tot)\<rparr>))"

definition mark_system_and_docker :: "disk \<Rightarrow> partition \<Rightarrow> string list \<Rightarrow> string \<Rightarrow> disk \<times> partition" where
  "mark_system_and_docker d p roots docker =
     (let (d, p) = (if pt_path p \<in> set roots then (d\<lparr>dk_system_root := True\<rparr>, p\<lparr>pt_system_root := True\<rparr>) else (d, p))
      in if pt_path p = docker then (d\<lparr>dk_docker_root := True\<rparr>, p\<lparr>pt_docker_root := True\<rparr>)
         else if pt_mount_point p = ''/rom'' \<and> docker = ''/dev/loop0'' then (d\<lparr>dk_docker_root := True\<rparr>, p)
         else (d, p))"

definition should_include_disk :: "disk \<Rightarrow> nat \<Rightarrow> 64 word \<Rightarrow> string \<Rightarrow> bool" where
  "should_include_disk d visible bytes raid_member \<longleftrightarrow>
     \<not> (dk_system_root d \<and> dk_label_type d = ''LOOP'' \<and> visible < 1) \<and>
     \<not> (\<not> dk_system_root d \<and> (bytes < 1000 * 1000 * 1000 \<or> raid_member \<noteq> []))"

definition apply_smart_health :: "disk \<Rightarrow> string \<Rightarrow> disk" where
  "apply_smart_health d health = (if health \<noteq> ''PASSED'' then d\<lparr>dk_smart_warning := True\<rparr> else d)"

section \<open>Installing to another disk (\<open>x86_install.go\<close>)\<close>

record x86_item =
  xi_name :: string
  xi_mount_point :: string
  xi_tran :: string
  xi_pttype :: string
  xi_size :: "64 word"
  xi_vendor :: string
  xi_model :: string
  xi_serial :: string

record x86_disk = x86_item +
  xi_childs :: "x86_item list"

record x86_root =
  xr_name :: string
  xr_tran :: string
  xr_end :: int
  xr_ptype :: string

record x86_dev =
  xd_name :: string
  xd_display_name :: string
  xd_target :: string
  xd_tran :: string
  xd_size_str :: string
  xd_mountpoints :: "string list"

definition is_x86_disk_root :: "x86_disk \<Rightarrow> bool" where
  "is_x86_disk_root d \<longleftrightarrow> length (xi_childs d) > 2 \<and> (\<exists>c\<in>set (xi_childs d). xi_mount_point c = ''/boot'')"

definition x86_dev_of :: "x86_disk \<Rightarrow> x86_dev" where
  "x86_dev_of d = \<lparr>xd_name = xi_name d,
     xd_display_name = trim_blank (trim_blank (xi_vendor d) @ '' '' @ trim_blank (xi_model d) @ '' '' @ trim_blank (xi_serial d)),
     xd_target = ''/dev/'' @ xi_name d, xd_tran = xi_tran d, xd_size_str = byte_count_binary (xi_size d),
     xd_mountpoints = filter (\<lambda>m. m \<noteq> []) (map xi_mount_point (xi_childs d))\<rparr>"

definition x86_devs :: "string \<Rightarrow> x86_disk list \<Rightarrow> x86_dev list" where
  "x86_devs root ds = map x86_dev_of (filter (\<lambda>d. \<not> (xi_name d = root \<or> has_prefix (xi_name d) ''loop'' \<or>
     has_prefix (xi_name d) ''sr'' \<or> xi_size d \<le> push_bit 20 2560)) ds)"

end
