(* ===== verification/DiskCommands.thy ===== *)
theory DiskCommands
  imports Shell Trace DiskStatus
begin

text \<open>
  How the storage modules run commands (\<open>modules/nas/diskcommands/service.go\<close> and the wrappers of
  \<open>service/nas.go\<close>). The history holds the batches handed to the shell, those that only read
  (\<open>Query\<close>) apart from those that change something (\<open>Sh\<close>), and the waits. What a batch prints and whether it
  fails, the files and the configuration are functions of the history; the JSON decoder is a function of the text. A timeout is part of what makes
  a batch fail.
\<close>

section \<open>Actions and answers\<close>

datatype disk_action =
    Query "string list"
  | Sh "string list"
  | Wait nat

type_synonym disk_history = "disk_action list"
type_synonym 'a disk_prog = "(disk_action, unit, 'a) prog"

record disk_env =
  de_out :: "disk_history \<Rightarrow> string list \<Rightarrow> string \<times> string \<times> goerr option"
  de_exists :: "disk_history \<Rightarrow> string \<Rightarrow> bool"
  de_file :: "disk_history \<Rightarrow> string \<Rightarrow> string result"
  de_dev :: "disk_history \<Rightarrow> string list"
  de_uci :: "disk_history \<Rightarrow> uci"
  de_lsblk :: "string \<Rightarrow> lsblk_disk list result"
  de_x86 :: "string \<Rightarrow> x86_disk list result"

text \<open>
  What leaves the disks as they are: reading, and the test whether a file system is writable, which
  creates and removes a file. The rest are the effects of a program.
\<close>

definition harmless_command :: "string \<Rightarrow> bool" where
  "harmless_command c \<longleftrightarrow> has_prefix c (''touch '' @ [CHR 0x27]) \<or> has_prefix c (''rm -f '' @ [CHR 0x27])"

fun reads :: "disk_action \<Rightarrow> bool" where
  "reads (Query c) \<longleftrightarrow> True"
| "reads (Sh [c]) \<longleftrightarrow> harmless_command c"
| "reads (Sh _) \<longleftrightarrow> False"
| "reads (Wait n) \<longleftrightarrow> False"

definition effects :: "disk_history \<Rightarrow> disk_history" where
  "effects h = filter (\<lambda>a. \<not> reads a) h"

lemma effects_simps [simp]:
  "effects [] = []" "effects (g @ h) = effects g @ effects h"
  "effects (a # h) = (if reads a then effects h else a # effects h)"
  by (simp_all add: effects_def)

lemma effects_reads: "\<forall>a\<in>set h. reads a \<Longrightarrow> effects h = []"
  by (simp add: effects_def)

lemma does_reads: "only reads m \<Longrightarrow> (\<And>a as. effects as = [] \<Longrightarrow> Q a as) \<Longrightarrow> does m Q"
  by (erule only_does) (simp add: effects_reads)

lemma harmless_test:
  "harmless_command (''touch '' @ sq s)" "harmless_command (''rm -f '' @ sq s)"
  by (simp_all add: harmless_command_def has_prefix_def sq_def)

definition batch_raw :: "disk_env \<Rightarrow> (string list \<Rightarrow> disk_action) \<Rightarrow> string list \<Rightarrow> (string \<times> string \<times> goerr option) disk_prog" where
  "batch_raw e k cmds = (case create_batch_command cmds of
       Inl err \<Rightarrow> State_Monad.return ([], [], Some err)
     | Inr _ \<Rightarrow> do { act (k cmds); ask (\<lambda>h. de_out e h cmds) })"

text \<open>\<open>BatchOutErr\<close>, \<open>BatchOutput\<close> and \<open>BatchRun\<close>.\<close>

definition batch_out_err :: "disk_env \<Rightarrow> (string list \<Rightarrow> disk_action) \<Rightarrow> string list \<Rightarrow> (string \<times> string \<times> goerr option) disk_prog" where
  "batch_out_err e k cmds = do {
     (out, err, failed) \<leftarrow> batch_raw e k cmds;
     State_Monad.return (trim_char newline out, err, failed)
   }"

definition batch_stdout :: "disk_env \<Rightarrow> (string list \<Rightarrow> disk_action) \<Rightarrow> string list \<Rightarrow> (string \<times> goerr option) disk_prog" where
  "batch_stdout e k cmds = do {
     (out, err, failed) \<leftarrow> batch_raw e k cmds;
     State_Monad.return (out, failed)
   }"

definition batch_fails :: "disk_env \<Rightarrow> string list \<Rightarrow> goerr option disk_prog" where
  "batch_fails e cmds = do {
     (out, err, failed) \<leftarrow> batch_raw e Sh cmds;
     State_Monad.return failed
   }"

lemma only_batch [only_intro]:
  "P (k c) \<Longrightarrow> only P (batch_raw e k c)" "P (k c) \<Longrightarrow> only P (batch_out_err e k c)"
  "P (k c) \<Longrightarrow> only P (batch_stdout e k c)" "P (Sh c) \<Longrightarrow> only P (batch_fails e c)"
  unfolding batch_out_err_def batch_stdout_def batch_fails_def batch_raw_def
  by (intro only_intro; assumption)+

text \<open>A batch is one action, or none when it is empty.\<close>

lemma does_batch:
  assumes "c \<noteq> []"
  shows "(\<And>r. Q r [k c]) \<Longrightarrow> does (batch_raw e k c) Q"
    "(\<And>o' x f. R (o', x, f) [k c]) \<Longrightarrow> does (batch_out_err e k c) R"
    "(\<And>o' f. S (o', f) [k c]) \<Longrightarrow> does (batch_stdout e k c) S"
    "(\<And>f. T f [Sh c]) \<Longrightarrow> does (batch_fails e c) T"
proof -
  have raw: "does (batch_raw e k c) Q" if "\<And>r. Q r [k c]" for Q k
    unfolding batch_raw_def using assms that create_batch_command_Inr [OF assms]
    by (cases "create_batch_command c") (auto intro!: does_intro does_bind [OF does_act [where Q = "\<lambda>_ as. as = [k c]"]])
  show "does (batch_raw e k c) Q" if "\<And>r. Q r [k c]" by (rule raw) (rule that)
  show "does (batch_out_err e k c) R" if "\<And>o' x f. R (o', x, f) [k c]"
    unfolding batch_out_err_def
    by (rule does_bind [OF raw [where Q = "\<lambda>r as. as = [k c]"]]) (auto intro!: does_intro that)
  show "does (batch_stdout e k c) S" if "\<And>o' f. S (o', f) [k c]"
    unfolding batch_stdout_def
    by (rule does_bind [OF raw [where Q = "\<lambda>r as. as = [k c]"]]) (auto intro!: does_intro that)
  show "does (batch_fails e c) T" if "\<And>f. T f [Sh c]"
    unfolding batch_fails_def
    by (rule does_bind [OF raw [where Q = "\<lambda>r as. as = [Sh c]"]]) (auto intro!: does_intro that)
qed

section \<open>The commands\<close>

definition disk_mount :: "disk_env \<Rightarrow> string \<Rightarrow> string \<Rightarrow> goerr option disk_prog" where
  "disk_mount e dev mp =
     (if dev = [] \<or> mp = [] then State_Monad.return (Some (''mount param missing,path:'' @ dev @ '' mountPoint:'' @ mp))
      else do {
        (_, errout, failed) \<leftarrow> batch_out_err e Sh
          [''test -d '' @ sq mp @ '' || mkdir -p '' @ sq mp, ''busybox mount '' @ sq dev @ '' '' @ sq mp];
        State_Monad.return (map_option (\<lambda>_. ''mount '' @ sq dev @ '' '' @ sq mp @ '' failed: '' @ errout) failed)
      })"

definition umount_command :: "string \<Rightarrow> string" where
  "umount_command target = ''umount '' @ sq target"

definition run_umount :: "disk_env \<Rightarrow> string \<Rightarrow> goerr option disk_prog" where
  "run_umount e target = do {
     (_, errout, failed) \<leftarrow> batch_out_err e Sh [umount_command target];
     State_Monad.return (map_option (\<lambda>_. umount_command target @ '' failed: '' @ errout) failed)
   }"

text \<open>\<open>UnMount\<close> takes a device, \<open>Unmount\<close> a mount point.\<close>

definition umount_device :: "disk_env \<Rightarrow> string \<Rightarrow> goerr option disk_prog" where
  "umount_device e dev =
     (if dev = [] then State_Monad.return (Some (''umount param missing,path:'' @ dev)) else run_umount e dev)"

definition unmount :: "disk_env \<Rightarrow> string \<Rightarrow> goerr option disk_prog" where
  "unmount e mp =
     (if mp = ''-'' then State_Monad.return None
      else if mp = [] then State_Monad.return (Some ''unmount param missing'')
      else if mp = ''/overlay'' then State_Monad.return (Some ''cannot unmount overlay'')
      else run_umount e mp)"

definition erase_commands :: "string \<Rightarrow> string list" where
  "erase_commands dev = [''dd if=/dev/zero of='' @ dev @ '' bs=4096 count=8192'',
     ''parted -a optimal -s '' @ dev @ '' mklabel gpt'']"

definition erase :: "disk_env \<Rightarrow> string \<Rightarrow> goerr option disk_prog" where
  "erase e dev =
     (if dev = [] then State_Monad.return (Some ''param missing'')
      else do {
        failed \<leftarrow> batch_fails e (erase_commands dev);
        State_Monad.return (map_option (\<lambda>_. ''erase disk failed '' @ dev) failed)
      })"

definition make_part_command :: "string \<Rightarrow> string" where
  "make_part_command dev = ''parted -a opt '' @ dev @ '' mkpart primary ext4 16M 100%''"

definition make_part :: "disk_env \<Rightarrow> string \<Rightarrow> goerr option disk_prog" where
  "make_part e dev =
     (if dev = [] then State_Monad.return (Some ''param missing'')
      else do {
        (_, failed) \<leftarrow> batch_stdout e Sh [make_part_command dev];
        State_Monad.return (map_option (\<lambda>_. ''make partition failed '' @ make_part_command dev) failed)
      })"

definition ext4_command :: "string \<Rightarrow> string" where
  "ext4_command path = ''mkfs.ext4 -F '' @ path"

definition ext4_partition :: "disk_env \<Rightarrow> string \<Rightarrow> goerr option disk_prog" where
  "ext4_partition e path = do {
     (_, failed) \<leftarrow> batch_stdout e Sh [ext4_command path];
     State_Monad.return (map_option (\<lambda>_. ''ext4 format failed'' @ path) failed)
   }"

subsection \<open>The table of mounts\<close>

record fstab_mount =
  fm_name :: string
  fm_uuid :: string
  fm_target :: string

definition load_fstab_mounts :: "disk_env \<Rightarrow> fstab_mount list disk_prog" where
  "load_fstab_mounts e = ask (\<lambda>h. let u = de_uci e h in
     map (\<lambda>s. \<lparr>fm_name = s, fm_uuid = last_or_empty u ''fstab'' s ''uuid'', fm_target = last_or_empty u ''fstab'' s ''target''\<rparr>)
       (sections_or_empty u ''fstab'' ''mount''))"

definition build_add_fstab_commands :: "string \<Rightarrow> string \<Rightarrow> string \<Rightarrow> string list" where
  "build_add_fstab_commands m uuid path =
     (if m = [] then
        [''uci add fstab mount'',
         ''uci set fstab.@mount[-1].uuid='' @ uuid,
         ''uci set '' @ sq (''fstab.@mount[-1].target='' @ path),
         ''uci set fstab.@mount[-1].enabled=1'']
      else
        [''uci set fstab.'' @ m @ ''.uuid='' @ uuid,
         ''uci set '' @ sq (''fstab.'' @ m @ ''.target='' @ path),
         ''uci set fstab.'' @ m @ ''.enabled=1''])"

definition add_fstab_to :: "disk_env \<Rightarrow> string \<Rightarrow> string \<Rightarrow> bool \<Rightarrow> fstab_mount list \<Rightarrow> string result disk_prog" where
  "add_fstab_to e uuid path skip_existed mounts =
     (if uuid = [] \<or> path = [] then State_Monad.return (Inl ''addFstab param missing'')
      else (let write = (\<lambda>m. do {
              failed \<leftarrow> batch_fails e (build_add_fstab_commands m uuid path);
              State_Monad.return (case failed of None \<Rightarrow> Inr path | Some _ \<Rightarrow> Inl ''add fstab failed'')
            })
        in case find (\<lambda>m. fm_uuid m = uuid) mounts of
             None \<Rightarrow> write []
           | Some m \<Rightarrow> (if skip_existed \<and> fm_target m \<noteq> [] then State_Monad.return (Inr (fm_target m)) else write (fm_name m))))"

definition add_fstab :: "disk_env \<Rightarrow> string \<Rightarrow> string \<Rightarrow> bool \<Rightarrow> string result disk_prog" where
  "add_fstab e uuid path skip_existed = do {
     mounts \<leftarrow> load_fstab_mounts e;
     add_fstab_to e uuid path skip_existed mounts
   }"

definition commit_fstab :: "disk_env \<Rightarrow> goerr option disk_prog" where
  "commit_fstab e = do {
     failed \<leftarrow> batch_fails e [''uci commit fstab''];
     State_Monad.return (map_option (\<lambda>_. ''commitFstab failed'') failed)
   }"

definition commit_fstab_and_block_mount :: "disk_env \<Rightarrow> goerr option disk_prog" where
  "commit_fstab_and_block_mount e = do {
     failed \<leftarrow> batch_fails e [''uci commit fstab'', ''block mount''];
     State_Monad.return (map_option (\<lambda>_. ''block mount failed'') failed)
   }"

definition gen_mount_point :: "disk_env \<Rightarrow> string \<Rightarrow> string disk_prog" where
  "gen_mount_point e name = do {
     (out, _, failed) \<leftarrow> batch_out_err e Query [''sh /usr/libexec/blockphy.sh '' @ name];
     State_Monad.return (case failed of None \<Rightarrow> out | Some _ \<Rightarrow> ''data_'' @ name)
   }"

definition check_mount_point :: "string \<Rightarrow> bool" where
  "check_mount_point mp \<longleftrightarrow> \<not> (mp = [] \<or> mp = ''-'')"

lemma only_gen_mount_point [only_intro]: "only reads (gen_mount_point e name)"
  unfolding gen_mount_point_def by (intro only_intro) simp

end
