(* ===== verification/DiskReaders.thy ===== *)
theory DiskReaders
  imports DiskCommands
begin

text \<open>
  \<open>service/disk_legacy_readers.go\<close> and \<open>modules/nas/partedinfo/service.go\<close>: what the service finds out
  about one disk: the partitions \<open>parted\<close> prints, with their mount points, identifiers and usage, and which
  of them hold the system and the docker data.
\<close>

section \<open>Where the system and docker live\<close>

definition remove_newlines :: "string \<Rightarrow> string" where
  "remove_newlines = remove_char newline"

definition boot_part_query :: "string \<Rightarrow> string" where
  "boot_part_query sp = ''findmnt -T '' @ sp @ ''  -o SOURCE|sed -n 2p''"

primrec boot_parts_of :: "disk_env \<Rightarrow> string list \<Rightarrow> string list disk_prog" where
  "boot_parts_of e [] = State_Monad.return []"
| "boot_parts_of e (sp # sps) = do {
     (out, failed) \<leftarrow> batch_stdout e Query [boot_part_query sp];
     rest \<leftarrow> boot_parts_of e sps;
     State_Monad.return (if failed = None then remove_newlines out # rest else rest)
   }"

definition get_boot_parts :: "disk_env \<Rightarrow> string list disk_prog" where
  "get_boot_parts e = boot_parts_of e [''/overlay'', ''/rom'', ''/boot'', ''/'']"

definition device_query :: "string \<Rightarrow> string" where
  "device_query root = ''findmnt -T '' @ root @ '' -v -o SOURCE|sed -n 2p''"

definition find_device :: "disk_env \<Rightarrow> string \<Rightarrow> string \<Rightarrow> string disk_prog" where
  "find_device e root old = do {
     (out, failed) \<leftarrow> batch_stdout e Query [device_query root];
     State_Monad.return (if failed = None \<and> out \<noteq> [] then remove_newlines out else old)
   }"

definition get_docker_part :: "disk_env \<Rightarrow> string disk_prog" where
  "get_docker_part e = do {
     (out, failed) \<leftarrow> batch_stdout e Query [''uci get dockerd.globals.data_root''];
     if failed = None \<and> out \<noteq> [] then do {
       dev \<leftarrow> find_device e (remove_newlines out) ''NOTFOUND'';
       if has_prefix dev ''overlayfs:'' then find_device e (drop (length ''overlayfs:'') dev) dev
       else State_Monad.return dev
     }
     else State_Monad.return ''NOTFOUND''
   }"

definition fill_part_status :: "disk_env \<Rightarrow> string list \<Rightarrow> string \<Rightarrow> disk \<Rightarrow> partition \<Rightarrow> (disk \<times> partition) disk_prog" where
  "fill_part_status e roots docker d p = do {
     failed \<leftarrow> batch_fails e [''touch '' @ sq (pt_mount_point p @ ''/.readonly_test'')];
     _ \<leftarrow> (if failed = None then batch_stdout e Sh [''rm -f '' @ sq (pt_mount_point p @ ''/.readonly_test'')]
          else State_Monad.return ([], None));
     State_Monad.return (mark_system_and_docker d (p\<lparr>pt_read_only := failed \<noteq> None\<rparr>) roots docker)
   }"

section \<open>Mount points, RAID membership, usage\<close>

definition is_raid_member :: "disk_env \<Rightarrow> string \<Rightarrow> string disk_prog" where
  "is_raid_member e part = do {
     there \<leftarrow> ask (\<lambda>h. de_exists e h ''/proc/mdstat'');
     if there then do {
       (out, _) \<leftarrow> batch_stdout e Query [''grep md /proc/mdstat | sed '' @ sq ''s/[][]//g''];
       State_Monad.return (parse_raid_member out part)
     }
     else State_Monad.return []
   }"

definition get_mount_point :: "disk_env \<Rightarrow> string \<Rightarrow> string disk_prog" where
  "get_mount_point e part = do {
     (out, _) \<leftarrow> batch_stdout e Query [''mount''];
     let mp = parse_mount_point out part;
     if mp \<noteq> [] then State_Monad.return mp else is_raid_member e part
   }"

definition get_partition_usage :: "disk_env \<Rightarrow> string \<Rightarrow> (string \<times> string \<times> string) disk_prog" where
  "get_partition_usage e part = do {
     (out, _) \<leftarrow> batch_stdout e Query [''df /dev/'' @ part @ '' | grep -m1 '' @ sq ''^/dev/''];
     State_Monad.return (parse_partition_usage out)
   }"

definition uuid_query :: "string \<Rightarrow> string" where
  "uuid_query path = ''block info '' @ path @ '' | grep -m1 '' @ sq (''^'' @ path @ '':'') @
     '' | sed -nE '' @ sq (''s/^.* UUID=\"([^\"]+)\".*$/'' @ [CHR 0x5C] @ ''1/p'')"

definition read_uuid :: "disk_env \<Rightarrow> string \<Rightarrow> string disk_prog" where
  "read_uuid e path = do {
     (out, _, _) \<leftarrow> batch_out_err e Query [uuid_query path];
     State_Monad.return out
   }"

definition parted_query :: "string \<Rightarrow> string" where
  "parted_query device = ''parted -s -m /dev/'' @ device @ '' unit s print free''"

section \<open>One disk (\<open>partedinfo\<close>)\<close>

record disk_sum =
  sm_disk :: disk
  sm_total :: "64 word"
  sm_used :: "64 word"

definition uint32_or_max :: "string \<Rightarrow> 32 word" where
  "uint32_or_max s = word_of_nat (fst (parse_uint (2 ^ 32 - 1) s))"

definition name_partition :: "disk_env \<Rightarrow> partition \<Rightarrow> partition disk_prog" where
  "name_partition e p =
     (if pt_name p = [] then State_Monad.return p
      else do {
        mp \<leftarrow> get_mount_point e (pt_name p);
        uuid \<leftarrow> read_uuid e (''/dev/'' @ pt_name p);
        State_Monad.return (p\<lparr>pt_mount_point := mp, pt_path := ''/dev/'' @ pt_name p,
          pt_uuid := (if uuid \<noteq> [] then uuid else pt_uuid p)\<rparr>)
      })"

definition add_usage :: "disk_sum \<Rightarrow> string \<Rightarrow> string \<Rightarrow> partition \<Rightarrow> disk_sum \<times> partition" where
  "add_usage s used usage p =
     (let used_bytes = uint_or_max used * 1024;
          tot = sm_total s + uint_or_max (pt_size_int p);
          sum = sm_used s + used_bytes;
          d = (if tot > 0 then (sm_disk s)\<lparr>dk_usage := ucast (sum * 100 div tot)\<rparr> else sm_disk s)
      in (\<lparr>sm_disk = d\<lparr>dk_total := byte_count_binary tot, dk_used := byte_count_binary sum\<rparr>, sm_total = tot, sm_used = sum\<rparr>,
          p\<lparr>pt_used := byte_count_binary used_bytes, pt_usage := uint32_or_max usage\<rparr>))"

definition measure_partition :: "disk_env \<Rightarrow> string list \<Rightarrow> string \<Rightarrow> disk_sum \<Rightarrow> partition \<Rightarrow> (disk_sum \<times> partition) disk_prog" where
  "measure_partition e roots docker s p =
     (if pt_mount_point p \<noteq> [] \<and> pt_filesystem p \<noteq> ''swap'' then do {
        (used, _, usage) \<leftarrow> get_partition_usage e (pt_name p);
        let (s', p') = add_usage s used usage p;
        (d, p'') \<leftarrow> fill_part_status e roots docker (sm_disk s') p';
        State_Monad.return (s'\<lparr>sm_disk := d\<rparr>, p'')
      }
      else State_Monad.return (s, p))"

primrec read_partitions :: "disk_env \<Rightarrow> string list \<Rightarrow> string \<Rightarrow> disk_sum \<Rightarrow> partition list \<Rightarrow> (disk_sum \<times> partition list) disk_prog" where
  "read_partitions e roots docker s [] = State_Monad.return (s, [])"
| "read_partitions e roots docker s (p # ps) = do {
     p \<leftarrow> name_partition e p;
     (s, p) \<leftarrow> measure_partition e roots docker s p;
     (s, rest) \<leftarrow> read_partitions e roots docker s ps;
     State_Monad.return (s, if pt_mount_point p = ''/rom'' then rest else p # rest)
   }"

definition get_parted_info :: "disk_env \<Rightarrow> string \<Rightarrow> bool \<Rightarrow> disk disk_prog" where
  "get_parted_info e device include_free = do {
     roots \<leftarrow> get_boot_parts e;
     docker \<leftarrow> get_docker_part e;
     (out, _, _) \<leftarrow> batch_out_err e Query [parted_query device];
     let d = build_disk_info_from_parted device include_free out;
     (s, ps) \<leftarrow> read_partitions e roots docker \<lparr>sm_disk = d, sm_total = 0, sm_used = 0\<rparr> (dk_childrens d);
     State_Monad.return ((sm_disk s)\<lparr>dk_childrens := ps\<rparr>)
   }"

definition get_disk_info :: "disk_env \<Rightarrow> string \<Rightarrow> disk disk_prog" where
  "get_disk_info e device = get_parted_info e device False"

definition get_disk_info_include_free :: "disk_env \<Rightarrow> string \<Rightarrow> disk disk_prog" where
  "get_disk_info_include_free e device = get_parted_info e device True"

section \<open>RAID devices\<close>

definition md_path :: "nat \<Rightarrow> string" where
  "md_path i = ''/dev/md'' @ fmt_nat i"

text \<open>The first free device number from \<open>lo\<close> on, below 127; \<open>None\<close> is the code's \<open>-1\<close>.\<close>

definition find_free_md :: "(string \<Rightarrow> bool) \<Rightarrow> nat \<Rightarrow> nat option" where
  "find_free_md taken lo = find (\<lambda>i. \<not> taken (md_path i)) [lo..<127]"

definition mddetail :: "disk_env \<Rightarrow> string \<Rightarrow> (string \<rightharpoonup> string) disk_prog" where
  "mddetail e path =
     (if \<not> re_matches md_path_re path then State_Monad.return Map.empty
      else do {
        (out, _, _) \<leftarrow> batch_out_err e Query [''mdadm -D '' @ path];
        State_Monad.return (parse_md_detail path out)
      })"

definition raid_partition_command :: "string \<Rightarrow> string result" where
  "raid_partition_command dev =
     (if dev = [] then Inl ''param missing''
      else Inr (''parted -a opt '' @ dev @ '' mkpart primary ext4 16M 100% set 1 raid on''))"

definition make_raid_part :: "disk_env \<Rightarrow> string \<Rightarrow> goerr option disk_prog" where
  "make_raid_part e dev =
     (case raid_partition_command dev of
        Inl err \<Rightarrow> State_Monad.return (Some err)
      | Inr cmd \<Rightarrow> do {
          (_, failed) \<leftarrow> batch_stdout e Sh [cmd];
          State_Monad.return (map_option (\<lambda>_. ''make partition failed '' @ cmd) failed)
        })"

section \<open>Reading leaves the disks as they are\<close>

lemma only_boot_parts_of [only_intro]: "only reads (boot_parts_of e sps)"
  by (induction sps) (auto intro!: only_intro)

lemma only_locations [only_intro]: "only reads (get_boot_parts e)" "only reads (find_device e r d)" "only reads (get_docker_part e)"
  unfolding get_boot_parts_def get_docker_part_def find_device_def by (auto intro!: only_intro)

lemma only_fill_part_status [only_intro]: "only reads (fill_part_status e roots docker d p)"
  unfolding fill_part_status_def
  by (intro only_intro) (simp_all add: harmless_command_def has_prefix_def sq_def)

lemma only_partition_readers [only_intro]:
  "only reads (is_raid_member e n)" "only reads (get_mount_point e n)" "only reads (get_partition_usage e n)" "only reads (read_uuid e n)"
proof -
  show member: "only reads (is_raid_member e n)"
    unfolding is_raid_member_def by (intro only_intro) simp
  show "only reads (get_mount_point e n)"
    unfolding get_mount_point_def Let_def by (intro only_intro member) simp
  show "only reads (get_partition_usage e n)" "only reads (read_uuid e n)"
    unfolding get_partition_usage_def read_uuid_def by (intro only_intro; simp)+
qed

lemma only_measure [only_intro]:
  "only reads (name_partition e p)" "only reads (measure_partition e roots docker s p)"
  unfolding name_partition_def measure_partition_def by (intro only_intro)+

lemma only_read_partitions [only_intro]: "only reads (read_partitions e roots docker s ps)"
  by (induction ps arbitrary: s) (auto intro!: only_intro)

lemma only_disk_info [only_intro]:
  "only reads (get_parted_info e device b)" "only reads (get_disk_info e device)" "only reads (get_disk_info_include_free e device)"
proof -
  show info: "only reads (get_parted_info e device b)" for b
    unfolding get_parted_info_def Let_def by (intro only_intro) simp
  show "only reads (get_disk_info e device)" "only reads (get_disk_info_include_free e device)"
    unfolding get_disk_info_def get_disk_info_include_free_def by (rule info)+
qed

lemma only_mddetail [only_intro]: "only reads (mddetail e path)"
  unfolding mddetail_def by (intro only_intro) simp

end
