(* ===== verification/Smart.thy ===== *)
theory Smart
  imports DiskReaders
begin

text \<open>
  Disk health (\<open>modules/smart\<close>, \<open>service/smart.go\<close>): the configuration file of \<open>smartd\<close>, which the service
  writes and reads back, the report of \<open>smartctl\<close>, the list of disks and the commands. A pointer that may be
  nil is an option; a result \<open>None\<close> of a program is a panic.
\<close>

section \<open>The configuration of \<open>smartd\<close>\<close>

record smart_global =
  sg_enable :: bool
  sg_powermode :: string
  sg_tmp_diff :: int
  sg_tmp_max :: int

record smart_device =
  sd_path :: string
  sd_tmp_diff :: int
  sd_tmp_max :: int

record smart_task =
  sk_day_per_month :: string
  sk_day_per_week :: string
  sk_path :: string
  sk_hour :: string
  sk_month :: string
  sk_type :: string

record smart_config =
  sc_global :: "smart_global option"
  sc_devices :: "smart_device list"
  sc_tasks :: "smart_task list"

subsection \<open>Reading it\<close>

definition state_re :: re where
  "state_re = Cat (lit ''# smartd state '') (Cap 1 (Alt (lit ''true'') (lit ''false'')))"

definition powermode_re :: re where
  "powermode_re = Cat (lit ''DEFAULT -n '') (Cap 1 (plus True (Ch word_class)))"

definition dev_re :: re where
  "dev_re = Cat (lit ''/dev/'') (plus True (Ch word_class))"

definition smart_device_re :: re where
  "smart_device_re = seq [Cap 1 dev_re, lit '' -W '', Cap 2 digits_re, lit '','', digits_re, lit '','', Cap 3 digits_re]"

abbreviation dotted_re :: re where
  "dotted_re \<equiv> Ch (\<lambda>c. digit_class c \<or> c = CHR ''.'')"

definition smart_task_re :: re where
  "smart_task_re = seq [Cap 1 dev_re, lit '' -a -s '', Cap 2 (Ch word_class), lit ''/'',
     Cap 3 (seq [dotted_re, dotted_re]), lit ''/'', Cap 4 (seq [dotted_re, dotted_re]), lit ''/'',
     Cap 5 dotted_re, lit ''/'', Cap 6 (seq [dotted_re, dotted_re])]"

definition parse_int64 :: "string \<Rightarrow> int" where
  "parse_int64 s = fst (parse_int 64 s)"

definition read_smart_device :: "captures \<Rightarrow> smart_device" where
  "read_smart_device c = \<lparr>sd_path = cap c 1, sd_tmp_diff = parse_int64 (cap c 2), sd_tmp_max = parse_int64 (cap c 3)\<rparr>"

definition task_type_name :: "string \<Rightarrow> string" where
  "task_type_name t = (if t = ''S'' then ''short'' else if t = ''L'' then ''long''
     else if t = ''O'' then ''offline'' else if t = ''C'' then ''conveyance'' else [])"

definition any_or :: "string \<Rightarrow> string \<Rightarrow> string" where
  "any_or dots s = (if s = dots then ''*'' else s)"

definition read_smart_task :: "captures \<Rightarrow> smart_task" where
  "read_smart_task c = \<lparr>sk_day_per_month = any_or ''..'' (cap c 4), sk_day_per_week = any_or ''.'' (cap c 5),
     sk_path = cap c 1, sk_hour = any_or ''..'' (cap c 6), sk_month = any_or ''..'' (cap c 3),
     sk_type = task_type_name (cap c 2)\<rparr>"

definition parse_smart_config :: "string \<Rightarrow> bool \<Rightarrow> smart_config" where
  "parse_smart_config conf is_running =
     (let enable = (case re_find state_re conf of
            None \<Rightarrow> is_running
          | Some c \<Rightarrow> if cap c 1 = ''true'' then True else if cap c 1 = ''false'' then False else is_running);
          powermode = (case re_find powermode_re conf of None \<Rightarrow> ''standby'' | Some c \<Rightarrow> cap c 1)
      in \<lparr>sc_global = Some \<lparr>sg_enable = enable, sg_powermode = powermode, sg_tmp_diff = 0, sg_tmp_max = 0\<rparr>,
          sc_devices = map read_smart_device (re_find_all smart_device_re True conf),
          sc_tasks = map read_smart_task (re_find_all smart_task_re True conf)\<rparr>)"

subsection \<open>Writing it\<close>

definition bool_text :: "bool \<Rightarrow> string" where
  "bool_text b = (if b then ''true'' else ''false'')"

definition two_digits :: "int \<Rightarrow> string" where
  "two_digits n = (if 0 \<le> n \<and> n < 10 then ''0'' @ fmt_int n else fmt_int n)"

definition with_defaults :: "smart_global \<Rightarrow> smart_device \<Rightarrow> smart_device" where
  "with_defaults g v = v\<lparr>sd_tmp_diff := (if sd_tmp_diff v = 0 then sg_tmp_diff g else sd_tmp_diff v),
     sd_tmp_max := (if sd_tmp_max v = 0 then sg_tmp_max g else sd_tmp_max v)\<rparr>"

definition device_line :: "smart_device \<Rightarrow> string" where
  "device_line v = sd_path v @ '' -W '' @ fmt_int (sd_tmp_diff v) @ '',0,'' @ fmt_int (sd_tmp_max v)"

definition task_type_letter :: "string \<Rightarrow> string" where
  "task_type_letter t = (if t = ''long'' then ''L'' else if t = ''short'' then ''S''
     else if t = ''offline'' then ''O'' else if t = ''conveyance'' then ''C'' else ''L'')"

definition two_or_dots :: "string \<Rightarrow> string" where
  "two_or_dots s = (if s = ''*'' then ''..'' else two_digits (parse_int64 s))"

definition task_line :: "smart_task \<Rightarrow> string" where
  "task_line v = sk_path v @ '' -a -s '' @ task_type_letter (sk_type v) @ ''/'' @ two_or_dots (sk_month v) @ ''/'' @
     two_or_dots (sk_day_per_month v) @ ''/'' @
     (if sk_day_per_week v = ''*'' \<or> sk_day_per_week v = [] then ''.'' else sk_day_per_week v) @ ''/'' @
     two_or_dots (sk_hour v)"

text \<open>A request without \<open>global\<close> is a nil pointer the renderer follows.\<close>

definition render_smartd_config :: "smart_config \<Rightarrow> string list option" where
  "render_smartd_config req = (case sc_global req of
       None \<Rightarrow> None
     | Some g \<Rightarrow> Some ([''# Autogenerated, do not edit!'', ''# smartd state '' @ bool_text (sg_enable g),
           ''DEFAULT -n '' @ sg_powermode g] @
         map (\<lambda>v. device_line (with_defaults g v)) (sc_devices req) @ map task_line (sc_tasks req)))"

definition conf_path :: string where
  "conf_path = ''/etc/smartd.conf''"

definition write_line_command :: "string \<Rightarrow> string \<Rightarrow> string" where
  "write_line_command line redirect =
     ''printf '' @ [CHR 0x22] @ line @ [newline, CHR 0x22] @ '' '' @ redirect @ '' '' @ conf_path"

primrec write_lines :: "disk_env \<Rightarrow> string \<Rightarrow> string list \<Rightarrow> unit disk_prog" where
  "write_lines e redirect [] = skip"
| "write_lines e redirect (l # ls) = do {
     _ \<leftarrow> batch_stdout e Sh [write_line_command l redirect];
     write_lines e ''>>'' ls
   }"

definition app_is_running :: "disk_env \<Rightarrow> string \<Rightarrow> bool disk_prog" where
  "app_is_running e name = do {
     (out, failed) \<leftarrow> batch_stdout e Query [''pgrep '' @ sq (''(^|/)'' @ name @ ''[^/]*$'')];
     State_Monad.return (failed = None \<and> remove_newlines out \<noteq> [])
   }"

definition smart_set_config :: "disk_env \<Rightarrow> smart_config \<Rightarrow> unit option disk_prog" where
  "smart_set_config e req = (case (sc_global req, render_smartd_config req) of
       (Some g, Some ls) \<Rightarrow> do {
         write_lines e ''>'' ls;
         (if sg_enable g then do {
            _ \<leftarrow> batch_stdout e Sh [''/etc/init.d/smartd enable''];
            up \<leftarrow> app_is_running e ''smartd'';
            _ \<leftarrow> batch_stdout e Sh [if up then ''/etc/init.d/smartd reload'' else ''/etc/init.d/smartd start''];
            State_Monad.return (Some ())
          }
          else do {
            _ \<leftarrow> batch_stdout e Sh [''/etc/init.d/smartd disable''];
            _ \<leftarrow> batch_stdout e Sh [''/etc/init.d/smartd stop''];
            State_Monad.return (Some ())
          })
       }
     | _ \<Rightarrow> State_Monad.return None)"

definition smart_get_config :: "disk_env \<Rightarrow> smart_config result disk_prog" where
  "smart_get_config e = do {
     there \<leftarrow> ask (\<lambda>h. de_exists e h conf_path);
     if there then do {
       conf \<leftarrow> ask (\<lambda>h. de_file e h conf_path);
       up \<leftarrow> app_is_running e ''smartd'';
       State_Monad.return (Inr (parse_smart_config (case conf of Inl _ \<Rightarrow> [] | Inr s \<Rightarrow> s) up))
     }
     else State_Monad.return (Inl ''smartd.conf missing'')
   }"

definition smart_post_config :: "disk_env \<Rightarrow> smart_config \<Rightarrow> smart_config result option disk_prog" where
  "smart_post_config e req = do {
     ok \<leftarrow> smart_set_config e req;
     (case ok of
        None \<Rightarrow> State_Monad.return None
      | Some _ \<Rightarrow> do { r \<leftarrow> smart_get_config e; State_Monad.return (Some r) })
   }"

section \<open>The report of \<open>smartctl\<close>\<close>

record smart_info =
  sm_health :: string
  sm_model :: string
  sm_name :: string
  sm_nvme_ver :: string
  sm_path :: string
  sm_rota_rate :: string
  sm_sata_ver :: string
  sm_serial :: string
  sm_size_str :: string
  sm_status :: string
  sm_temp :: string

definition section_re :: re where
  "section_re = seq [Bol, lit ''=== START OF '', Cap 1 (Star True any_re), lit '' SECTION ===''] "

definition attrib_re :: re where
  "attrib_re = seq [Bol, Cap 1 (plus False any_re), lit '':'', spaces_re, Cap 2 (plus True any_re)]"

definition health_re :: re where
  "health_re = seq [plus True any_re, lit ''overall-health'', plus True any_re, lit '': '', Cap 1 (plus True any_re)]"

abbreviation blank_re :: re where
  "blank_re \<equiv> spaces_re"

abbreviation dashed_re :: re where
  "dashed_re \<equiv> plus True (Ch (\<lambda>c. digit_class c \<or> c = CHR ''-''))"

definition ata_re :: re where
  "ata_re = seq [Bol, Cap 1 (plus True (Ch (\<lambda>c. digit_class c \<or> c = CHR '' ''))), blank_re,
     plus True (Ch (\<lambda>c. c \<noteq> CHR '' '')), blank_re, plus True (Ch (\<lambda>c. c \<in> set ''POSRCK-'')), blank_re,
     dashed_re, blank_re, dashed_re, blank_re, dashed_re, blank_re, dashed_re, blank_re, Cap 2 dashed_re]"

definition word_re :: re where
  "word_re = Cap 1 (plus True (Ch (\<lambda>c. \<not> space_class c)))"

definition number_re :: re where
  "number_re = Cap 1 digits_re"

definition degrees :: string where
  "degrees = [CHR 0xC2, CHR 0xB0, CHR ''C'']"

definition note_health :: "string \<Rightarrow> smart_info \<Rightarrow> smart_info" where
  "note_health line i = (if sm_health i = [] then
       (case re_find health_re line of None \<Rightarrow> i | Some c \<Rightarrow> i\<lparr>sm_health := cap c 1\<rparr>) else i)"

definition note_attrib :: "string \<Rightarrow> string \<Rightarrow> smart_info \<Rightarrow> smart_info" where
  "note_attrib attrib val i =
     (if attrib = ''Power mode is'' \<or> attrib = ''Power mode was'' then
        (case re_find word_re val of None \<Rightarrow> i | Some c \<Rightarrow> i\<lparr>sm_status := cap c 1\<rparr>)
      else if attrib = ''Serial Number'' then i\<lparr>sm_serial := val\<rparr>
      else if attrib = ''Rotation Rate'' then i\<lparr>sm_rota_rate := val\<rparr>
      else if attrib = ''SATA Version is'' then i\<lparr>sm_sata_ver := val\<rparr>
      else if attrib = ''NVMe Version'' then i\<lparr>sm_nvme_ver := val\<rparr>
      else if attrib = ''194'' \<or> attrib = ''Temperature'' then
        (case re_find number_re val of None \<Rightarrow> i | Some c \<Rightarrow> i\<lparr>sm_temp := cap c 1 @ degrees\<rparr>)
      else i)"

definition attrib_of :: "nat \<Rightarrow> smart_info \<Rightarrow> string \<Rightarrow> string \<times> string" where
  "attrib_of section i line =
     (if section = 1 \<or> section = 2 \<and> sm_nvme_ver i \<noteq> [] then
        (case re_find attrib_re line of None \<Rightarrow> ([], []) | Some c \<Rightarrow> (cap c 1, cap c 2))
      else if section = 2 then
        (case re_find ata_re line of None \<Rightarrow> ([], []) | Some c \<Rightarrow> (trim_space (cap c 1), cap c 2))
      else ([], []))"

definition smartctl_line :: "nat \<times> smart_info \<Rightarrow> string \<Rightarrow> nat \<times> smart_info" where
  "smartctl_line s line = (case s of (section, i) \<Rightarrow>
     (case re_find section_re line of
        Some c \<Rightarrow> ((if contains_str (cap c 1) ''INFORMATION'' then 1
                   else if contains_str (cap c 1) ''SMART DATA'' then 2 else section), i)
      | None \<Rightarrow>
          (let (attrib, val) = attrib_of section i line;
               i = (if section = 2 then note_health line i else i)
           in if attrib = [] then (if section \<noteq> 2 then 0 else section, i)
              else (section, note_attrib attrib val i))))"

definition parse_smartctl_info :: "smart_info \<Rightarrow> string \<Rightarrow> smart_info" where
  "parse_smartctl_info base out = snd (foldl smartctl_line (0, base) (split_on (CHR 0x0A) out))"

definition get_smart_info :: "disk_env \<Rightarrow> string \<Rightarrow> smart_info disk_prog" where
  "get_smart_info e device = do {
     d \<leftarrow> get_disk_info e device;
     (out, _, _) \<leftarrow> batch_out_err e Query [''smartctl -H -A -i -n standby -f brief /dev/'' @ device];
     State_Monad.return (parse_smartctl_info
       \<lparr>sm_health = [], sm_model = dk_model d, sm_name = dk_name d, sm_nvme_ver = [], sm_path = dk_path d,
        sm_rota_rate = [], sm_sata_ver = [], sm_serial = [], sm_size_str = dk_size d, sm_status = [], sm_temp = []\<rparr> out)
   }"

section \<open>The disks with SMART data, and hot plugging\<close>

definition candidate_res :: "re list" where
  "candidate_res =
     (let letter = Ch (\<lambda>c. (of_char c :: nat) \<in> {97..122})
      in [seq [Bol, lit ''sd'', letter, Eol], seq [Bol, lit ''mmcblk'', digits_re, Eol],
          seq [Bol, lit ''sata'', letter, Eol], seq [Bol, lit ''nvme'', digits_re, lit ''n'', digits_re, Eol]])"

definition is_candidate_device_name :: "string \<Rightarrow> bool" where
  "is_candidate_device_name dev \<longleftrightarrow> list_ex (\<lambda>r. re_matches r dev) candidate_res"

definition smart_list :: "disk_env \<Rightarrow> smart_info list result disk_prog" where
  "smart_list e = do {
     names \<leftarrow> ask (\<lambda>h. filter is_candidate_device_name (de_dev e h));
     (out, _, failed) \<leftarrow> batch_out_err e Query [''smartctl --scan''];
     (case failed of
        Some _ \<Rightarrow> State_Monad.return (Inl ''smart device list failed'')
      | None \<Rightarrow> do {
          infos \<leftarrow> map_each (get_smart_info e) (filter (\<lambda>n. contains_str out n \<or> contains_str n ''nvme'') names);
          State_Monad.return (Inr infos)
        })
   }"

definition old_limits :: "smart_device list \<Rightarrow> smart_info \<Rightarrow> smart_device" where
  "old_limits olds i = foldl (\<lambda>d v. if sd_path v = sm_path i then d\<lparr>sd_tmp_diff := sd_tmp_diff v, sd_tmp_max := sd_tmp_max v\<rparr> else d)
     \<lparr>sd_path = sm_path i, sd_tmp_diff = 5, sd_tmp_max = 50\<rparr> olds"

text \<open>\<open>SmartReloadDisks\<close> drops both errors and follows the nil pointers they leave.\<close>

definition smart_reload_disks :: "disk_env \<Rightarrow> unit option disk_prog" where
  "smart_reload_disks e = do {
     old \<leftarrow> smart_get_config e;
     devices \<leftarrow> smart_list e;
     (case (old, devices) of
        (Inr o', Inr ds) \<Rightarrow> smart_set_config e \<lparr>sc_global = sc_global o', sc_devices = map (old_limits (sc_devices o')) ds, sc_tasks = sc_tasks o'\<rparr>
      | _ \<Rightarrow> State_Monad.return None)
   }"

section \<open>Commands\<close>

definition smart_start_test :: "disk_env \<Rightarrow> string \<Rightarrow> string \<Rightarrow> string disk_prog" where
  "smart_start_test e kind path = do {
     (out, _, failed) \<leftarrow> batch_out_err e Sh [''smartctl -t '' @ kind @ '' '' @ path];
     State_Monad.return (if failed = None then ''disk test started'' else ''disk test is running'' @ [newline] @ out)
   }"

definition smart_read :: "disk_env \<Rightarrow> string \<Rightarrow> string result disk_prog" where
  "smart_read e cmd = do {
     (out, failed) \<leftarrow> batch_stdout e Query [cmd];
     State_Monad.return (if failed = None then Inr out else Inl ''smart test result failed'')
   }"

definition smart_test_result :: "disk_env \<Rightarrow> string \<Rightarrow> string \<Rightarrow> string result disk_prog" where
  "smart_test_result e kind path = smart_read e (''smartctl -l '' @ kind @ '' '' @ path)"

definition smart_attribute_result :: "disk_env \<Rightarrow> string \<Rightarrow> string result disk_prog" where
  "smart_attribute_result e path = smart_read e (''smartctl -A '' @ path)"

definition smart_extend_result :: "disk_env \<Rightarrow> string \<Rightarrow> string result disk_prog" where
  "smart_extend_result e path = smart_read e (''smartctl -a '' @ path)"

section \<open>Reading leaves the disks as they are\<close>

lemma only_smart [only_intro]:
  "only reads (app_is_running e name)" "only reads (smart_get_config e)" "only reads (get_smart_info e device)"
proof -
  show up: "only reads (app_is_running e name)" for name
    unfolding app_is_running_def by (intro only_intro) simp
  show "only reads (smart_get_config e)" "only reads (get_smart_info e device)"
    unfolding smart_get_config_def get_smart_info_def by (intro only_intro up; simp)+
qed

section \<open>Panics\<close>

lemma set_config_runs: "result_of (smart_set_config e req) h = (case sc_global req of None \<Rightarrow> None | Some g \<Rightarrow> Some ())"
  by (cases "sc_global req") (simp_all add: smart_set_config_def render_smartd_config_def Let_def)

lemma parsed_global: "\<exists>g. sc_global (parse_smart_config conf b) = Some g"
  by (simp add: parse_smart_config_def Let_def)

lemma get_config_global: "result_of (smart_get_config e) h = Inr c \<Longrightarrow> \<exists>g. sc_global c = Some g"
  by (auto simp: smart_get_config_def parsed_global split: if_splits)

text \<open>
  Two nil pointers of the SMART service: reloading the disks after a hot plug panics exactly when the configuration file is
  missing or the device scan fails, because the two errors are dropped; and setting a configuration panics exactly when the request
  has no \<open>global\<close> part.
\<close>

theorem smart_nil_panics:
  "(result_of (smart_reload_disks e) h = None \<longleftrightarrow>
      \<not> (is_Inr (result_of (smart_get_config e) h) \<and> is_Inr (result_of (smart_list e) (after (smart_get_config e) h)))) \<and>
   (result_of (smart_post_config e req) h = None \<longleftrightarrow> sc_global req = None) \<and>
   (result_of (smart_get_config e) h = Inl ''smartd.conf missing'' \<longleftrightarrow> \<not> de_exists e h conf_path)"
proof (intro conjI)
  show "result_of (smart_reload_disks e) h = None \<longleftrightarrow>
      \<not> (is_Inr (result_of (smart_get_config e) h) \<and> is_Inr (result_of (smart_list e) (after (smart_get_config e) h)))"
    using get_config_global [of e h]
    by (auto simp: smart_reload_disks_def set_config_runs split: sum.split option.splits)
  show "result_of (smart_post_config e req) h = None \<longleftrightarrow> sc_global req = None"
    by (auto simp: smart_post_config_def set_config_runs split: option.splits)
  show "result_of (smart_get_config e) h = Inl ''smartd.conf missing'' \<longleftrightarrow> \<not> de_exists e h conf_path"
    by (simp add: smart_get_config_def)
qed

end
