(* ===== verification/DiskList.thy ===== *)
theory DiskList
  imports Smart
begin

text \<open>
  The lists of disks: \<open>modules/nas/diskstatus/service.go\<close> (the disks \<open>lsblk\<close> reports),
  \<open>modules/raid/inventory/service.go\<close> (the RAID devices of \<open>/proc/mdstat\<close>, and the disks that can become
  members), their union \<open>getAllDisks\<close> and the disk for an installation (\<open>service/nas.go\<close>).
\<close>

section \<open>Disks\<close>

definition lsblk_query :: string where
  "lsblk_query = ''lsblk --output NAME,MOUNTPOINT,UUID,RO,SIZE,TYPE,FSTYPE,FSSIZE,FSUSED,FSUSE%,VENDOR,MODEL,PATH,PTTYPE,TRAN,SERIAL,LABEL --json -b''"

definition disk_inventory :: "disk_env \<Rightarrow> disk_report list result disk_prog" where
  "disk_inventory e = do {
     (out, failed) \<leftarrow> batch_stdout e Query [lsblk_query];
     State_Monad.return (case failed of
         Some err \<Rightarrow> Inl err
       | None \<Rightarrow> (case de_lsblk e out of Inl err \<Rightarrow> Inl err | Inr items \<Rightarrow> Inr (parse_lsblk_disks items)))
   }"

record partition_sum =
  ps_disk :: disk
  ps_used :: "64 word"
  ps_total :: "64 word"
  ps_partitions :: "partition list"

definition status_partition :: "disk_env \<Rightarrow> string list \<Rightarrow> string \<Rightarrow> partition_sum \<Rightarrow> disk_child \<Rightarrow> partition_sum disk_prog" where
  "status_partition e roots docker s c = do {
     let (p, u) = build_partition_info c;
     let s = s\<lparr>ps_used := ps_used s + us_used u, ps_total := ps_total s + us_total u\<rparr>;
     (d, p) \<leftarrow> (if pt_mount_point p \<noteq> [] \<and> pt_filesystem p \<noteq> ''swap'' then fill_part_status e roots docker (ps_disk s) p
              else State_Monad.return (ps_disk s, p));
     let s = s\<lparr>ps_disk := d\<rparr>;
     State_Monad.return (if should_include_partition (dc_label c) p (us_total u) then s\<lparr>ps_partitions := ps_partitions s @ [p]\<rparr> else s)
   }"

primrec status_partitions :: "disk_env \<Rightarrow> string list \<Rightarrow> string \<Rightarrow> partition_sum \<Rightarrow> disk_child list \<Rightarrow> partition_sum disk_prog" where
  "status_partitions e roots docker s [] = State_Monad.return s"
| "status_partitions e roots docker s (c # cs) = do {
     s \<leftarrow> status_partition e roots docker s c;
     status_partitions e roots docker s cs
   }"

definition should_check_smart :: "string \<Rightarrow> smart_config result \<Rightarrow> bool" where
  "should_check_smart path r \<longleftrightarrow> (case r of
       Inl _ \<Rightarrow> False
     | Inr c \<Rightarrow> (case sc_global c of
           None \<Rightarrow> False
         | Some g \<Rightarrow> sg_enable g \<and> (\<exists>v\<in>set (sc_devices c). sd_path v = path)))"

definition check_smart :: "disk_env \<Rightarrow> disk \<Rightarrow> disk disk_prog" where
  "check_smart e d = do {
     conf \<leftarrow> smart_get_config e;
     if should_check_smart (dk_path d) conf then do {
       i \<leftarrow> get_smart_info e (dk_name d);
       State_Monad.return (apply_smart_health d (sm_health i))
     }
     else State_Monad.return d
   }"

definition finish_disk :: "partition_sum \<Rightarrow> 64 word \<Rightarrow> disk" where
  "finish_disk s bytes =
     (let d = apply_disk_usage (ps_disk s) (ps_used s) (ps_total s);
          free = (if dk_system_root d then (case build_free_space_partition bytes (ps_total s) of None \<Rightarrow> [] | Some p \<Rightarrow> [p]) else [])
      in d\<lparr>dk_childrens := ps_partitions s @ free\<rparr>)"

definition status_disk :: "disk_env \<Rightarrow> string list \<Rightarrow> string \<Rightarrow> disk_report \<Rightarrow> disk option disk_prog" where
  "status_disk e roots docker r = (case build_disk_info r of
       None \<Rightarrow> State_Monad.return None
     | Some d \<Rightarrow> do {
         s \<leftarrow> status_partitions e roots docker \<lparr>ps_disk = d, ps_used = 0, ps_total = 0, ps_partitions = []\<rparr> (di_children r);
         let bytes = uint_or_max (dk_size_int (ps_disk s));
         member \<leftarrow> is_raid_member e (dk_name (ps_disk s));
         if should_include_disk (ps_disk s) (length (ps_partitions s)) bytes member then do {
           d \<leftarrow> check_smart e (finish_disk s bytes);
           State_Monad.return (Some d)
         }
         else State_Monad.return None
       })"

definition somes :: "'a option list \<Rightarrow> 'a list" where
  "somes xs = List.map_filter id xs"

definition get_disks_status :: "disk_env \<Rightarrow> disk list result disk_prog" where
  "get_disks_status e = do {
     roots \<leftarrow> get_boot_parts e;
     docker \<leftarrow> get_docker_part e;
     reports \<leftarrow> disk_inventory e;
     (case reports of
        Inl err \<Rightarrow> State_Monad.return (Inl err)
      | Inr rs \<Rightarrow> do {
          ds \<leftarrow> map_each (status_disk e roots docker) rs;
          State_Monad.return (Inr (somes ds))
        })
   }"

section \<open>RAID devices\<close>

definition raid_line_re :: re where
  "raid_line_re = seq [Bol, Cap 1 (seq [lit ''md'', digits_re]), lit '' : '', Cap 2 (plus True any_re)]"

definition token_re :: re where
  "token_re = Cap 1 (plus True (Ch (\<lambda>c. \<not> space_class c)))"

definition member_re :: re where
  "member_re = seq [Bol, Cap 1 (plus True (Ch (\<lambda>c. \<not> space_class c))), lit ''['', digits_re, lit '']'']"

definition raid_member_token :: "string \<Rightarrow> string" where
  "raid_member_token t = (case re_find member_re t of None \<Rightarrow> t | Some c \<Rightarrow> ''/dev/'' @ cap c 1)"

definition raid_tokens :: "string \<Rightarrow> string list" where
  "raid_tokens s = map (\<lambda>c. raid_member_token (cap c 1)) (re_find_all token_re True s)"

definition rebuild_re :: "string \<Rightarrow> re" where
  "rebuild_re md = seq [lit (newline # md @ '' :''), Star False any_re, lit [newline], Star False any_re, lit [newline],
     spaces_re, lit ''['', plus False (Ch (\<lambda>c. c \<in> set ''=>.'')), lit '']'', spaces_re, Cap 1 (Star True any_re)]"

definition hide_sectors :: "partition \<Rightarrow> partition" where
  "hide_sectors p = p\<lparr>pt_sec_start := 0, pt_sec_end := 0\<rparr>"

definition raid_disk :: "string \<Rightarrow> string \<Rightarrow> string list \<Rightarrow> disk \<Rightarrow> (string \<rightharpoonup> string) \<Rightarrow> disk" where
  "raid_disk mdstat md tokens d detail =
     (let active = hd tokens;
          d = d\<lparr>dk_level := (if active = ''active'' \<and> length tokens > 1 then tokens ! 1 else ''-''),
                dk_active := active, dk_name := md, dk_path := ''/dev/'' @ md, dk_members := drop 2 tokens,
                dk_status := (case detail ''State'' of None \<Rightarrow> [] | Some v \<Rightarrow> v)\<rparr>;
          d = (case re_find (rebuild_re md) mdstat of None \<Rightarrow> d | Some c \<Rightarrow> d\<lparr>dk_rebuild_status := cap c 1\<rparr>)
      in d\<lparr>dk_childrens := map hide_sectors (dk_childrens d)\<rparr>)"

definition raid_line :: "disk_env \<Rightarrow> string \<Rightarrow> string \<Rightarrow> disk option disk_prog" where
  "raid_line e mdstat line = (case re_find raid_line_re line of
       None \<Rightarrow> State_Monad.return None
     | Some c \<Rightarrow> (let md = cap c 1; tokens = raid_tokens (cap c 2) in
         if tokens = [] then State_Monad.return None
         else do {
           d \<leftarrow> get_disk_info e md;
           detail \<leftarrow> mddetail e (''/dev/'' @ md);
           State_Monad.return (Some (raid_disk mdstat md tokens d detail))
         }))"

definition raid_list :: "disk_env \<Rightarrow> disk list result disk_prog" where
  "raid_list e = do {
     r \<leftarrow> ask (\<lambda>h. de_file e h ''/proc/mdstat'');
     (case r of
        Inl _ \<Rightarrow> State_Monad.return (Inl ''mdstat unreadable'')
      | Inr mdstat \<Rightarrow> do {
          ds \<leftarrow> map_each (raid_line e mdstat) (split_after newline mdstat);
          State_Monad.return (Inr (somes ds))
        })
   }"

definition raid_detail :: "disk_env \<Rightarrow> string \<Rightarrow> string result disk_prog" where
  "raid_detail e path = do {
     (out, failed) \<leftarrow> batch_stdout e Query [''mdadm -D '' @ path];
     State_Monad.return (if failed = None then Inr out else Inl ''raid detail failed'')
   }"

record raid_member_info =
  rm_name :: string
  rm_path :: string
  rm_model :: string
  rm_size :: string

primrec partition_in_use :: "disk_env \<Rightarrow> partition list \<Rightarrow> bool disk_prog" where
  "partition_in_use e [] = State_Monad.return False"
| "partition_in_use e (p # ps) = do {
     member \<leftarrow> is_raid_member e (pt_path p);
     if member \<noteq> [] \<or> pt_mount_point p \<noteq> [] then State_Monad.return True
     else partition_in_use e ps
   }"

definition create_candidate :: "disk_env \<Rightarrow> disk \<Rightarrow> raid_member_info option disk_prog" where
  "create_candidate e d =
     (if dk_system_root d then State_Monad.return None
      else do {
        used \<leftarrow> partition_in_use e (dk_childrens d);
        State_Monad.return (if used then None
          else Some \<lparr>rm_name = dk_name d, rm_path = dk_path d, rm_model = dk_model d, rm_size = dk_size d\<rparr>)
      })"

definition raid_create_list :: "disk_env \<Rightarrow> raid_member_info list result disk_prog" where
  "raid_create_list e = do {
     r \<leftarrow> get_disks_status e;
     (case r of
        Inl err \<Rightarrow> State_Monad.return (Inl err)
      | Inr ds \<Rightarrow> do {
          cs \<leftarrow> map_each (create_candidate e) ds;
          State_Monad.return (Inr (somes cs))
        })
   }"

definition get_all_disks :: "disk_env \<Rightarrow> disk list result disk_prog" where
  "get_all_disks e =
     ok_then (get_disks_status e) (\<lambda>ds.
     ok_then (raid_list e) (\<lambda>rs. State_Monad.return (Inr (ds @ rs))))"

section \<open>The disk for an installation\<close>

text \<open>The shell script that names the root disk is a parameter.\<close>

definition get_boot_disk :: "disk_env \<Rightarrow> string list \<Rightarrow> x86_root result disk_prog" where
  "get_boot_disk e script = do {
     (out, failed) \<leftarrow> batch_stdout e Query script;
     (case failed of
        Some err \<Rightarrow> State_Monad.return (Inl err)
      | None \<Rightarrow>
          (let root = trim_char newline out in
           if root = [] then State_Monad.return (Inl ''root not found'')
           else do {
             d \<leftarrow> get_disk_info e root;
             State_Monad.return (case find (\<lambda>p. pt_number p = 3) (dk_childrens d) of
                 None \<Rightarrow> Inl ''root not found''
               | Some p \<Rightarrow>
                   (let last = sint (pt_sec_start p * 512) in
                    if last = 0 then Inl ''root not found''
                    else Inr \<lparr>xr_name = root, xr_tran = dk_tran d, xr_end = last, xr_ptype = dk_label_type d\<rparr>))
           }))
   }"

definition read_root_end :: "disk_env \<Rightarrow> string \<Rightarrow> int result disk_prog" where
  "read_root_end e name = ask (\<lambda>h. case de_file e h (''/sys/class/block/'' @ name @ ''/start'') of
       Inl err \<Rightarrow> Inl err
     | Inr s \<Rightarrow> Inr (int64 (parse_int64 (trim_char newline s) * 512)))"

definition x86_install :: "disk_env \<Rightarrow> string list \<Rightarrow> (x86_root \<times> x86_dev list) result disk_prog" where
  "x86_install e script = do {
     (out, failed) \<leftarrow> batch_stdout e Query [''lsblk --output NAME,MOUNTPOINT,TRAN,PTTYPE,SIZE,VENDOR,MODEL,SERIAL --json -b''];
     (case (case failed of Some err \<Rightarrow> Inl err | None \<Rightarrow> de_x86 e out) of
        Inl err \<Rightarrow> State_Monad.return (Inl err)
      | Inr items \<Rightarrow>
          ok_then (case find is_x86_disk_root items of
              Some item \<Rightarrow> ok_then (read_root_end e (xi_name (xi_childs item ! 2))) (\<lambda>last.
                State_Monad.return (Inr \<lparr>xr_name = xi_name item, xr_tran = xi_tran item, xr_end = last,
                  xr_ptype = to_upper (if xi_pttype item = ''dos'' then ''mbr'' else xi_pttype item)\<rparr>))
            | None \<Rightarrow> do {
                r \<leftarrow> get_boot_disk e script;
                State_Monad.return (case r of Inl _ \<Rightarrow> Inl ''root not found'' | Inr x \<Rightarrow> Inr x)
              })
          (\<lambda>root. State_Monad.return (Inr (root, x86_devs (xr_name root) items))))
   }"

section \<open>Reading leaves the disks as they are\<close>

lemma only_disk_inventory [only_intro]: "only reads (disk_inventory e)"
  unfolding disk_inventory_def by (intro only_intro) simp

lemma only_status_partition [only_intro]: "only reads (status_partition e roots docker s c)"
  unfolding status_partition_def Let_def by (intro only_intro)

lemma only_status_partitions [only_intro]: "only reads (status_partitions e roots docker s cs)"
  by (induction cs arbitrary: s) (auto intro!: only_intro)

lemma only_status_disk [only_intro]: "only reads (check_smart e d)" "only reads (status_disk e roots docker r)"
proof -
  show smart: "only reads (check_smart e d)" for d
    unfolding check_smart_def by (intro only_intro)
  show "only reads (status_disk e roots docker r)"
    unfolding status_disk_def Let_def by (intro only_intro smart)
qed

lemma only_lists [only_intro]:
  "only reads (get_disks_status e)" "only reads (raid_line e mdstat line)" "only reads (raid_list e)" "only reads (get_all_disks e)"
proof -
  show status: "only reads (get_disks_status e)"
    unfolding get_disks_status_def by (intro only_intro)
  show line: "only reads (raid_line e mdstat line)" for mdstat line
    unfolding raid_line_def Let_def by (intro only_intro)
  show raids: "only reads (raid_list e)"
    unfolding raid_list_def by (intro only_intro line)
  show "only reads (get_all_disks e)"
    unfolding get_all_disks_def by (intro only_intro status raids)
qed

end
