(* ===== verification/DiskLifecycle.thy ===== *)
theory DiskLifecycle
  imports DiskList "HOL-Library.Sublist"
begin

text \<open>
  \<open>modules/nas/disklifecycle\<close>: mounting, formatting and initialising disks, over snapshots of the disks;
  \<open>modules/nas/sandbox\<close>: formatting a partition as the overlay; \<open>modules/nas/automount\<close>: entering new
  partitions in the table of mounts.
\<close>

section \<open>Snapshots\<close>

record part_snapshot =
  sp_filesystem :: string
  sp_mount_point :: string
  sp_name :: string
  sp_path :: string
  sp_sec_end :: "64 word"
  sp_sec_start :: "64 word"
  sp_uuid :: string

record disk_snapshot =
  sn_name :: string
  sn_label_type :: string
  sn_path :: string
  sn_partitions :: "part_snapshot list"

definition part_snapshot_of :: "partition \<Rightarrow> part_snapshot" where
  "part_snapshot_of p = \<lparr>sp_filesystem = pt_filesystem p, sp_mount_point = pt_mount_point p, sp_name = pt_name p,
     sp_path = pt_path p, sp_sec_end = pt_sec_end p, sp_sec_start = pt_sec_start p, sp_uuid = pt_uuid p\<rparr>"

definition disk_snapshot_of :: "disk \<Rightarrow> disk_snapshot" where
  "disk_snapshot_of d = \<lparr>sn_name = dk_name d, sn_label_type = dk_label_type d, sn_path = dk_path d,
     sn_partitions = map part_snapshot_of (dk_childrens d)\<rparr>"

definition read_all :: "disk_env \<Rightarrow> disk_snapshot list result disk_prog" where
  "read_all e = ok_then (get_all_disks e) (\<lambda>ds. State_Monad.return (Inr (map disk_snapshot_of ds)))"

definition read_snapshot :: "disk_env \<Rightarrow> string \<Rightarrow> disk_snapshot disk_prog" where
  "read_snapshot e name = do { d \<leftarrow> get_disk_info e name; State_Monad.return (disk_snapshot_of d) }"

definition read_snapshot_include_free :: "disk_env \<Rightarrow> string \<Rightarrow> disk_snapshot disk_prog" where
  "read_snapshot_include_free e name = do { d \<leftarrow> get_disk_info_include_free e name; State_Monad.return (disk_snapshot_of d) }"

definition partition_model :: "part_snapshot \<Rightarrow> partition" where
  "partition_model s = no_partition\<lparr>pt_filesystem := sp_filesystem s, pt_mount_point := sp_mount_point s, pt_name := sp_name s,
     pt_path := sp_path s, pt_sec_end := sp_sec_end s, pt_sec_start := sp_sec_start s, pt_uuid := sp_uuid s\<rparr>"

definition disk_model :: "disk_snapshot \<Rightarrow> disk" where
  "disk_model s = no_disk\<lparr>dk_name := sn_name s, dk_label_type := sn_label_type s, dk_path := sn_path s,
     dk_childrens := map partition_model (sn_partitions s)\<rparr>"

definition all_partitions :: "disk_snapshot list \<Rightarrow> part_snapshot list" where
  "all_partitions ds = concat (map sn_partitions ds)"

definition find_partition_by_identity :: "disk_snapshot list \<Rightarrow> string \<Rightarrow> string \<Rightarrow> part_snapshot option" where
  "find_partition_by_identity ds uuid path = find (\<lambda>p. sp_uuid p = uuid \<and> sp_path p = path) (all_partitions ds)"

definition is_whole_disk_target :: "disk_snapshot list \<Rightarrow> string \<Rightarrow> bool" where
  "is_whole_disk_target ds path \<longleftrightarrow> (\<exists>d\<in>set ds. sn_path d = path)"

definition uses_direct_device_format :: "string \<Rightarrow> bool" where
  "uses_direct_device_format name \<longleftrightarrow> has_prefix name ''md''"

definition find_last_partition :: "disk_snapshot \<Rightarrow> part_snapshot option" where
  "find_last_partition d = (if sn_partitions d = [] then None else Some (last (sn_partitions d)))"

text \<open>The last component of a device path names its mount point.\<close>

definition build_generated_mount_point :: "disk_env \<Rightarrow> string \<Rightarrow> string result disk_prog" where
  "build_generated_mount_point e path = do {
     name \<leftarrow> gen_mount_point e (last (split_on CHR ''/'' path));
     State_Monad.return (if name = [] then Inl ''no mount point'' else Inr (''/mnt/'' @ name))
   }"

section \<open>Mounting a partition\<close>

definition mount_and_record :: "disk_env \<Rightarrow> string \<Rightarrow> string \<Rightarrow> string \<Rightarrow> goerr option disk_prog" where
  "mount_and_record e path uuid mp =
     done_then_done (disk_mount e path mp)
       (do {
          r \<leftarrow> add_fstab e uuid mp False;
          State_Monad.return (case r of Inl err \<Rightarrow> Some err | Inr _ \<Rightarrow> None)
        })"

definition unmount_if :: "disk_env \<Rightarrow> string \<Rightarrow> goerr option disk_prog" where
  "unmount_if e mp = (if check_mount_point mp then unmount e mp else State_Monad.return None)"

definition mount_partition :: "disk_env \<Rightarrow> string \<Rightarrow> string \<Rightarrow> string \<Rightarrow> partition result disk_prog" where
  "mount_partition e uuid path mp =
     (if length mp < 2 \<or> \<not> has_prefix mp ''/'' then State_Monad.return (Inl ''bad mount point'')
      else
        ok_then (read_all e) (\<lambda>ds.
        (case find_partition_by_identity ds uuid path of
           None \<Rightarrow> State_Monad.return (Inl ''partition not found'')
         | Some t \<Rightarrow>
             done_then (unmount_if e (sp_mount_point t)) (
             ok_then (read_all e) (\<lambda>ds.
             (case find_partition_by_identity ds uuid path of
                None \<Rightarrow> State_Monad.return (Inl ''partition format error '')
              | Some t \<Rightarrow>
                  (if check_mount_point (sp_mount_point t) then State_Monad.return (Inl ''partition format error '')
                   else
                     done_then (mount_and_record e (sp_path t) (sp_uuid t) mp) (
                     done_then (commit_fstab_and_block_mount e) (
                     State_Monad.return (Inr ((partition_model t)\<lparr>pt_mount_point := mp\<rparr>)))))))))))"

definition nas_disk_partition_mount :: "disk_env \<Rightarrow> string \<Rightarrow> string \<Rightarrow> string \<Rightarrow> partition result disk_prog" where
  "nas_disk_partition_mount e uuid path mp = mount_partition e uuid path (trim_space mp)"

section \<open>Formatting\<close>

definition format_target :: "disk_snapshot list \<Rightarrow> string \<Rightarrow> part_snapshot option" where
  "format_target ds path = find (\<lambda>p. sp_path p = path) (rev (all_partitions ds))"

definition format_and_mount :: "disk_env \<Rightarrow> string \<Rightarrow> partition result disk_prog" where
  "format_and_mount e path =
     done_then (ext4_partition e path) (do {
       act (Wait 3000);
       ok_then (read_all e) (\<lambda>ds.
       (case find (\<lambda>p. \<not> check_mount_point (sp_mount_point p) \<and> sp_path p = path) (all_partitions ds) of
          None \<Rightarrow> State_Monad.return (Inl ''partition format error'')
        | Some p \<Rightarrow>
            ok_then (build_generated_mount_point e (sp_path p)) (\<lambda>mp.
            done_then (mount_and_record e (sp_path p) (sp_uuid p) mp) (
            done_then (commit_fstab_and_block_mount e) (
            State_Monad.return (Inr ((partition_model p)\<lparr>pt_mount_point := mp\<rparr>)))))))
     })"

definition format_by_device_path :: "disk_env \<Rightarrow> string \<Rightarrow> partition result disk_prog" where
  "format_by_device_path e path =
     ok_then (read_all e) (\<lambda>ds.
     done_then (case format_target ds path of
         None \<Rightarrow> State_Monad.return (if is_whole_disk_target ds path then None else Some (''partition not found: '' @ path))
       | Some t \<Rightarrow> unmount_if e (sp_mount_point t)) (
     format_and_mount e path))"

section \<open>Initialising a disk\<close>

definition unmount_all :: "disk_env \<Rightarrow> part_snapshot list \<Rightarrow> goerr option disk_prog" where
  "unmount_all e ps = each_done (\<lambda>p. unmount_if e (sp_mount_point p)) ps"

definition format_partitions :: "disk_env \<Rightarrow> part_snapshot list \<Rightarrow> goerr option disk_prog" where
  "format_partitions e ps = each_done (\<lambda>p. do { _ \<leftarrow> umount_device e (sp_path p); ext4_partition e (sp_path p) }) ps"

definition format_fresh :: "disk_env \<Rightarrow> string \<Rightarrow> string \<Rightarrow> goerr option disk_prog" where
  "format_fresh e name path =
     (if uses_direct_device_format name then ext4_partition e path
      else done_then_done (make_part e path) (do {
        act (Wait 3);
        d \<leftarrow> read_snapshot e name;
        format_partitions e (sn_partitions d)
      }))"

definition mount_fresh :: "disk_env \<Rightarrow> part_snapshot \<Rightarrow> partition result disk_prog" where
  "mount_fresh e s =
     (let m = partition_model s; hidden = (\<lambda>m. m\<lparr>pt_sec_start := 0, pt_sec_end := 0\<rparr>) in
      if check_mount_point (pt_mount_point m) then State_Monad.return (Inr (hidden m))
      else ok_then (build_generated_mount_point e (pt_path m)) (\<lambda>mp.
        done_then (mount_and_record e (pt_path m) (pt_uuid m) mp) (
        State_Monad.return (Inr (hidden (m\<lparr>pt_mount_point := mp\<rparr>))))))"

definition init_disk_on :: "disk_env \<Rightarrow> string \<Rightarrow> string \<Rightarrow> disk_snapshot \<Rightarrow> disk result disk_prog" where
  "init_disk_on e name path d =
     (if sn_name d \<noteq> name then State_Monad.return (Inl ''disk not found'')
      else
        done_then (unmount_all e (sn_partitions d)) (
        done_then (erase e path) (
        done_then (format_fresh e name path) (do {
          act (Wait 3);
          d \<leftarrow> read_snapshot e name;
          ok_then (map_ok (mount_fresh e) (sn_partitions d)) (\<lambda>ps.
          done_then (commit_fstab_and_block_mount e) (
          State_Monad.return (Inr ((disk_model d)\<lparr>dk_childrens := ps\<rparr>))))
        }))))"

definition init_disk :: "disk_env \<Rightarrow> string \<Rightarrow> string \<Rightarrow> disk result disk_prog" where
  "init_disk e name path =
     (if name = [] \<or> path = [] then State_Monad.return (Inl ''param missing'')
      else do { d \<leftarrow> read_snapshot e name; init_disk_on e name path d })"

section \<open>Using the free space at the end of a disk\<close>

definition aligned_start :: "64 word \<Rightarrow> 64 word" where
  "aligned_start s = (s + 2047) div 2048 * 2048"

definition aligned_end :: "64 word \<Rightarrow> 64 word" where
  "aligned_end s = (s - 512) div 2048 * 2048"

definition fix_gpt_command :: "string \<Rightarrow> string" where
  "fix_gpt_command dev = ''printf '' @ [CHR 0x22] @ ''ok'' @ [CHR 0x5C] @ ''nfix'' @ [CHR 0x5C] @ ''n'' @ [CHR 0x22] @
     '' | parted ---pretend-input-tty '' @ dev @ '' print''"

definition fix_gpt_table :: "disk_env \<Rightarrow> string \<Rightarrow> goerr option disk_prog" where
  "fix_gpt_table e dev = do {
     failed \<leftarrow> batch_fails e [fix_gpt_command dev];
     State_Monad.return (map_option (\<lambda>_. ''fix gpt table failed'' @ fix_gpt_command dev) failed)
   }"

definition make_part_range_command :: "string \<Rightarrow> string \<Rightarrow> 64 word \<Rightarrow> 64 word \<Rightarrow> string" where
  "make_part_range_command dev kind s t = ''parted -a optimal '' @ dev @ '' mkpart '' @ [CHR 0x22] @ kind @ [CHR 0x22] @
     '' ext4 '' @ fmt_u64 s @ ''s '' @ fmt_u64 t @ ''s''"

definition make_part_range :: "disk_env \<Rightarrow> string \<Rightarrow> string \<Rightarrow> 64 word \<Rightarrow> 64 word \<Rightarrow> goerr option disk_prog" where
  "make_part_range e dev kind s t = do {
     (out, err, failed) \<leftarrow> batch_out_err e Sh [make_part_range_command dev kind s t];
     State_Monad.return (map_option (\<lambda>_. err @ out @ ''make partition failed '' @ make_part_range_command dev kind s t) failed)
   }"

definition format_last :: "disk_env \<Rightarrow> string \<Rightarrow> disk_snapshot \<Rightarrow> (disk_snapshot \<times> bool) result disk_prog" where
  "format_last e name d =
     (if sn_partitions d = [] then State_Monad.return (Inl ''disk not found'')
      else if sp_filesystem (last (sn_partitions d)) = ''No FileSystem'' then
        done_then (ext4_partition e (sp_path (last (sn_partitions d)))) (do {
          act (Wait 2);
          d \<leftarrow> read_snapshot e name;
          State_Monad.return (if sn_partitions d = [] \<or> sp_path (last (sn_partitions d)) = [] then Inl ''no disk after format''
            else Inr (d, False))
        })
      else State_Monad.return (Inr (d, True)))"

definition mount_last :: "disk_env \<Rightarrow> disk_snapshot \<Rightarrow> bool \<Rightarrow> disk result disk_prog" where
  "mount_last e d fs_existed =
     (let m = disk_model d; p = last (dk_childrens m) in
      if pt_path p = [] then State_Monad.return (Inr m)
      else ok_then (build_generated_mount_point e (pt_path p)) (\<lambda>mp. do {
        _ \<leftarrow> umount_device e (pt_path p);
        ok_then (add_fstab e (pt_uuid p) mp fs_existed) (\<lambda>mp. do {
          failed \<leftarrow> disk_mount e (pt_path p) mp;
          (case failed of
             Some err \<Rightarrow> do { _ \<leftarrow> commit_fstab e; State_Monad.return (Inl err) }
           | None \<Rightarrow> done_then (commit_fstab_and_block_mount e) (
               State_Monad.return (Inr (m\<lparr>dk_childrens := butlast (dk_childrens m) @ [p\<lparr>pt_mount_point := mp\<rparr>]\<rparr>))))
        })
      }))"

definition init_disk_rest :: "disk_env \<Rightarrow> string \<Rightarrow> string \<Rightarrow> disk result disk_prog" where
  "init_disk_rest e name path =
     (if name = [] \<or> path = [] then State_Monad.return (Inl ''init rest disk, param missing'')
      else do {
        d \<leftarrow> read_snapshot_include_free e name;
        if sn_name d \<noteq> name then State_Monad.return (Inl ''disk not found'')
        else (case find_last_partition d of
            None \<Rightarrow> State_Monad.return (Inl ''partition table is corrupted'')
          | Some l \<Rightarrow>
              (if sp_filesystem l \<noteq> ''Free Space'' then State_Monad.return (Inl ''no free space at the end'')
               else
                 done_then (if sn_label_type d = ''GPT'' then fix_gpt_table e (sn_path d) else State_Monad.return None) (
                 done_then (make_part_range e (sn_path d) (if sn_label_type d = ''GPT'' then ''UserData'' else ''primary'')
                     (aligned_start (sp_sec_start l)) (aligned_end (sp_sec_end l))) (do {
                   act (Wait 2);
                   d \<leftarrow> read_snapshot e name;
                   ok_then (format_last e name d) (\<lambda>(d, existed). mount_last e d existed)
                 }))))
      })"

section \<open>The sandbox\<close>

datatype sandbox_action = ActionCommit | ActionReset | ActionExit

definition sandbox_command :: "sandbox_action \<Rightarrow> string" where
  "sandbox_command a = (case a of
       ActionCommit \<Rightarrow> ''/usr/sbin/sandbox commit && reboot''
     | ActionReset \<Rightarrow> ''/usr/sbin/sandbox reset && reboot''
     | ActionExit \<Rightarrow> ''/usr/sbin/sandbox exit && reboot'')"

definition sandbox_prefix :: "sandbox_action \<Rightarrow> string" where
  "sandbox_prefix a = (case a of ActionCommit \<Rightarrow> ''commit failed'' | ActionReset \<Rightarrow> ''reset failed'' | ActionExit \<Rightarrow> ''exit failed'')"

definition sandbox_run :: "disk_env \<Rightarrow> sandbox_action \<Rightarrow> goerr option disk_prog" where
  "sandbox_run e a = do {
     (_, _, failed) \<leftarrow> batch_out_err e Sh [sandbox_command a];
     State_Monad.return (map_option (\<lambda>err. sandbox_prefix a @ err) failed)
   }"

text \<open>\<open>exited 1\<close> is the error of a command that ended with status 1.\<close>

definition sandbox_status :: "goerr \<Rightarrow> disk_env \<Rightarrow> string disk_prog" where
  "sandbox_status exited e = do {
     there \<leftarrow> ask (\<lambda>h. de_exists e h ''/usr/sbin/sandbox'');
     if \<not> there then State_Monad.return ''unsupport''
     else do {
       (_, _, failed) \<leftarrow> batch_out_err e Query [''/usr/sbin/sandbox status''];
       State_Monad.return (case failed of None \<Rightarrow> ''running'' | Some err \<Rightarrow> if err = exited then ''stopped'' else ''unsupport'')
     }
   }"

definition sandbox_disks :: "disk_env \<Rightarrow> disk list result disk_prog" where
  "sandbox_disks e = ok_then (get_all_disks e) (\<lambda>ds. State_Monad.return (Inr (filter dk_external ds)))"

definition clear_overlay_commands :: "string \<Rightarrow> string list" where
  "clear_overlay_commands sec = [''uci del fstab.'' @ sec, ''uci commit fstab'']"

definition clear_overlay_mounts :: "disk_env \<Rightarrow> unit disk_prog" where
  "clear_overlay_mounts e = do {
     secs \<leftarrow> ask (\<lambda>h. filter (\<lambda>s. last_or_empty (de_uci e h) ''fstab'' s ''target'' = ''/overlay'')
       (sections_or_empty (de_uci e h) ''fstab'' ''mount''));
     for_each (\<lambda>s. do { _ \<leftarrow> batch_fails e (clear_overlay_commands s); skip }) secs
   }"

definition disk_partitions :: "disk list \<Rightarrow> partition list" where
  "disk_partitions ds = concat (map dk_childrens ds)"

definition sandbox_format_partition :: "disk_env \<Rightarrow> string \<Rightarrow> goerr option disk_prog" where
  "sandbox_format_partition e path = do {
     r \<leftarrow> get_all_disks e;
     (case r of
        Inl err \<Rightarrow> State_Monad.return (Some err)
      | Inr ds \<Rightarrow>
          (case find (\<lambda>p. pt_path p = path) (disk_partitions ds) of
             None \<Rightarrow> State_Monad.return (Some (''partition not found'' @ path))
           | Some t \<Rightarrow>
               done_then_done (unmount_if e (pt_mount_point t)) (
               done_then_done (ext4_partition e (pt_path t)) (do {
                 act (Wait 3000);
                 r \<leftarrow> get_all_disks e;
                 (case r of
                    Inl err \<Rightarrow> State_Monad.return (Some err)
                  | Inr ds \<Rightarrow>
                      (case find (\<lambda>p. \<not> check_mount_point (pt_mount_point p) \<and> pt_path p = path) (disk_partitions ds) of
                         None \<Rightarrow> State_Monad.return (Some ''sanbox format error '')
                       | Some p \<Rightarrow> do {
                           clear_overlay_mounts e;
                           a \<leftarrow> add_fstab e (pt_uuid p) ''/overlay'' False;
                           (case a of
                              Inl err \<Rightarrow> State_Monad.return (Some err)
                            | Inr _ \<Rightarrow> commit_fstab e)
                         }))
               }))))
   }"

section \<open>Mounting new disks\<close>

text \<open>\<open>filepath.Base\<close>.\<close>

definition file_base :: "string \<Rightarrow> string" where
  "file_base path =
     (let p = rev (dropWhile (\<lambda>c. c = CHR ''/'') (rev path)) in
      if path = [] then ''.'' else if p = [] then ''/'' else last (split_on CHR ''/'' p))"

definition auto_mount_enabled :: "disk_env \<Rightarrow> bool disk_prog" where
  "auto_mount_enabled e = do {
     (out, _, _) \<leftarrow> batch_out_err e Query [''uci get fstab.@global[0].anon_mount''];
     State_Monad.return (out = ''1'')
   }"

definition has_fstab_mount :: "uci \<Rightarrow> string \<Rightarrow> bool" where
  "has_fstab_mount u uuid \<longleftrightarrow> (\<exists>s\<in>set (sections_or_empty u ''fstab'' ''mount''). last_or_empty u ''fstab'' s ''uuid'' = uuid)"

definition mount_point_in_use :: "disk_env \<Rightarrow> string \<Rightarrow> bool disk_prog" where
  "mount_point_in_use e mp = do {
     (out, _, _) \<leftarrow> batch_out_err e Query [''mountpoint -qd '' @ mp];
     State_Monad.return (out \<noteq> [])
   }"

definition auto_mount_partition :: "disk_env \<Rightarrow> partition \<Rightarrow> unit disk_prog" where
  "auto_mount_partition e p = do {
     known \<leftarrow> ask (\<lambda>h. pt_mount_point p \<noteq> [] \<or> pt_uuid p = [] \<or> has_fstab_mount (de_uci e h) (pt_uuid p));
     if known then skip
     else do {
       name \<leftarrow> gen_mount_point e (file_base (pt_path p));
       used \<leftarrow> mount_point_in_use e (''/mnt/'' @ name);
       if used then skip
       else do {
         r \<leftarrow> add_fstab e (pt_uuid p) (''/mnt/'' @ name) False;
         (case r of
            Inl _ \<Rightarrow> skip
          | Inr _ \<Rightarrow> do { _ \<leftarrow> commit_fstab e; skip })
       }
     }
   }"

definition auto_mount_reload :: "disk_env \<Rightarrow> goerr option disk_prog" where
  "auto_mount_reload e = do {
     on \<leftarrow> auto_mount_enabled e;
     if \<not> on then State_Monad.return None
     else do {
       r \<leftarrow> get_disks_status e;
       (case r of
          Inl err \<Rightarrow> State_Monad.return (Some err)
        | Inr ds \<Rightarrow> do {
            for_each (auto_mount_partition e) (disk_partitions ds);
            State_Monad.return None
          })
     }
   }"

section \<open>What the operations do\<close>

lemma only_snapshots [only_intro]:
  "only reads (read_all e)" "only reads (read_snapshot e n)" "only reads (read_snapshot_include_free e n)"
  "only reads (build_generated_mount_point e p)"
  unfolding read_all_def read_snapshot_def read_snapshot_include_free_def build_generated_mount_point_def
  by (intro only_intro)+

definition umount_act :: "string \<Rightarrow> disk_action" where
  "umount_act mp = Sh [umount_command mp]"

definition mounted :: "part_snapshot list \<Rightarrow> string list" where
  "mounted ps = filter check_mount_point (map sp_mount_point ps)"

lemma umount_act_effect [simp]: "\<not> reads (umount_act mp)"
  by (simp add: umount_act_def umount_command_def harmless_command_def has_prefix_def sq_def)

lemma does_unmount_if:
  "does (unmount_if e mp) (\<lambda>r as. as = (if check_mount_point mp \<and> mp \<noteq> ''/overlay'' then [umount_act mp] else []) \<and>
     (r = None \<longrightarrow> mp \<noteq> ''/overlay''))"
proof -
  have run: "does (run_umount e mp) (\<lambda>r as. as = [umount_act mp])"
    unfolding run_umount_def umount_act_def
    by (rule does_bind [OF does_batch(2) [where R = "\<lambda>r as. as = [Sh [umount_command mp]]"]]) (auto intro!: does_intro)
  show ?thesis
    unfolding unmount_if_def unmount_def
    by (intro does_if does_return does_mono [OF run]) (auto simp: check_mount_point_def)
qed

lemma does_unmount_all:
  "does (unmount_all e ps) (\<lambda>r as. \<exists>q. prefix q (mounted ps) \<and> ''/overlay'' \<notin> set q \<and> as = map umount_act q \<and>
     (r = None \<longrightarrow> q = mounted ps))"
proof (induction ps)
  case Nil
  then show ?case by (auto simp: unmount_all_def mounted_def intro!: does_intro)
next
  case (Cons p ps)
  show ?case
    unfolding unmount_all_def each_done.simps
  proof (rule does_done_then_done [OF does_unmount_if], goal_cases)
    case (1 err as)
    then show ?case
      by (intro exI [of _ "if as = [] then [] else [sp_mount_point p]"]) (auto simp: mounted_def)
  next
    case (2 as)
    show ?case
    proof (rule does_mono [OF Cons.IH [unfolded unmount_all_def]], elim exE conjE)
      fix r bs q
      assume "prefix q (mounted ps)" "''/overlay'' \<notin> set q" "bs = map umount_act q" "r = None \<longrightarrow> q = mounted ps"
      then show "\<exists>q. prefix q (mounted (p # ps)) \<and> ''/overlay'' \<notin> set q \<and> as @ bs = map umount_act q \<and> (r = None \<longrightarrow> q = mounted (p # ps))"
        using 2 by (intro exI [of _ "(if check_mount_point (sp_mount_point p) then [sp_mount_point p] else []) @ q"]) (auto simp: mounted_def)
    qed
  qed
qed

abbreviation grows :: "('e, 's, 'a) prog \<Rightarrow> bool" where
  "grows m \<equiv> only (\<lambda>_. True) m"

lemma grows_reads: "only reads m \<Longrightarrow> grows m"
  unfolding only_def by (erule does_mono) simp

lemma does_grows: "grows m \<Longrightarrow> (\<And>a as. Q a as) \<Longrightarrow> does m Q"
  by (erule only_does) simp

lemma grows_commands [only_intro]:
  "grows (disk_mount e dev mp)" "grows (run_umount e mp)" "grows (umount_device e dev)" "grows (unmount e mp)" "grows (erase e dev)"
  "grows (make_part e dev)" "grows (ext4_partition e dev)" "grows (load_fstab_mounts e)" "grows (add_fstab_to e uuid mp b ms)"
  "grows (commit_fstab e)" "grows (commit_fstab_and_block_mount e)"
proof -
  show u: "grows (run_umount e mp)" for mp
    unfolding run_umount_def by (intro only_intro TrueI)
  show "grows (umount_device e dev)" "grows (unmount e mp)"
    unfolding umount_device_def unmount_def by (intro only_intro u)+
  show "grows (disk_mount e dev mp)" "grows (erase e dev)" "grows (make_part e dev)" "grows (ext4_partition e dev)"
    "grows (load_fstab_mounts e)" "grows (commit_fstab e)" "grows (commit_fstab_and_block_mount e)"
    unfolding disk_mount_def erase_def make_part_def ext4_partition_def load_fstab_mounts_def commit_fstab_def commit_fstab_and_block_mount_def
    by (intro only_intro TrueI)+
  show "grows (add_fstab_to e uuid mp b ms)"
    unfolding add_fstab_to_def Let_def by (intro only_intro TrueI)
qed

lemma grows_steps [only_intro]:
  "grows (add_fstab e uuid mp b)" "grows (mount_and_record e p uuid mp)" "grows (read_snapshot e n)"
  "grows (format_partitions e ps)" "grows (build_generated_mount_point e p)"
  unfolding add_fstab_def mount_and_record_def format_partitions_def
  by (intro only_intro TrueI | rule grows_reads)+

lemma grows_fresh [only_intro]: "grows (format_fresh e n p)" "grows (mount_fresh e s)"
  unfolding format_fresh_def mount_fresh_def Let_def by (intro only_intro TrueI)+

lemma does_erase:
  "dev \<noteq> [] \<Longrightarrow> does (erase e dev) (\<lambda>r as. as = [Sh (erase_commands dev)])"
  unfolding erase_def
  by (simp, rule does_bind [OF does_batch(4) [where T = "\<lambda>r as. as = [Sh (erase_commands dev)]"]])
     (auto intro!: does_intro simp: erase_commands_def)

lemma erase_effect [simp]: "\<not> reads (Sh (erase_commands dev))"
  by (simp add: erase_commands_def)

lemma effects_umounts [simp]: "effects (map umount_act q) = map umount_act q"
  by (induction q) simp_all

definition spares_mounted :: "disk_snapshot \<Rightarrow> string \<Rightarrow> disk_history \<Rightarrow> bool" where
  "spares_mounted d path as \<longleftrightarrow> (let ms = mounted (sn_partitions d) in
     (\<exists>q. prefix q ms \<and> ''/overlay'' \<notin> set q \<and> as = map umount_act q) \<or>
     (''/overlay'' \<notin> set ms \<and> (\<exists>post. as = map umount_act ms @ Sh (erase_commands path) # post)))"

lemma does_init_disk_on:
  assumes "path \<noteq> []"
  shows "does (init_disk_on e name path d) (\<lambda>r as. spares_mounted d path (effects as))"
  unfolding init_disk_on_def
proof (rule does_if, goal_cases)
  case 1
  then show ?case by (auto intro!: does_intro simp: spares_mounted_def)
next
  case 2
  show ?case
  proof (rule does_done_then [OF does_unmount_all], goal_cases)
    case (1 err as)
    then show ?case by (auto simp: spares_mounted_def Let_def)
  next
    case (2 as)
    then have as: "as = map umount_act (mounted (sn_partitions d))" "''/overlay'' \<notin> set (mounted (sn_partitions d))" by auto
    show ?case
      by (rule does_done_then [OF does_erase [OF assms]])
         (auto simp: as spares_mounted_def Let_def intro!: does_grows only_intro)
  qed
qed

text \<open>
  C7. Initialising a disk unmounts the disk first: for every answer of the outside, the effects of \<open>InitDisk\<close> are
  either only unmounts of mounted partitions of the named disk, in their order, or the unmounts of all of them followed
  by the erasure of the given path and the rest. Nothing is erased while an unmount is outstanding, and
  nothing is erased when a partition of the named disk holds \<open>/overlay\<close>, the data of the running system.
\<close>

theorem init_disk_spares_mounted:
  "let d = result_of (read_snapshot e name) h; ms = mounted (sn_partitions d) in
   \<exists>as. after (init_disk e name path) h = h @ as \<and>
     ((\<exists>q. prefix q ms \<and> ''/overlay'' \<notin> set q \<and> effects as = map umount_act q) \<or>
      (''/overlay'' \<notin> set ms \<and> (\<exists>post. effects as = map umount_act ms @ Sh (erase_commands path) # post)))"
proof (cases "name = [] \<or> path = []")
  case True
  then show ?thesis by (auto simp: init_disk_def Let_def)
next
  case False
  obtain as where as: "after (read_snapshot e name) h = h @ as" "effects as = []"
    using does_after [OF does_reads [where Q = "\<lambda>_ as. effects as = []"]] only_snapshots(2) by metis
  obtain bs where "after (init_disk_on e name path (result_of (read_snapshot e name) h)) (h @ as) = (h @ as) @ bs"
      "spares_mounted (result_of (read_snapshot e name) h) path (effects bs)"
    using does_after [OF does_init_disk_on] False by blast
  then show ?thesis
    using False as by (auto simp: init_disk_def Let_def spares_mounted_def intro!: exI [of _ "as @ bs"])
qed

lemma batch_fails_run:
  assumes "c \<noteq> []"
  shows "result_of (batch_fails e c) h = snd (snd (de_out e (h @ [Sh c]) c))" "after (batch_fails e c) h = h @ [Sh c]"
  using create_batch_command_Inr [OF assms]
  by (cases "create_batch_command c"; simp add: batch_fails_def batch_raw_def case_prod_beta)+

lemma commit_run [simp]:
  "after (commit_fstab_and_block_mount e) h = h @ [Sh [''uci commit fstab'', ''block mount'']]"
  by (simp add: commit_fstab_and_block_mount_def batch_fails_run)

definition fresh_ok :: "partition \<Rightarrow> bool" where
  "fresh_ok p \<longleftrightarrow> check_mount_point (pt_mount_point p) \<and> pt_sec_start p = 0 \<and> pt_sec_end p = 0"

lemma generated_mount_point_ok: "result_of (build_generated_mount_point e path) h = Inr mp \<Longrightarrow> has_prefix mp ''/mnt/'' \<and> check_mount_point mp"
  by (auto simp: build_generated_mount_point_def check_mount_point_def has_prefix_iff split: if_splits)

lemma mount_fresh_ok: "result_of (mount_fresh e s) h = Inr p \<Longrightarrow> fresh_ok p"
  by (auto simp: mount_fresh_def fresh_ok_def Let_def generated_mount_point_ok split: if_splits sum.splits option.splits)

lemma map_ok_all:
  assumes "\<And>x h y. result_of (f x) h = Inr y \<Longrightarrow> Q y"
  shows "result_of (map_ok f xs) h = Inr ys \<Longrightarrow> list_all Q ys \<and> length ys = length xs"
  by (induction xs arbitrary: h ys) (auto split: sum.splits dest: assms)

lemma init_disk_on_done:
  assumes "result_of (init_disk_on e name path d) h = Inr m"
  shows "list_all fresh_ok (dk_childrens m) \<and> (\<exists>g. after (init_disk_on e name path d) h = g @ [Sh [''uci commit fstab'', ''block mount'']])"
  using assms by (auto simp: init_disk_on_def split: sum.splits option.splits if_splits dest!: map_ok_all [where Q = fresh_ok, rotated] intro: mount_fresh_ok)

text \<open>
  C32. A disk that \<open>InitDisk\<close> reports as initialised is usable: every partition of the answer has a mount
  point and shows no sector numbers, and the last thing done was to commit the table of mounts and to mount it.
\<close>

theorem initialised_disk_mounted:
  "case result_of (init_disk e name path) h of
     Inl err \<Rightarrow> True
   | Inr m \<Rightarrow> list_all (\<lambda>p. check_mount_point (pt_mount_point p) \<and> pt_sec_start p = 0 \<and> pt_sec_end p = 0) (dk_childrens m) \<and>
       last (effects (after (init_disk e name path) h)) = Sh [''uci commit fstab'', ''block mount'']"
proof (cases "result_of (init_disk e name path) h")
  case (Inr m)
  then have go: "\<not> (name = [] \<or> path = [])" by (auto simp: init_disk_def split: if_splits)
  with Inr have on: "result_of (init_disk_on e name path (result_of (read_snapshot e name) h)) (after (read_snapshot e name) h) = Inr m"
    by (auto simp: init_disk_def)
  have "after (init_disk e name path) h = after (init_disk_on e name path (result_of (read_snapshot e name) h)) (after (read_snapshot e name) h)"
    using go by (simp add: init_disk_def)
  with init_disk_on_done [OF on] show ?thesis
    using Inr by (auto simp: list_all_iff fresh_ok_def)
qed simp




lemma does_ext4: "does (ext4_partition e path) (\<lambda>r as. as = [Sh [ext4_command path]])"
  unfolding ext4_partition_def
  by (rule does_bind [OF does_batch(3) [where S = "\<lambda>r as. as = [Sh [ext4_command path]]"]]) (auto intro!: does_intro)

lemma ext4_effect [simp]: "\<not> harmless_command (ext4_command path)"
  by (simp add: ext4_command_def harmless_command_def has_prefix_def)

lemma grows_format_rest [only_intro]: "grows (read_all e)"
  by (intro grows_reads only_intro)

definition format_effects :: "disk_snapshot list result \<Rightarrow> string \<Rightarrow> disk_history \<Rightarrow> bool" where
  "format_effects r path as \<longleftrightarrow> (case r of
     Inl _ \<Rightarrow> as = []
   | Inr ds \<Rightarrow> (case format_target ds path of
       None \<Rightarrow> if is_whole_disk_target ds path then \<exists>post. as = Sh [ext4_command path] # post else as = []
     | Some t \<Rightarrow> (if sp_mount_point t = ''/overlay'' then as = []
         else \<exists>post. as = map umount_act (mounted [t]) \<or> as = map umount_act (mounted [t]) @ Sh [ext4_command path] # post)))"

lemma does_format_and_mount: "does (format_and_mount e path) (\<lambda>r as. \<exists>post. effects as = Sh [ext4_command path] # post)"
  unfolding format_and_mount_def
  by (rule does_done_then [OF does_ext4]) (auto intro!: does_grows only_intro)

lemma does_format_on:
  "does (done_then (case format_target ds path of
         None \<Rightarrow> State_Monad.return (if is_whole_disk_target ds path then None else Some err)
       | Some t \<Rightarrow> unmount_if e (sp_mount_point t)) (format_and_mount e path))
     (\<lambda>r as. format_effects (Inr ds) path (effects as))"
proof (cases "format_target ds path")
  case None
  show ?thesis
    unfolding None option.case
    by (rule does_done_then [OF does_return [where Q = "\<lambda>r as. as = [] \<and> (r = None) = is_whole_disk_target ds path"]])
       (auto simp: format_effects_def None intro!: does_mono [OF does_format_and_mount])
next
  case (Some t)
  show ?thesis
    unfolding Some option.case
    apply (rule does_done_then [OF does_unmount_if])
    subgoal by (auto simp: format_effects_def Some mounted_def split: if_splits)
    subgoal by (rule does_mono [OF does_format_and_mount]) (auto simp: format_effects_def Some mounted_def split: if_splits)
    done
qed

text \<open>
  Formatting by device path unmounts a mounted partition before it is formatted, refuses a path that is neither a
  partition nor a disk and one mounted as \<open>/overlay\<close>; but a path that names a whole disk is formatted at once, whatever its
  partitions are mounted as: no unmount precedes the \<open>mkfs\<close>.
\<close>

theorem format_by_path_effects:
  "\<exists>as. after (format_by_device_path e path) h = h @ as \<and>
     (case result_of (read_all e) h of
        Inl _ \<Rightarrow> effects as = []
      | Inr ds \<Rightarrow> (case format_target ds path of
          None \<Rightarrow> if is_whole_disk_target ds path then \<exists>post. effects as = Sh [ext4_command path] # post else effects as = []
        | Some t \<Rightarrow> (if sp_mount_point t = ''/overlay'' then effects as = []
            else \<exists>post. effects as = map umount_act (mounted [t]) \<or>
              effects as = map umount_act (mounted [t]) @ Sh [ext4_command path] # post)))"
proof -
  obtain as where as: "after (read_all e) h = h @ as" "effects as = []"
    using does_after [OF does_reads [where Q = "\<lambda>_ as. effects as = []"]] only_snapshots(1) by metis
  show ?thesis
  proof (cases "result_of (read_all e) h")
    case (Inl err)
    then show ?thesis using as by (simp add: format_by_device_path_def)
  next
    case (Inr ds)
    then have run: "after (format_by_device_path e path) h = after (done_then (case format_target ds path of
         None \<Rightarrow> State_Monad.return (if is_whole_disk_target ds path then None else Some (''partition not found: '' @ path))
       | Some t \<Rightarrow> unmount_if e (sp_mount_point t)) (format_and_mount e path)) (h @ as)"
      using as by (simp only: format_by_device_path_def then_run sum.case)
    obtain bs where bs: "after (format_by_device_path e path) h = h @ (as @ bs)" "format_effects (Inr ds) path (effects (as @ bs))"
      using does_after [OF does_format_on [of ds path "''partition not found: '' @ path" e], of "h @ as"] run as by auto
    then show ?thesis
      unfolding Inr by (intro exI [of _ "as @ bs"]) (simp only: format_effects_def sum.case simp_thms)
  qed
qed

end
