(* ===== verification/Raid.thy ===== *)
theory Raid
  imports DiskLifecycle
begin

text \<open>
  RAID arrays: the commands (\<open>modules/raid/writecommands\<close>), the configuration of \<open>mdadm\<close>
  (\<open>modules/raid/mdadmconfig\<close>) and the operations on arrays (\<open>modules/raid/writeflow\<close>,
  \<open>service/raid*.go\<close>).
\<close>

section \<open>Commands\<close>

definition normalize_level :: "string \<Rightarrow> string" where
  "normalize_level level =
     (if level = ''linear'' then ''linear'' else if level = ''raid0'' then ''0'' else if level = ''raid1'' then ''1''
      else if level = ''raid5'' then ''5'' else if level = ''raid6'' then ''6'' else if level = ''raid10'' then ''10'' else [])"

definition validate_member_count :: "string \<Rightarrow> nat \<Rightarrow> goerr option" where
  "validate_member_count level count =
     (if level = ''5'' \<or> level = ''6'' then (if count < 3 then Some ''not enough members'' else None)
      else if level = ''10'' then (if count < 4 then Some ''not enough members'' else None)
      else if count < 2 then Some ''not enough members'' else None)"

definition build_create_command :: "string \<Rightarrow> string \<Rightarrow> string list \<Rightarrow> string" where
  "build_create_command dev level members =
     ''mdadm -C '' @ dev @ '' --run --quiet --assume-clean --homehost=any -n '' @ fmt_nat (length members) @
     '' -l '' @ level @ '' '' @ join_on '' '' members"

definition build_delete_commands :: "string \<Rightarrow> string list \<Rightarrow> string list" where
  "build_delete_commands path members =
     [''mdadm --stop '' @ path, ''mdadm --remove '' @ path, ''mdadm --zero-superblock '' @ join_on '' '' members]"

definition build_add_command :: "string \<Rightarrow> string \<Rightarrow> string" where
  "build_add_command path member = ''mdadm -a '' @ path @ '' '' @ member"

definition build_grow_command :: "string \<Rightarrow> 64 word \<Rightarrow> string" where
  "build_grow_command path count = ''mdadm -G '' @ path @ '' -n '' @ fmt_u64 count"

definition build_remove_commands :: "string \<Rightarrow> string \<Rightarrow> string list" where
  "build_remove_commands path member =
     [''mdadm --manage '' @ path @ '' --fail '' @ member, ''mdadm --manage '' @ path @ '' --remove '' @ member]"

definition build_recover_commands :: "string \<Rightarrow> string \<Rightarrow> string list" where
  "build_recover_commands path member = [build_add_command path member]"

definition build_mdadm_array_commands :: "string \<Rightarrow> string \<Rightarrow> string list" where
  "build_mdadm_array_commands dev uuid =
     [''uci add mdadm array'', ''uci set mdadm.@array[-1].device='' @ dev, ''uci set mdadm.@array[-1].uuid='' @ uuid]"

definition delete_first_array :: "string list" where
  "delete_first_array = [''uci del mdadm.@array[0]'']"

definition commit_mdadm :: "string list" where
  "commit_mdadm = [''uci commit mdadm'']"

definition restart_mdadm :: "string list" where
  "restart_mdadm = [''/etc/init.d/mdadm restart'']"

definition enable_mdadm :: "string list" where
  "enable_mdadm = [''/etc/init.d/mdadm enable'']"

section \<open>The configuration of \<open>mdadm\<close>\<close>

text \<open>\<open>uci.LoadConfig\<close> of \<open>mdadm\<close> fails when \<open>loads\<close> says so.\<close>

definition clear_existing_arrays :: "(disk_history \<Rightarrow> goerr option) \<Rightarrow> disk_env \<Rightarrow> goerr option disk_prog" where
  "clear_existing_arrays loads e = do {
     failed \<leftarrow> ask loads;
     (case failed of
        Some _ \<Rightarrow> State_Monad.return (Some ''mdadm config unreadable'')
      | None \<Rightarrow> do {
          arrays \<leftarrow> ask (\<lambda>h. sections_or_empty (de_uci e h) ''mdadm'' ''array'');
          each_done (\<lambda>_. do {
            failed \<leftarrow> batch_fails e delete_first_array;
            State_Monad.return (map_option (\<lambda>_. ''mdadm config not deleted'') failed)
          }) arrays
        })
   }"

definition array_re :: re where
  "array_re = seq [Bol, lit ''ARRAY '', Cap 1 (plus True (Ch (\<lambda>c. \<not> space_class c))), Star True any_re,
     lit '' UUID='', Cap 2 (plus True (Ch (\<lambda>c. \<not> space_class c)))]"

definition parse_scanned_arrays :: "string \<Rightarrow> (string \<times> string) list" where
  "parse_scanned_arrays out =
     somes (map (\<lambda>l. map_option (\<lambda>c. (cap c 1, cap c 2)) (re_find array_re l)) (split_on newline out))"

definition add_array :: "disk_env \<Rightarrow> string \<times> string \<Rightarrow> goerr option disk_prog" where
  "add_array e a = do {
     failed \<leftarrow> batch_fails e (build_mdadm_array_commands (fst a) (snd a));
     State_Monad.return (map_option (\<lambda>_. ''mdadm config not added'') failed)
   }"

definition generate_mdadm_config :: "(disk_history \<Rightarrow> goerr option) \<Rightarrow> disk_env \<Rightarrow> goerr option disk_prog" where
  "generate_mdadm_config loads e =
     done_then_done (clear_existing_arrays loads e) (do {
       (out, _, failed) \<leftarrow> batch_out_err e Query [''mdadm -Ds''];
       (case failed of
          Some _ \<Rightarrow> State_Monad.return (Some ''mdadm -Ds failed'')
        | None \<Rightarrow> done_then_done (each_done (add_array e) (parse_scanned_arrays out)) (do {
            _ \<leftarrow> batch_fails e commit_mdadm;
            _ \<leftarrow> batch_fails e enable_mdadm;
            State_Monad.return None
          }))
     })"

text \<open>The devices \<open>AutoFix\<close> gives to the arrays it finds, from \<open>lo\<close> on, until no number is free.\<close>

primrec fix_arrays :: "disk_env \<Rightarrow> nat \<Rightarrow> string list \<Rightarrow> goerr option disk_prog" where
  "fix_arrays e lo [] = State_Monad.return None"
| "fix_arrays e lo (uuid # uuids) = do {
     i \<leftarrow> ask (\<lambda>h. find_free_md (de_exists e h) lo);
     (case i of
        None \<Rightarrow> State_Monad.return None
      | Some n \<Rightarrow> done_then_done (add_array e (md_path n, uuid)) (fix_arrays e (n + 1) uuids))
   }"

definition auto_fix :: "(disk_history \<Rightarrow> goerr option) \<Rightarrow> disk_env \<Rightarrow> string \<Rightarrow> goerr option disk_prog" where
  "auto_fix loads e query = do {
     (out, _, failed) \<leftarrow> batch_out_err e Query [query];
     (case failed of
        Some _ \<Rightarrow> State_Monad.return (Some ''raid partitions unreadable'')
      | None \<Rightarrow> (let uuids = split_on newline out in
          if uuids = [] then State_Monad.return (Some ''no raid partitions'')
          else
            done_then_done (clear_existing_arrays loads e) (
            done_then_done (fix_arrays e 0 uuids) (do {
              _ \<leftarrow> batch_fails e commit_mdadm;
              _ \<leftarrow> batch_fails e restart_mdadm;
              State_Monad.return None
            }))))
   }"

section \<open>Operations on arrays\<close>

definition name_re :: re where
  "name_re = Cat (lit ''/dev/'') (Cap 1 (plus True (Ch word_class)))"

definition device_name_from_path :: "string \<Rightarrow> string" where
  "device_name_from_path path = (case re_find name_re path of None \<Rightarrow> [] | Some c \<Rightarrow> cap c 1)"

definition release_partition :: "disk_env \<Rightarrow> partition \<Rightarrow> goerr option disk_prog" where
  "release_partition e p =
     (if has_prefix (pt_mount_point p) ''Raid Member:'' then State_Monad.return (Some (pt_mount_point p @ '' already found''))
      else if pt_mount_point p \<noteq> [] then unmount e (pt_mount_point p)
      else State_Monad.return None)"

definition prepare_disk :: "disk_env \<Rightarrow> disk \<Rightarrow> string result disk_prog" where
  "prepare_disk e d =
     done_then (each_done (release_partition e) (dk_childrens d)) (
     done_then (erase e (dk_path d)) (
     done_then (make_raid_part e (dk_path d)) (
     State_Monad.return (Inr (disk_to_part (dk_path d) ''1'')))))"

definition prepare_member :: "disk_env \<Rightarrow> string \<Rightarrow> string result disk_prog" where
  "prepare_member e device_path = do {
     d \<leftarrow> get_disk_info e (device_name_from_path device_path);
     prepare_disk e d
   }"

definition create_array :: "(disk_history \<Rightarrow> goerr option) \<Rightarrow> disk_env \<Rightarrow> string \<Rightarrow> string list \<Rightarrow> string result disk_prog" where
  "create_array loads e level parts = do {
     act (Wait 1000);
     i \<leftarrow> ask (\<lambda>h. find_free_md (de_exists e h) 0);
     (case i of
        None \<Rightarrow> State_Monad.return (Inl ''no free raid path'')
      | Some n \<Rightarrow> do {
          let cmd = build_create_command (md_path n) level parts;
          failed \<leftarrow> batch_fails e [cmd];
          (case failed of
             Some _ \<Rightarrow> do {
               _ \<leftarrow> batch_stdout e Sh [''rm -f '' @ md_path n];
               State_Monad.return (Inl (''raid not created '' @ cmd))
             }
           | None \<Rightarrow> done_then (generate_mdadm_config loads e) (do {
               act (Wait 1000);
               State_Monad.return (Inr (md_path n))
             }))
        })
   }"

definition raid_create :: "(disk_history \<Rightarrow> goerr option) \<Rightarrow> disk_env \<Rightarrow> string \<Rightarrow> string list \<Rightarrow> string result disk_prog" where
  "raid_create loads e level_name paths =
     (let level = normalize_level level_name in
      case validate_member_count level (length paths) of
        Some err \<Rightarrow> State_Monad.return (Inl err)
      | None \<Rightarrow> ok_then (map_ok (prepare_member e) paths) (create_array loads e level))"

definition raid_delete :: "(disk_history \<Rightarrow> goerr option) \<Rightarrow> disk_env \<Rightarrow> string \<Rightarrow> string \<Rightarrow> string list \<Rightarrow> goerr option disk_prog" where
  "raid_delete loads e path mount_path members =
     done_then_done (if mount_path = [] then State_Monad.return None
       else do {
         failed \<leftarrow> batch_fails e [umount_command mount_path];
         State_Monad.return (map_option (\<lambda>err. ''unmount failed'' @ err) failed)
       }) (
     done_then_done (do {
         failed \<leftarrow> batch_fails e (build_delete_commands path members);
         State_Monad.return (map_option (\<lambda>err. ''raid not deleted'' @ err) failed)
       }) (do {
     _ \<leftarrow> batch_stdout e Sh [''rm '' @ path];
     generate_mdadm_config loads e
   }))"

definition active_device_count :: "disk_env \<Rightarrow> string \<Rightarrow> 64 word disk_prog" where
  "active_device_count e path = do {
     detail \<leftarrow> mddetail e path;
     State_Monad.return (word_of_nat (fst (parse_uint (2 ^ 8 - 1) (case detail ''Active Devices'' of None \<Rightarrow> [] | Some v \<Rightarrow> v))))
   }"

definition raid_add :: "disk_env \<Rightarrow> string \<Rightarrow> string \<Rightarrow> goerr option disk_prog" where
  "raid_add e path member =
     done_then_done (erase e member) (
     done_then_done (make_raid_part e member) (do {
       act (Wait 1000);
       count \<leftarrow> active_device_count e path;
       (_, err, failed) \<leftarrow> batch_out_err e Sh [build_add_command path (disk_to_part member ''1'')];
       (case failed of
          Some _ \<Rightarrow> State_Monad.return (Some (''member not added '' @ err))
        | None \<Rightarrow> do {
            _ \<leftarrow> batch_stdout e Sh [build_grow_command path (count + 1)];
            State_Monad.return None
          })
     }))"

definition raid_remove :: "disk_env \<Rightarrow> string \<Rightarrow> string \<Rightarrow> goerr option disk_prog" where
  "raid_remove e path member = do {
     failed \<leftarrow> batch_fails e (build_remove_commands path member);
     State_Monad.return (map_option (\<lambda>_. ''member not removed'') failed)
   }"

text \<open>The partition a recovery can use as it is: the only one of the disk, with the RAID flag.\<close>

definition raid_partition_of :: "disk \<Rightarrow> string option" where
  "raid_partition_of d = (case dk_childrens d of [p] \<Rightarrow> if pt_raid_on p then Some (pt_path p) else None | _ \<Rightarrow> None)"

definition raid_recover :: "disk_env \<Rightarrow> string \<Rightarrow> string \<Rightarrow> bool \<Rightarrow> goerr option disk_prog" where
  "raid_recover e path member check = do {
     found \<leftarrow> (if check then do { d \<leftarrow> get_disk_info e member; State_Monad.return (raid_partition_of d) }
              else State_Monad.return None);
     done_then_done (if found \<noteq> None then State_Monad.return None
         else done_then_done (erase e member) (make_raid_part e member)) (do {
       act (Wait 1000);
       let cmds = build_recover_commands path (case found of Some p \<Rightarrow> p | None \<Rightarrow> disk_to_part member ''1'');
       failed \<leftarrow> batch_fails e cmds;
       State_Monad.return (map_option (\<lambda>_. ''recovery failed '' @ hd cmds) failed)
     })
   }"

text \<open>\<open>RaidPostCreate\<close>: the new array is formatted and mounted.\<close>

definition raid_post_create :: "(disk_history \<Rightarrow> goerr option) \<Rightarrow> disk_env \<Rightarrow> string \<Rightarrow> string list \<Rightarrow> partition result disk_prog" where
  "raid_post_create loads e level paths = ok_then (raid_create loads e level paths) (format_by_device_path e)"

definition creates_array :: "disk_action \<Rightarrow> bool" where
  "creates_array a \<longleftrightarrow> (\<exists>c. a = Sh [c] \<and> has_prefix c ''mdadm -C '')"

definition prepares :: "disk_history \<Rightarrow> string \<Rightarrow> bool" where
  "prepares as part \<longleftrightarrow> (\<exists>ms dev cmd. as = map umount_act ms @ [Sh (erase_commands dev), Sh [cmd]] \<and>
     raid_partition_command dev = Inr cmd \<and> part = disk_to_part dev ''1'')"

lemma no_create_simps [simp]:
  "\<not> creates_array (umount_act mp)" "\<not> creates_array (Sh (erase_commands dev))" "\<not> creates_array (Wait n)"
  "raid_partition_command dev = Inr c \<Longrightarrow> \<not> creates_array (Sh [c])" "raid_partition_command dev = Inr c \<Longrightarrow> \<not> harmless_command c"
  by (auto simp: creates_array_def umount_act_def umount_command_def erase_commands_def raid_partition_command_def has_prefix_def
      harmless_command_def split: if_splits)

lemma does_release_partition:
  "does (release_partition e p) (\<lambda>r as. (\<exists>ms. as = map umount_act ms) \<and> (has_prefix (pt_mount_point p) ''Raid Member:'' \<longrightarrow> r \<noteq> None))"
proof -
  have run: "does (run_umount e mp) (\<lambda>r as. as = [umount_act mp])" for mp
    unfolding run_umount_def umount_act_def
    by (rule does_bind [OF does_batch(2) [where R = "\<lambda>r as. as = [Sh [umount_command mp]]"]]) (auto intro!: does_intro)
  have "does (unmount e mp) (\<lambda>r as. \<exists>ms. as = map umount_act ms)" for mp
    unfolding unmount_def by (intro does_if does_return does_mono [OF run]) (auto intro: exI [of _ "[]"] exI [of _ "[mp]"])
  then show ?thesis
    unfolding release_partition_def by (auto intro!: does_if does_return elim!: does_mono intro: exI [of _ "[]"])
qed

lemma does_release_all:
  "does (each_done (release_partition e) ps)
     (\<lambda>r as. (\<exists>ms. as = map umount_act ms) \<and> (list_ex (\<lambda>p. has_prefix (pt_mount_point p) ''Raid Member:'') ps \<longrightarrow> r \<noteq> None))"
proof (induction ps)
  case Nil
  then show ?case by (auto intro!: does_intro)
next
  case (Cons p ps)
  show ?case
    unfolding each_done.simps
    apply (rule does_done_then_done [OF does_release_partition])
    subgoal by auto
    subgoal by (rule does_mono [OF Cons.IH]) (auto simp flip: map_append)
    done
qed

lemma does_erase_any: "does (erase e dev) (\<lambda>r as. if dev = [] then as = [] \<and> r \<noteq> None else as = [Sh (erase_commands dev)])"
proof (cases "dev = []")
  case True
  then show ?thesis by (auto simp: erase_def intro!: does_intro)
next
  case False
  then show ?thesis using does_erase [of dev e] by simp
qed

lemma does_make_raid_part:
  "does (make_raid_part e dev) (\<lambda>r as. case raid_partition_command dev of Inl _ \<Rightarrow> as = [] \<and> r \<noteq> None | Inr c \<Rightarrow> as = [Sh [c]])"
  unfolding make_raid_part_def
  by (cases "raid_partition_command dev")
     (auto intro!: does_intro does_bind [OF does_batch(3) [where S = "\<lambda>r as. as = [Sh [c]]" for c]])

lemma does_prepare_disk:
  "does (prepare_disk e d) (\<lambda>r as. effects as = as \<and>
     (case r of
        Inl _ \<Rightarrow> list_all (\<lambda>a. \<not> creates_array a) as
      | Inr part \<Rightarrow> prepares as part) \<and>
     (list_ex (\<lambda>p. has_prefix (pt_mount_point p) ''Raid Member:'') (dk_childrens d) \<longrightarrow> \<not> is_Inr r \<and> (\<exists>ms. as = map umount_act ms)))"
  unfolding prepare_disk_def
  apply (rule does_done_then [OF does_release_all])
  subgoal by (auto simp: list_all_iff)
  apply (rule does_done_then [OF does_erase_any])
  subgoal by (auto simp: list_all_iff split: if_splits)
  apply (rule does_done_then [OF does_make_raid_part])
  subgoal by (auto simp: list_all_iff split: if_splits sum.splits)
  by (auto simp: prepares_def split: if_splits sum.splits intro!: does_intro)




lemma grows_mdadm [only_intro]:
  "grows (clear_existing_arrays loads e)" "grows (add_array e a)" "grows (generate_mdadm_config loads e)"
proof -
  show c: "grows (clear_existing_arrays loads e)"
    unfolding clear_existing_arrays_def by (intro only_intro TrueI)
  show a: "grows (add_array e a)" for a
    unfolding add_array_def by (intro only_intro TrueI)
  show "grows (generate_mdadm_config loads e)"
    unfolding generate_mdadm_config_def by (intro only_intro TrueI c a)
qed

lemma find_free_md_less: "find_free_md taken lo = Some n \<Longrightarrow> lo \<le> n \<and> n < 127 \<and> \<not> taken (md_path n)"
  unfolding find_free_md_def by (drule find_SomeD) auto

lemma does_answer: "(\<And>h. Q (f h) []) \<Longrightarrow> does (ask f) Q"
  by (simp add: does_def)

lemma create_command_effect [simp]:
  "\<not> harmless_command (build_create_command dev level parts)"
  by (simp add: build_create_command_def harmless_command_def has_prefix_def)




text \<open>
  C34. A disk that is part of an array is never erased for a new one: when a partition of the disk behind a requested path is marked
  \<open>Raid Member\<close>, preparing it fails and does nothing but unmount.
\<close>

theorem raid_member_never_erased:
  "let d = result_of (get_disk_info e (device_name_from_path p)) h in
   if list_ex (\<lambda>q. has_prefix (pt_mount_point q) ''Raid Member:'') (dk_childrens d)
   then \<not> is_Inr (result_of (prepare_member e p) h) \<and>
     (\<exists>as ms. after (prepare_member e p) h = h @ as \<and> effects as = map umount_act ms)
   else True"
proof -
  define d where "d = result_of (get_disk_info e (device_name_from_path p)) h"
  obtain as where as: "after (get_disk_info e (device_name_from_path p)) h = h @ as" "effects as = []"
    using does_after [OF does_reads [where Q = "\<lambda>_ as. effects as = []"]] only_disk_info(2) by metis
  obtain bs where "after (prepare_disk e d) (h @ as) = (h @ as) @ bs" "effects bs = bs"
    "list_ex (\<lambda>q. has_prefix (pt_mount_point q) ''Raid Member:'') (dk_childrens d) \<Longrightarrow>
      \<not> is_Inr (result_of (prepare_disk e d) (h @ as)) \<and> (\<exists>ms. bs = map umount_act ms)"
    using does_after [OF does_prepare_disk] by blast
  then show ?thesis
    unfolding Let_def d_def [symmetric]
    using as by (auto simp: prepare_member_def d_def intro!: exI [of _ "as @ bs"])
qed

section \<open>The configuration as a list of arrays\<close>

lemma each_delete:
  "result_of (each_done (\<lambda>_. do {
      failed \<leftarrow> batch_fails e delete_first_array;
      State_Monad.return (map_option (\<lambda>_. err) failed) }) xs) h = None \<Longrightarrow>
   after (each_done (\<lambda>_. do {
      failed \<leftarrow> batch_fails e delete_first_array;
      State_Monad.return (map_option (\<lambda>_. err) failed) }) xs) h = h @ replicate (length xs) (Sh delete_first_array)"
  by (induction xs arbitrary: h) (auto simp: batch_fails_run delete_first_array_def replicate_append_same split: option.splits)

lemma clear_run:
  "result_of (clear_existing_arrays loads e) h = None \<Longrightarrow>
   after (clear_existing_arrays loads e) h = h @ replicate (length (sections_or_empty (de_uci e h) ''mdadm'' ''array'')) (Sh delete_first_array)"
  by (auto simp: clear_existing_arrays_def each_delete split: option.splits)

definition add_act :: "string \<times> string \<Rightarrow> disk_action" where
  "add_act a = Sh (build_mdadm_array_commands (fst a) (snd a))"

lemma add_array_run:
  "after (add_array e a) h = h @ [add_act a]"
  by (simp add: add_array_def add_act_def batch_fails_run build_mdadm_array_commands_def)

lemma each_add:
  "result_of (each_done (add_array e) xs) h = None \<Longrightarrow> after (each_done (add_array e) xs) h = h @ map add_act xs"
  by (induction xs arbitrary: h) (auto simp: add_array_run split: option.splits)

definition array_command :: "(string \<times> string) list \<Rightarrow> disk_action \<Rightarrow> (string \<times> string) list" where
  "array_command arrays a = (case a of
       Sh c \<Rightarrow>
         (if c = delete_first_array then tl arrays
          else (case c of
              [x, y, z] \<Rightarrow> if x = ''uci add mdadm array''
                then arrays @ [(drop (length ''uci set mdadm.@array[-1].device='') y, drop (length ''uci set mdadm.@array[-1].uuid='') z)]
                else arrays
            | _ \<Rightarrow> arrays))
     | _ \<Rightarrow> arrays)"

lemma array_command_simps [simp]:
  "array_command arrays (Sh delete_first_array) = tl arrays"
  "array_command arrays (add_act a) = arrays @ [a]"
  "array_command arrays (Query q) = arrays"
  "array_command arrays (Sh commit_mdadm) = arrays" "array_command arrays (Sh enable_mdadm) = arrays" "array_command arrays (Sh restart_mdadm) = arrays"
  by (simp_all add: array_command_def add_act_def build_mdadm_array_commands_def delete_first_array_def commit_mdadm_def enable_mdadm_def restart_mdadm_def)

lemma mdadm_runs [simp]:
  "after (batch_fails e commit_mdadm) g = g @ [Sh commit_mdadm]" "after (batch_fails e enable_mdadm) g = g @ [Sh enable_mdadm]"
  "after (batch_fails e restart_mdadm) g = g @ [Sh restart_mdadm]"
  by (simp_all add: batch_fails_run commit_mdadm_def enable_mdadm_def restart_mdadm_def)

lemma foldl_deletes: "foldl array_command arrays (replicate n (Sh delete_first_array)) = drop n arrays"
  by (induction n arbitrary: arrays) (auto simp: drop_Suc)

lemma foldl_adds: "foldl array_command arrays (map add_act xs) = arrays @ xs"
  by (induction xs arbitrary: arrays) auto

text \<open>
  C9. The configuration of \<open>mdadm\<close> as a list of arrays: when \<open>Generate\<close> succeeds and the configuration held as many
  arrays as the reader reports, its commands replace that list by the arrays of \<open>mdadm -Ds\<close>, in their order.
\<close>

theorem generate_replaces_arrays:
  assumes "length (sections_or_empty (de_uci e h) ''mdadm'' ''array'') = length arrays"
    and "result_of (generate_mdadm_config loads e) h = None"
  shows "\<exists>as g. after (generate_mdadm_config loads e) h = h @ as \<and>
    foldl array_command arrays as = parse_scanned_arrays (trim_char newline (fst (de_out e g [''mdadm -Ds''])))"
proof -
  let ?n = "length arrays"
  let ?g = "h @ replicate ?n (Sh delete_first_array)"
  have clear: "result_of (clear_existing_arrays loads e) h = None"
    using assms(2) by (auto simp: generate_mdadm_config_def split: option.splits)
  have q: "result_of (batch_out_err e Query [''mdadm -Ds'']) g =
      (case de_out e (g @ [Query [''mdadm -Ds'']]) [''mdadm -Ds''] of (o', x, f) \<Rightarrow> (trim_char newline o', x, f))"
    "after (batch_out_err e Query [''mdadm -Ds'']) g = g @ [Query [''mdadm -Ds'']]" for g
    by (simp_all add: batch_out_err_def batch_raw_def create_batch_command_def case_prod_beta)
  show ?thesis
    using assms clear_run [OF clear]
    by (auto simp: generate_mdadm_config_def clear q case_prod_beta each_add
        foldl_deletes foldl_adds split: option.splits if_splits)
qed

definition quiet_env :: disk_env where
  "quiet_env = \<lparr>de_out = \<lambda>h c. ([], [], None), de_exists = \<lambda>h p. False, de_file = \<lambda>h p. Inr [], de_dev = \<lambda>h. [],
     de_uci = \<lambda>h. empty_uci, de_lsblk = \<lambda>s. Inr [], de_x86 = \<lambda>s. Inr []\<rparr>"

lemma quiet_env_sel [simp]:
  "de_out quiet_env h c = ([], [], None)" "de_exists quiet_env h p = False" "de_file quiet_env h p = Inr []"
  "de_dev quiet_env h = []" "de_uci quiet_env h = empty_uci" "de_lsblk quiet_env s = Inr []" "de_x86 quiet_env s = Inr []"
  by (simp_all add: quiet_env_def)

lemma quiet_sections [simp]: "sections_or_empty empty_uci c t = []"
  by (simp add: sections_or_empty_def empty_uci_def)

theorem generate_replaces_arrays_witness:
  "\<exists>as g. after (generate_mdadm_config (\<lambda>_. None) quiet_env) [] = [] @ as \<and>
    foldl array_command [] as = parse_scanned_arrays (trim_char newline (fst (de_out quiet_env g [''mdadm -Ds''])))"
proof (rule generate_replaces_arrays)
  have "parse_scanned_arrays [] = []" by code_simp
  then show "result_of (generate_mdadm_config (\<lambda>_. None) quiet_env) [] = None"
    by (simp add: generate_mdadm_config_def clear_existing_arrays_def batch_out_err_def batch_raw_def create_batch_command_def
        trim_char_def batch_fails_run)
qed simp

section \<open>Repairing the configuration\<close>

lemma does_fix_arrays:
  "does (fix_arrays e lo uuids) (\<lambda>r as. \<exists>ns. sorted_wrt (<) ns \<and> list_all (\<lambda>n. lo \<le> n \<and> n < 127) ns \<and> length ns \<le> length uuids \<and>
     as = map (\<lambda>(n, u). add_act (md_path n, u)) (zip ns uuids))"
proof (induction uuids arbitrary: lo)
  case Nil
  then show ?case by (auto intro!: does_intro)
next
  case (Cons u uuids)
  show ?case
    unfolding fix_arrays.simps
  proof (rule does_bind [OF does_answer [where Q = "\<lambda>i as. as = [] \<and> (\<forall>n. i = Some n \<longrightarrow> lo \<le> n \<and> n < 127)"]], goal_cases)
    case (1 h)
    then show ?case by (auto dest: find_free_md_less)
  next
    case (2 i as)
    show ?case
    proof (cases i)
      case None
      then show ?thesis using 2 by (auto intro!: does_intro exI [of _ "[]"])
    next
      case (Some n)
      have add: "does (add_array e a) (\<lambda>r as. as = [add_act a])" for a
        unfolding add_array_def add_act_def
        by (rule does_bind [OF does_batch(4) [where T = "\<lambda>r as. as = [Sh (build_mdadm_array_commands (fst a) (snd a))]"]])
           (auto intro!: does_intro simp: build_mdadm_array_commands_def)
      show ?thesis
        unfolding Some option.case
      proof (rule does_done_then_done [OF add], goal_cases)
        case (1 err bs)
        then show ?case using 2 Some by (auto intro!: exI [of _ "[n]"])
      next
        case (2 bs)
        show ?case
        proof (rule does_mono [OF Cons.IH [of "n + 1"]], elim exE conjE)
          fix r cs ns
          assume "sorted_wrt (<) ns" "list_all (\<lambda>m. n + 1 \<le> m \<and> m < 127) ns" "length ns \<le> length uuids"
            "cs = map (\<lambda>(n, u). add_act (md_path n, u)) (zip ns uuids)"
          then show "\<exists>ns. sorted_wrt (<) ns \<and> list_all (\<lambda>n. lo \<le> n \<and> n < 127) ns \<and> length ns \<le> length (u # uuids) \<and>
              as @ bs @ cs = map (\<lambda>(n, u). add_act (md_path n, u)) (zip ns (u # uuids))"
            using 2 Some \<open>as = [] \<and> _\<close> by (intro exI [of _ "n # ns"]) (auto simp: list_all_iff)
        qed
      qed
    qed
  qed
qed

lemma does_clear: "does (clear_existing_arrays loads e) (\<lambda>r as. \<exists>k. as = replicate k (Sh delete_first_array))"
proof -
  have "does (each_done (\<lambda>_. do {
      failed \<leftarrow> batch_fails e delete_first_array;
      State_Monad.return (map_option (\<lambda>_. err) failed) }) xs) (\<lambda>r as. \<exists>k. as = replicate k (Sh delete_first_array))" for xs :: "string list" and err
  proof (induction xs)
    case Nil
    then show ?case by (auto intro!: does_intro)
  next
    case (Cons x xs)
    have one: "does (do { failed \<leftarrow> batch_fails e delete_first_array; State_Monad.return (map_option (\<lambda>_. err) failed) })
        (\<lambda>r as. as = [Sh delete_first_array])"
      by (rule does_bind [OF does_batch(4) [where T = "\<lambda>r as. as = [Sh delete_first_array]"]])
         (auto intro!: does_intro simp: delete_first_array_def)
    show ?case
      unfolding each_done.simps
      by (rule does_done_then_done [OF one])
         (auto intro!: does_mono [OF Cons.IH] intro: exI [of _ "Suc k" for k] exI [of _ "1 :: nat"])
  qed
  then show ?thesis
    unfolding clear_existing_arrays_def by (auto intro!: does_bind [OF does_ask [where Q = "\<lambda>_ as. as = []"]] does_intro)
qed

definition fixes_arrays :: "goerr option \<Rightarrow> disk_history \<Rightarrow> bool" where
  "fixes_arrays r as \<longleftrightarrow> (\<exists>k ns uuids rest. as = replicate k (Sh delete_first_array) @ map (\<lambda>(n, u). add_act (md_path n, u)) (zip ns uuids) @ rest \<and>
     sorted_wrt (<) ns \<and> list_all (\<lambda>n. n < 127) ns \<and>
     (if r = None then rest = [Sh commit_mdadm, Sh restart_mdadm] else rest = []))"

lemma does_fixed:
  "does (done_then_done (clear_existing_arrays loads e) (done_then_done (fix_arrays e 0 uuids) (do {
       _ \<leftarrow> batch_fails e commit_mdadm;
       _ \<leftarrow> batch_fails e restart_mdadm;
       State_Monad.return None
     }))) fixes_arrays"
proof (rule does_done_then_done [OF does_clear], goal_cases)
  case (1 err as)
  then show ?case by (auto simp: fixes_arrays_def intro!: exI [of _ "[]"])
next
  case (2 as)
  then obtain k where as: "as = replicate k (Sh delete_first_array)" by auto
  show ?case
  proof (rule does_done_then_done [OF does_fix_arrays], goal_cases)
    case (1 err bs)
    then show ?case unfolding fixes_arrays_def as by (fastforce simp: list_all_iff)
  next
    case (2 bs)
    then obtain ns where ns: "sorted_wrt (<) ns" "list_all (\<lambda>n. n < 127) ns" "bs = map (\<lambda>(n, u). add_act (md_path n, u)) (zip ns uuids)"
      by (auto simp: list_all_iff)
    have "does (batch_fails e c) (\<lambda>r as. as = [Sh c])" if "c \<noteq> []" for c
      by (rule does_batch(4) [OF that]) simp
    then show ?case
      unfolding fixes_arrays_def as
      by (intro does_bind [where Q = "\<lambda>_ as. as = [Sh commit_mdadm]"] does_bind [where Q = "\<lambda>_ as. as = [Sh restart_mdadm]"] does_return)
         (use ns in \<open>auto simp: commit_mdadm_def restart_mdadm_def\<close>)
  qed
qed

text \<open>
  \<open>AutoFix\<close> gives every array a device of its own: whatever the outside answers, its effects are deletions of
  configured arrays, then one entry per found identifier, in their order, with strictly increasing device numbers below 127, and, exactly
  when it succeeds, the commit and the restart.
\<close>

theorem auto_fix_distinct_devices:
  "\<exists>as k ns uuids rest. after (auto_fix loads e q) h = h @ as \<and>
     effects as = replicate k (Sh delete_first_array) @ map (\<lambda>(n, u). add_act (md_path n, u)) (zip ns uuids) @ rest \<and>
     sorted_wrt (<) ns \<and> distinct (map md_path ns) \<and> list_all (\<lambda>n. n < 127) ns \<and>
     (if result_of (auto_fix loads e q) h = None then rest = [Sh commit_mdadm, Sh restart_mdadm] else rest = [])"
proof -
  have eff: "effects as = as" if "fixes_arrays r as" for r as
    using that by (auto simp: fixes_arrays_def effects_def add_act_def build_mdadm_array_commands_def delete_first_array_def commit_mdadm_def restart_mdadm_def
        harmless_command_def has_prefix_def filter_id_conv split: if_splits)
  have none: "fixes_arrays (Some err) []" for err
    by (auto simp: fixes_arrays_def intro!: exI [of _ "[]"])
  have fixed: "fixes_arrays r (effects (Query c # as))" if "fixes_arrays r as" for r c as
    using eff [OF that] that by simp
  have "does (auto_fix loads e q) (\<lambda>r as. fixes_arrays r (effects as))"
    unfolding auto_fix_def
    by (rule does_bind [OF does_batch(2) [where R = "\<lambda>_ as. as = [Query [q]]"]])
       (auto simp: none Let_def intro!: does_return does_mono [OF does_fixed] fixed [simplified] split: option.split)
  from does_after [OF this] show ?thesis
    unfolding fixes_arrays_def by (fastforce simp: distinct_map md_path_def inj_on_def fmt_nat_inj strict_sorted_iff)
qed

text \<open>
  \<open>AutoFix\<close> on a system without RAID partitions: the query prints nothing, which splits into one empty identifier, so the guard
  \<open>len(uuids) == 0\<close> never holds; when no command fails and \<open>/dev/md0\<close> is free, every configured array is deleted, an array
  with an empty identifier is committed in their place, and the call reports success.
\<close>

theorem auto_fix_without_arrays:
  assumes "fst (de_out e (h @ [Query [q]]) [q]) = []" and "\<forall>g c. snd (snd (de_out e g c)) = None"
    and "\<forall>g. loads g = None" and "\<forall>g. \<not> de_exists e g (md_path 0)"
  shows "result_of (auto_fix loads e q) h = None \<and>
    after (auto_fix loads e q) h = h @ Query [q] #
      replicate (length (sections_or_empty (de_uci e (h @ [Query [q]])) ''mdadm'' ''array'')) (Sh delete_first_array) @
      [add_act (md_path 0, []), Sh commit_mdadm, Sh restart_mdadm]"
proof -
  have each: "result_of (each_done (\<lambda>_. do {
      failed \<leftarrow> batch_fails e delete_first_array;
      State_Monad.return (map_option (\<lambda>_. err) failed) }) xs) g = None" for xs :: "string list" and err g
    using assms(2) by (induction xs arbitrary: g) (auto simp: batch_fails_run delete_first_array_def)
  have clear: "result_of (clear_existing_arrays loads e) g = None" for g
    using assms(3) each by (simp add: clear_existing_arrays_def)
  have free: "find_free_md (de_exists e g) 0 = Some 0" for g
    using assms(4) by (simp add: find_free_md_def upt_rec)
  have add: "result_of (add_array e a) g = None" for a g
    using assms(2) by (simp add: add_array_def batch_fails_run build_mdadm_array_commands_def)
  have run: "result_of (batch_out_err e Query [q]) h = ([], fst (snd (de_out e (h @ [Query [q]]) [q])), None)"
    "after (batch_out_err e Query [q]) h = h @ [Query [q]]"
    using assms by (simp_all add: batch_out_err_def batch_raw_def create_batch_command_def case_prod_beta trim_char_def)
  show ?thesis
    by (simp add: auto_fix_def run clear clear_run free add add_array_run)
qed

definition one_array :: uci where
  "one_array = empty_uci\<lparr>uci_sections := \<lambda>c t. Some [''cfg1'']\<rparr>"

theorem auto_fix_without_arrays_witness:
  "after (auto_fix (\<lambda>_. None) (quiet_env\<lparr>de_uci := \<lambda>h. one_array\<rparr>) ''q'') [] =
    [Query [''q''], Sh delete_first_array, add_act (''/dev/md0'', []), Sh commit_mdadm, Sh restart_mdadm]"
  using auto_fix_without_arrays [of "quiet_env\<lparr>de_uci := \<lambda>h. one_array\<rparr>" "[]" "''q''" "\<lambda>_. None"]
  by (simp add: quiet_env_def one_array_def sections_or_empty_def md_path_def number_eval)

section \<open>Recovering an array\<close>

lemma parted_without_partitions:
  assumes "list_all (\<lambda>l. \<not> is_parted_partition_line l) (split_on (CHR 0x0A) out)"
  shows "dk_childrens (build_disk_info_from_parted device b out) = []"
proof -
  have "list_all (\<lambda>l. \<not> is_parted_partition_line l) ls \<Longrightarrow> dk_childrens (fst s) = [] \<Longrightarrow>
      dk_childrens (fst (foldl (parted_line device b) s ls)) = []" for s ls
    by (induction ls arbitrary: s) (auto simp: parted_line_def fill_disk_info_def Let_def)
  from this [OF assms] show ?thesis by (simp add: build_disk_info_from_parted_def no_disk_def)
qed

lemma disk_without_partitions:
  assumes "\<forall>g. list_all (\<lambda>l. \<not> is_parted_partition_line l) (split_on (CHR 0x0A) (trim_char newline (fst (de_out e g [parted_query device]))))"
  shows "dk_childrens (result_of (get_disk_info e device) h) = []"
proof -
  have "result_of (batch_out_err e Query [parted_query device]) g = (trim_char newline (fst (de_out e (g @ [Query [parted_query device]]) [parted_query device])), x) \<Longrightarrow>
      dk_childrens (build_disk_info_from_parted device b (fst (result_of (batch_out_err e Query [parted_query device]) g))) = []" for g b x
    using assms parted_without_partitions by simp
  then have none: "dk_childrens (build_disk_info_from_parted device b (fst (result_of (batch_out_err e Query [parted_query device]) g))) = []" for g b
    by (simp add: batch_out_err_def batch_raw_def create_batch_command_def case_prod_beta)
  show ?thesis
    by (simp add: get_disk_info_def get_parted_info_def Let_def case_prod_beta none)
qed

text \<open>
  \<open>Recover\<close> with \<open>CheckRaidPartition\<close> does not look at the disk it recovers: it hands the whole path, not the name, to the disk
  reader, which asks \<open>parted\<close> about \<open>/dev/\<close> followed by that path. As \<open>parted\<close> lists no partitions of such a device, the
  check finds nothing and the member is erased first, as without the check.
\<close>

theorem raid_recover_erases:
  assumes "\<forall>g. list_all (\<lambda>l. \<not> is_parted_partition_line l)
      (split_on (CHR 0x0A) (trim_char newline (fst (de_out e g [''parted -s -m /dev/'' @ member @ '' unit s print free'']))))"
    and "member \<noteq> []"
  shows "\<exists>as post. after (raid_recover e path member check) h = h @ as \<and> effects as = Sh (erase_commands member) # post"
proof -
  have found: "raid_partition_of (result_of (get_disk_info e member) h) = None"
    using disk_without_partitions [of e member h] assms(1) by (simp add: raid_partition_of_def parted_query_def)
  define rest where "rest = done_then_done (done_then_done (erase e member) (make_raid_part e member)) (do {
       act (Wait 1000);
       failed \<leftarrow> batch_fails e (build_recover_commands path (disk_to_part member ''1''));
       State_Monad.return (map_option (\<lambda>_. ''recovery failed '' @ hd (build_recover_commands path (disk_to_part member ''1''))) failed)
     })"
  obtain as where as: "after (get_disk_info e member) h = h @ as" "effects as = []"
    using does_after [OF does_reads [where Q = "\<lambda>_ as. effects as = []"]] only_disk_info(2) by metis
  have look: "result_of (if check then do { d \<leftarrow> get_disk_info e member; State_Monad.return (raid_partition_of d) } else State_Monad.return None) h = None"
    "after (if check then do { d \<leftarrow> get_disk_info e member; State_Monad.return (raid_partition_of d) } else State_Monad.return None) h =
      (if check then h @ as else h)"
    using found as by simp_all
  have "does (done_then_done (erase e member) (make_raid_part e member)) (\<lambda>r as. \<exists>post. effects as = Sh (erase_commands member) # post)"
    by (rule does_done_then_done [OF does_erase [OF assms(2)]]) (auto intro!: does_mono [OF does_make_raid_part])
  then have "does rest (\<lambda>r as. \<exists>post. effects as = Sh (erase_commands member) # post)"
    unfolding rest_def by (rule does_done_then_done) (auto intro!: does_grows only_intro)
  from does_after [OF this, of h] does_after [OF this, of "h @ as"]
  obtain bs cs post1 post2 where "after rest h = h @ bs" "effects bs = Sh (erase_commands member) # post1"
      "after rest (h @ as) = (h @ as) @ cs" "effects cs = Sh (erase_commands member) # post2" by blast
  moreover have "after (raid_recover e path member check) h = after rest (if check then h @ as else h)"
    unfolding raid_recover_def bind_run look by (simp only: rest_def Let_def option.simps simp_thms if_False)
  ultimately show ?thesis
    using as by (cases check) auto
qed

theorem raid_recover_erases_witness:
  "\<exists>as post. after (raid_recover quiet_env ''/dev/md0'' ''/dev/sda'' True) [] = [] @ as \<and> effects as = Sh (erase_commands ''/dev/sda'') # post"
  by (rule raid_recover_erases) (simp_all add: trim_char_def is_parted_partition_line_def)

end
