(* ===== verification/WifiModel.thy ===== *)
theory WifiModel
  imports Shell GoSort
begin

text \<open>
  The wireless settings: the interface the web page edits (\<open>models/wireless_iface_info.go\<close>), the
  constants of \<open>service/wifi.go\<close> and the command lists of \<open>modules/wireless\<close> (guest interface,
  guest network, switching an interface on and off, quick setup). The configuration
  \<open>wireless\<close> is the snapshot \<open>uci\<close> loads at the start of every request. What the shell does with the
  commands on the configuration is not part of the code: \<open>shell_option\<close> states it for the two kinds of
  command the drivers write, and the theorems about reading back what was written assume it.
\<close>

section \<open>Data\<close>

record wifi_param =
  wp_device :: string
  wp_iface :: string
  wp_band :: string

record iface_info =
  ii_band :: string
  ii_channel :: int
  ii_device :: string
  ii_disabled :: bool
  ii_encrypt_selects :: "string list"
  ii_encryption :: string
  ii_hidden :: bool
  ii_htmode :: string
  ii_hwmode :: string
  ii_hwmode_selects :: "string list"
  ii_index :: int
  ii_iface :: string
  ii_ifname :: string
  ii_guest :: bool
  ii_key :: string
  ii_ssid :: string
  ii_txpower :: int
  ii_network :: string

text \<open>
  What a driver knows of its radios and of the choices it offers. The Qualcomm driver has no table of encryption values: there the
  field is empty and unused.
\<close>

record wifi_driver =
  wd_param_2g :: wifi_param
  wd_param_5g :: wifi_param
  wd_guest_2g :: wifi_param
  wd_guest_5g :: wifi_param
  wd_index_2g :: int
  wd_index_5g :: int
  wd_encrypt_selects :: "string list"
  wd_encrypt_vals :: "string list"
  wd_hwmode_2g :: "string list"
  wd_hwmode_5g :: "string list"

record enable_request =
  er_enable :: bool
  er_iface :: string

record power_request =
  pr_device :: string
  pr_txpower :: int

definition ssid_2g :: string where "ssid_2g = ''iStoreOS-2G''"
definition ssid_5g :: string where "ssid_5g = ''iStoreOS-5G''"
definition ssid_5g_guest :: string where "ssid_5g_guest = ''iStoreOS-5G-Guest''"
definition ssid_2g_guest :: string where "ssid_2g_guest = ''iStoreOS-Guest''"
definition ssid_guest_key :: string where "ssid_guest_key = ''goodlife''"

definition has_suffix :: "string \<Rightarrow> string \<Rightarrow> bool" where
  "has_suffix s t \<longleftrightarrow> has_prefix (rev s) (rev t)"

text \<open>Reading an option, with a default, and as a switch that is on when it is a positive number.\<close>

definition wl_last :: "uci \<Rightarrow> string \<Rightarrow> string \<Rightarrow> string option" where
  "wl_last u sec opt = uci_last u ''wireless'' sec opt"

definition wl_or :: "uci \<Rightarrow> string \<Rightarrow> string \<Rightarrow> string \<Rightarrow> string" where
  "wl_or u sec opt d = (case wl_last u sec opt of None \<Rightarrow> d | Some v \<Rightarrow> v)"

definition wl_switch :: "uci \<Rightarrow> string \<Rightarrow> string \<Rightarrow> bool" where
  "wl_switch u sec opt = (case wl_last u sec opt of None \<Rightarrow> False | Some v \<Rightarrow> fst (atoi v) > 0)"

definition wl_exists :: "uci \<Rightarrow> string \<Rightarrow> bool" where
  "wl_exists u sec \<longleftrightarrow> uci_get u ''wireless'' sec '''' \<noteq> None"

definition disable_of_wireless :: "uci \<Rightarrow> string \<Rightarrow> bool" where
  "disable_of_wireless u sec \<longleftrightarrow> wl_exists u sec \<and> wl_switch u sec ''disabled''"

section \<open>Commands\<close>

definition wl_set :: "string \<Rightarrow> string \<Rightarrow> string \<Rightarrow> string" where
  "wl_set sec opt v = ''uci set wireless.'' @ sec @ ''.'' @ opt @ ''='' @ v"

definition wl_del :: "string \<Rightarrow> string \<Rightarrow> string" where
  "wl_del sec opt = ''uci del wireless.'' @ sec @ ''.'' @ opt"

definition hidden_command :: "string \<Rightarrow> bool \<Rightarrow> string" where
  "hidden_command sec hidden = (if hidden then wl_set sec ''hidden'' ''1'' else wl_del sec ''hidden'')"

definition channel_text :: "int \<Rightarrow> string" where
  "channel_text ch = (if ch = 0 then ''auto'' else fmt_int ch)"

definition htmode_index :: "string list \<Rightarrow> string \<Rightarrow> string option" where
  "htmode_index values mode = map_of (zip [''auto'', ''20'', ''40'', ''80'', ''160''] values) mode"

text \<open>The commands on the width of the channel; \<open>values\<close> names the widths, \<open>wide\<close> the double one.\<close>

definition htmode_commands :: "string \<Rightarrow> string \<Rightarrow> bool \<Rightarrow> string \<Rightarrow> string \<Rightarrow> string \<Rightarrow> string list" where
  "htmode_commands iface device two_g wide mode value =
     (if two_g then
        (if mode = wide then [wl_set iface ''noscan'' ''1'']
         else [wl_del iface ''noscan'', wl_set device ''htmode'' (dq (if mode = ''auto'' then wide else value))])
      else [wl_set device ''htmode'' (dq value)])"

definition network_commands :: "uci \<Rightarrow> iface_info \<Rightarrow> string \<Rightarrow> string list" where
  "network_commands u req reload =
     [wl_set (ii_iface req) ''network'' (dq (ii_network req)), ''uci commit wireless'',
      if ii_network req \<noteq> wl_or u (ii_iface req) ''network'' ''lan'' then ''/etc/init.d/network restart'' else reload]"

subsection \<open>\<open>modules/wireless/guestiface\<close>\<close>

record guest_profile =
  gp_iface :: string
  gp_index :: int
  gp_wireless :: string
  gp_ssid :: string
  gp_encryption :: string
  gp_key :: string
  gp_apply :: string

definition guest_iface_commands :: "guest_profile \<Rightarrow> string list" where
  "guest_iface_commands p =
     (let key = (if gp_key p = [] then ''goodlife'' else gp_key p);
          apply_command = (if gp_apply p = [] then ''wifi'' else gp_apply p);
          iface = gp_iface p
      in [''WIFI_DEV='' @ dq (''$(uci -q get wireless.@wifi-iface['' @ fmt_int (gp_index p) @ ''].device)''),
          ''uci -q delete wireless.'' @ iface,
          ''uci set wireless.'' @ iface @ ''='' @ dq ''wifi-iface'',
          wl_set iface ''device'' (dq ''${WIFI_DEV}''),
          wl_set iface ''ifname'' (dq (gp_wireless p)),
          wl_set iface ''mode'' (dq ''ap''),
          wl_set iface ''network'' (dq ''guest''),
          wl_set iface ''guest'' (dq ''1''),
          wl_set iface ''ssid'' (dq (gp_ssid p)),
          wl_set iface ''encryption'' (dq (gp_encryption p)),
          wl_set iface ''key'' (dq key),
          wl_set iface ''disabled'' ''0'',
          wl_set iface ''isolate'' ''1'',
          wl_set iface ''wds'' ''1'',
          ''uci commit wireless'',
          apply_command])"

subsection \<open>\<open>modules/wireless/guestnetwork\<close>\<close>

definition network_probe_commands :: "string list" where
  "network_probe_commands = [''uci -q get network.guest_dev.name'']"

definition plan_network_commands :: "string result \<Rightarrow> string list" where
  "plan_network_commands out =
     (if (case out of Inl _ \<Rightarrow> False | Inr o' \<Rightarrow> has_prefix o' ''br-guest'') then []
      else [''uci -q delete network.guest_dev'',
            ''uci set network.guest_dev='' @ dq ''device'',
            ''uci set network.guest_dev.type='' @ dq ''bridge'',
            ''uci set network.guest_dev.name='' @ dq ''br-guest'',
            ''uci -q delete network.guest'',
            ''uci set network.guest='' @ dq ''interface'',
            ''uci set network.guest.proto='' @ dq ''static'',
            ''uci set network.guest.device='' @ dq ''br-guest'',
            ''uci set network.guest.ipaddr='' @ dq ''192.168.102.1/24'',
            ''uci commit network'',
            ''service network restart''])"

definition dhcp_probe_commands :: "string list" where
  "dhcp_probe_commands = [''uci -q dhcp.guest'']"

definition plan_dhcp_commands :: "string result \<Rightarrow> string list" where
  "plan_dhcp_commands out =
     (if (case out of Inl _ \<Rightarrow> False | Inr o' \<Rightarrow> has_prefix o' ''dhcp'') then []
      else [''uci -q delete dhcp.guest'',
            ''uci set dhcp.guest='' @ dq ''dhcp'',
            ''uci set dhcp.guest.interface='' @ dq ''guest'',
            ''uci set dhcp.guest.start='' @ dq ''100'',
            ''uci set dhcp.guest.limit='' @ dq ''150'',
            ''uci set dhcp.guest.leasetime='' @ dq ''1h'',
            ''uci commit dhcp'',
            ''service dnsmasq restart''])"

definition firewall_probe_commands :: "string list" where
  "firewall_probe_commands = [''uci -q get firewall.guest'']"

definition plan_firewall_commands :: "string result \<Rightarrow> string list" where
  "plan_firewall_commands out =
     (if (case out of Inl _ \<Rightarrow> False | Inr o' \<Rightarrow> has_prefix o' ''zone'') then []
      else [''uci -q delete firewall.guest'',
            ''uci set firewall.guest='' @ dq ''zone'',
            ''uci set firewall.guest.name='' @ dq ''guest'',
            ''uci set firewall.guest.network='' @ dq ''guest'',
            ''uci set firewall.guest.input='' @ dq ''REJECT'',
            ''uci set firewall.guest.output='' @ dq ''ACCEPT'',
            ''uci set firewall.guest.forward='' @ dq ''REJECT'',
            ''uci -q delete firewall.guest_wan'',
            ''uci set firewall.guest_wan='' @ dq ''forwarding'',
            ''uci set firewall.guest_wan.src='' @ dq ''guest'',
            ''uci set firewall.guest_wan.dest='' @ dq ''wan'',
            ''uci -q delete firewall.guest_dns'',
            ''uci set firewall.guest_dns='' @ dq ''rule'',
            ''uci set firewall.guest_dns.name='' @ dq ''Allow-DNS-Guest'',
            ''uci set firewall.guest_dns.src='' @ dq ''guest'',
            ''uci set firewall.guest_dns.dest_port='' @ dq ''53'',
            ''uci set firewall.guest_dns.proto='' @ dq ''tcp udp'',
            ''uci set firewall.guest_dns.target='' @ dq ''ACCEPT'',
            ''uci -q delete firewall.guest_dhcp'',
            ''uci set firewall.guest_dhcp='' @ dq ''rule'',
            ''uci set firewall.guest_dhcp.name='' @ dq ''Allow-DHCP-Guest'',
            ''uci set firewall.guest_dhcp.src='' @ dq ''guest'',
            ''uci set firewall.guest_dhcp.dest_port='' @ dq ''67'',
            ''uci set firewall.guest_dhcp.proto='' @ dq ''udp'',
            ''uci set firewall.guest_dhcp.family='' @ dq ''ipv4'',
            ''uci set firewall.guest_dhcp.target='' @ dq ''ACCEPT'',
            ''uci commit firewall'',
            ''service firewall restart''])"

definition success_marker_command :: string where
  "success_marker_command = ''echo guest-network-ok''"

definition has_success_marker :: "string \<Rightarrow> bool" where
  "has_success_marker out = contains_str out ''guest-network-ok''"

subsection \<open>\<open>modules/wireless/ifacecontrol\<close>\<close>

record iface_plan_input =
  ip_enable :: bool
  ip_device :: string
  ip_iface :: string
  ip_device_disabled :: bool
  ip_iface_disabled :: bool
  ip_apply :: string

definition iface_plan :: "iface_plan_input \<Rightarrow> string list" where
  "iface_plan i =
     (let apply_command = (if ip_apply i = [] then ''wifi'' else ip_apply i);
          old_disabled = (ip_device_disabled i \<or> ip_iface_disabled i)
      in if old_disabled \<noteq> ip_enable i then [apply_command]
         else if ip_enable i then
           (if ip_device_disabled i then
              [wl_set (ip_device i) ''disabled'' ''0'', wl_set (ip_iface i) ''disabled'' ''0'',
               ''uci commit wireless'', apply_command]
            else [wl_set (ip_iface i) ''disabled'' ''0'', ''uci commit wireless'', apply_command])
         else [wl_set (ip_iface i) ''disabled'' ''1'', ''uci commit wireless'', apply_command])"

subsection \<open>\<open>modules/wireless/setup\<close>\<close>

record quick_setup =
  qs_2g :: "iface_info option"
  qs_5g :: "iface_info option"

definition bad_key_length :: "string \<Rightarrow> bool" where
  "bad_key_length k \<longleftrightarrow> k \<noteq> [] \<and> (length k < 8 \<or> length k > 20)"

definition validate_quick_setup :: "quick_setup option \<Rightarrow> goerr option" where
  "validate_quick_setup req =
     (case req of
        None \<Rightarrow> Some ''Invalid params''
      | Some r \<Rightarrow>
          (case (qs_2g r, qs_5g r) of
             (Some w2, Some w5) \<Rightarrow>
               (if ii_ssid w2 = [] \<or> ii_key w2 = [] \<or> ii_ssid w5 = [] \<or> ii_key w5 = [] \<or> ii_iface w2 = [] \<or> ii_iface w5 = []
                then Some ''Invalid params''
                else if bad_key_length (ii_key w2) then Some ''Invalid 2g password''
                else if bad_key_length (ii_key w5) then Some ''Invalid 5g password''
                else None)
           | _ \<Rightarrow> Some ''Invalid params''))"

text \<open>A request that was validated has both interfaces.\<close>

definition normalize_quick_setup :: "quick_setup \<Rightarrow> quick_setup" where
  "normalize_quick_setup r =
     \<lparr>qs_2g = map_option (\<lambda>w. w\<lparr>ii_channel := 0, ii_encryption := ''psk-mixed'', ii_htmode := ''auto'',
                ii_hwmode := ''11b/g/n/ax'', ii_hidden := False\<rparr>) (qs_2g r),
      qs_5g = map_option (\<lambda>w. w\<lparr>ii_channel := 0, ii_encryption := ''psk-mixed'', ii_htmode := ''80'',
                ii_hwmode := ''11a/n/ac/ax'', ii_hidden := False\<rparr>) (qs_5g r)\<rparr>"

definition prepare_quick_setup :: "quick_setup option \<Rightarrow> quick_setup result" where
  "prepare_quick_setup req =
     (case validate_quick_setup req of
        Some e \<Rightarrow> Inl e
      | None \<Rightarrow> (case req of None \<Rightarrow> Inl ''Invalid params'' | Some r \<Rightarrow> Inr (normalize_quick_setup r)))"

section \<open>What the commands leave in the configuration\<close>

text \<open>
  \<open>uci set wireless.S.O=V\<close> sets option \<open>O\<close> of section \<open>S\<close>, the shell removing the double quotes around a value that has no
  character special between double quotes; \<open>uci del wireless.S.O\<close> removes it. Other commands leave the options as they are.
\<close>

definition quote_safe :: "string \<Rightarrow> bool" where
  "quote_safe v = list_all (\<lambda>c. c \<notin> set [CHR 0x22, CHR ''$'', CHR 0x60, CHR 0x5C, CHR 0x0A]) v"

definition unquoted :: "string \<Rightarrow> string" where
  "unquoted v = filter (\<lambda>c. c \<noteq> CHR 0x22) v"

type_synonym wl_options = "string \<Rightarrow> string \<Rightarrow> string option"

definition shell_option :: "string \<Rightarrow> wl_options \<Rightarrow> wl_options" where
  "shell_option c f =
     (if has_prefix c ''uci set wireless.'' then
        (let r = drop 17 c; sec = takeWhile (\<lambda>x. x \<noteq> CHR ''.'') r; r1 = drop (Suc (length sec)) r;
             opt = takeWhile (\<lambda>x. x \<noteq> CHR ''='') r1; v = drop (Suc (length opt)) r1
         in (\<lambda>s o'. if s = sec \<and> o' = opt then Some (unquoted v) else f s o'))
      else if has_prefix c ''uci del wireless.'' then
        (let r = drop 17 c; sec = takeWhile (\<lambda>x. x \<noteq> CHR ''.'') r; opt = drop (Suc (length sec)) r
         in (\<lambda>s o'. if s = sec \<and> o' = opt then None else f s o'))
      else f)"

definition shell_options :: "string list \<Rightarrow> wl_options \<Rightarrow> wl_options" where
  "shell_options cmds f = foldl (\<lambda>g c. shell_option c g) f cmds"

definition section_name :: "string \<Rightarrow> bool" where
  "section_name s \<longleftrightarrow> CHR ''.'' \<notin> set s"

lemma takeWhile_to: "d \<notin> set s \<Longrightarrow> takeWhile (\<lambda>x. x \<noteq> d) (s @ d # t) = s"
  by (induction s) auto

lemma drop_past: "drop (Suc (length s)) (s @ d # t) = t"
  by simp

lemma shell_set:
  assumes "section_name sec" "CHR ''='' \<notin> set opt"
  shows "shell_option (wl_set sec opt v) f = (\<lambda>s o'. if s = sec \<and> o' = opt then Some (unquoted v) else f s o')"
proof -
  have dot: "''.'' @ x = CHR ''.'' # x" "''='' @ x = CHR ''='' # x" for x by simp_all
  have p: "has_prefix (''uci set wireless.'' @ t) ''uci set wireless.''" for t by (rule has_prefix_append)
  have d: "drop 17 (''uci set wireless.'' @ t) = t" for t by simp
  show ?thesis
    using takeWhile_to [of "CHR ''.''" sec "opt @ CHR ''='' # v"] takeWhile_to [of "CHR ''=''" opt v] assms
    by (simp only: shell_option_def wl_set_def p d if_True Let_def section_name_def dot drop_past simp_thms)
qed

lemma shell_del:
  assumes "section_name sec"
  shows "shell_option (wl_del sec opt) f = (\<lambda>s o'. if s = sec \<and> o' = opt then None else f s o')"
proof -
  have dot: "''.'' @ x = CHR ''.'' # x" for x by simp
  have p: "has_prefix (''uci del wireless.'' @ t) ''uci del wireless.''" "\<not> has_prefix (''uci del wireless.'' @ t) ''uci set wireless.''" for t
    by (simp_all add: has_prefix_def)
  have d: "drop 17 (''uci del wireless.'' @ t) = t" for t by simp
  show ?thesis
    using takeWhile_to [of "CHR ''.''" sec opt] assms
    by (simp only: shell_option_def wl_del_def p d if_True if_False Let_def section_name_def dot drop_past simp_thms)
qed

lemma shell_options_simps [simp]:
  "shell_options [] f = f"
  "shell_options (c # cs) f = shell_options cs (shell_option c f)"
  "shell_options (xs @ ys) f = shell_options ys (shell_options xs f)"
  by (simp_all add: shell_options_def)

lemma unquoted_dq [simp]: "quote_safe v \<Longrightarrow> unquoted (dq v) = v"
  by (induction v) (auto simp: unquoted_def dq_def quote_safe_def)

lemma shell_other:
  "\<not> has_prefix c ''uci set wireless.'' \<Longrightarrow> \<not> has_prefix c ''uci del wireless.'' \<Longrightarrow> shell_option c f = f"
  by (simp add: shell_option_def)

text \<open>
  The values a request may hold for the shell to hand them on as they are; sections are named without a dot.
\<close>

definition plain_request :: "iface_info \<Rightarrow> bool" where
  "plain_request req \<longleftrightarrow>
     quote_safe (ii_ssid req) \<and> quote_safe (ii_key req) \<and> quote_safe (ii_network req) \<and> section_name (ii_iface req) \<and>
     - (2 ^ 63) \<le> ii_channel req \<and> ii_channel req < 2 ^ 63"

lemma wl_last_of:
  "(\<And>s o'. uci_last u' ''wireless'' s o' = g s o') \<Longrightarrow> wl_last u' s o' = g s o'"
  by (simp add: wl_last_def)

lemma safe_number: "quote_safe (fmt_nat n)"
proof -
  have "c \<notin> set [CHR 0x22, CHR ''$'', CHR 0x60, CHR 0x5C, CHR 0x0A]" if "c \<in> set (fmt_nat n)" for c
    using fmt_nat_digits [OF that] by (auto simp: digit_val_def)
  then show ?thesis unfolding quote_safe_def list_all_iff by blast
qed

lemma quote_safe_append: "quote_safe (s @ t) \<longleftrightarrow> quote_safe s \<and> quote_safe t"
  by (simp add: quote_safe_def)

lemma safe_texts: "quote_safe ''auto''" "quote_safe ''-''"
  by code_simp+

lemma safe_channel: "quote_safe (channel_text c)"
  by (simp only: channel_text_def fmt_int_def quote_safe_append safe_texts safe_number split: if_split) blast

lemma atoi_texts: "fst (atoi ''auto'') = 0" "fst (atoi ''1'') = 1" "fst (atoi ''0'') = 0"
proof -
  have "fmt_int 1 = ''1''" "fmt_int 0 = ''0''" by code_simp+
  then show "fst (atoi ''1'') = 1" "fst (atoi ''0'') = 0" using atoi_fmt_int [of 1] atoi_fmt_int [of 0] by simp_all
  show "fst (atoi ''auto'') = 0" by (simp add: atoi_def parse_int_def parse_uint_def digit_val_def)
qed

lemma channel_back:
  assumes "plain_request req"
  shows "fst (atoi (channel_text (ii_channel req))) = ii_channel req"
  using assms atoi_fmt_int [of "ii_channel req"]
  by (simp add: channel_text_def plain_request_def atoi_texts)

lemma unquoted_plain: "list_all (\<lambda>c. c \<noteq> CHR 0x22) v \<Longrightarrow> unquoted v = v"
  by (simp add: unquoted_def list_all_iff filter_id_conv)

lemma hidden_effect:
  assumes "section_name sec"
  shows "shell_option (hidden_command sec b) f =
    (\<lambda>s o'. if s = sec \<and> o' = ''hidden'' then (if b then Some ''1'' else None) else f s o')"
  using assms by (auto simp: hidden_command_def shell_set shell_del unquoted_def cong: if_cong)

lemma last_commands:
  "shell_option ''uci commit wireless'' f = f" "shell_option ''wifi'' f = f" "shell_option ''wifi reload'' f = f"
  "shell_option ''/etc/init.d/network restart'' f = f"
  by (rule shell_other; simp add: has_prefix_def)+

lemma network_effect:
  assumes "section_name (ii_iface req)" "quote_safe (ii_network req)" "reload = ''wifi'' \<or> reload = ''wifi reload''"
  shows "shell_options (network_commands u req reload) f =
    (\<lambda>s o'. if s = ii_iface req \<and> o' = ''network'' then Some (ii_network req) else f s o')"
  using assms by (auto simp: network_commands_def shell_set last_commands cong: if_cong)

lemma htmode_effect:
  assumes "section_name iface" "section_name device" "quote_safe wide" "quote_safe v" "mode \<noteq> wide"
  shows "shell_options (htmode_commands iface device two_g wide mode v) f =
    (\<lambda>s o'. if s = device \<and> o' = ''htmode'' then Some (if two_g \<and> mode = ''auto'' then wide else v)
           else if two_g \<and> s = iface \<and> o' = ''noscan'' then None else f s o')"
  using assms by (auto simp: htmode_commands_def shell_set shell_del intro!: ext cong: if_cong)

lemma switch_bit: "wl_last u sec opt = Some (if b then ''1'' else ''0'') \<Longrightarrow> wl_switch u sec opt = b"
  "wl_last u sec opt = (if b then Some ''1'' else None) \<Longrightarrow> wl_switch u sec opt = b"
  by (cases b; simp add: wl_switch_def atoi_texts)+

definition demo_wireless :: "string \<Rightarrow> uci" where
  "demo_wireless device =
     \<lparr>uci_sections = (\<lambda>_ _. None), uci_get = (\<lambda>_ _ _. None),
      uci_last = (\<lambda>_ s o'. if o' = ''device'' then Some device else None)\<rparr>"

definition demo_request :: "string \<Rightarrow> iface_info" where
  "demo_request hwmode =
     \<lparr>ii_band = ''2g'', ii_channel = 6, ii_device = [], ii_disabled = False, ii_encrypt_selects = [], ii_encryption = ''WPA/WPA2-PSK'',
      ii_hidden = True, ii_htmode = ''40'', ii_hwmode = hwmode, ii_hwmode_selects = [], ii_index = 0, ii_iface = ''wifi2g'',
      ii_ifname = [], ii_guest = False, ii_key = ''secret00'', ii_ssid = ''home'', ii_txpower = 0, ii_network = ''lan''\<rparr>"

lemma demo_plain: "plain_request (demo_request hwmode)"
  by (simp add: plain_request_def demo_request_def quote_safe_def section_name_def)

text \<open>The titles of the encryptions and of the radio modes, as every driver offers them.\<close>

locale wifi_titles =
  fixes titles :: "string list"
    and to_value :: "string \<Rightarrow> 'v"
    and to_title :: "'v \<Rightarrow> string"
  assumes title_back: "t \<in> set titles \<Longrightarrow> to_title (to_value t) = t"
begin

lemma value_inj: "inj_on to_value (set titles)"
  by (rule inj_on_inverseI) (rule title_back)

lemma titles_differ: "s \<in> set titles \<Longrightarrow> t \<in> set titles \<Longrightarrow> s \<noteq> t \<Longrightarrow> to_value s \<noteq> to_value t"
  using value_inj by (auto dest: inj_onD)

end

end
