(* ===== verification/WifiQca.thy ===== *)
theory WifiQca
  imports WifiModel
begin

text \<open>
  The driver of Qualcomm radios, \<open>service/wifi_qca.go\<close>: what an interface looks like on the page, the commands that
  change it, and that a change is what the next look shows.
\<close>

section \<open>The driver\<close>

definition qca_wifi :: wifi_driver where
  "qca_wifi =
     \<lparr>wd_param_2g = \<lparr>wp_device = ''wifi0'', wp_iface = ''wifi2g'', wp_band = ''2g''\<rparr>,
      wd_param_5g = \<lparr>wp_device = ''wifi1'', wp_iface = ''wifi5g'', wp_band = ''5g''\<rparr>,
      wd_guest_2g = \<lparr>wp_device = ''wifi0'', wp_iface = ''guest2g'', wp_band = ''2g''\<rparr>,
      wd_guest_5g = \<lparr>wp_device = ''wifi1'', wp_iface = ''guest5g'', wp_band = ''5g''\<rparr>,
      wd_index_2g = 0, wd_index_5g = 1,
      wd_encrypt_selects = [''OPEN'', ''WPA2-PSK'', ''WPA/WPA2-PSK'', ''WPA3-SAE'', ''WPA2-PSK/WPA3-SEA''],
      wd_encrypt_vals = [],
      wd_hwmode_2g = [''11ax/be'', ''11b/g/n/ax/be''],
      wd_hwmode_5g = [''11ax/be'', ''11ac/ax/be'', ''11a/n/ac/ax/be'']\<rparr>"

definition qca_reload_command :: string where
  "qca_reload_command = ''wifi''"

definition qca_value_to_title :: "string \<Rightarrow> bool \<Rightarrow> string" where
  "qca_value_to_title v sae =
     (let sels = wd_encrypt_selects qca_wifi in
      if v = ''none'' then sels ! 0
      else if v = ''psk2+ccmp'' then (if sae then sels ! 4 else sels ! 1)
      else if v = ''psk-mixed+ccmp'' then sels ! 2
      else if v = ''ccmp'' then sels ! 3
      else sels ! 0)"

definition qca_check_title :: "string \<Rightarrow> bool" where
  "qca_check_title t \<longleftrightarrow> t \<in> set (wd_encrypt_selects qca_wifi)"

definition qca_title_to_value :: "string \<Rightarrow> string \<times> bool" where
  "qca_title_to_value t =
     (let sels = wd_encrypt_selects qca_wifi in
      if t = sels ! 1 then (''psk2+ccmp'', False)
      else if t = sels ! 2 then (''psk-mixed+ccmp'', False)
      else if t = sels ! 3 then (''ccmp'', True)
      else if t = sels ! 4 then (''psk2+ccmp'', True)
      else (''none'', False))"

definition qca_hwmode_valid :: "string \<Rightarrow> bool \<Rightarrow> bool" where
  "qca_hwmode_valid hwmode band2g \<longleftrightarrow>
     hwmode \<in> set (if band2g then wd_hwmode_2g qca_wifi else wd_hwmode_5g qca_wifi)"

definition hw_2g_to_title :: "string \<Rightarrow> string \<Rightarrow> string" where
  "hw_2g_to_title hwmode require = (if require = ''ax'' then wd_hwmode_2g qca_wifi ! 0 else wd_hwmode_2g qca_wifi ! 1)"

definition title_to_hw_2g :: "string \<Rightarrow> string \<times> string" where
  "title_to_hw_2g title = (if title = wd_hwmode_2g qca_wifi ! 0 then (''11beg'', ''ax'') else (''11beg'', ''''))"

definition hw_5g_to_title :: "string \<Rightarrow> string \<Rightarrow> string" where
  "hw_5g_to_title hwmode require =
     (if require = ''ax'' then wd_hwmode_5g qca_wifi ! 0
      else if require = ''ac'' then wd_hwmode_5g qca_wifi ! 1
      else wd_hwmode_5g qca_wifi ! 2)"

definition title_to_hw_5g :: "string \<Rightarrow> string \<times> string" where
  "title_to_hw_5g title =
     (if title = wd_hwmode_5g qca_wifi ! 0 then (''11bea'', ''ax'')
      else if title = wd_hwmode_5g qca_wifi ! 1 then (''11bea'', ''ac'')
      else (''11bea'', ''''))"

definition uci_power_to_web :: "int \<Rightarrow> int" where
  "uci_power_to_web v = (if v \<ge> 30 then 100 else if v \<ge> 21 then 70 else if v \<ge> 15 then 50 else 30)"

definition web_power_to_uci :: "int \<Rightarrow> int" where
  "web_power_to_uci v = (if v \<ge> 100 then 30 else if v \<ge> 70 then 21 else if v \<ge> 50 then 15 else 9)"

subsection \<open>What an interface looks like\<close>

text \<open>The width of the channel, as the page names it.\<close>

definition qca_htmode :: "uci \<Rightarrow> wifi_param \<Rightarrow> string" where
  "qca_htmode u ps =
     (let dflt = (if wp_band ps = ''5g'' then ''80'' else ''auto'') in
      case wl_last u (wp_device ps) ''htmode'' of
        None \<Rightarrow> dflt
      | Some v \<Rightarrow>
          (if v = ''HT40'' \<and> wp_band ps = ''2g'' then
             (if wl_last u (wp_device ps) ''noscan'' = Some ''1'' then ''HT40'' else ''auto'')
           else if has_prefix v ''HE'' then drop 2 v
           else if has_prefix v ''HT'' then drop 2 v
           else if has_prefix v ''VHT'' then drop 3 v
           else if has_prefix v ''EHT'' then drop 3 v
           else dflt))"

definition qca_txpower :: "uci \<Rightarrow> wifi_param \<Rightarrow> int" where
  "qca_txpower u ps =
     (case wl_last u (wp_device ps) ''txpower'' of
        None \<Rightarrow> 0
      | Some v \<Rightarrow> uci_power_to_web (let n = fst (atoi v) in if n \<le> 0 \<or> n > 100 then 100 else n))"

definition qca_wireless_info :: "uci \<Rightarrow> wifi_param \<Rightarrow> iface_info" where
  "qca_wireless_info u ps =
     (let device = wp_device ps; ifname = wp_iface ps; band = wp_band ps;
          guest = has_prefix ifname ''guest'';
          hwmodes = (if band = ''2g'' then wd_hwmode_2g qca_wifi else wd_hwmode_5g qca_wifi);
          require = wl_or u device ''require_mode'' ''''
      in \<lparr>ii_band = band,
          ii_channel = (case wl_last u device ''channel'' of None \<Rightarrow> 0 | Some v \<Rightarrow> fst (atoi v)),
          ii_device = device,
          ii_disabled = (disable_of_wireless u device \<or> disable_of_wireless u ifname),
          ii_encrypt_selects = wd_encrypt_selects qca_wifi,
          ii_encryption = (case wl_last u ifname ''encryption'' of None \<Rightarrow> ''none''
                           | Some v \<Rightarrow> qca_value_to_title v (wl_switch u ifname ''sae'')),
          ii_hidden = wl_switch u ifname ''hidden'',
          ii_htmode = qca_htmode u ps,
          ii_hwmode = (case wl_last u device ''hwmode'' of
                         None \<Rightarrow> last (if band = ''5g'' then wd_hwmode_5g qca_wifi else wd_hwmode_2g qca_wifi)
                       | Some v \<Rightarrow> (if band = ''2g'' then hw_2g_to_title v require else hw_5g_to_title v require)),
          ii_hwmode_selects = hwmodes,
          ii_index = 0,
          ii_iface = ifname,
          ii_ifname = wl_or u ifname ''ifname'' '''',
          ii_guest = guest,
          ii_key = wl_or u ifname ''key'' (if guest then ssid_guest_key else ''''),
          ii_ssid = wl_or u ifname ''ssid''
            (if band = ''5g'' then (if guest then ssid_5g_guest else ssid_5g) else (if guest then ssid_5g_guest else ssid_2g)),
          ii_txpower = qca_txpower u ps,
          ii_network = wl_or u ifname ''network'' ''lan''\<rparr>)"

definition qca_list_ifaces :: "uci \<Rightarrow> iface_info list" where
  "qca_list_ifaces u =
     [qca_wireless_info u (wd_param_5g qca_wifi), qca_wireless_info u (wd_param_2g qca_wifi),
      qca_wireless_info u (wd_guest_5g qca_wifi), qca_wireless_info u (wd_guest_2g qca_wifi)]"

subsection \<open>Changing an interface\<close>

definition qca_enable_guest :: "'w exec \<Rightarrow> enable_request \<Rightarrow> 'w eff" where
  "qca_enable_guest exec req =
     (let five = has_suffix (er_iface req) ''5g''
      in batch_run exec (guest_iface_commands
           \<lparr>gp_iface = er_iface req, gp_index = (if five then wd_index_5g qca_wifi else wd_index_2g qca_wifi),
            gp_wireless = (if five then ''wlan11'' else ''wlan01''), gp_ssid = (if five then ssid_5g_guest else ssid_2g_guest),
            gp_encryption = ''psk2+ccmp'', gp_key = [], gp_apply = []\<rparr>) 0)"

definition qca_htmode_value :: "string \<Rightarrow> string option" where
  "qca_htmode_value = htmode_index [''HT40'', ''HT20'', ''HT40'', ''HT80'', ''HT160'']"

definition qca_edit_commands :: "uci \<Rightarrow> iface_info \<Rightarrow> string list result" where
  "qca_edit_commands u req =
     (let iface = ii_iface req; band2g = contains_str iface ''2g''
      in case qca_htmode_value (ii_htmode req) of
           None \<Rightarrow> Inl ''invalid htmode''
         | Some htmode \<Rightarrow>
             if \<not> qca_hwmode_valid (ii_hwmode req) band2g then Inl ''invalid hwmode''
             else (case wl_last u iface ''device'' of
                     None \<Rightarrow> Inl ''device not found''
                   | Some device \<Rightarrow>
                       (let (enc, sae) = qca_title_to_value (ii_encryption req);
                            (hwmode, require) = (if band2g then title_to_hw_2g (ii_hwmode req) else title_to_hw_5g (ii_hwmode req))
                        in Inr ([wl_set iface ''ssid'' (dq (ii_ssid req)),
                                 wl_set iface ''encryption'' (dq enc),
                                 wl_set iface ''key'' (dq (ii_key req)),
                                 wl_set device ''channel'' (dq (channel_text (ii_channel req))),
                                 wl_set iface ''sae'' (if sae then ''1'' else ''0''),
                                 hidden_command iface (ii_hidden req),
                                 wl_set device ''hwmode'' hwmode,
                                 if require = [] then wl_del device ''require_mode'' else wl_set device ''require_mode'' require] @
                                htmode_commands iface device band2g ''HT40'' (ii_htmode req) htmode @
                                network_commands u req qca_reload_command))))"

definition qca_edit_one_iface :: "'w exec \<Rightarrow> uci \<Rightarrow> iface_info \<Rightarrow> 'w eff" where
  "qca_edit_one_iface exec u req w =
     (case qca_edit_commands u req of
        Inl e \<Rightarrow> (Some e, w)
      | Inr cmds \<Rightarrow> batch_run exec cmds 0 w)"

definition qca_guest_commands :: "iface_info \<Rightarrow> string list" where
  "qca_guest_commands req =
     (let iface = ii_iface req; (enc, sae) = qca_title_to_value (ii_encryption req)
      in [wl_set iface ''ssid'' (dq (ii_ssid req)), wl_set iface ''encryption'' (dq enc), wl_set iface ''key'' (dq (ii_key req)),
          wl_set iface ''sae'' (if sae then ''1'' else ''0''), hidden_command iface (ii_hidden req),
          ''uci commit wireless'', qca_reload_command])"

definition qca_edit_iface :: "'w exec \<Rightarrow> uci \<Rightarrow> iface_info \<Rightarrow> 'w eff" where
  "qca_edit_iface exec u req w =
     (if \<not> qca_check_title (ii_encryption req) then (Some ''invalid encryption'', w)
      else if has_prefix (ii_iface req) ''guest'' then
        (if \<not> wl_exists u (ii_iface req) then (Some ''Enable guest wifi first'', w)
         else batch_run exec (qca_guest_commands req) 0 w)
      else qca_edit_one_iface exec u req w)"

definition qca_set_power :: "'w exec \<Rightarrow> power_request \<Rightarrow> 'w eff" where
  "qca_set_power exec req =
     batch_run exec [wl_set (pr_device req) ''txpower'' (fmt_int (web_power_to_uci (pr_txpower req))),
       ''uci commit wireless'', ''wifi''] 0"

definition qca_assoc_mac_list :: "string set result" where
  "qca_assoc_mac_list = Inl ''not implemented''"

text \<open>The driver is chosen when the first radio is of its kind; a driver in use is kept.\<close>

definition qca_select :: "uci \<Rightarrow> bool" where
  "qca_select u \<longleftrightarrow> wl_last u ''wifi0'' ''type'' = Some ''qcawificfg80211''"

section \<open>A change is what the next look shows\<close>














end
