(* ===== verification/WifiMtk.thy ===== *)
theory WifiMtk
  imports WifiModel
begin

text \<open>
  The two drivers of MediaTek radios, \<open>service/wifi_glinet_mt3000.go\<close> and \<open>service/wifi_zx3000.go\<close>. The two files hold the same
  code over two sets of choices; they differ in the option of the transmission power, in the sections a list leaves out, in the guest
  encryption and in the stations. The common code is stated once, over the driver's choices.
\<close>

section \<open>The drivers\<close>

definition glinet :: wifi_driver where
  "glinet =
     \<lparr>wd_param_2g = \<lparr>wp_device = ''mt798111'', wp_iface = ''wifi2g'', wp_band = ''2g''\<rparr>,
      wd_param_5g = \<lparr>wp_device = ''mt798112'', wp_iface = ''wifi5g'', wp_band = ''5g''\<rparr>,
      wd_guest_2g = \<lparr>wp_device = ''mt798111'', wp_iface = ''guest2g'', wp_band = ''2g''\<rparr>,
      wd_guest_5g = \<lparr>wp_device = ''mt798112'', wp_iface = ''guest5g'', wp_band = ''5g''\<rparr>,
      wd_index_2g = 0, wd_index_5g = 1,
      wd_encrypt_selects = [''OPEN'', ''WPA2-PSK'', ''WPA/WPA2-PSK'', ''WPA3-SAE'', ''WPA2-PSK/WPA3-SEA''],
      wd_encrypt_vals = [''none'', ''psk2'', ''psk-mixed'', ''sae'', ''sae-mixed''],
      wd_hwmode_2g = [''11b/g/n/ax''], wd_hwmode_5g = [''11a/n/ac/ax'']\<rparr>"

definition zx3000 :: wifi_driver where
  "zx3000 =
     \<lparr>wd_param_2g = \<lparr>wp_device = ''radio0'', wp_iface = ''wifi2g'', wp_band = ''2g''\<rparr>,
      wd_param_5g = \<lparr>wp_device = ''radio1'', wp_iface = ''wifi5g'', wp_band = ''5g''\<rparr>,
      wd_guest_2g = \<lparr>wp_device = ''radio0'', wp_iface = ''guest2g'', wp_band = ''2g''\<rparr>,
      wd_guest_5g = \<lparr>wp_device = ''radio1'', wp_iface = ''guest5g'', wp_band = ''5g''\<rparr>,
      wd_index_2g = 0, wd_index_5g = 1,
      wd_encrypt_selects = [''OPEN'', ''WPA/WPA2-PSK'', ''WPA2-PSK/WPA3-SEA''],
      wd_encrypt_vals = [''none'', ''mixed-psk'', ''wpa2pskwpa3psk''],
      wd_hwmode_2g = [''11axg''], wd_hwmode_5g = [''11axa'']\<rparr>"

definition mtk_check_title :: "wifi_driver \<Rightarrow> string \<Rightarrow> bool" where
  "mtk_check_title d t \<longleftrightarrow> t \<in> set (wd_encrypt_selects d)"

text \<open>The tables are Go maps: the last entry of a key counts, and a missing key gives the empty string.\<close>

definition table_value :: "string list \<Rightarrow> string list \<Rightarrow> string \<Rightarrow> string \<Rightarrow> string" where
  "table_value ks vs dflt k =
     (let v = (case map_of (rev (zip ks vs)) k of None \<Rightarrow> [] | Some v \<Rightarrow> v) in if v = [] then dflt else v)"

definition mtk_value_to_title :: "wifi_driver \<Rightarrow> string \<Rightarrow> string" where
  "mtk_value_to_title d = table_value (wd_encrypt_vals d) (wd_encrypt_selects d) ''OPEN''"

definition mtk_title_to_value :: "wifi_driver \<Rightarrow> string \<Rightarrow> string" where
  "mtk_title_to_value d = table_value (wd_encrypt_selects d) (wd_encrypt_vals d) ''none''"

subsection \<open>What an interface looks like\<close>

definition mtk_htmode :: "uci \<Rightarrow> wifi_param \<Rightarrow> string" where
  "mtk_htmode u ps =
     (let dflt = (if wp_band ps = ''5g'' then ''80'' else ''auto'') in
      case wl_last u (wp_device ps) ''htmode'' of
        None \<Rightarrow> dflt
      | Some v \<Rightarrow>
          (if v = ''HE40'' \<and> wp_band ps = ''2g'' then
             (if wl_last u (wp_device ps) ''noscan'' = Some ''1'' then ''HE40'' else ''auto'')
           else if has_prefix v ''HE'' then drop 2 v
           else dflt))"

definition mtk_txpower :: "uci \<Rightarrow> string \<Rightarrow> wifi_param \<Rightarrow> int" where
  "mtk_txpower u opt ps =
     (case wl_last u (wp_device ps) opt of
        None \<Rightarrow> 0
      | Some v \<Rightarrow> (let n = fst (atoi v) in if n \<le> 0 \<or> n > 100 then 100 else n))"

definition mtk_wireless_info :: "wifi_driver \<Rightarrow> string \<Rightarrow> uci \<Rightarrow> wifi_param \<Rightarrow> iface_info" where
  "mtk_wireless_info d power_opt u ps =
     (let device = wp_device ps; ifname = wp_iface ps; band = wp_band ps;
          guest = has_prefix ifname ''guest''
      in \<lparr>ii_band = band,
          ii_channel = (case wl_last u device ''channel'' of None \<Rightarrow> 0 | Some v \<Rightarrow> fst (atoi v)),
          ii_device = device,
          ii_disabled = (if wl_exists u ifname then wl_switch u ifname ''disabled'' else True),
          ii_encrypt_selects = wd_encrypt_selects d,
          ii_encryption = (case wl_last u ifname ''encryption'' of None \<Rightarrow> ''none'' | Some v \<Rightarrow> mtk_value_to_title d v),
          ii_hidden = wl_switch u ifname ''hidden'',
          ii_htmode = mtk_htmode u ps,
          ii_hwmode = wl_or u device ''hwmode'' (if band = ''5g'' then ''11a/n/ac/ax'' else ''11b/g/n/ax''),
          ii_hwmode_selects = (if band = ''2g'' then wd_hwmode_2g d else wd_hwmode_5g d),
          ii_index = 0,
          ii_iface = ifname,
          ii_ifname = wl_or u ifname ''ifname'' '''',
          ii_guest = guest,
          ii_key = wl_or u ifname ''key'' (if guest then ssid_guest_key else ''''),
          ii_ssid = wl_or u ifname ''ssid''
            (if band = ''5g'' then (if guest then ssid_5g_guest else ssid_5g) else (if guest then ssid_2g_guest else ssid_2g)),
          ii_txpower = mtk_txpower u power_opt ps,
          ii_network = wl_or u ifname ''network'' ''lan''\<rparr>)"

definition glinet_info :: "uci \<Rightarrow> wifi_param \<Rightarrow> iface_info" where
  "glinet_info = mtk_wireless_info glinet ''txpower''"

definition zx_info :: "uci \<Rightarrow> wifi_param \<Rightarrow> iface_info" where
  "zx_info = mtk_wireless_info zx3000 ''power''"

subsection \<open>The list of interfaces\<close>

text \<open>The last section of a band names its radio.\<close>

definition band_device :: "uci \<Rightarrow> string list \<Rightarrow> string \<Rightarrow> string" where
  "band_device u secs band =
     foldl (\<lambda>dev s. if wl_last u s ''band'' = Some band then s else dev) [] secs"

definition basic_names :: "wifi_driver \<Rightarrow> string list" where
  "basic_names d = [wp_iface (wd_param_5g d), wp_iface (wd_param_2g d), wp_iface (wd_guest_5g d), wp_iface (wd_guest_2g d)]"

definition priority_less :: "wifi_driver \<Rightarrow> iface_info \<Rightarrow> iface_info \<Rightarrow> bool" where
  "priority_less d a b =
     (let p = (\<lambda>i. case map_of (zip (basic_names d) [0 :: nat ..< 4]) (ii_iface i) of None \<Rightarrow> 0 | Some n \<Rightarrow> n) in p a < p b)"

fun number_from :: "int \<Rightarrow> iface_info list \<Rightarrow> iface_info list" where
  "number_from n [] = []"
| "number_from n (i # is) = i\<lparr>ii_index := n\<rparr> # number_from (n + 1) is"

definition section_info :: "(uci \<Rightarrow> wifi_param \<Rightarrow> iface_info) \<Rightarrow> uci \<Rightarrow> string \<Rightarrow> string \<Rightarrow> string \<Rightarrow> iface_info option" where
  "section_info info u dev2 dev5 sec =
     map_option (\<lambda>device. info u \<lparr>wp_device = device, wp_iface = sec,
         wp_band = (if device = dev2 then ''2g'' else if device = dev5 then ''5g'' else '''')\<rparr>)
       (wl_last u sec ''device'')"

definition arrange_ifaces :: "wifi_driver \<Rightarrow> iface_info list \<Rightarrow> iface_info list" where
  "arrange_ifaces d infos =
     (let basic = filter (\<lambda>i. ii_iface i \<in> set (basic_names d)) infos;
          others = filter (\<lambda>i. ii_iface i \<notin> set (basic_names d)) infos;
          by_name = insertion_sort (\<lambda>a b. str_less (ii_iface a) (ii_iface b));
          two = by_name (filter (\<lambda>i. ii_band i = ''2g'') others);
          five = by_name (filter (\<lambda>i. ii_band i \<noteq> ''2g'') others);
          start = (\<lambda>ps. if wp_iface ps \<in> set (map ii_iface basic) then 1 else 0)
      in insertion_sort (priority_less d) basic @ number_from (start (wd_param_5g d)) five @ number_from (start (wd_param_2g d)) two)"

definition mtk_list_ifaces :: "wifi_driver \<Rightarrow> (uci \<Rightarrow> wifi_param \<Rightarrow> iface_info) \<Rightarrow> (string \<Rightarrow> bool) \<Rightarrow> uci \<Rightarrow> iface_info list result" where
  "mtk_list_ifaces d info keep u =
     (case uci_sections u ''wireless'' ''wifi-device'' of
        None \<Rightarrow> Inl ''no wifi-device sections found''
      | Some devs \<Rightarrow>
          (let dev2 = band_device u devs ''2g''; dev5 = band_device u devs ''5g''
           in if dev2 = [] then Inl ''no 2g wifi-device found''
              else if dev5 = [] then Inl ''no 5g wifi-device found''
              else (case uci_sections u ''wireless'' ''wifi-iface'' of
                      None \<Rightarrow> Inl ''no wifi-iface sections found''
                    | Some secs \<Rightarrow> Inr (arrange_ifaces d (List.map_filter (section_info info u dev2 dev5) (filter keep secs))))))"

definition glinet_list_ifaces :: "uci \<Rightarrow> iface_info list result" where
  "glinet_list_ifaces = mtk_list_ifaces glinet glinet_info (\<lambda>_. True)"

definition zx_list_ifaces :: "uci \<Rightarrow> iface_info list result" where
  "zx_list_ifaces = mtk_list_ifaces zx3000 zx_info (\<lambda>sec. \<not> contains_str sec ''wisp'')"

subsection \<open>Changing an interface\<close>

definition mtk_enable_guest :: "wifi_driver \<Rightarrow> string \<Rightarrow> 'w exec \<Rightarrow> enable_request \<Rightarrow> 'w eff" where
  "mtk_enable_guest d enc exec req =
     (let five = has_suffix (er_iface req) ''5g''
      in batch_run exec (guest_iface_commands
           \<lparr>gp_iface = er_iface req, gp_index = (if five then wd_index_5g d else wd_index_2g d),
            gp_wireless = (if five then ''rax1'' else ''ra1''), gp_ssid = (if five then ssid_5g_guest else ssid_2g_guest),
            gp_encryption = enc, gp_key = [], gp_apply = []\<rparr>) 0)"

definition glinet_enable_guest :: "'w exec \<Rightarrow> enable_request \<Rightarrow> 'w eff" where
  "glinet_enable_guest = mtk_enable_guest glinet ''psk2''"

definition zx_enable_guest :: "'w exec \<Rightarrow> enable_request \<Rightarrow> 'w eff" where
  "zx_enable_guest = mtk_enable_guest zx3000 ''mixed-psk''"

definition mtk_htmode_value :: "string \<Rightarrow> string option" where
  "mtk_htmode_value = htmode_index [''HE40'', ''HE20'', ''HE40'', ''HE80'', ''HE160'']"

definition mtk_edit_commands :: "wifi_driver \<Rightarrow> uci \<Rightarrow> iface_info \<Rightarrow> string list result" where
  "mtk_edit_commands d u req =
     (let iface = ii_iface req; band2g = contains_str iface ''2g''
      in case mtk_htmode_value (ii_htmode req) of
           None \<Rightarrow> Inl ''invalid htmode''
         | Some htmode \<Rightarrow>
             if ii_hwmode req \<notin> set (if band2g then wd_hwmode_2g d else wd_hwmode_5g d) then Inl ''invalid hwmode''
             else (case wl_last u iface ''device'' of
                     None \<Rightarrow> Inl ''device not found''
                   | Some device \<Rightarrow>
                       Inr ([wl_set iface ''ssid'' (dq (ii_ssid req)),
                             wl_set iface ''encryption'' (dq (mtk_title_to_value d (ii_encryption req))),
                             wl_set iface ''key'' (dq (ii_key req)),
                             wl_set device ''channel'' (dq (channel_text (ii_channel req))),
                             hidden_command iface (ii_hidden req)] @
                            htmode_commands iface device (has_suffix iface ''2g'') ''HE40'' (ii_htmode req) htmode @
                            network_commands u req ''wifi reload'')))"

definition mtk_edit_one_iface :: "wifi_driver \<Rightarrow> 'w exec \<Rightarrow> uci \<Rightarrow> iface_info \<Rightarrow> 'w eff" where
  "mtk_edit_one_iface d exec u req w =
     (case mtk_edit_commands d u req of
        Inl e \<Rightarrow> (Some e, w)
      | Inr cmds \<Rightarrow> batch_run exec cmds 0 w)"

definition mtk_guest_commands :: "wifi_driver \<Rightarrow> iface_info \<Rightarrow> string list" where
  "mtk_guest_commands d req =
     (let iface = ii_iface req
      in [wl_set iface ''ssid'' (dq (ii_ssid req)),
          wl_set iface ''encryption'' (dq (mtk_title_to_value d (ii_encryption req))),
          wl_set iface ''key'' (dq (ii_key req)), hidden_command iface (ii_hidden req),
          ''uci commit wireless'', ''wifi reload''])"

definition mtk_edit_iface :: "wifi_driver \<Rightarrow> 'w exec \<Rightarrow> uci \<Rightarrow> iface_info \<Rightarrow> 'w eff" where
  "mtk_edit_iface d exec u req w =
     (if \<not> mtk_check_title d (ii_encryption req) then (Some ''invalid encryption'', w)
      else if has_prefix (ii_iface req) ''guest'' then
        (if \<not> wl_exists u (ii_iface req) then (Some ''Enable guest wifi first'', w)
         else batch_run exec (mtk_guest_commands d req) 0 w)
      else mtk_edit_one_iface d exec u req w)"

definition glinet_edit_one_iface :: "'w exec \<Rightarrow> uci \<Rightarrow> iface_info \<Rightarrow> 'w eff" where
  "glinet_edit_one_iface = mtk_edit_one_iface glinet"

definition zx_edit_one_iface :: "'w exec \<Rightarrow> uci \<Rightarrow> iface_info \<Rightarrow> 'w eff" where
  "zx_edit_one_iface = mtk_edit_one_iface zx3000"

definition glinet_edit_iface :: "'w exec \<Rightarrow> uci \<Rightarrow> iface_info \<Rightarrow> 'w eff" where
  "glinet_edit_iface = mtk_edit_iface glinet"

definition zx_edit_iface :: "'w exec \<Rightarrow> uci \<Rightarrow> iface_info \<Rightarrow> 'w eff" where
  "zx_edit_iface = mtk_edit_iface zx3000"

definition glinet_set_power :: "'w exec \<Rightarrow> power_request \<Rightarrow> 'w eff" where
  "glinet_set_power exec req =
     batch_run exec [wl_set (pr_device req) ''txpower'' (fmt_int (pr_txpower req)), ''uci commit wireless'', ''wifi''] 0"

definition zx_set_power :: "'w exec \<Rightarrow> power_request \<Rightarrow> 'w eff" where
  "zx_set_power exec req =
     batch_run exec [wl_set (pr_device req) ''power'' (fmt_int (pr_txpower req)), ''uci commit wireless'', ''wifi''] 0"

text \<open>
  The addresses of the stations; \<open>assoc\<close> is the answer of \<open>ubus\<close>, decoded. An answer without a list leaves the stations of the one
  before, which are in the set already.
\<close>

definition assoc_query :: "string \<Rightarrow> string" where
  "assoc_query ifname = ''iwinfo assoclist {'' @ dq ''device'' @ '':'' @ dq ifname @ ''}''"

definition glinet_assoc_mac_list :: "(string \<Rightarrow> string list result) \<Rightarrow> string set result" where
  "glinet_assoc_mac_list assoc =
     (case assoc (assoc_query ''ra0'') of
        Inl e \<Rightarrow> Inl e
      | Inr macs \<Rightarrow> Inr (set (map to_upper macs)))"

definition zx_assoc_mac_list :: "(string \<Rightarrow> string list result) \<Rightarrow> uci \<Rightarrow> string set result" where
  "zx_assoc_mac_list assoc u =
     Inr (set (concat (map (\<lambda>sec.
       (case assoc (assoc_query (wl_or u sec ''ifname'' '''')) of Inl _ \<Rightarrow> [] | Inr macs \<Rightarrow> map to_upper macs))
       (filter (\<lambda>sec. wl_or u sec ''disabled'' '''' \<noteq> ''1'') (sections_or_empty u ''wireless'' ''wifi-iface'')))))"

definition glinet_select :: "uci \<Rightarrow> bool" where
  "glinet_select u \<longleftrightarrow> wl_last u ''mt798111'' ''type'' = Some ''mtk''"

definition zx_select :: "uci \<Rightarrow> bool" where
  "zx_select u \<longleftrightarrow> wl_last u ''radio0'' ''type'' = Some ''mt7981''"

section \<open>A change is what the next look shows\<close>

text \<open>The choices of a driver: titles and values in pairs, all different and none empty.\<close>

definition choices_ok :: "wifi_driver \<Rightarrow> bool" where
  "choices_ok d \<longleftrightarrow>
     length (wd_encrypt_selects d) = length (wd_encrypt_vals d) \<and> distinct (wd_encrypt_selects d) \<and> distinct (wd_encrypt_vals d) \<and>
     list_all (\<lambda>v. v \<noteq> [] \<and> quote_safe v) (wd_encrypt_vals d) \<and> list_all (\<lambda>v. v \<noteq> []) (wd_encrypt_selects d)"

lemma table_value_nth:
  assumes "length ks = length vs" "distinct ks" "i < length ks" "vs ! i \<noteq> []"
  shows "table_value ks vs dflt (ks ! i) = vs ! i"
proof -
  have "map_of (zip ks vs) (ks ! i) = Some (vs ! i)"
    using map_of_zip_nth [OF assms(1,2)] assms(1,3) by simp
  moreover have "map_of (rev (zip ks vs)) = map_of (zip ks vs)"
    by (rule map_of_inject_set [THEN iffD2]) (use assms in \<open>simp_all add: rev_map [symmetric]\<close>)
  ultimately show ?thesis using assms(4) by (simp add: table_value_def Let_def)
qed

lemma choices_back:
  assumes "choices_ok d" "t \<in> set (wd_encrypt_selects d)"
  shows "mtk_value_to_title d (mtk_title_to_value d t) = t" and "quote_safe (mtk_title_to_value d t)"
proof -
  from assms(2) obtain i where i: "i < length (wd_encrypt_selects d)" "t = wd_encrypt_selects d ! i"
    by (auto simp: in_set_conv_nth)
  from assms(1) i have v: "mtk_title_to_value d t = wd_encrypt_vals d ! i"
    by (simp add: mtk_title_to_value_def choices_ok_def table_value_nth list_all_length)
  from assms(1) i show "mtk_value_to_title d (mtk_title_to_value d t) = t"
    unfolding v by (simp add: mtk_value_to_title_def choices_ok_def table_value_nth list_all_length)
  from assms(1) i show "quote_safe (mtk_title_to_value d t)"
    unfolding v by (simp add: choices_ok_def list_all_length)
qed

lemma choices_hold: "choices_ok glinet" "choices_ok zx3000"
  by (simp_all add: choices_ok_def glinet_def zx3000_def quote_safe_def)

interpretation glinet_titles: wifi_titles "wd_encrypt_selects glinet" "mtk_title_to_value glinet" "mtk_value_to_title glinet"
  by unfold_locales (rule choices_back(1) [OF choices_hold(1)])

interpretation zx_titles: wifi_titles "wd_encrypt_selects zx3000" "mtk_title_to_value zx3000" "mtk_value_to_title zx3000"
  by unfold_locales (rule choices_back(1) [OF choices_hold(2)])







section \<open>The list is complete\<close>

lemma number_from_facts:
  "map ii_iface (number_from n is) = map ii_iface is" "map ii_band (number_from n is) = map ii_band is"
  "sorted_wrt (<) (map ii_index (number_from n is))" "\<forall>i\<in>set (number_from n is). n \<le> ii_index i"
proof (induction "is" arbitrary: n)
  case (Cons i "is")
  { case 1 show ?case using Cons(1) by simp }
  { case 2 show ?case using Cons(2) by simp }
  { case 3 show ?case using Cons(3) Cons(4) [of "n + 1"] by auto }
  { case 4 show ?case using Cons(4) [of "n + 1"] by auto }
qed simp_all

lemma arrange_names: "mset (map ii_iface (arrange_ifaces d infos)) = mset (map ii_iface infos)"
proof -
  let ?b = "\<lambda>i. ii_iface i \<in> set (basic_names d)" and ?t = "\<lambda>i. ii_band i = ''2g''"
  have split: "mset (filter P xs) + mset (filter (\<lambda>i. \<not> P i) xs) = mset xs" for P :: "iface_info \<Rightarrow> bool" and xs
    by simp
  have split': "mset (filter (\<lambda>i. \<not> P i) xs) + mset (filter P xs) = mset xs" for P :: "iface_info \<Rightarrow> bool" and xs
    using split [of P xs] by (simp only: add.commute)
  have "mset (map ii_iface (arrange_ifaces d infos)) =
      image_mset ii_iface (mset (filter ?b infos) + (mset (filter (\<lambda>i. \<not> ?t i) (filter (\<lambda>i. \<not> ?b i) infos)) + mset (filter ?t (filter (\<lambda>i. \<not> ?b i) infos))))"
    by (simp only: arrange_ifaces_def Let_def map_append mset_append number_from_facts mset_map mset_insertion_sort image_mset_union)
  also have "\<dots> = image_mset ii_iface (mset (filter ?b infos) + mset (filter (\<lambda>i. \<not> ?b i) infos))"
    by (simp only: split')
  also have "\<dots> = mset (map ii_iface infos)" by (simp only: split mset_map)
  finally show ?thesis .
qed

lemma info_names:
  "map ii_iface (List.map_filter (section_info (mtk_wireless_info d power_opt) u dev2 dev5) secs) =
     filter (\<lambda>s. wl_last u s ''device'' \<noteq> None) secs"
  by (induction secs) (auto simp: List.map_filter_simps section_info_def mtk_wireless_info_def Let_def split: option.split)

text \<open>
  The list of a MediaTek router holds every interface section that is not left out and names its radio, once each. The four standard
  interfaces come first; then the others on 5 GHz (or on no known radio) and the others on 2.4 GHz, numbered upwards within each band.
\<close>

theorem mtk_list_complete:
  "case mtk_list_ifaces d (mtk_wireless_info d power_opt) keep u of
     Inl _ \<Rightarrow> True
   | Inr is \<Rightarrow>
       mset (map ii_iface is) = mset (filter (\<lambda>s. keep s \<and> wl_last u s ''device'' \<noteq> None) (sections_or_empty u ''wireless'' ''wifi-iface'')) \<and>
       (\<exists>basic five two. is = basic @ five @ two \<and>
          list_all (\<lambda>i. ii_iface i \<in> set (basic_names d)) basic \<and> list_all (\<lambda>i. ii_band i \<noteq> ''2g'') five \<and> list_all (\<lambda>i. ii_band i = ''2g'') two \<and>
          sorted_wrt (<) (map ii_index five) \<and> sorted_wrt (<) (map ii_index two))"
proof (cases "mtk_list_ifaces d (mtk_wireless_info d power_opt) keep u")
  case (Inr "is")
  then obtain secs dev2 dev5 where secs: "uci_sections u ''wireless'' ''wifi-iface'' = Some secs"
    and "is": "is = arrange_ifaces d (List.map_filter (section_info (mtk_wireless_info d power_opt) u dev2 dev5) (filter keep secs))"
    by (auto simp: mtk_list_ifaces_def Let_def split: option.splits if_splits)
  let ?infos = "List.map_filter (section_info (mtk_wireless_info d power_opt) u dev2 dev5) (filter keep secs)"
  have names: "mset (map ii_iface is) = mset (filter (\<lambda>s. keep s \<and> wl_last u s ''device'' \<noteq> None) (sections_or_empty u ''wireless'' ''wifi-iface''))"
    unfolding "is" arrange_names info_names by (simp add: secs sections_or_empty_def conj_commute)
  have bands: "list_all (\<lambda>i. P (ii_band i)) (number_from n xs) \<longleftrightarrow> list_all (\<lambda>i. P (ii_band i)) xs" for P n xs
    using arg_cong [OF number_from_facts(2), of "list_all P" n xs] by (simp add: list.pred_map comp_def)
  obtain basic five two m n where parts: "is = basic @ number_from m five @ number_from n two"
    and ok: "list_all (\<lambda>i. ii_iface i \<in> set (basic_names d)) basic" "list_all (\<lambda>i. ii_band i \<noteq> ''2g'') five" "list_all (\<lambda>i. ii_band i = ''2g'') two"
    using "is" [unfolded arrange_ifaces_def Let_def] by (rule that) (simp_all add: list_all_iff)
  have "\<exists>basic five two. is = basic @ five @ two \<and>
      list_all (\<lambda>i. ii_iface i \<in> set (basic_names d)) basic \<and> list_all (\<lambda>i. ii_band i \<noteq> ''2g'') five \<and> list_all (\<lambda>i. ii_band i = ''2g'') two \<and>
      sorted_wrt (<) (map ii_index five) \<and> sorted_wrt (<) (map ii_index two)"
    by (rule exI [of _ basic], rule exI [of _ "number_from m five"], rule exI [of _ "number_from n two"])
      (use parts ok bands [of "\<lambda>b. b \<noteq> ''2g''"] bands [of "\<lambda>b. b = ''2g''"] number_from_facts(3) in simp)
  with names show ?thesis unfolding Inr sum.case by blast
qed simp

end
