(* ===== verification/Wifi.thy ===== *)
theory Wifi
  imports WifiQca WifiMtk
begin

text \<open>
  \<open>service/wifi.go\<close>: which driver is in use, and the requests of the wireless page, which go to the
  driver. The drivers register in the order of their files' names. The error for a
  router without a known radio carries a code and a scope, given here as its text.
\<close>

section \<open>The selection of a driver\<close>

datatype wifi_kind = GLinetMT3000 | QcaWifi | ZX3000

definition wifi_funcs :: "wifi_kind list" where
  "wifi_funcs = [GLinetMT3000, QcaWifi, ZX3000]"

fun kind_matches :: "wifi_kind \<Rightarrow> uci \<Rightarrow> bool" where
  "kind_matches GLinetMT3000 u = glinet_select u"
| "kind_matches QcaWifi u = qca_select u"
| "kind_matches ZX3000 u = zx_select u"

text \<open>A registered function keeps the driver in use, when its radio is there.\<close>

definition select_func :: "wifi_kind \<Rightarrow> uci \<Rightarrow> wifi_kind option \<Rightarrow> wifi_kind option" where
  "select_func k u old = (if \<not> kind_matches k u then None else case old of Some o' \<Rightarrow> Some o' | None \<Rightarrow> Some k)"

record wifi_selector =
  sel_selected :: int
  sel_wifi :: "wifi_kind option"

definition new_selector :: wifi_selector where
  "new_selector = \<lparr>sel_selected = -1, sel_wifi = None\<rparr>"

fun select_from :: "uci \<Rightarrow> int \<Rightarrow> wifi_kind list \<Rightarrow> (wifi_kind \<times> int) option" where
  "select_from u i [] = None"
| "select_from u i (k # ks) =
     (case select_func k u None of Some wifi \<Rightarrow> Some (wifi, i) | None \<Rightarrow> select_from u (i + 1) ks)"

definition select_all :: "uci \<Rightarrow> (wifi_kind \<times> int) option" where
  "select_all u = select_from u 0 wifi_funcs"

definition select_wifi :: "uci \<Rightarrow> wifi_selector \<Rightarrow> wifi_kind option \<times> wifi_selector" where
  "select_wifi u st =
     (let again = (case select_all u of
            None \<Rightarrow> (None, st)
          | Some (wifi, i) \<Rightarrow> (Some wifi, \<lparr>sel_selected = i, sel_wifi = Some wifi\<rparr>))
      in if sel_selected st \<ge> 0 then
           (case select_func (wifi_funcs ! nat (sel_selected st)) u (sel_wifi st) of
              Some wifi \<Rightarrow> (Some wifi, st)
            | None \<Rightarrow> again)
         else again)"

definition check_has_wireless :: "uci \<Rightarrow> wifi_selector \<Rightarrow> bool \<times> wifi_selector" where
  "check_has_wireless u st = (case select_wifi u st of (wifi, st') \<Rightarrow> (wifi \<noteq> None, st'))"

section \<open>The operations of a driver\<close>

fun driver_reload :: "wifi_kind \<Rightarrow> string" where
  "driver_reload GLinetMT3000 = ''wifi reload''"
| "driver_reload QcaWifi = qca_reload_command"
| "driver_reload ZX3000 = ''wifi reload''"

fun driver_record :: "wifi_kind \<Rightarrow> wifi_driver" where
  "driver_record GLinetMT3000 = glinet"
| "driver_record QcaWifi = qca_wifi"
| "driver_record ZX3000 = zx3000"

fun driver_info :: "wifi_kind \<Rightarrow> uci \<Rightarrow> wifi_param \<Rightarrow> iface_info" where
  "driver_info GLinetMT3000 = glinet_info"
| "driver_info QcaWifi = qca_wireless_info"
| "driver_info ZX3000 = zx_info"

fun driver_list_ifaces :: "wifi_kind \<Rightarrow> uci \<Rightarrow> iface_info list result" where
  "driver_list_ifaces GLinetMT3000 u = glinet_list_ifaces u"
| "driver_list_ifaces QcaWifi u = Inr (qca_list_ifaces u)"
| "driver_list_ifaces ZX3000 u = zx_list_ifaces u"

fun driver_enable_guest :: "wifi_kind \<Rightarrow> 'w exec \<Rightarrow> enable_request \<Rightarrow> 'w eff" where
  "driver_enable_guest GLinetMT3000 exec = glinet_enable_guest exec"
| "driver_enable_guest QcaWifi exec = qca_enable_guest exec"
| "driver_enable_guest ZX3000 exec = zx_enable_guest exec"

fun driver_edit_one :: "wifi_kind \<Rightarrow> 'w exec \<Rightarrow> uci \<Rightarrow> iface_info \<Rightarrow> 'w eff" where
  "driver_edit_one GLinetMT3000 exec = glinet_edit_one_iface exec"
| "driver_edit_one QcaWifi exec = qca_edit_one_iface exec"
| "driver_edit_one ZX3000 exec = zx_edit_one_iface exec"

fun driver_edit :: "wifi_kind \<Rightarrow> 'w exec \<Rightarrow> uci \<Rightarrow> iface_info \<Rightarrow> 'w eff" where
  "driver_edit GLinetMT3000 exec = glinet_edit_iface exec"
| "driver_edit QcaWifi exec = qca_edit_iface exec"
| "driver_edit ZX3000 exec = zx_edit_iface exec"

fun driver_set_power :: "wifi_kind \<Rightarrow> 'w exec \<Rightarrow> power_request \<Rightarrow> 'w eff" where
  "driver_set_power GLinetMT3000 exec = glinet_set_power exec"
| "driver_set_power QcaWifi exec = qca_set_power exec"
| "driver_set_power ZX3000 exec = zx_set_power exec"

section \<open>The requests\<close>

definition not_compatible :: goerr where
  "not_compatible = ''wireless not compatible''"

definition with_wifi :: "uci \<Rightarrow> wifi_selector \<Rightarrow> (wifi_kind \<Rightarrow> 'w eff) \<Rightarrow> 'w \<Rightarrow> (goerr option \<times> 'w) \<times> wifi_selector" where
  "with_wifi u st f w =
     (case select_wifi u st of
        (None, st') \<Rightarrow> ((Some not_compatible, w), st')
      | (Some k, st') \<Rightarrow> (f k w, st'))"

definition wireless_list_ifaces :: "uci \<Rightarrow> wifi_selector \<Rightarrow> iface_info list result \<times> wifi_selector" where
  "wireless_list_ifaces u st =
     (case select_wifi u st of
        (None, st') \<Rightarrow> (Inl not_compatible, st')
      | (Some k, st') \<Rightarrow> (driver_list_ifaces k u, st'))"

definition enable_plain_iface :: "'w exec \<Rightarrow> uci \<Rightarrow> enable_request \<Rightarrow> string \<Rightarrow> 'w eff" where
  "enable_plain_iface exec u req device =
     (let device_disabled = disable_of_wireless u device;
          iface_disabled = (if \<not> device_disabled then disable_of_wireless u (er_iface req) else False)
      in batch_run exec (iface_plan \<lparr>ip_enable = er_enable req, ip_device = device, ip_iface = er_iface req,
           ip_device_disabled = device_disabled, ip_iface_disabled = iface_disabled, ip_apply = []\<rparr>) 0)"

text \<open>The guest network around the interface: the interface of the network, its DHCP pool and its firewall zone.\<close>

definition setup_guest_network :: "'w exec_out \<Rightarrow> 'w eff" where
  "setup_guest_network exec_out w =
     (let (net, w1) = batch_output exec_out network_probe_commands 0 w;
          (dhcp, w2) = batch_output exec_out dhcp_probe_commands 0 w1;
          (fw, w3) = batch_output exec_out firewall_probe_commands 0 w2;
          cmds = plan_network_commands net @ plan_dhcp_commands dhcp @ plan_firewall_commands fw
      in if cmds = [] then (None, w3)
         else (case batch_output exec_out (cmds @ [success_marker_command]) 0 w3 of
                 (Inl e, w4) \<Rightarrow> (Some e, w4)
               | (Inr out, w4) \<Rightarrow> (if has_success_marker out then None else Some ''unexpected error'', w4)))"

definition enable_on :: "wifi_kind \<Rightarrow> 'w exec \<Rightarrow> 'w exec_out \<Rightarrow> uci \<Rightarrow> enable_request \<Rightarrow> 'w eff" where
  "enable_on k exec exec_out u req w =
     (let iface = er_iface req in
      case wl_last u iface ''device'' of
        None \<Rightarrow> (Some ''device not found'', w)
      | Some device \<Rightarrow>
          (if has_prefix iface ''guest'' then
             (let old_disabled = (if wl_exists u iface then wl_switch u iface ''disabled'' else True)
              in if old_disabled \<noteq> er_enable req then (None, snd (batch_run exec [driver_reload k] 0 w))
                 else if er_enable req then
                   (case setup_guest_network exec_out w of
                      (Some e, w1) \<Rightarrow> (Some e, w1)
                    | (None, w1) \<Rightarrow>
                        (if \<not> wl_exists u iface then driver_enable_guest k exec req w1
                         else batch_run exec [wl_set iface ''disabled'' ''0'', ''uci commit wireless'', driver_reload k] 0 w1))
                 else (None, snd (batch_run exec [wl_set iface ''disabled'' ''1'', ''uci commit wireless'', driver_reload k] 0 w)))
           else enable_plain_iface exec u req device w))"

definition wireless_enable_iface :: "'w exec \<Rightarrow> 'w exec_out \<Rightarrow> uci \<Rightarrow> wifi_selector \<Rightarrow> enable_request \<Rightarrow> 'w \<Rightarrow> (goerr option \<times> 'w) \<times> wifi_selector" where
  "wireless_enable_iface exec exec_out u st req = with_wifi u st (\<lambda>k. enable_on k exec exec_out u req)"

definition wireless_set_power :: "'w exec \<Rightarrow> uci \<Rightarrow> wifi_selector \<Rightarrow> power_request \<Rightarrow> 'w \<Rightarrow> (goerr option \<times> 'w) \<times> wifi_selector" where
  "wireless_set_power exec u st req =
     (let req' = (if pr_txpower req \<le> 0 \<or> pr_txpower req > 100 then req\<lparr>pr_txpower := 100\<rparr> else req)
      in with_wifi u st (\<lambda>k. driver_set_power k exec req'))"

definition wireless_edit_iface :: "'w exec \<Rightarrow> uci \<Rightarrow> wifi_selector \<Rightarrow> iface_info \<Rightarrow> 'w \<Rightarrow> (goerr option \<times> 'w) \<times> wifi_selector" where
  "wireless_edit_iface exec u st req = with_wifi u st (\<lambda>k. driver_edit k exec u req)"

text \<open>Both interfaces are compared with the first key of the request.\<close>

definition quick_setup_done :: "wifi_kind \<Rightarrow> uci \<Rightarrow> iface_info \<Rightarrow> iface_info \<Rightarrow> bool" where
  "quick_setup_done k u w2 w5 =
     (let i2 = driver_info k u (wd_param_2g (driver_record k)); i5 = driver_info k u (wd_param_5g (driver_record k))
      in ii_key i2 = ii_key w2 \<and> ii_ssid i2 = ii_ssid w2 \<and> ii_key i5 = ii_key w2 \<and> ii_ssid i5 = ii_ssid w5)"

definition quick_setup_edits :: "wifi_kind \<Rightarrow> 'w exec \<Rightarrow> uci \<Rightarrow> quick_setup \<Rightarrow> 'w eff" where
  "quick_setup_edits k exec u req w =
     (case (qs_2g req, qs_5g req) of
        (Some w2, Some w5) \<Rightarrow>
          (case driver_edit_one k exec u w2 w of
             (Some e, w1) \<Rightarrow> (Some e, w1)
           | (None, w1) \<Rightarrow> driver_edit_one k exec u w5 w1)
      | _ \<Rightarrow> (Some ''Invalid params'', w))"

definition quick_setup_on :: "wifi_kind \<Rightarrow> 'w exec \<Rightarrow> uci \<Rightarrow> quick_setup \<Rightarrow> 'w eff" where
  "quick_setup_on k exec u req w =
     (case (qs_2g req, qs_5g req) of
        (Some w2, Some w5) \<Rightarrow>
          (if quick_setup_done k u w2 w5 then (None, w) else quick_setup_edits k exec u (normalize_quick_setup req) w)
      | _ \<Rightarrow> (Some ''Invalid params'', w))"

definition wireless_quick_setup :: "'w exec \<Rightarrow> uci \<Rightarrow> wifi_selector \<Rightarrow> quick_setup \<Rightarrow> 'w \<Rightarrow> (goerr option \<times> 'w) \<times> wifi_selector" where
  "wireless_quick_setup exec u st req w =
     (case validate_quick_setup (Some req) of
        Some e \<Rightarrow> ((Some e, w), st)
      | None \<Rightarrow> with_wifi u st (\<lambda>k. quick_setup_on k exec u req) w)"

section \<open>The selection follows the configuration\<close>

lemma kind_exhaust: "k \<in> set wifi_funcs"
  by (cases k) (simp_all add: wifi_funcs_def)

lemma select_from_Some: "select_from u i ks = Some (k, j) \<Longrightarrow> i \<le> j \<and> nat (j - i) < length ks \<and> ks ! nat (j - i) = k \<and> kind_matches k u"
proof (induction ks arbitrary: i)
  case (Cons l ks)
  show ?case
  proof (cases "kind_matches l u")
    case True
    with Cons.prems show ?thesis by (simp add: select_func_def)
  next
    case False
    with Cons.prems have "select_from u (i + 1) ks = Some (k, j)" by (simp add: select_func_def)
    from Cons.IH [OF this] have ih: "i + 1 \<le> j" "nat (j - (i + 1)) < length ks" "ks ! nat (j - (i + 1)) = k" "kind_matches k u"
      by blast+
    have "nat (j - i) = Suc (nat (j - (i + 1)))" using ih(1) by linarith
    with ih show ?thesis by simp
  qed
qed simp

lemma select_from_None: "select_from u i ks = None \<longleftrightarrow> (\<forall>k\<in>set ks. \<not> kind_matches k u)"
  by (induction ks arbitrary: i) (auto simp: select_func_def split: option.splits if_splits)

lemma select_all_facts:
  "select_all u = Some (k, i) \<Longrightarrow> 0 \<le> i \<and> nat i < 3 \<and> wifi_funcs ! nat i = k \<and> kind_matches k u"
  "select_all u = None \<longleftrightarrow> (\<forall>k. \<not> kind_matches k u)"
proof -
  show "0 \<le> i \<and> nat i < 3 \<and> wifi_funcs ! nat i = k \<and> kind_matches k u" if "select_all u = Some (k, i)"
    using select_from_Some [of u 0 wifi_funcs k i] that by (simp add: select_all_def) (simp add: wifi_funcs_def)
  show "select_all u = None \<longleftrightarrow> (\<forall>k. \<not> kind_matches k u)"
    unfolding select_all_def select_from_None using kind_exhaust by blast
qed

definition selector_ok :: "wifi_selector \<Rightarrow> bool" where
  "selector_ok st \<longleftrightarrow>
     (if sel_selected st = -1 then sel_wifi st = None
      else 0 \<le> sel_selected st \<and> sel_selected st < 3 \<and> sel_wifi st = Some (wifi_funcs ! nat (sel_selected st)))"

text \<open>What a selection gives, from a state that names its driver.\<close>

lemma select_wifi_cases:
  fixes st :: wifi_selector and u :: uci and k :: wifi_kind
  assumes "selector_ok st"
  shows "selector_ok (snd (select_wifi u st))"
    and "case fst (select_wifi u st) of None \<Rightarrow> \<forall>k. \<not> kind_matches k u | Some k \<Rightarrow> kind_matches k u \<and> sel_wifi (snd (select_wifi u st)) = Some k"
    and "sel_wifi st = Some k \<Longrightarrow> kind_matches k u \<Longrightarrow> select_wifi u st = (Some k, st)"
proof -
  have cur: "select_func (wifi_funcs ! nat (sel_selected st)) u (sel_wifi st) =
      (if kind_matches (wifi_funcs ! nat (sel_selected st)) u then sel_wifi st else None) \<and>
      sel_wifi st = Some (wifi_funcs ! nat (sel_selected st))" if "sel_selected st \<ge> 0"
    using assms that by (simp add: selector_ok_def select_func_def)
  have neg: "sel_wifi st = None" if "\<not> sel_selected st \<ge> 0"
    using assms that by (auto simp: selector_ok_def split: if_splits)
  show "selector_ok (snd (select_wifi u st))"
    using cur assms select_all_facts(1) [of u]
    by (auto simp: select_wifi_def Let_def selector_ok_def split: option.splits if_splits)
  show "case fst (select_wifi u st) of None \<Rightarrow> \<forall>k. \<not> kind_matches k u | Some k \<Rightarrow> kind_matches k u \<and> sel_wifi (snd (select_wifi u st)) = Some k"
    using cur select_all_facts [of u]
    by (auto simp: select_wifi_def Let_def split: option.splits if_splits)
  show "select_wifi u st = (Some k, st)" if "sel_wifi st = Some k" "kind_matches k u"
    using cur neg that by (auto simp: select_wifi_def Let_def)
qed

lemma selector_ok_run: "selector_ok (foldl (\<lambda>s v. snd (select_wifi v s)) new_selector us)"
proof (induction us rule: rev_induct)
  case Nil
  then show ?case by (simp add: selector_ok_def new_selector_def)
next
  case (snoc v us)
  then show ?case using select_wifi_cases(1) by simp
qed

text \<open>
  C37. After requests under any configurations the selector names the driver it holds; the next selection gives a driver
  whose radio is in the configuration, or none when there is no known radio; and the driver in use stays as long as its
  radio is there, even when one that registered earlier would match.
\<close>

theorem wifi_selection:
  "let st = foldl (\<lambda>s v. snd (select_wifi v s)) new_selector us in
     selector_ok st \<and>
     (case fst (select_wifi u st) of
        None \<Rightarrow> \<forall>k. \<not> kind_matches k u
      | Some k \<Rightarrow> kind_matches k u \<and> sel_wifi (snd (select_wifi u st)) = Some k) \<and>
     (case sel_wifi st of
        None \<Rightarrow> True
      | Some k \<Rightarrow> (if kind_matches k u then select_wifi u st = (Some k, st) else True))"
proof -
  have ok: "selector_ok (foldl (\<lambda>s v. snd (select_wifi v s)) new_selector us)" by (rule selector_ok_run)
  show ?thesis
    unfolding Let_def using select_wifi_cases [OF ok, where u = u] ok by (auto split: option.split)
qed

section \<open>The quick setup\<close>










text \<open>
  What the quick setup compares: the stored key of the 5 GHz interface with the new key of the 2.4 GHz one. So a request that changes only
  the key of the 5 GHz network is answered with success and nothing is done, whenever both networks have had the same key.
\<close>

lemma quick_setup_keeps_5g_key:
  assumes "qs_2g req = Some w2" "qs_5g req = Some w5"
    and "driver_info k u (wd_param_2g (driver_record k)) = i2" "driver_info k u (wd_param_5g (driver_record k)) = i5"
    and "ii_key i2 = ii_key w2" "ii_ssid i2 = ii_ssid w2" "ii_ssid i5 = ii_ssid w5"
  shows "ii_key i5 = ii_key i2 \<Longrightarrow> quick_setup_on k exec u req w = (None, w)"
    and "ii_key i5 \<noteq> ii_key i2 \<Longrightarrow> quick_setup_on k exec u req w = quick_setup_edits k exec u (normalize_quick_setup req) w"
  using assms by (simp_all add: quick_setup_on_def quick_setup_done_def Let_def)

section \<open>Switching an interface\<close>

text \<open>The configuration as the next request loads it, after the commands.\<close>

definition reread :: "string list \<Rightarrow> uci \<Rightarrow> uci" where
  "reread cmds u = u\<lparr>uci_last := (\<lambda>c. if c = ''wireless'' then shell_options cmds (uci_last u c) else uci_last u c)\<rparr>"

lemma reread_last: "wl_last (reread cmds u) s o' = shell_options cmds (uci_last u ''wireless'') s o'"
  by (simp add: wl_last_def reread_def)

lemma reread_exists: "wl_exists (reread cmds u) s = wl_exists u s"
  by (simp add: wl_exists_def reread_def)

lemma disabled_after:
  "wl_exists u s \<Longrightarrow> disable_of_wireless (reread cmds u) s \<longleftrightarrow>
     (case shell_options cmds (uci_last u ''wireless'') s ''disabled'' of None \<Rightarrow> False | Some v \<Rightarrow> fst (atoi v) > 0)"
  by (simp add: disable_of_wireless_def reread_exists wl_switch_def reread_last)

lemma disabled_before:
  "wl_exists u s \<Longrightarrow> disable_of_wireless u s \<longleftrightarrow>
     (case uci_last u ''wireless'' s ''disabled'' of None \<Rightarrow> False | Some v \<Rightarrow> fst (atoi v) > 0)"
  by (simp add: disable_of_wireless_def wl_switch_def wl_last_def)

text \<open>
  Switching an interface on or off is effective: in the configuration its commands leave, the interface is off (by its own switch or the radio's)
  exactly when it was asked to be off. Switching on clears the switch of the radio, and with it those of the other interfaces of that radio count again.
\<close>

theorem switch_effective:
  assumes "section_name device" "section_name (er_iface req)" "wl_exists u device" "wl_exists u (er_iface req)"
  shows "\<exists>cmds. enable_plain_iface exec u req device = batch_run exec cmds 0 \<and>
     ((disable_of_wireless (reread cmds u) device \<or> disable_of_wireless (reread cmds u) (er_iface req)) \<longleftrightarrow> \<not> er_enable req)"
proof -
  let ?i = "er_iface req"
  let ?d = "disable_of_wireless u device" and ?f = "disable_of_wireless u ?i"
  let ?cmds = "iface_plan \<lparr>ip_enable = er_enable req, ip_device = device, ip_iface = ?i,
           ip_device_disabled = ?d, ip_iface_disabled = (if \<not> ?d then ?f else False), ip_apply = []\<rparr>"
  have run: "enable_plain_iface exec u req device = batch_run exec ?cmds 0"
    by (intro ext) (simp add: enable_plain_iface_def Let_def)
  have plain: "unquoted ''0'' = ''0''" "unquoted ''1'' = ''1''" by (simp_all add: unquoted_def)
  note effects = iface_plan_def Let_def shell_set [OF assms(1)] shell_set [OF assms(2)] last_commands disabled_after [OF assms(3)]
    disabled_after [OF assms(4)] plain atoi_texts
  have "(disable_of_wireless (reread ?cmds u) device \<or> disable_of_wireless (reread ?cmds u) ?i) \<longleftrightarrow> \<not> er_enable req"
    using disabled_before [OF assms(3)] disabled_before [OF assms(4)]
    by (cases "er_enable req"; cases ?d; cases ?f; simp add: effects)
  with run show ?thesis by blast
qed

definition switched_off :: uci where
  "switched_off =
     \<lparr>uci_sections = (\<lambda>_ _. None), uci_get = (\<lambda>_ _ _. Some []), uci_last = (\<lambda>_ _ o'. if o' = ''disabled'' then Some ''1'' else None)\<rparr>"

theorem switch_effective_witness:
  "\<exists>cmds. enable_plain_iface recording switched_off \<lparr>er_enable = True, er_iface = ''wifi2g''\<rparr> ''wifi0'' = batch_run recording cmds 0 \<and>
     \<not> disable_of_wireless (reread cmds switched_off) ''wifi0'' \<and> \<not> disable_of_wireless (reread cmds switched_off) ''wifi2g''"
  using switch_effective [of "''wifi0''" "\<lparr>er_enable = True, er_iface = ''wifi2g''\<rparr>" switched_off recording]
  by (simp add: section_name_def wl_exists_def switched_off_def)

end
