(* ===== verification/UciStore.thy ===== *)
theory UciStore
  imports Shell
begin

text \<open>
  What the \<open>uci\<close> tool and its reader promise, for the theorems that follow a change through the configuration and back. A
  configuration file is a list of sections with their options; \<open>uci_line\<close> is the documented effect of the lines the share
  services write: \<open>add\<close>, \<open>set\<close>, \<open>add_list\<close> and \<open>del\<close> on sections named by type and position. The tool is not
  part of the program: \<open>uci_runs\<close> and \<open>uci_reads\<close> state what is assumed of it, for lines without characters special to the shell or to the tool.
\<close>

section \<open>A configuration file\<close>

record conf_section =
  us_type :: string
  us_opts :: "string \<Rightarrow> string list option"

type_synonym conf = "conf_section list"

definition by_type :: "string \<Rightarrow> conf \<Rightarrow> conf_section list" where
  "by_type t c = filter (\<lambda>s. us_type s = t) c"

text \<open>The \<open>i\<close>-th section of a type is replaced by a list of sections, none to delete it.\<close>

fun at_section :: "string \<Rightarrow> nat \<Rightarrow> (conf_section \<Rightarrow> conf_section list) \<Rightarrow> conf \<Rightarrow> conf" where
  "at_section t i f [] = []"
| "at_section t i f (s # ss) =
     (if us_type s = t then (if i = 0 then f s @ ss else s # at_section t (i - 1) f ss) else s # at_section t i f ss)"

definition set_option :: "string \<Rightarrow> string list option \<Rightarrow> conf_section \<Rightarrow> conf_section" where
  "set_option opt vs s = s\<lparr>us_opts := (us_opts s)(opt := vs)\<rparr>"

definition add_value :: "string \<Rightarrow> string \<Rightarrow> conf_section \<Rightarrow> conf_section" where
  "add_value opt v s = set_option opt (Some ((case us_opts s opt of None \<Rightarrow> [] | Some vs \<Rightarrow> vs) @ [v])) s"

section \<open>The lines\<close>

text \<open>\<open>@type[index]\<close> and what follows it.\<close>

definition target_parts :: "string \<Rightarrow> string \<times> nat \<times> string" where
  "target_parts r =
     (let t = takeWhile (\<lambda>c. c \<noteq> CHR ''['') r; r1 = drop (Suc (length t)) r;
          i = takeWhile (\<lambda>c. c \<noteq> CHR '']'') r1; rest = drop (Suc (length i)) r1
      in (t, fst (parse_uint (2 ^ 31) i), rest))"

definition assign_parts :: "string \<Rightarrow> string \<times> string" where
  "assign_parts r = (let opt = takeWhile (\<lambda>c. c \<noteq> CHR ''='') r in (opt, drop (Suc (length opt)) r))"

definition uci_line :: "string \<Rightarrow> string \<Rightarrow> conf \<Rightarrow> conf" where
  "uci_line pkg l c =
     (let ref = pkg @ ''.@'' in
      if has_prefix l (''add '' @ pkg @ '' '') then
        c @ [\<lparr>us_type = takeWhile (\<lambda>x. x \<noteq> CHR '' '') (drop (length (''add '' @ pkg @ '' '')) l), us_opts = (\<lambda>_. None)\<rparr>]
      else if has_prefix l (''set '' @ ref) then
        (let (t, i, rest) = target_parts (drop (length (''set '' @ ref)) l) in
         if has_prefix rest ''='' then at_section t i (\<lambda>s. [s\<lparr>us_type := drop 1 rest\<rparr>]) c
         else (let (opt, v) = assign_parts (drop 1 rest) in at_section t i (\<lambda>s. [set_option opt (Some [v]) s]) c))
      else if has_prefix l (''add_list '' @ ref) then
        (let (t, i, rest) = target_parts (drop (length (''add_list '' @ ref)) l); (opt, v) = assign_parts (drop 1 rest)
         in at_section t i (\<lambda>s. [add_value opt v s]) c)
      else if has_prefix l (''del '' @ ref) then
        (let (t, i, rest) = target_parts (drop (length (''del '' @ ref)) l) in
         if rest = [] then at_section t i (\<lambda>s. []) c else at_section t i (\<lambda>s. [set_option (drop 1 rest) None s]) c)
      else c)"

definition uci_lines :: "string \<Rightarrow> string list \<Rightarrow> conf \<Rightarrow> conf" where
  "uci_lines pkg ls c = foldl (\<lambda>d l. uci_line pkg l d) c ls"

definition special_char :: "char \<Rightarrow> bool" where
  "special_char c \<longleftrightarrow> c \<in> set [CHR 0x0A, CHR 0x22, CHR 0x27, CHR 0x60, CHR 0x5C, CHR ''$'', CHR ''#'', CHR '';'', CHR 0x09]"

definition plain_line :: "string \<Rightarrow> bool" where
  "plain_line l \<longleftrightarrow> l \<noteq> ''EOF'' \<and> list_all (\<lambda>c. \<not> special_char c) l"

text \<open>A value the tool takes as one word.\<close>

definition plain_value :: "string \<Rightarrow> bool" where
  "plain_value v \<longleftrightarrow> v \<noteq> [] \<and> list_all (\<lambda>c. \<not> special_char c \<and> c \<noteq> CHR '' '') v"

section \<open>What is assumed of the tool\<close>

text \<open>
  A batch of plain lines changes the configuration of the package as the lines say, whatever the command that reloads the service returns;
  and the reader of the program sees the sections of a type in their order, with their options.
\<close>

definition uci_runs :: "string \<Rightarrow> 'w exec \<Rightarrow> ('w \<Rightarrow> conf) \<Rightarrow> bool" where
  "uci_runs pkg exec view \<longleftrightarrow>
     (\<forall>ls reload w. list_all plain_line ls \<longrightarrow> newline \<notin> set reload \<longrightarrow>
        view (snd (uci_batch_run exec ls reload 0 w)) = uci_lines pkg ls (view w))"

definition uci_reads :: "string \<Rightarrow> uci \<Rightarrow> conf \<Rightarrow> bool" where
  "uci_reads pkg u c \<longleftrightarrow>
     (\<forall>t. list_all2 (\<lambda>n s. \<forall>opt. uci_get u pkg n opt = us_opts s opt \<and> uci_last u pkg n opt = map_option last (us_opts s opt))
        (sections_or_empty u pkg t) (by_type t c))"

section \<open>Sections by type\<close>

lemma by_type_simps [simp]:
  "by_type t [] = []" "by_type t (c @ d) = by_type t c @ by_type t d"
  "by_type t (s # c) = (if us_type s = t then s # by_type t c else by_type t c)"
  by (simp_all add: by_type_def)

lemma us_type_keep [simp]:
  "us_type (set_option opt vs s) = us_type s" "us_type (add_value opt v s) = us_type s"
  by (simp_all add: set_option_def add_value_def)

lemma by_type_at:
  assumes "\<And>s. us_type s = t \<Longrightarrow> us_type (f s) = t" "i < length (by_type t c)"
  shows "by_type t (at_section t i (\<lambda>s. [f s]) c) = (by_type t c)[i := f (by_type t c ! i)]"
  using assms(2)
proof (induction c arbitrary: i)
  case (Cons s c)
  show ?case
  proof (cases "us_type s = t")
    case True
    then show ?thesis using Cons assms(1) by (cases i) auto
  qed (use Cons in simp)
qed simp

lemma by_type_other:
  assumes "\<And>s. us_type s = t \<Longrightarrow> list_all (\<lambda>r. us_type r = t) (f s)" "t' \<noteq> t"
  shows "by_type t' (at_section t i f c) = by_type t' c"
proof (induction c arbitrary: i)
  case (Cons s c)
  have "by_type t' (f s) = []" if "us_type s = t"
    using assms(1) [OF that] assms(2) by (auto simp: by_type_def list_all_iff filter_empty_conv)
  with Cons assms(2) show ?case by (cases i) auto
qed simp

lemma by_type_delete:
  "i < length (by_type t c) \<Longrightarrow>
   by_type t (at_section t i (\<lambda>s. []) c) = take i (by_type t c) @ drop (Suc i) (by_type t c)"
proof (induction c arbitrary: i)
  case (Cons s c)
  then show ?case by (cases i) auto
qed simp

lemma at_section_twice:
  assumes "\<And>s. us_type s = t \<Longrightarrow> us_type (f s) = t"
  shows "at_section t i (\<lambda>s. [g s]) (at_section t i (\<lambda>s. [f s]) c) = at_section t i (\<lambda>s. [g (f s)]) c"
proof (induction c arbitrary: i)
  case (Cons s c)
  then show ?case using assms by (cases i) auto
qed simp

section \<open>Lines and their effects\<close>

lemma takeWhile_upto: "d \<notin> set s \<Longrightarrow> takeWhile (\<lambda>x. x \<noteq> d) (s @ d # t) = s"
  by (induction s) auto

lemma drop_upto: "drop (Suc (length s)) (s @ d # t) = t"
  by simp

definition at_ref :: "string \<Rightarrow> nat \<Rightarrow> string" where
  "at_ref t i = CHR ''@'' # t @ CHR ''['' # fmt_nat i @ '']''"

lemma bracket_not_number: "CHR '']'' \<notin> set (fmt_nat i)"
  using fmt_nat_digits [of "CHR '']''" i] by (auto simp: digit_val_def)

lemma target_parts_ref:
  assumes "CHR ''['' \<notin> set t" "i \<le> 2 ^ 31"
  shows "target_parts (t @ CHR ''['' # fmt_nat i @ CHR '']'' # rest) = (t, i, rest)"
  by (simp only: target_parts_def Let_def takeWhile_upto [OF assms(1)] drop_upto takeWhile_upto [OF bracket_not_number]
      parse_uint_fmt_nat [OF assms(2)] fst_conv)

lemma assign_parts_of: "CHR ''='' \<notin> set opt \<Longrightarrow> assign_parts (opt @ CHR ''='' # v) = (opt, v)"
  using takeWhile_upto [of "CHR ''=''" opt v] by (simp only: assign_parts_def Let_def simp_thms drop_upto)

text \<open>The lines as the program builds them.\<close>

definition ref_line :: "string \<Rightarrow> string \<Rightarrow> string \<Rightarrow> nat \<Rightarrow> string \<Rightarrow> string" where
  "ref_line verb pkg t i rest = verb @ pkg @ ''.@'' @ t @ ''['' @ fmt_nat i @ '']'' @ rest"

lemma prefix_verbs:
  "\<not> has_prefix (CHR ''s'' # x) (CHR ''a'' # y)" "\<not> has_prefix (CHR ''d'' # x) (CHR ''a'' # y)" "\<not> has_prefix (CHR ''d'' # x) (CHR ''s'' # y)"
  "\<not> has_prefix (CHR ''a'' # x) (CHR ''s'' # y)" "\<not> has_prefix (''add_'' @ x) (''add '' @ y)"
  by (simp_all add: has_prefix_def)

lemma verb_heads:
  "''set '' @ x = CHR ''s'' # ''et '' @ x" "''add '' @ x = CHR ''a'' # ''dd '' @ x"
  "''del '' @ x = CHR ''d'' # ''el '' @ x" "''add_list '' @ x = CHR ''a'' # ''dd_list '' @ x"
  by simp_all

lemma verb_prefix:
  "\<not> has_prefix (''set '' @ x) (''add '' @ y)" "\<not> has_prefix (''del '' @ x) (''add '' @ y)" "\<not> has_prefix (''del '' @ x) (''set '' @ y)"
  "\<not> has_prefix (''del '' @ x) (''add_list '' @ y)" "\<not> has_prefix (''set '' @ x) (''add_list '' @ y)"
  "\<not> has_prefix (''add_list '' @ x) (''set '' @ y)" "\<not> has_prefix (''add_list '' @ x) (''add '' @ y)"
  by (simp_all add: has_prefix_def)

lemma ref_parts:
  assumes "CHR ''['' \<notin> set t" "i \<le> 2 ^ 31"
  shows "has_prefix (ref_line verb pkg t i rest) (verb @ pkg @ ''.@'')"
    "target_parts (drop (length (verb @ pkg @ ''.@'')) (ref_line verb pkg t i rest)) = (t, i, rest)"
proof -
  have eq: "ref_line verb pkg t i rest = (verb @ pkg @ ''.@'') @ (t @ CHR ''['' # fmt_nat i @ CHR '']'' # rest)"
    by (simp add: ref_line_def)
  show "has_prefix (ref_line verb pkg t i rest) (verb @ pkg @ ''.@'')"
    unfolding eq by (rule has_prefix_append)
  show "target_parts (drop (length (verb @ pkg @ ''.@'')) (ref_line verb pkg t i rest)) = (t, i, rest)"
    unfolding eq append_eq_conv_conj using target_parts_ref [OF assms] by simp
qed

lemma line_set:
  assumes "CHR ''['' \<notin> set t" "i \<le> 2 ^ 31" "CHR ''='' \<notin> set opt"
  shows "uci_line pkg (ref_line ''set '' pkg t i (''.'' @ opt @ ''='' @ v)) c = at_section t i (\<lambda>s. [set_option opt (Some [v]) s]) c"
proof -
  have no: "\<not> has_prefix (ref_line ''set '' pkg t i r) (''add '' @ y)" for r y
    unfolding ref_line_def by (rule verb_prefix)
  have dot: "''.'' @ opt @ ''='' @ v = CHR ''.'' # opt @ CHR ''='' # v" "\<not> has_prefix (CHR ''.'' # x) ''=''" "drop 1 (CHR ''.'' # x) = x" for x
    by (simp_all add: has_prefix_def)
  show ?thesis
    by (simp only: uci_line_def Let_def no if_False ref_parts [OF assms(1,2)] if_True prod.case dot assign_parts_of [OF assms(3)])
qed

lemma line_type:
  assumes "CHR ''['' \<notin> set t" "i \<le> 2 ^ 31"
  shows "uci_line pkg (ref_line ''set '' pkg t i (''='' @ t')) c = at_section t i (\<lambda>s. [s\<lparr>us_type := t'\<rparr>]) c"
proof -
  have no: "\<not> has_prefix (ref_line ''set '' pkg t i r) (''add '' @ y)" for r y
    unfolding ref_line_def by (rule verb_prefix)
  have eq: "has_prefix (''='' @ t') ''=''" "drop 1 (''='' @ t') = t'" by (rule has_prefix_append) simp
  show ?thesis
    by (simp only: uci_line_def Let_def no if_False ref_parts [OF assms] if_True prod.case eq)
qed

lemma line_add_list:
  assumes "CHR ''['' \<notin> set t" "i \<le> 2 ^ 31" "CHR ''='' \<notin> set opt"
  shows "uci_line pkg (ref_line ''add_list '' pkg t i (''.'' @ opt @ ''='' @ v)) c = at_section t i (\<lambda>s. [add_value opt v s]) c"
proof -
  have no: "\<not> has_prefix (ref_line ''add_list '' pkg t i r) (''add '' @ y)" "\<not> has_prefix (ref_line ''add_list '' pkg t i r) (''set '' @ y)" for r y
    unfolding ref_line_def by (rule verb_prefix)+
  have dot: "''.'' @ opt @ ''='' @ v = CHR ''.'' # opt @ CHR ''='' # v" "drop 1 (CHR ''.'' # x) = x" for x
    by simp_all
  show ?thesis
    by (simp only: uci_line_def Let_def no if_False ref_parts [OF assms(1,2)] if_True prod.case dot assign_parts_of [OF assms(3)])
qed

lemma line_del:
  assumes "CHR ''['' \<notin> set t" "i \<le> 2 ^ 31"
  shows "uci_line pkg (ref_line ''del '' pkg t i (''.'' @ opt)) c = at_section t i (\<lambda>s. [set_option opt None s]) c"
    and "uci_line pkg (ref_line ''del '' pkg t i []) c = at_section t i (\<lambda>s. []) c"
proof -
  have no: "\<not> has_prefix (ref_line ''del '' pkg t i r) (''add '' @ y)" "\<not> has_prefix (ref_line ''del '' pkg t i r) (''set '' @ y)"
      "\<not> has_prefix (ref_line ''del '' pkg t i r) (''add_list '' @ y)" for r y
    unfolding ref_line_def by (rule verb_prefix)+
  have dot: "''.'' @ opt = CHR ''.'' # opt" "drop 1 (CHR ''.'' # x) = x" "(CHR ''.'' # x = []) = False" for x
    by simp_all
  show "uci_line pkg (ref_line ''del '' pkg t i (''.'' @ opt)) c = at_section t i (\<lambda>s. [set_option opt None s]) c"
    by (simp only: uci_line_def Let_def no if_False ref_parts [OF assms] if_True prod.case dot)
  show "uci_line pkg (ref_line ''del '' pkg t i []) c = at_section t i (\<lambda>s. []) c"
    by (simp only: uci_line_def Let_def no if_False ref_parts [OF assms] if_True prod.case simp_thms)
qed

lemma line_add:
  assumes "CHR '' '' \<notin> set t"
  shows "uci_line pkg (''add '' @ pkg @ '' '' @ t @ '' '') c = c @ [\<lparr>us_type = t, us_opts = (\<lambda>_. None)\<rparr>]"
proof -
  have p: "has_prefix (''add '' @ pkg @ '' '' @ r) (''add '' @ pkg @ '' '')" "drop (length (''add '' @ pkg @ '' '')) (''add '' @ pkg @ '' '' @ r) = r" for r
    using has_prefix_append [of "''add '' @ pkg @ '' ''" r] by simp_all
  have "takeWhile (\<lambda>x. x \<noteq> CHR '' '') (t @ '' '') = t" using takeWhile_upto [OF assms, of "[]"] by simp
  then show ?thesis by (simp only: uci_line_def Let_def p if_True)
qed

lemma line_commit: "uci_line pkg (''commit '' @ pkg) c = c"
proof -
  have "\<not> has_prefix (''commit '' @ pkg) (''add '' @ y)" "\<not> has_prefix (''commit '' @ pkg) (''set '' @ y)"
    "\<not> has_prefix (''commit '' @ pkg) (''del '' @ y)" "\<not> has_prefix (''commit '' @ pkg) (''add_list '' @ y)" for y
    by (simp_all add: has_prefix_def)
  then show ?thesis by (simp only: uci_line_def Let_def if_False)
qed

lemma uci_lines_simps [simp]:
  "uci_lines pkg [] c = c" "uci_lines pkg (l # ls) c = uci_lines pkg ls (uci_line pkg l c)"
  "uci_lines pkg (ks @ ls) c = uci_lines pkg ls (uci_lines pkg ks c)"
  by (simp_all add: uci_lines_def)

text \<open>Plain lines are made of plain parts.\<close>

lemma plain_number: "list_all (\<lambda>c. \<not> special_char c \<and> c \<noteq> CHR '' '') (fmt_nat i)"
proof -
  have "\<not> special_char c \<and> c \<noteq> CHR '' ''" if "c \<in> set (fmt_nat i)" for c
    using fmt_nat_digits [OF that] by (auto simp: digit_val_def special_char_def)
  then show ?thesis by (simp add: list_all_iff)
qed

section \<open>A tool and a reader that keep the promises\<close>

definition conf_exec :: "string \<Rightarrow> conf exec" where
  "conf_exec pkg s t c =
     (case s of
        BashArg _ \<Rightarrow> (None, c)
      | BashStdin txt \<Rightarrow> (None, uci_lines pkg (takeWhile (\<lambda>l. l \<noteq> ''EOF'') (drop 1 (split_on newline txt))) c))"

lemma conf_exec_runs: "uci_runs pkg (conf_exec pkg) (\<lambda>c. c)"
proof -
  have "snd (uci_batch_run (conf_exec pkg) ls reload 0 c) = uci_lines pkg ls c"
    if ls: "list_all plain_line ls" and r: "newline \<notin> set reload" for ls reload c
  proof -
    let ?all = "uci_batch_lines ls reload"
    have nl: "special_char newline" by code_simp
    have heads: "newline \<notin> set ''uci -q batch <<-EOF >/dev/null''" "newline \<notin> set ''EOF''" by code_simp+
    have "newline \<notin> set l" if "l \<in> set ls" for l
      using ls that nl by (auto simp: list_all_iff plain_line_def)
    then have "\<forall>l\<in>set ?all. newline \<notin> set l"
      using r heads by (auto simp: uci_batch_lines_def)
    from split_lines [OF this]
    have "split_on newline (concat (map (\<lambda>c. c @ [newline]) ?all)) = ?all @ [[]]" .
    moreover have "takeWhile (\<lambda>l. l \<noteq> ''EOF'') (drop 1 (?all @ [[]])) = ls"
    proof -
      have "drop 1 (?all @ [[]]) = ls @ ''EOF'' # [reload, [], []]" by (simp add: uci_batch_lines_def)
      moreover have "takeWhile (\<lambda>l. l \<noteq> ''EOF'') (ls @ ''EOF'' # x) = ls" for x
        using ls by (induction ls) (auto simp: plain_line_def)
      ultimately show ?thesis by simp
    qed
    ultimately show ?thesis
      by (simp add: uci_batch_run_def batch_run_def uci_batch_script conf_exec_def)
  qed
  then show ?thesis by (simp add: uci_runs_def)
qed

text \<open>The reader names a section by its position.\<close>

definition conf_read :: "conf \<Rightarrow> uci" where
  "conf_read c =
     \<lparr>uci_sections = (\<lambda>_ t. Some (map (\<lambda>i. replicate i CHR ''x'') (filter (\<lambda>i. us_type (c ! i) = t) [0..<length c]))),
      uci_get = (\<lambda>_ n opt. if length n < length c then us_opts (c ! length n) opt else None),
      uci_last = (\<lambda>_ n opt. if length n < length c then map_option last (us_opts (c ! length n) opt) else None)\<rparr>"

lemma conf_read_reads: "uci_reads pkg (conf_read c) c"
proof -
  have "by_type t c = map ((!) c) (filter (\<lambda>i. us_type (c ! i) = t) [0..<length c])" for t
    unfolding by_type_def by (subst map_nth [of c, symmetric]) (simp only: filter_map comp_def)
  then show ?thesis
    by (auto simp: uci_reads_def conf_read_def sections_or_empty_def list_all2_map1 list_all2_map2 intro!: list_all2_refl list.rel_refl_strong)
qed

end
