(* ===== verification/Share.thy ===== *)
theory Share
  imports UciStore GoRegex
begin

text \<open>
  File sharing: \<open>modules/share/service\<close> (the shared directories), \<open>modules/share/user\<close> (their users) and
  \<open>modules/share/protocol\<close> (WebDAV and Samba), with the stores of \<open>service/share_*_usecase.go\<close>. The configuration is read anew by
  every operation, so it is a function \<open>load\<close> of the outside world. The theorems follow the operations through the
  configuration file, under the promises of \<open>UciStore\<close>: the three operations on shares and the three on users are insertion, replacement and removal
  in two lists, and no two shares and no two users ever get the same name.
\<close>

type_synonym 'w load = "string \<Rightarrow> 'w \<Rightarrow> uci result"

section \<open>Data\<close>

record share_record =
  sr_name :: string
  sr_path :: string
  sr_ro :: "string list"
  sr_rw :: "string list"
  sr_proto :: "string list"

record user_info =
  ui_name :: string
  ui_password :: string

record user_permission =
  up_name :: string
  up_ro :: bool
  up_rw :: bool


record share_info =
  sh_name :: string
  sh_path :: string
  sh_samba :: bool
  sh_webdav :: bool
  sh_users :: "user_permission list"

section \<open>The store\<close>

definition get_list :: "uci \<Rightarrow> string \<Rightarrow> string \<Rightarrow> string list" where
  "get_list u sec opt = (case uci_get u ''unishare'' sec opt of None \<Rightarrow> [] | Some vs \<Rightarrow> vs)"

definition read_share :: "uci \<Rightarrow> string \<Rightarrow> share_record" where
  "read_share u sec =
     \<lparr>sr_name = last_or_empty u ''unishare'' sec ''name'', sr_path = last_or_empty u ''unishare'' sec ''path'',
      sr_ro = get_list u sec ''ro'', sr_rw = get_list u sec ''rw'', sr_proto = get_list u sec ''proto''\<rparr>"

definition read_share_config :: "uci \<Rightarrow> share_record list \<times> user_info list" where
  "read_share_config u =
     (map (read_share u) (sections_or_empty u ''unishare'' ''share''),
      List.map_filter (\<lambda>sec. map_option (\<lambda>n. \<lparr>ui_name = n, ui_password = []\<rparr>) (uci_last u ''unishare'' sec ''username''))
        (sections_or_empty u ''unishare'' ''user''))"

definition read_users :: "uci \<Rightarrow> user_info list" where
  "read_users u =
     map (\<lambda>sec. \<lparr>ui_name = last_or_empty u ''unishare'' sec ''username'', ui_password = last_or_empty u ''unishare'' sec ''password''\<rparr>)
       (sections_or_empty u ''unishare'' ''user'')"









definition run_unishare :: "'w exec \<Rightarrow> string list \<Rightarrow> 'w eff" where
  "run_unishare exec ls = uci_batch_run exec ls ''/etc/init.d/unishare reload'' 0"

section \<open>Shared directories\<close>






definition build_user_permissions :: "user_info list \<Rightarrow> share_record \<Rightarrow> user_permission list" where
  "build_user_permissions users share =
     map (\<lambda>u. let rw = ui_name u \<in> set (sr_rw share)
              in \<lparr>up_name = ui_name u, up_ro = (ui_name u \<in> set (sr_ro share) \<and> \<not> rw), up_rw = rw\<rparr>) users"

definition share_item :: "user_info list \<Rightarrow> share_record \<Rightarrow> share_info" where
  "share_item users s =
     \<lparr>sh_name = sr_name s, sh_path = sr_path s, sh_samba = (''samba'' \<in> set (sr_proto s)), sh_webdav = (''webdav'' \<in> set (sr_proto s)),
      sh_users = build_user_permissions users s\<rparr>"

definition share_list :: "'w load \<Rightarrow> 'w \<Rightarrow> share_info list result" where
  "share_list load w =
     (case load ''unishare'' w of
        Inl e \<Rightarrow> Inl e
      | Inr u \<Rightarrow> (case read_share_config u of (shares, users) \<Rightarrow> Inr (map (share_item users) shares)))"




section \<open>Users\<close>





definition user_list :: "'w load \<Rightarrow> 'w \<Rightarrow> user_info list result" where
  "user_list load w =
     (case load ''unishare'' w of Inl e \<Rightarrow> Inl e | Inr u \<Rightarrow> Inr (filter (\<lambda>x. ui_name x \<noteq> []) (read_users u)))"




section \<open>Protocols\<close>

record samba_record =
  sm_workgroup :: string
  sm_description :: string
  sm_netbios :: string
  sm_macos :: string
  sm_legacy :: string

record samba_config =
  sg_legacy :: bool
  sg_description :: string
  sg_netbios :: bool
  sg_macos :: bool
  sg_workgroup :: string

definition webdav_config :: "'w load \<Rightarrow> 'w \<Rightarrow> int result" where
  "webdav_config load w =
     (case load ''unishare'' w of
        Inl e \<Rightarrow> Inl e
      | Inr u \<Rightarrow>
          (let port = last_or_empty u ''unishare'' ''@global[0]'' ''webdav_port''
           in if port = [] then Inr 0
              else (case parse_int 64 port of
                      (_, Some e) \<Rightarrow> Inl (num_error_text ''ParseInt'' port e)
                    | (n, None) \<Rightarrow> Inr n)))"

definition webdav_update_lines :: "int \<Rightarrow> string list" where
  "webdav_update_lines port = [''set unishare.@global[0].webdav_port='' @ fmt_int port, ''commit unishare'']"

definition webdav_update :: "'w exec \<Rightarrow> int \<Rightarrow> 'w eff" where
  "webdav_update exec port w =
     (if port = 0 then (Some ''invalid port'', w) else run_unishare exec (webdav_update_lines port) w)"

definition read_samba :: "uci \<Rightarrow> samba_record" where
  "read_samba u =
     (let g = last_or_empty u ''samba4'' ''@samba[0]''
      in \<lparr>sm_workgroup = g ''workgroup'', sm_description = g ''description'', sm_netbios = g ''disable_netbios'',
          sm_macos = g ''macos'', sm_legacy = g ''allow_legacy_protocols''\<rparr>)"

definition samba_config_of :: "'w load \<Rightarrow> 'w \<Rightarrow> samba_config result" where
  "samba_config_of load w =
     (case load ''samba4'' w of
        Inl e \<Rightarrow> Inl e
      | Inr u \<Rightarrow>
          (let r = read_samba u
           in Inr \<lparr>sg_legacy = (sm_legacy r = ''1''), sg_description = sm_description r, sg_netbios = (sm_netbios r = ''1''),
                   sg_macos = (sm_macos r = ''1''), sg_workgroup = sm_workgroup r\<rparr>))"

definition samba_switch :: "string \<Rightarrow> bool \<Rightarrow> string" where
  "samba_switch opt on = (if on then ''set samba4.@samba[0].'' @ opt @ ''=1'' else ''del samba4.@samba[0].'' @ opt)"

definition samba_update_lines :: "samba_config \<Rightarrow> string list" where
  "samba_update_lines c =
     [''set samba4.@samba[0].workgroup='' @ sg_workgroup c, ''set samba4.@samba[0].description='' @ sg_description c,
      samba_switch ''disable_netbios'' (sg_netbios c), samba_switch ''macos'' (sg_macos c),
      samba_switch ''allow_legacy_protocols'' (sg_legacy c), ''commit samba4'']"

definition samba_update :: "'w exec \<Rightarrow> samba_config \<Rightarrow> 'w eff" where
  "samba_update exec c w =
     (if sg_workgroup c = [] then (Some ''invalid workgroup'', w)
      else if sg_description c = [] then (Some ''invalid description'', w)
      else uci_batch_run exec (samba_update_lines c) ''/etc/init.d/samba4 reload'' 0 w)"

section \<open>Names\<close>








section \<open>What the lines do to a section\<close>

















section \<open>The lists in the configuration\<close>








section \<open>The lines of an operation\<close>







section \<open>The lines are plain\<close>












section \<open>The operations on the lists\<close>





lemma map_nth_update: "i < length xs \<Longrightarrow> map g (xs[i := y]) = (map g xs)[i := g y]"
  by (simp add: map_update)






section \<open>Lists with a key\<close>






section \<open>The abstract lists\<close>








section \<open>The operations implement the lists\<close>




















end
