(* ===== verification/NasService.thy ===== *)
theory NasService
  imports Shell Trace
begin

text \<open>
  The services of the storage page: \<open>modules/nas/serviceconfig\<close> (a first Samba share, WebDAV, their status),
  \<open>modules/nas/linkease\<close> and their stores \<open>service/nas_service_config_store.go\<close> and
  \<open>service/nas_linkease_enable_usecase.go\<close>. The history holds the batches that are run, the queries and the writing of the
  Samba template; what they answer is any function of the history. Error texts in Chinese are given in English.
\<close>

section \<open>Actions and answers\<close>

datatype nas_action =
    NasQuery string
  | NasBatch "string list"
  | NasTemplate string

type_synonym nas_history = "nas_action list"
type_synonym 'a nas_prog = "(nas_action, unit, 'a) prog"

record nas_env =
  ne_query :: "nas_history \<Rightarrow> string \<Rightarrow> string result"
  ne_fails :: "nas_history \<Rightarrow> string list \<Rightarrow> goerr option"
  ne_template :: "nas_history \<Rightarrow> string result"
  ne_written :: "nas_history \<Rightarrow> goerr option"
  ne_uci :: "nas_history \<Rightarrow> uci"
  ne_lan :: "nas_history \<Rightarrow> string result"
  ne_binary :: "nas_history \<Rightarrow> bool"

definition nas_batch :: "nas_env \<Rightarrow> string list \<Rightarrow> goerr option nas_prog" where
  "nas_batch e cmds = do { act (NasBatch cmds); ask (\<lambda>h. ne_fails e h cmds) }"

definition nas_query :: "nas_env \<Rightarrow> string \<Rightarrow> string result nas_prog" where
  "nas_query e cmd = do { act (NasQuery cmd); ask (\<lambda>h. ne_query e h cmd) }"

section \<open>Data and commands\<close>

record samba_input =
  si_share :: string
  si_root :: string
  si_username :: string
  si_password :: string
  si_legacy :: bool

record webdav_input =
  wi_root :: string
  wi_username :: string
  wi_password :: string

record samba_info =
  ns_share :: string
  ns_path :: string

record webdav_info =
  nw_path :: string
  nw_port :: string
  nw_username :: string
  nw_password :: string

record linkease_info =
  nl_enabled :: bool
  nl_port :: string

definition build_samba_share_commands :: "nat \<Rightarrow> samba_input \<Rightarrow> string list" where
  "build_samba_share_commands n i =
     (let target = ''@sambashare['' @ fmt_nat n @ '']''; set = (\<lambda>opt v. ''uci set samba4.'' @ target @ ''.'' @ opt @ ''='' @ v)
      in [''uci add samba4 sambashare'', ''uci set samba4.@samba[0].enabled=1'', ''uci set samba4.@samba[0].macos=1'',
          set ''name'' (si_share i), set ''path'' (si_root i), set ''read_only'' ''no'', set ''users'' (si_username i),
          set ''create_mask'' ''0777'', set ''force_root'' ''1''] @
         (if si_legacy i then [''uci set samba4.@samba[0].allow_legacy_protocols=1''] else []) @
         [''uci commit samba4'', ''/etc/init.d/samba4 restart''])"

definition build_webdav_config_commands :: "webdav_input \<Rightarrow> string list" where
  "build_webdav_config_commands i =
     [''uci set gowebdav.config.root_dir='' @ wi_root i, ''uci set gowebdav.config.enable=1'',
      ''uci set gowebdav.config.username='' @ wi_username i, ''uci set gowebdav.config.password='' @ wi_password i,
      ''uci set gowebdav.config.allow_wan=1'', ''uci commit gowebdav'']"

definition build_samba_url :: "string \<Rightarrow> string \<Rightarrow> string" where
  "build_samba_url ip share = ''smb://'' @ ip @ ''/'' @ share"

definition build_webdav_url :: "string \<Rightarrow> string \<Rightarrow> string" where
  "build_webdav_url ip port = ''http://'' @ ip @ '':'' @ port"

section \<open>Readers and writers\<close>

definition samba_status :: "nas_env \<Rightarrow> samba_info list nas_prog" where
  "samba_status e = ask (\<lambda>h. let u = ne_uci e h in
     map (\<lambda>s. \<lparr>ns_share = last_or_empty u ''samba4'' s ''name'', ns_path = last_or_empty u ''samba4'' s ''path''\<rparr>)
       (sections_or_empty u ''samba4'' ''sambashare''))"

definition read_webdav_port :: "nas_env \<Rightarrow> string nas_prog" where
  "read_webdav_port e = ask (\<lambda>h. last_or_empty (ne_uci e h) ''gowebdav'' ''config'' ''listen_port'')"

definition read_webdav_info :: "nas_env \<Rightarrow> webdav_info nas_prog" where
  "read_webdav_info e = ask (\<lambda>h. let g = last_or_empty (ne_uci e h) ''gowebdav'' ''config'' in
     \<lparr>nw_path = g ''root_dir'', nw_port = g ''listen_port'', nw_username = g ''username'', nw_password = g ''password''\<rparr>)"

definition linkease_query :: "string \<Rightarrow> string" where
  "linkease_query key = ''uci get linkease.@linkease[0].'' @ key"

text \<open>Whether LinkEase is configured, and its port.\<close>

definition read_linkease_info :: "nas_env \<Rightarrow> (bool \<times> string) result nas_prog" where
  "read_linkease_info e = do {
     enabled \<leftarrow> nas_query e (linkease_query ''preconfig'');
     (case enabled of
        Inl _ \<Rightarrow> State_Monad.return (Inr (False, []))
      | Inr text \<Rightarrow>
          (if length text \<le> 10 then State_Monad.return (Inr (False, []))
           else ok_then (nas_query e (linkease_query ''port'')) (\<lambda>port. State_Monad.return (Inr (True, trim_char newline port)))))
   }"

definition prepare_samba :: "nas_env \<Rightarrow> goerr option nas_prog" where
  "prepare_samba e = nas_batch e [''uci commit samba4'', ''/etc/init.d/samba4 restart'']"

definition samba_user_commands :: "string \<Rightarrow> string \<Rightarrow> string list" where
  "samba_user_commands name password =
     [''useradd '' @ name @ '' -g users -s /sbin/nologin -d /dev/null'',
      ''echo -e '' @ [CHR 0x22] @ password @ [newline] @ password @ [CHR 0x22] @ '' | smbpasswd -a -s '' @ name]"

definition create_samba_user :: "nas_env \<Rightarrow> string \<Rightarrow> string \<Rightarrow> goerr option nas_prog" where
  "create_samba_user e name password = nas_batch e (samba_user_commands name password)"

definition write_samba_share :: "nas_env \<Rightarrow> samba_input \<Rightarrow> goerr option nas_prog" where
  "write_samba_share e i = do {
     n \<leftarrow> ask (\<lambda>h. length (sections_or_empty (ne_uci e h) ''samba4'' ''sambashare''));
     nas_batch e (build_samba_share_commands n i)
   }"

definition write_webdav_config :: "nas_env \<Rightarrow> webdav_input \<Rightarrow> goerr option nas_prog" where
  "write_webdav_config e i = nas_batch e (build_webdav_config_commands i)"

definition restart_webdav :: "nas_env \<Rightarrow> goerr option nas_prog" where
  "restart_webdav e = nas_batch e [''/etc/init.d/gowebdav restart'']"

text \<open>The line that forbids root in the template of Samba is commented out.\<close>

definition comment_invalid_users :: "string \<Rightarrow> string" where
  "comment_invalid_users input =
     join_on [newline] (map (\<lambda>line. if contains_str line ''invalid users'' then ''#'' @ line else line) (split_on newline input))"

definition enable_root :: "nas_env \<Rightarrow> goerr option nas_prog" where
  "enable_root e = do {
     input \<leftarrow> ask (\<lambda>h. ne_template e h);
     (case input of
        Inl err \<Rightarrow> State_Monad.return (Some err)
      | Inr text \<Rightarrow> do { act (NasTemplate (comment_invalid_users text)); ask (\<lambda>h. ne_written e h) })
   }"

section \<open>Services\<close>

definition err_samba_user :: goerr where
  "err_samba_user = ''cannot add the samba user; the name may hold no upper case letter and not begin with a digit''"

definition samba_write :: "nas_env \<Rightarrow> samba_input \<Rightarrow> string result nas_prog" where
  "samba_write e i = do {
     failed \<leftarrow> create_samba_user e (si_username i) (si_password i);
     (case failed of
        Some _ \<Rightarrow> State_Monad.return (Inl err_samba_user)
      | None \<Rightarrow> done_then (write_samba_share e i)
          (ok_then (ask (\<lambda>h. ne_lan e h)) (\<lambda>ip. State_Monad.return (Inr (build_samba_url ip (si_share i))))))
   }"

definition samba_create :: "nas_env \<Rightarrow> samba_input \<Rightarrow> string result nas_prog" where
  "samba_create e i =
     (if si_share i = [] \<or> si_root i = [] \<or> si_username i = [] \<or> si_password i = [] then State_Monad.return (Inl ''param missing'')
      else do {
        shares \<leftarrow> samba_status e;
        (if \<exists>s\<in>set shares. ns_share s = si_share i then State_Monad.return (Inl ''a samba share of this name exists'')
         else done_then (prepare_samba e) (done_then (enable_root e) (samba_write e i)))
      })"

definition webdav_create :: "nas_env \<Rightarrow> webdav_input \<Rightarrow> (string \<times> string) result nas_prog" where
  "webdav_create e i =
     (if wi_root i = [] \<or> wi_username i = [] \<or> wi_password i = [] then State_Monad.return (Inl ''param missing'')
      else done_then (write_webdav_config e i) (done_then (restart_webdav e)
        (ok_then (ask (\<lambda>h. ne_lan e h)) (\<lambda>ip. do {
           port \<leftarrow> read_webdav_port e;
           State_Monad.return (Inr (wi_username i, build_webdav_url ip port))
         }))))"

definition service_status :: "nas_env \<Rightarrow> (samba_info list \<times> webdav_info \<times> linkease_info) result nas_prog" where
  "service_status e = do {
     sambas \<leftarrow> samba_status e;
     webdav \<leftarrow> read_webdav_info e;
     ok_then (read_linkease_info e) (\<lambda>(enabled, port). do {
       there \<leftarrow> ask (\<lambda>h. ne_binary e h);
       State_Monad.return (Inr (sambas, webdav,
         if enabled \<and> there then \<lparr>nl_enabled = True, nl_port = port\<rparr> else \<lparr>nl_enabled = False, nl_port = []\<rparr>))
     })
   }"

definition linkease_read :: "nas_env \<Rightarrow> string \<Rightarrow> string result nas_prog" where
  "linkease_read e key = ok_then (nas_query e (linkease_query key)) (\<lambda>text. State_Monad.return (Inr (trim_space text)))"

definition linkease_writer :: "nas_env \<Rightarrow> goerr option nas_prog" where
  "linkease_writer e = nas_batch e
     [''uci set linkease.@linkease[0].enabled=1'', ''uci commit linkease'', ''/etc/init.d/linkease restart'']"

definition linkease_enable :: "nas_env \<Rightarrow> string result nas_prog" where
  "linkease_enable e =
     ok_then (linkease_read e ''enabled'') (\<lambda>enabled.
       (if enabled \<noteq> ''1'' then done_then (linkease_writer e) (linkease_read e ''port'') else linkease_read e ''port''))"

section \<open>The template\<close>

lemma split_join:
  "ws \<noteq> [] \<Longrightarrow> list_all (\<lambda>w. d \<notin> set w) ws \<Longrightarrow> split_on d (join_on [d] ws) = ws"
proof (induction ws)
  case (Cons w ws)
  then show ?case by (cases ws) (simp_all add: split_on_no_sep split_on_append)
qed simp

lemma comment_lines:
  "split_on newline (comment_invalid_users t) =
     map (\<lambda>line. if contains_str line ''invalid users'' then ''#'' @ line else line) (split_on newline t)"
proof -
  have "newline \<noteq> CHR ''#''" by code_simp
  then show ?thesis
    unfolding comment_invalid_users_def
    by (intro split_join) (auto simp: list_all_iff dest: set_split_on split: if_splits)
qed

section \<open>The order of the steps\<close>

definition samba_steps :: "nas_env \<Rightarrow> samba_input \<Rightarrow> nas_action list \<Rightarrow> bool" where
  "samba_steps e i as \<longleftrightarrow>
     (\<exists>t n. as = [NasBatch [''uci commit samba4'', ''/etc/init.d/samba4 restart''], NasTemplate (comment_invalid_users t),
        NasBatch (samba_user_commands (si_username i) (si_password i)), NasBatch (build_samba_share_commands n i)])"

lemma nas_runs [simp]:
  "result_of (nas_batch e c) h = ne_fails e (h @ [NasBatch c]) c" "after (nas_batch e c) h = h @ [NasBatch c]"
  "result_of (nas_query e q) h = ne_query e (h @ [NasQuery q]) q" "after (nas_query e q) h = h @ [NasQuery q]"
  by (simp_all add: nas_batch_def nas_query_def)

lemma enable_root_runs:
  "result_of (enable_root e) h = (case ne_template e h of Inl err \<Rightarrow> Some err
     | Inr t \<Rightarrow> ne_written e (h @ [NasTemplate (comment_invalid_users t)]))"
  "after (enable_root e) h = h @ (case ne_template e h of Inl err \<Rightarrow> [] | Inr t \<Rightarrow> [NasTemplate (comment_invalid_users t)])"
  by (simp_all add: enable_root_def split: sum.split)

text \<open>Steps that succeeded, one after the other.\<close>

fun step_ok :: "nas_env \<Rightarrow> nas_history \<Rightarrow> nas_action \<Rightarrow> bool" where
  "step_ok e h (NasBatch c) \<longleftrightarrow> ne_fails e h c = None"
| "step_ok e h (NasTemplate t) \<longleftrightarrow> ne_written e h = None"
| "step_ok e h (NasQuery q) \<longleftrightarrow> True"

lemma write_in_order:
  "steps_in_order (step_ok e) (\<lambda>all. \<exists>n. all = [NasBatch (samba_user_commands (si_username i) (si_password i)), NasBatch (build_samba_share_commands n i)]) (samba_write e i)"
proof -
  let ?u = "NasBatch (samba_user_commands (si_username i) (si_password i))"
  have "\<exists>n k. after (samba_write e i) h = h @ take k [?u, NasBatch (build_samba_share_commands n i)] \<and>
      stopped_at (step_ok e) h [?u, NasBatch (build_samba_share_commands n i)] k (result_of (samba_write e i) h)" for h
  proof (cases "ne_fails e (h @ [?u]) (samba_user_commands (si_username i) (si_password i))")
    case None
    let ?n = "length (sections_or_empty (ne_uci e (h @ [?u])) ''samba4'' ''sambashare'')"
    have "after (samba_write e i) h = h @ [?u, NasBatch (build_samba_share_commands ?n i)]"
      using None by (simp add: samba_write_def create_samba_user_def write_samba_share_def split: option.split sum.split)
    moreover have "stopped_at (step_ok e) h [?u, NasBatch (build_samba_share_commands ?n i)] 2 (result_of (samba_write e i) h)"
      using None by (simp add: stopped_at_def samba_write_def create_samba_user_def write_samba_share_def split: option.split sum.split)
    ultimately show ?thesis by (intro exI [of _ ?n] exI [of _ 2]) simp
  next
    case (Some err)
    then have "after (samba_write e i) h = h @ [?u]" "result_of (samba_write e i) h = Inl err_samba_user"
      by (simp_all add: samba_write_def create_samba_user_def)
    then show ?thesis by (intro exI [of _ 0] exI [of _ 1]) (simp add: stopped_first [simplified])
  qed
  then show ?thesis unfolding steps_in_order_def by metis
qed

text \<open>
  C23. Creating a Samba share does its steps in order and stops at the first that fails: the service is restarted, the template loses its
  ban of root, the user is made, and only then the share is written. A step is begun only when the ones before it succeeded, and an address is
  returned only when all four did. A request without a name, a path, a user or a password, or for a share that exists, does nothing.
\<close>

theorem samba_create_order:
  "\<exists>all k. samba_steps e i all \<and> after (samba_create e i) h = h @ take k all \<and> stopped_at (step_ok e) h all k (result_of (samba_create e i) h) \<and>
     (k = 0 \<or> si_share i \<noteq> [] \<and> si_root i \<noteq> [] \<and> si_username i \<noteq> [] \<and> si_password i \<noteq> [] \<and>
        si_share i \<notin> ns_share ` set (result_of (samba_status e) h))"
proof -
  let ?do = "done_then (prepare_samba e) (done_then (enable_root e) (samba_write e i))"
  have enable: "(\<exists>a. (\<exists>t. a = NasTemplate (comment_invalid_users t)) \<and> after (enable_root e) h = h @ [a] \<and>
      (result_of (enable_root e) h = None \<longrightarrow> step_ok e (h @ [a]) a)) \<or>
      result_of (enable_root e) h \<noteq> None \<and> after (enable_root e) h = h" for h
    by (cases "ne_template e h") (auto simp: enable_root_runs)
  have "steps_in_order (step_ok e) (samba_steps e i) ?do"
    by (rule steps_in_order_mono, rule steps_in_order_step [where A = "\<lambda>a. a = NasBatch [''uci commit samba4'', ''/etc/init.d/samba4 restart'']", OF _ refl],
        simp add: prepare_samba_def, rule steps_in_order_step [OF enable _ write_in_order], blast, auto simp: samba_steps_def)
  then obtain all k where go: "samba_steps e i all" "after ?do h = h @ take k all" "stopped_at (step_ok e) h all k (result_of ?do h)"
    unfolding steps_in_order_def by blast
  have quiet: "after (samba_status e) h = h" by (simp add: samba_status_def)
  show ?thesis
  proof (cases "(si_share i = [] \<or> si_root i = [] \<or> si_username i = [] \<or> si_password i = []) \<or>
      (\<exists>s\<in>set (result_of (samba_status e) h). ns_share s = si_share i)")
    case True
    then have "after (samba_create e i) h = h \<and> (\<exists>err. result_of (samba_create e i) h = Inl err)"
      by (auto simp: samba_create_def quiet)
    with go(1) show ?thesis by (intro exI [of _ all] exI [of _ 0]) (auto simp: stopped_first)
  next
    case False
    then have "after (samba_create e i) h = after ?do h" "result_of (samba_create e i) h = result_of ?do h"
      by (simp_all add: samba_create_def quiet del: then_run)
    with go False show ?thesis by (intro exI [of _ all] exI [of _ k]) (simp add: image_iff, metis)
  qed
qed

end
