(* ===== verification/Online.thy ===== *)
theory Online
  imports GoRegex Prelude
begin

text \<open>
  Whether the router is online: the two checkers of \<open>service/network-online.go\<close>. A query answers from the last check and starts a
  new one in the background when that is too old; every operation holds the lock, so each is one step. Times are nanoseconds, the zero
  \<open>time.Time\<close> is 0. What the probes of a check find is up to the outside world.
\<close>

section \<open>The two checkers\<close>

datatype online_status = Detecting | FailedDns | FailedOffline | FailedSoftSource | NetOK

fun online_text :: "online_status \<Rightarrow> string" where
  "online_text Detecting = ''netDetecting''"
| "online_text FailedDns = ''dnsFailed''"
| "online_text FailedOffline = ''netFailed''"
| "online_text FailedSoftSource = ''softSourceFailed''"
| "online_text NetOK = ''netSuccess''"

definition check_window :: "online_status \<Rightarrow> int" where
  "check_window st = (if st = NetOK then 90 else 5) * 10 ^ 9"

record net_checker =
  nc_last :: int
  nc_checking :: bool
  nc_status :: online_status
  nc_key :: string

definition new_net_checker :: net_checker where
  "new_net_checker = \<lparr>nc_last = 0, nc_checking = False, nc_status = Detecting, nc_key = []\<rparr>"

definition cache_key :: "string \<Rightarrow> string \<Rightarrow> string list \<Rightarrow> string \<Rightarrow> string" where
  "cache_key ip gateway dns feed = ip @ ''|'' @ gateway @ ''|'' @ join_on '','' dns @ ''|'' @ feed"

text \<open>The answer, and whether a check was started.\<close>

definition net_query :: "int \<Rightarrow> string \<Rightarrow> net_checker \<Rightarrow> (online_status \<times> bool) \<times> net_checker" where
  "net_query now key s =
     (if nc_checking s then ((Detecting, False), s)
      else if nc_key s = key \<and> now - check_window (nc_status s) < nc_last s then ((nc_status s, False), s)
      else if nc_status s \<noteq> NetOK then ((Detecting, True), s\<lparr>nc_checking := True, nc_status := Detecting\<rparr>)
      else ((nc_status s, True), s\<lparr>nc_checking := True\<rparr>))"

definition net_finish :: "int \<Rightarrow> string \<Rightarrow> online_status \<Rightarrow> net_checker \<Rightarrow> net_checker" where
  "net_finish now key st s = s\<lparr>nc_last := now, nc_key := key, nc_status := st, nc_checking := False\<rparr>"

definition net_reset :: "net_checker \<Rightarrow> net_checker" where
  "net_reset s = s\<lparr>nc_last := 0\<rparr>"

text \<open>What the probes of a check found: two look-ups of names, two connections by address, the feed.\<close>

record probes =
  pb_name1 :: bool
  pb_name2 :: bool
  pb_dial1 :: bool
  pb_dial2 :: bool
  pb_feed :: bool

definition check_status :: "string \<Rightarrow> probes \<Rightarrow> online_status" where
  "check_status feed p =
     (let dns = (if \<not> pb_name1 p \<and> \<not> pb_name2 p then FailedDns else FailedSoftSource);
          net = (if dns = FailedDns \<and> \<not> pb_dial1 p \<and> \<not> pb_dial2 p then FailedOffline else dns)
      in if net = FailedSoftSource then if feed \<noteq> [] then if pb_feed p then NetOK else FailedSoftSource else NetOK
         else net)"

definition feed_check_command :: "string \<Rightarrow> string" where
  "feed_check_command feed = ''curl --fail --show-error --max-time 5 -o /dev/null -s -L '' @ [CHR 0x27] @ feed @ [CHR 0x27]"

definition feed_check_re :: re where
  "feed_check_re = seq [lit ''_base'', spaces_re,
     Cap 1 (seq [lit ''http'', Alt (lit ''s'') Eps, lit ''://'', Star True any_re, Ch (\<lambda>c. c \<noteq> CHR ''/'')]),
     Alt (lit ''/'') Eps, LineEnd]"

definition feed_check_url :: "string result \<Rightarrow> string result" where
  "feed_check_url conf =
     (case conf of
        Inl e \<Rightarrow> Inl e
      | Inr text \<Rightarrow> (case re_find feed_check_re text of None \<Rightarrow> Inl ''feed not found'' | Some c \<Rightarrow> Inr (cap c 1 @ ''/Packages.sig'')))"

definition net_get_status :: "int \<Rightarrow> string \<Rightarrow> string \<Rightarrow> string list \<Rightarrow> string result \<Rightarrow> net_checker \<Rightarrow> (online_status \<times> (string \<times> string) option) \<times> net_checker" where
  "net_get_status now ip gateway dns conf s =
     (let feed = (case feed_check_url conf of Inl _ \<Rightarrow> [] | Inr f \<Rightarrow> f); key = cache_key ip gateway dns feed
      in case net_query now key s of ((st, need), s') \<Rightarrow> ((st, if need then Some (key, feed) else None), s'))"

record foreign_checker =
  fc_last :: int
  fc_checking :: bool
  fc_status :: online_status
  fc_ip :: string
  fc_devices :: int

definition new_foreign_checker :: foreign_checker where
  "new_foreign_checker = \<lparr>fc_last = 0, fc_checking = False, fc_status = Detecting, fc_ip = [], fc_devices = 0\<rparr>"

definition foreign_get_status :: "int \<Rightarrow> foreign_checker \<Rightarrow> ((online_status \<times> string \<times> int) \<times> bool) \<times> foreign_checker" where
  "foreign_get_status now s =
     (if fc_checking s then (((Detecting, fc_ip s, fc_devices s), False), s)
      else if now - check_window (fc_status s) < fc_last s then (((fc_status s, fc_ip s, fc_devices s), False), s)
      else if fc_status s \<noteq> NetOK
      then (((Detecting, fc_ip s, fc_devices s), True), s\<lparr>fc_checking := True, fc_status := Detecting\<rparr>)
      else (((fc_status s, fc_ip s, fc_devices s), True), s\<lparr>fc_checking := True\<rparr>))"

definition foreign_status :: "bool \<Rightarrow> online_status" where
  "foreign_status connected = (if connected then NetOK else FailedOffline)"

definition foreign_finish :: "int \<Rightarrow> string \<Rightarrow> int result \<Rightarrow> bool \<Rightarrow> foreign_checker \<Rightarrow> foreign_checker" where
  "foreign_finish now ip devices connected s =
     s\<lparr>fc_last := now, fc_ip := ip, fc_devices := (case devices of Inl _ \<Rightarrow> 0 | Inr n \<Rightarrow> n), fc_status := foreign_status connected, fc_checking := False\<rparr>"

section \<open>Queries and checks as a machine\<close>

text \<open>
  The state is a clock, the checker, the keys of the checks that are running, and the checks that ended with their times and results. A query may carry
  a clock value that is older than the moment it takes the lock.
\<close>

type_synonym ('s, 'k, 'r) check_machine = "int \<times> 's \<times> 'k list \<times> (int \<times> 'k \<times> 'r) list"

inductive check_step ::
    "int \<Rightarrow> (int \<Rightarrow> 'k \<Rightarrow> 's \<Rightarrow> (online_status \<times> bool) \<times> 's) \<Rightarrow> (int \<Rightarrow> 'k \<Rightarrow> 'r \<Rightarrow> 's \<Rightarrow> 's) \<Rightarrow> ('r \<Rightarrow> online_status) \<Rightarrow> ('s \<Rightarrow> 's)
      \<Rightarrow> ('s, 'k, 'r) check_machine \<Rightarrow> ('s, 'k, 'r) check_machine \<Rightarrow> bool"
  for start query finish result_status reset where
  asked: "start \<le> now \<Longrightarrow> now \<le> c \<Longrightarrow> query now k s = ((st, need), s') \<Longrightarrow>
    check_step start query finish result_status reset (c, s, ws, log) (c, s', (if need then ws @ [k] else ws), log)"
| ended: "ws = us @ k # vs \<Longrightarrow> result_status r \<noteq> Detecting \<Longrightarrow>
    check_step start query finish result_status reset (c, s, ws, log) (c, finish c k r s, us @ vs, log @ [(c, k, r)])"
| was_reset: "check_step start query finish result_status reset (c, s, ws, log) (c, reset s, ws, log)"
| tick: "c \<le> c' \<Longrightarrow> check_step start query finish result_status reset (c, s, ws, log) (c', s, ws, log)"

inductive_cases check_stepE: "check_step start query finish result_status reset m m'"

locale checker =
  fixes start :: int and fresh :: 's
    and query :: "int \<Rightarrow> 'k \<Rightarrow> 's \<Rightarrow> (online_status \<times> bool) \<times> 's"
    and finish :: "int \<Rightarrow> 'k \<Rightarrow> 'r \<Rightarrow> 's \<Rightarrow> 's" and result_status :: "'r \<Rightarrow> online_status" and reset :: "'s \<Rightarrow> 's"
    and busy :: "'s \<Rightarrow> bool" and status :: "'s \<Rightarrow> online_status" and stamp :: "'s \<Rightarrow> int" and same :: "'s \<Rightarrow> 'k \<Rightarrow> bool"
  assumes start_late: "90 * 10 ^ 9 \<le> start"
    and fresh_state: "\<not> busy fresh" "status fresh = Detecting"
    and query_busy: "busy s \<Longrightarrow> query now k s = ((Detecting, False), s)"
    and query_recent: "\<not> busy s \<Longrightarrow> same s k \<Longrightarrow> now - check_window (status s) < stamp s \<Longrightarrow> query now k s = ((status s, False), s)"
    and query_old: "\<not> busy s \<Longrightarrow> \<not> (same s k \<and> now - check_window (status s) < stamp s) \<Longrightarrow>
      \<exists>s'. query now k s = ((if status s = NetOK then NetOK else Detecting, True), s') \<and> busy s' \<and>
        status s' = (if status s = NetOK then NetOK else Detecting) \<and> stamp s' = stamp s \<and> same s' = same s"
    and finish_laws: "\<not> busy (finish now k r s)" "status (finish now k r s) = result_status r" "stamp (finish now k r s) = now"
      "same (finish now k r s) k' \<longleftrightarrow> k' = k"
    and reset_laws: "busy (reset s) = busy s" "status (reset s) = status s" "stamp (reset s) = 0" "same (reset s) = same s"
begin

definition inv :: "('s, 'k, 'r) check_machine \<Rightarrow> bool" where
  "inv = (\<lambda>(c, s, ws, log). start \<le> c \<and> (if busy s then \<exists>k. ws = [k] else ws = []) \<and>
     (status s \<noteq> Detecting \<longrightarrow> (\<exists>t k r. log \<noteq> [] \<and> last log = (t, k, r) \<and> result_status r = status s \<and> t \<le> c \<and>
        (stamp s = t \<or> stamp s = 0) \<and> (\<forall>k'. same s k' \<longleftrightarrow> k' = k))))"

lemma query_cases:
  assumes "query now k s = ((st, need), s')"
  obtains (busy) "busy s" "st = Detecting" "\<not> need" "s' = s"
  | (recent) "\<not> busy s" "same s k" "now - check_window (status s) < stamp s" "st = status s" "\<not> need" "s' = s"
  | (old) "\<not> busy s" "need" "busy s'" "st = (if status s = NetOK then NetOK else Detecting)" "status s' = st" "stamp s' = stamp s" "same s' = same s"
proof (cases "busy s")
  case True
  with assms query_busy show ?thesis by (intro busy) simp_all
next
  case False
  show ?thesis
  proof (cases "same s k \<and> now - check_window (status s) < stamp s")
    case True
    with assms False query_recent [of s k now] show ?thesis by (intro recent) auto
  next
    case old': False
    from query_old [OF False old'] obtain s1 where "query now k s = ((if status s = NetOK then NetOK else Detecting, True), s1)" "busy s1"
        "status s1 = (if status s = NetOK then NetOK else Detecting)" "stamp s1 = stamp s" "same s1 = same s" by blast
    with assms False show ?thesis by (intro old) auto
  qed
qed

lemma inv_start: "inv (start, fresh, [], [])"
  by (simp add: inv_def fresh_state)

lemma inv_kept: "inv m \<Longrightarrow> check_step start query finish result_status reset m m' \<Longrightarrow> inv m'"
proof (erule check_stepE)
  fix now c k s st need s' ws log
  assume "inv m" "m = (c, s, ws, log)" and m': "m' = (c, s', if need then ws @ [k] else ws, log)" and ask: "query now k s = ((st, need), s')"
  then have "inv (c, s, ws, log)" by simp
  with ask show "inv m'"
    unfolding m' by (cases rule: query_cases [OF ask]) (auto simp: inv_def split: if_splits)
qed (auto simp: inv_def finish_laws reset_laws append_eq_Cons_conv split: if_splits)

lemma reach_inv: "reach (start, fresh, [], []) (check_step start query finish result_status reset) m \<Longrightarrow> inv m"
  by (induction rule: reach.induct) (auto intro: inv_start inv_kept)

text \<open>At most one check runs, and what a query answers is what the last check found.\<close>

lemma answers_measured:
  assumes "reach (start, fresh, [], []) (check_step start query finish result_status reset) (c, s, ws, log)"
    and late: "start \<le> now" and ask: "query now k s = ((st, need), s')"
  shows "length ws \<le> 1 \<and> (need \<longrightarrow> ws = []) \<and>
    (st = Detecting \<or> (\<exists>t k' r. log \<noteq> [] \<and> last log = (t, k', r) \<and> result_status r = st \<and>
       (need \<or> k' = k \<and> now - t < check_window st)))"
proof -
  have inv: "inv (c, s, ws, log)" by (rule reach_inv [OF assms(1)])
  have zero: "\<not> now - check_window x < 0" for x using late start_late by (simp add: check_window_def)
  from ask show ?thesis
  proof (cases rule: query_cases)
    case recent
    with inv zero [of st] show ?thesis by (auto simp: inv_def)
  qed (use inv in \<open>auto simp: inv_def split: if_splits\<close>)
qed

text \<open>A result is found again, without another check, until it is too old.\<close>

lemma answers_again:
  "result_status r \<noteq> Detecting \<Longrightarrow> now < t + check_window (result_status r) \<Longrightarrow>
   query now k (finish t k r s) = ((result_status r, False), finish t k r s)"
  by (simp add: query_recent finish_laws)

end

definition clock_start :: int where
  "clock_start = 90 * 10 ^ 9"

interpretation net: checker clock_start new_net_checker net_query net_finish "\<lambda>st. st" net_reset nc_checking nc_status nc_last "\<lambda>s k. nc_key s = k"
  by unfold_locales (auto simp: clock_start_def new_net_checker_def net_query_def net_finish_def net_reset_def)

definition foreign_query :: "int \<Rightarrow> unit \<Rightarrow> foreign_checker \<Rightarrow> (online_status \<times> bool) \<times> foreign_checker" where
  "foreign_query now k s = (case foreign_get_status now s of (((st, ip, devices), need), s') \<Rightarrow> ((st, need), s'))"

interpretation foreign: checker clock_start new_foreign_checker foreign_query
    "\<lambda>now k (ip, devices, connected). foreign_finish now ip devices connected" "\<lambda>(ip, devices, connected). foreign_status connected" "\<lambda>s. s\<lparr>fc_last := 0\<rparr>"
    fc_checking fc_status fc_last "\<lambda>s k. True"
  by unfold_locales (auto simp: clock_start_def new_foreign_checker_def foreign_query_def foreign_get_status_def foreign_finish_def split: prod.split)

lemma check_status_found: "check_status feed p \<noteq> Detecting"
  by (simp add: check_status_def Let_def)

section \<open>Properties\<close>

type_synonym net_machine = "(net_checker, string, online_status) check_machine"

abbreviation net_step :: "net_machine \<Rightarrow> net_machine \<Rightarrow> bool" where
  "net_step \<equiv> check_step clock_start net_query net_finish (\<lambda>st. st) net_reset"

text \<open>
  C21. Whatever the order of queries, resets and ends of checks: at most one check runs; an answer other than detecting is the result of the
  last check; and without a new check it is that of a check of the same network, 90 seconds old at most, or 5 when the network failed.
\<close>

theorem online_answers_measured:
  assumes "reach (clock_start, new_net_checker, [], []) net_step (c, s, ws, log)" "clock_start \<le> now"
    and "net_get_status now ip gateway dns conf s = ((st, check), s')"
  shows "length ws \<le> 1 \<and> (check \<noteq> None \<longrightarrow> ws = []) \<and>
    (st = Detecting \<or> (\<exists>t key. log \<noteq> [] \<and> last log = (t, key, st) \<and>
       (check = None \<longrightarrow> now - t < check_window st \<and> (\<exists>feed. key = cache_key ip gateway dns feed))))"
proof -
  let ?feed = "case feed_check_url conf of Inl _ \<Rightarrow> [] | Inr f \<Rightarrow> f"
  obtain st' need s1 where q: "net_query now (cache_key ip gateway dns ?feed) s = ((st', need), s1)" by (metis prod.exhaust)
  with assms(3) have "st = st'" "check = None \<longleftrightarrow> \<not> need" by (auto simp: net_get_status_def Let_def split: if_splits)
  with net.answers_measured [OF assms(1,2) q] show ?thesis by auto
qed

lemma online_scenario:
  "reach (clock_start, new_net_checker, [], []) net_step
     (clock_start + 10, net_finish (clock_start + 10) (cache_key ''1.2.3.4'' ''1.2.3.1'' [''1.1.1.1''] []) NetOK
        (new_net_checker\<lparr>nc_checking := True\<rparr>), [],
      [(clock_start + 10, cache_key ''1.2.3.4'' ''1.2.3.1'' [''1.1.1.1''] [], NetOK)])"
  (is "reach ?i _ ?m")
proof -
  let ?k = "cache_key ''1.2.3.4'' ''1.2.3.1'' [''1.1.1.1''] []"
  let ?busy = "new_net_checker\<lparr>nc_checking := True\<rparr>"
  have "reach ?i net_step ?i" by (rule reach.intros)
  then have "reach ?i net_step (clock_start, ?busy, [] @ [?k], [])"
    by (rule reach.intros, intro asked [where need = True and st = Detecting and now = clock_start, simplified] order_refl)
      (simp add: net_query_def new_net_checker_def check_window_def clock_start_def cache_key_def)
  then have "reach ?i net_step (clock_start + 10, ?busy, [?k], [])"
    by (rule reach.intros) (simp add: tick)
  then have "reach ?i net_step (clock_start + 10, net_finish (clock_start + 10) ?k NetOK ?busy, [] @ [], [] @ [(clock_start + 10, ?k, NetOK)])"
    by (rule reach.intros) (rule ended, simp_all)
  then show ?thesis by simp
qed

theorem online_answers_measured_witness:
  "\<exists>s' t key. net_get_status (clock_start + 20) ''1.2.3.4'' ''1.2.3.1'' [''1.1.1.1''] (Inl ''no file'')
      (net_finish (clock_start + 10) (cache_key ''1.2.3.4'' ''1.2.3.1'' [''1.1.1.1''] []) NetOK (new_net_checker\<lparr>nc_checking := True\<rparr>)) =
      ((NetOK, None), s') \<and>
    last [(clock_start + 10, cache_key ''1.2.3.4'' ''1.2.3.1'' [''1.1.1.1''] [], NetOK)] = (t, key, NetOK) \<and> clock_start + 20 - t < check_window NetOK"
proof -
  let ?k = "cache_key ''1.2.3.4'' ''1.2.3.1'' [''1.1.1.1''] []"
  let ?s = "net_finish (clock_start + 10) ?k NetOK (new_net_checker\<lparr>nc_checking := True\<rparr>)"
  have q: "net_get_status (clock_start + 20) ''1.2.3.4'' ''1.2.3.1'' [''1.1.1.1''] (Inl ''no file'') ?s = ((NetOK, None), ?s)"
    by (simp add: net_get_status_def feed_check_url_def net_query_def net_finish_def check_window_def Let_def)
  show ?thesis
    using online_answers_measured [OF online_scenario _ q] q by auto
qed

text \<open>While a check runs, a query is told that the network is being detected, although the last result is known and good.\<close>

lemma online_flickers:
  "\<not> nc_checking s \<Longrightarrow> nc_status s = NetOK \<Longrightarrow> nc_last s \<le> now - check_window NetOK \<Longrightarrow>
   net_query now key s = ((NetOK, True), s\<lparr>nc_checking := True\<rparr>) \<and>
   net_query now key (s\<lparr>nc_checking := True\<rparr>) = ((Detecting, False), s\<lparr>nc_checking := True\<rparr>)"
  by (simp add: net_query_def)

text \<open>A reset that comes while a check runs is lost.\<close>

lemma reset_lost: "net_finish now key st (net_reset s) = net_finish now key st s"
  by (simp add: net_finish_def net_reset_def)

text \<open>The address of the feed may take the end of its line with it: when the line is the last one, or an empty line follows.\<close>

lemma feed_url_with_newline:
  "feed_check_url (Inr (''src/gz x_base http://h/p'' @ [CHR 0x0A])) = Inr (''http://h/p'' @ [CHR 0x0A] @ ''/Packages.sig'')"
  by code_simp

end
