(* ===== verification/NetStatus.thy ===== *)
theory NetStatus
  imports Online GoNet Shell
begin

text \<open>
  How the router reaches the network: the choice of the outbound interfaces out of what \<open>ubus\<close> reports
  (\<open>service/service-tool.go\<close>), the status page (\<open>modules/network/status\<close>, \<open>service/network_status_*.go\<close>), the public address
  (\<open>modules/network/publicaddress\<close>) and the text of an uptime (\<open>utils/timetick.go\<close>). The reports hold no nil entries. The floating point
  quotients of the uptime are exact for less than \<open>2 ^ 40\<close> seconds.
\<close>

section \<open>Reports\<close>

record ubus_route =
  rt_nexthop :: string
  rt_target :: string
  rt_mask :: int

record ubus_address =
  ua_address :: string
  ua_mask :: int

record ubus_prefix =
  up_local :: "ubus_address option"

record ubus_interface =
  ub_name :: string
  ub_routes :: "ubus_route list"
  ub_device :: string
  ub_proto :: string
  ub_l3 :: string
  ub_ipv4 :: "ubus_address list"
  ub_dns :: "string list"
  ub_ipv6 :: "ubus_address list"
  ub_prefixes :: "ubus_prefix list"
  ub_uptime :: int
  ub_table4 :: "int option"
  ub_table6 :: "int option"

record outbound =
  ob_name :: string
  ob_device :: string
  ob_ip :: string
  ob_dns :: "string list"
  ob_mask :: int
  ob_gateway :: string
  ob_proto :: string
  ob_l3 :: string
  ob_uptime :: int

definition no_outbound :: outbound where
  "no_outbound = \<lparr>ob_name = [], ob_device = [], ob_ip = [], ob_dns = [], ob_mask = 0, ob_gateway = [], ob_proto = [], ob_l3 = [], ob_uptime = 0\<rparr>"

section \<open>The outbound interfaces\<close>

definition outbound_of :: "ubus_interface \<Rightarrow> ubus_address \<Rightarrow> ubus_route \<Rightarrow> outbound" where
  "outbound_of i a r =
     \<lparr>ob_name = ub_name i, ob_device = ub_device i, ob_ip = ua_address a, ob_dns = ub_dns i, ob_mask = ua_mask a, ob_gateway = rt_nexthop r,
      ob_proto = ub_proto i, ob_l3 = ub_l3 i, ob_uptime = ub_uptime i\<rparr>"

definition main_table :: "int option \<Rightarrow> bool" where
  "main_table t \<longleftrightarrow> t = None \<or> t = Some 254"

definition route_ipv4 :: "ubus_interface \<Rightarrow> ubus_route \<Rightarrow> outbound option" where
  "route_ipv4 i r =
     (if main_table (ub_table4 i) \<and> rt_target r = ''0.0.0.0'' \<and> rt_mask r = 0 \<and> ub_ipv4 i \<noteq> []
      then Some (outbound_of i (hd (ub_ipv4 i)) r) else None)"

definition address_ipv6 :: "ubus_interface \<Rightarrow> ubus_address option" where
  "address_ipv6 i =
     (if ub_ipv6 i \<noteq> [] then Some (hd (ub_ipv6 i))
      else if ub_prefixes i \<noteq> [] then up_local (hd (ub_prefixes i))
      else None)"

definition route_ipv6 :: "ubus_interface \<Rightarrow> ubus_route \<Rightarrow> outbound option" where
  "route_ipv6 i r =
     (if main_table (ub_table6 i) \<and> rt_target r = ''::'' \<and> rt_mask r = 0 then map_option (\<lambda>a. outbound_of i a r) (address_ipv6 i)
      else None)"

definition take_route :: "outbound \<Rightarrow> outbound option \<Rightarrow> outbound" where
  "take_route cur new = (if ob_ip cur = [] then case new of None \<Rightarrow> cur | Some o' \<Rightarrow> o' else cur)"

definition outbound_route :: "ubus_interface \<Rightarrow> outbound \<times> outbound \<Rightarrow> ubus_route \<Rightarrow> outbound \<times> outbound" where
  "outbound_route i st r = (take_route (fst st) (route_ipv4 i r), take_route (snd st) (route_ipv6 i r))"

fun outbound_loop :: "outbound \<times> outbound \<Rightarrow> ubus_interface list \<Rightarrow> outbound \<times> outbound" where
  "outbound_loop st [] = st"
| "outbound_loop st (i # is) =
     (let st' = foldl (outbound_route i) st (ub_routes i)
      in if ob_ip (fst st') \<noteq> [] \<and> ob_ip (snd st') \<noteq> [] then st' else outbound_loop st' is)"

definition outbound_interfaces :: "ubus_interface list result \<Rightarrow> (outbound \<times> outbound) result" where
  "outbound_interfaces dump =
     (case dump of
        Inl _ \<Rightarrow> Inl ''cannot get the interface in use''
      | Inr is \<Rightarrow> Inr (outbound_loop (no_outbound, no_outbound) is))"

text \<open>\<open>outboundInterface\<close>: the first route of either kind; the routing table is not looked at.\<close>

definition any_route :: "ubus_interface \<Rightarrow> ubus_route \<Rightarrow> outbound option" where
  "any_route i r =
     (if rt_target r = ''0.0.0.0'' \<and> rt_mask r = 0 \<and> ub_ipv4 i \<noteq> [] then Some (outbound_of i (hd (ub_ipv4 i)) r)
      else if rt_target r = ''::'' \<and> rt_mask r = 0 \<and> ub_ipv6 i \<noteq> [] then Some (outbound_of i (hd (ub_ipv6 i)) r)
      else None)"

definition outbound_interface :: "ubus_interface list result \<Rightarrow> outbound result" where
  "outbound_interface dump =
     (case dump of
        Inl _ \<Rightarrow> Inl ''cannot get the interface in use''
      | Inr is \<Rightarrow>
          (case List.map_filter (\<lambda>(i, r). any_route i r) (concat (map (\<lambda>i. map (\<lambda>r. (i, r)) (ub_routes i)) is)) of
             [] \<Rightarrow> Inr (no_outbound\<lparr>ob_name := ''wan'', ob_device := ''eth0''\<rparr>)
           | x # _ \<Rightarrow> Inr x))"

record ubus_lan_state =
  ls_address :: string
  ls_default :: bool
  ls_nexthop :: string

definition ubus_lan_status :: "ubus_interface result \<Rightarrow> ubus_lan_state result" where
  "ubus_lan_status dump =
     (case dump of
        Inl e \<Rightarrow> Inl e
      | Inr i \<Rightarrow>
          (let address = (case ub_ipv4 i of [] \<Rightarrow> [] | a # _ \<Rightarrow> ua_address a)
           in case ub_routes i of
                [] \<Rightarrow> Inr \<lparr>ls_address = address, ls_default = False, ls_nexthop = []\<rparr>
              | r # _ \<Rightarrow>
                  if rt_target r = ''0.0.0.0'' \<and> rt_mask r = 0
                  then Inr \<lparr>ls_address = address, ls_default = True, ls_nexthop = rt_nexthop r\<rparr>
                  else Inr \<lparr>ls_address = address, ls_default = False, ls_nexthop = []\<rparr>))"

section \<open>Public addresses\<close>

definition is_loopback :: "ip \<Rightarrow> bool" where
  "is_loopback a = (if to4 a \<noteq> [] then to4 a ! 0 = 127 else a = replicate 15 0 @ [1])"

definition is_link_local_multicast :: "ip \<Rightarrow> bool" where
  "is_link_local_multicast a =
     (if to4 a \<noteq> [] then take 3 (to4 a) = [224, 0, 0] else length a = 16 \<and> a ! 0 = 0xff \<and> and (a ! 1) 0x0f = 0x02)"

definition is_link_local_unicast :: "ip \<Rightarrow> bool" where
  "is_link_local_unicast a =
     (if to4 a \<noteq> [] then take 2 (to4 a) = [169, 254] else length a = 16 \<and> a ! 0 = 0xfe \<and> and (a ! 1) 0xc0 = 0x80)"

definition is_public_ipv4 :: "string \<Rightarrow> bool" where
  "is_public_ipv4 s =
     (let a = parse_ip s
      in if is_loopback a \<or> is_link_local_multicast a \<or> is_link_local_unicast a then False
         else if to4 a \<noteq> [] then
           (if to4 a ! 0 = 10 then False
            else if to4 a ! 0 = 172 \<and> to4 a ! 1 \<ge> 16 \<and> to4 a ! 1 \<le> 31 then False
            else if to4 a ! 0 = 192 \<and> to4 a ! 1 = 168 then False
            else True)
         else False)"

definition is_public_ipv6 :: "string \<Rightarrow> bool" where
  "is_public_ipv6 s =
     (let a = parse_ip s
      in if is_loopback a \<or> is_link_local_multicast a \<or> is_link_local_unicast a then False
         else a \<noteq> [] \<and> has_prefix s ''2'')"

definition select_public_address :: "string \<times> string \<Rightarrow> string \<Rightarrow> string result" where
  "select_public_address found version =
     (if version = ''ipv4'' then if fst found = [] then Inl ''no ipv4 address'' else Inr (fst found)
      else if version = ''ipv6'' then if snd found = [] then Inl ''no ipv6 address'' else Inr (snd found)
      else Inl (''IPVersion: wrong parameter '' @ version))"

definition check_public_address :: "ubus_interface list result \<Rightarrow> string \<Rightarrow> string result" where
  "check_public_address dump version =
     (case outbound_interfaces dump of
        Inl e \<Rightarrow> Inl e
      | Inr (v4, v6) \<Rightarrow>
          (case select_public_address (ob_ip v4, ob_ip v6) version of
             Inl e \<Rightarrow> Inl e
           | Inr address \<Rightarrow> Inr (if (if version = ''ipv6'' then is_public_ipv6 address else is_public_ipv4 address) then address else [])))"

section \<open>The status page\<close>

definition go_rem :: "int \<Rightarrow> int \<Rightarrow> int" where
  "go_rem a b = a - go_quot a b * b"

definition plural :: "int \<Rightarrow> string \<Rightarrow> string" where
  "plural n unit = fmt_int n @ unit @ '' ''"

definition human_fields :: "int \<Rightarrow> (int \<times> string) list" where
  "human_fields n =
     (let y = 60 * 60 * 24 * 7 * 30 * 12; mo = 60 * 60 * 24 * 7 * 30; w = 60 * 60 * 24 * 7; d = 60 * 60 * 24; h = 60 * 60
      in [(n div y, ''y''), (go_rem n y div mo, ''m''), (go_rem n mo div w, ''w''), (go_rem n w div d, ''d''), (go_rem n d div h, ''h''),
          (go_rem n h div 60, ''m''), (go_rem n 60, ''s'')])"

definition seconds_to_human :: "int \<Rightarrow> string" where
  "seconds_to_human n =
     (let fields = human_fields n
      in concat (map (\<lambda>(k, u). plural k u) (dropWhile (\<lambda>(k, u). k \<le> 0) (butlast fields) @ [last fields])))"

record net_status =
  ns_interface :: string
  ns_dns :: "string list"
  ns_dns_proto :: string
  ns_ipv6 :: string
  ns_ipv4 :: string
  ns_mask :: int
  ns_proto :: string
  ns_gateway :: string
  ns_uptime_stamp :: int
  ns_uptime :: string
  ns_info :: string

definition fallback_ipv4 :: "outbound \<Rightarrow> outbound" where
  "fallback_ipv4 o' =
     (if ob_name o' = [] then o'\<lparr>ob_name := ''wan'', ob_device := (if ob_device o' = [] then ''eth0'' else ob_device o')\<rparr> else o')"

definition resolve_dns :: "string \<Rightarrow> string option \<Rightarrow> string list \<Rightarrow> string list \<Rightarrow> string \<times> string list" where
  "resolve_dns proto peerdns outbound_dns manual =
     (if proto = ''static'' \<or> peerdns = Some ''0'' then (''manual'', manual) else (''auto'', outbound_dns))"

definition build_status :: "outbound \<Rightarrow> string \<Rightarrow> string \<times> string list \<Rightarrow> net_status" where
  "build_status v4 ipv6 dns =
     (let up = ob_uptime v4 in
      \<lparr>ns_interface = ob_name v4, ns_dns = snd dns, ns_dns_proto = fst dns, ns_ipv6 = ipv6, ns_ipv4 = ob_ip v4,
       ns_mask = sint (word_of_int (ob_mask v4) :: 32 word), ns_proto = ob_proto v4, ns_gateway = ob_gateway v4,
       ns_uptime_stamp = (if up > 0 then up else 0), ns_uptime = (if up > 0 then seconds_to_human up else []), ns_info = []\<rparr>)"

definition read_network_status :: "ubus_interface list result \<Rightarrow> uci \<Rightarrow> net_status result" where
  "read_network_status dump u =
     (case outbound_interfaces dump of
        Inl e \<Rightarrow> Inl e
      | Inr (v4, v6) \<Rightarrow>
          (let o' = fallback_ipv4 v4; peer = uci_last u ''network'' (ob_name o') ''peerdns'';
               manual = (if ob_proto o' = ''static'' \<or> peer = Some ''0''
                         then case uci_get u ''network'' (ob_name o') ''dns'' of None \<Rightarrow> [] | Some vs \<Rightarrow> vs else [])
           in Inr (build_status o' (ob_ip v6) (resolve_dns (ob_proto o') peer (ob_dns o') manual))))"

text \<open>The commands that mark the set-up as finished, when it is not marked already.\<close>

definition mark_setup_commands :: "uci \<Rightarrow> string list" where
  "mark_setup_commands u =
     (if uci_last u ''quickstart'' ''main'' ''setup'' \<noteq> Some ''1''
      then [''uci -q set quickstart.main.setup=1'', ''uci commit quickstart''] else [])"

text \<open>
  The status, the commands that are run, and the checker with the check it started. Without a checker (the services of other pages)
  nothing is checked.
\<close>

definition network_status ::
    "int \<Rightarrow> ubus_interface list result \<Rightarrow> uci \<Rightarrow> string result \<Rightarrow> bool \<Rightarrow> net_checker \<Rightarrow>
     (net_status \<times> string list \<times> (string \<times> string) option) result \<times> net_checker" where
  "network_status now dump u conf setup_finish s =
     (case read_network_status dump u of
        Inl e \<Rightarrow> (Inl e, s)
      | Inr r \<Rightarrow>
          (case net_get_status now (ns_ipv4 r) (ns_gateway r) (ns_dns r) conf s of
             ((st, check), s') \<Rightarrow>
               (Inr (r\<lparr>ns_info := online_text st\<rparr>,
                     if setup_finish \<and> st \<noteq> Detecting \<and> st \<noteq> FailedOffline then mark_setup_commands u else [], check), s')))"

definition network_status_unchecked :: "ubus_interface list result \<Rightarrow> uci \<Rightarrow> net_status result" where
  "network_status_unchecked dump u = read_network_status dump u"

section \<open>Facts\<close>

lemma go_rem_nonneg: "0 \<le> a \<Longrightarrow> 0 < b \<Longrightarrow> go_rem a b = a mod b"
  by (simp add: go_rem_def go_quot_nonneg minus_div_mult_eq_mod)

text \<open>The fields of an uptime add up to it, when a month is taken as 30 weeks and a year as 12 such months.\<close>

lemma human_fields_sum:
  assumes "0 \<le> n"
  shows "case map fst (human_fields n) of
      [y, mo, w, d, h, mi, s] \<Rightarrow> 217728000 * y + (18144000 * mo + (604800 * w + (86400 * d + (3600 * h + (60 * mi + s))))) = n
    | _ \<Rightarrow> False"
proof -
  have split: "b * (n mod (b * k) div b) + n mod b = n mod (b * k)" if "0 < b" "0 < k" for b k :: int
    using mult_div_mod_eq [of b "n mod (b * k)"] by (simp add: mod_mod_cancel)
  note parts = split [of 60 60, simplified] split [of 3600 24, simplified] split [of 86400 7, simplified]
      split [of 604800 30, simplified] split [of 18144000 12, simplified] mult_div_mod_eq [of 217728000 n]
  have "map fst (human_fields n) = [n div 217728000, n mod 217728000 div 18144000, n mod 18144000 div 604800, n mod 604800 div 86400,
      n mod 86400 div 3600, n mod 3600 div 60, n mod 60]"
    by (simp add: human_fields_def Let_def go_rem_nonneg assms)
  then show ?thesis by (simp only: list.case parts)
qed

section \<open>Which interface is chosen\<close>

definition route_pairs :: "ubus_interface list \<Rightarrow> (ubus_interface \<times> ubus_route) list" where
  "route_pairs is = concat (map (\<lambda>i. map (\<lambda>r. (i, r)) (ub_routes i)) is)"

definition candidates :: "(ubus_interface \<Rightarrow> ubus_route \<Rightarrow> outbound option) \<Rightarrow> ubus_interface list \<Rightarrow> outbound list" where
  "candidates f is = List.map_filter (\<lambda>(i, r). f i r) (route_pairs is)"

definition first_or :: "outbound \<Rightarrow> outbound list \<Rightarrow> outbound" where
  "first_or o' xs = (if ob_ip o' = [] then case xs of [] \<Rightarrow> o' | x # _ \<Rightarrow> x else o')"

definition addressed :: "ubus_interface \<Rightarrow> bool" where
  "addressed i \<longleftrightarrow> (\<forall>a\<in>set (ub_ipv4 i) \<union> set (ub_ipv6 i). ua_address a \<noteq> []) \<and>
     (\<forall>p\<in>set (ub_prefixes i). \<forall>a. up_local p = Some a \<longrightarrow> ua_address a \<noteq> [])"

lemma route_addressed:
  "addressed i \<Longrightarrow> route_ipv4 i r = Some o' \<Longrightarrow> ob_ip o' \<noteq> []" "addressed i \<Longrightarrow> route_ipv6 i r = Some o' \<Longrightarrow> ob_ip o' \<noteq> []"
  by (cases "ub_prefixes i"; auto simp: addressed_def route_ipv4_def route_ipv6_def address_ipv6_def outbound_of_def split: if_splits)+

lemma first_or_keeps: "ob_ip o' \<noteq> [] \<Longrightarrow> first_or o' xs = o'"
  by (simp add: first_or_def)

lemma take_then_first:
  "(\<And>x. new = Some x \<Longrightarrow> ob_ip x \<noteq> []) \<Longrightarrow> first_or (take_route o' new) xs = first_or o' (case new of None \<Rightarrow> xs | Some x \<Rightarrow> x # xs)"
  by (auto simp: first_or_def take_route_def split: option.split)

lemma routes_first:
  assumes "addressed i"
  shows "(first_or (fst (foldl (outbound_route i) st rs)) xs, first_or (snd (foldl (outbound_route i) st rs)) ys) =
    (first_or (fst st) (List.map_filter (route_ipv4 i) rs @ xs), first_or (snd st) (List.map_filter (route_ipv6 i) rs @ ys))"
proof (induction rs arbitrary: st)
  case Nil
  show ?case by simp
next
  case (Cons r rs)
  show ?case
    unfolding foldl_Cons Cons.IH
    by (simp add: outbound_route_def take_then_first [OF route_addressed(1) [OF assms]] take_then_first [OF route_addressed(2) [OF assms]]
        split: option.split)
qed

lemma map_filter_append: "List.map_filter g (xs @ ys) = List.map_filter g xs @ List.map_filter g ys"
  by (induction xs) (simp_all split: option.split)

lemma candidates_Cons: "candidates f (i # is) = List.map_filter (f i) (ub_routes i) @ candidates f is"
proof -
  have "List.map_filter (\<lambda>(j, r). f j r) (map (\<lambda>r. (i, r)) rs) = List.map_filter (f i) rs" for rs
    by (induction rs) (simp_all split: option.split)
  then show ?thesis by (simp add: candidates_def route_pairs_def map_filter_append)
qed

lemma loop_first:
  "list_all addressed is \<Longrightarrow>
   outbound_loop st is = (first_or (fst st) (candidates route_ipv4 is), first_or (snd st) (candidates route_ipv6 is))"
proof (induction "is" arbitrary: st)
  case Nil
  show ?case by (simp add: candidates_def route_pairs_def first_or_def)
next
  case (Cons i "is")
  let ?st = "foldl (outbound_route i) st (ub_routes i)"
  from Cons.prems have i: "addressed i" and rest: "list_all addressed is" by simp_all
  have "outbound_loop st (i # is) = (first_or (fst ?st) (candidates route_ipv4 is), first_or (snd ?st) (candidates route_ipv6 is))"
    using Cons.IH [OF rest] by (simp add: Let_def first_or_keeps)
  with routes_first [OF i] show ?case by (simp add: candidates_Cons)
qed

text \<open>
  Each family uses the first default route of the main table, in the order of the report, whose interface has an address; and no interface when
  there is none. The early end of the loop never loses a route.
\<close>

theorem outbound_first_route:
  assumes "list_all addressed is"
  shows "outbound_interfaces (Inr is) =
    Inr (case candidates route_ipv4 is of [] \<Rightarrow> no_outbound | x # _ \<Rightarrow> x, case candidates route_ipv6 is of [] \<Rightarrow> no_outbound | x # _ \<Rightarrow> x)"
  unfolding outbound_interfaces_def sum.case loop_first [OF assms]
  by (simp add: first_or_def no_outbound_def split: list.split)

definition demo_interface :: ubus_interface where
  "demo_interface = \<lparr>ub_name = ''wan'', ub_routes = [\<lparr>rt_nexthop = ''1.2.3.1'', rt_target = ''0.0.0.0'', rt_mask = 0\<rparr>], ub_device = ''eth0'',
     ub_proto = ''dhcp'', ub_l3 = ''eth0'', ub_ipv4 = [\<lparr>ua_address = ''1.2.3.4'', ua_mask = 24\<rparr>], ub_dns = [], ub_ipv6 = [], ub_prefixes = [],
     ub_uptime = 5, ub_table4 = None, ub_table6 = None\<rparr>"

theorem outbound_first_route_witness:
  "case outbound_interfaces (Inr [demo_interface\<lparr>ub_name := ''vpn'', ub_table4 := Some 100\<rparr>, demo_interface]) of
     Inl _ \<Rightarrow> False | Inr (v4, v6) \<Rightarrow> ob_name v4 = ''wan'' \<and> ob_gateway v4 = ''1.2.3.1'' \<and> v6 = no_outbound"
proof -
  have "list_all addressed [demo_interface\<lparr>ub_name := ''vpn'', ub_table4 := Some 100\<rparr>, demo_interface]"
    by (simp add: addressed_def demo_interface_def)
  from outbound_first_route [OF this] show ?thesis
    by (simp add: candidates_def route_pairs_def route_ipv4_def route_ipv6_def main_table_def demo_interface_def outbound_of_def)
qed

text \<open>The other reader looks at no routing table: it would use the interface of the table 100.\<close>

lemma readers_of_the_route_disagree:
  "map_sum id ob_name (outbound_interface (Inr [demo_interface\<lparr>ub_name := ''vpn'', ub_table4 := Some 100\<rparr>, demo_interface])) = Inr ''vpn''"
  by (simp add: outbound_interface_def any_route_def demo_interface_def outbound_of_def)

section \<open>What counts as public\<close>

text \<open>
  An IPv4 address is public unless it is a loopback or link local address, a multicast address of the local network, or of one of the three
  private networks. The shared addresses of carriers (100.64.0.0/10), 0.0.0.0 and the other multicast addresses are taken for public.
\<close>

theorem public_ipv4_iff:
  "is_public_ipv4 (dotted a b c d) \<longleftrightarrow>
     \<not> (a = 127 \<or> (a = 169 \<and> b = 254) \<or> (a = 224 \<and> b = 0 \<and> c = 0) \<or> a = 10 \<or> (a = 172 \<and> 16 \<le> b \<and> b \<le> 31) \<or> (a = 192 \<and> b = 168))"
proof -
  have "to4 (parse_ip (dotted a b c d)) = [a, b, c, d]" by (simp add: parse_ip_dotted)
  then show ?thesis
    by (auto simp: is_public_ipv4_def is_loopback_def is_link_local_multicast_def is_link_local_unicast_def Let_def)
qed

end
