(* ===== verification/SoftSource.thy ===== *)
theory SoftSource
  imports GoRegex Shell
begin

text \<open>
  The software source of the package manager: \<open>service/guide_soft_source_*.go\<close>. The page shows the source in use, found by an
  expression in the feed file, and changes it by rewriting every address of the factory's feed file. Names in Chinese are given in English.
\<close>

section \<open>Replacing\<close>

text \<open>\<open>ReplaceAllString\<close> for an expression whose matches are not empty, and a replacement without \<open>$\<close>.\<close>

function re_replace :: "re \<Rightarrow> string \<Rightarrow> bool \<Rightarrow> string \<Rightarrow> string" where
  "re_replace r new b s =
     (case re_match r (b, s) of
        (c, (b', t)) # _ \<Rightarrow> if length t < length s then new @ re_replace r new b' t else s
      | [] \<Rightarrow> (case s of [] \<Rightarrow> [] | x # xs \<Rightarrow> x # re_replace r new False xs))"
  by pat_completeness auto
termination
  by (relation "measure (\<lambda>(r, new, b, s). length s)") auto

declare re_replace.simps [simp del]

section \<open>\<open>url.Parse\<close> on an address with a scheme and a host\<close>

definition until_char :: "char \<Rightarrow> string \<Rightarrow> string" where
  "until_char c s = takeWhile (\<lambda>d. d \<noteq> c) s"

definition alnum_char :: "char \<Rightarrow> bool" where
  "alnum_char c \<longleftrightarrow> (of_char c :: nat) \<in> {48..57} \<union> {65..90} \<union> {97..122}"

definition host_char :: "char \<Rightarrow> bool" where
  "host_char c \<longleftrightarrow> alnum_char c \<or> c \<in> set ''-_.~!$&()*+,;=:[]<>'' \<or> c = CHR 0x22 \<or> c = CHR 0x27"

definition user_char :: "char \<Rightarrow> bool" where
  "user_char c \<longleftrightarrow> alnum_char c \<or> c \<in> set ''-._:~!$&()*+,;=%@'' \<or> c = CHR 0x27"

definition hex_digit :: "char \<Rightarrow> nat option" where
  "hex_digit c =
     (let n = of_char c in if n \<in> {48..57} then Some (n - 48) else if n \<in> {97..102} then Some (n - 87) else if n \<in> {65..70} then Some (n - 55) else None)"

datatype escape_mode = HostMode | ZoneMode | OtherMode

definition escape_ok :: "escape_mode \<Rightarrow> char \<Rightarrow> char \<Rightarrow> nat \<Rightarrow> nat \<Rightarrow> bool" where
  "escape_ok mode c d x y \<longleftrightarrow>
     (case mode of
        HostMode \<Rightarrow> x \<ge> 8 \<or> [c, d] = ''25''
      | ZoneMode \<Rightarrow> [c, d] = ''25'' \<or> 16 * x + y = 32 \<or> host_char (char_of (16 * x + y))
      | OtherMode \<Rightarrow> True)"

fun unescape :: "escape_mode \<Rightarrow> string \<Rightarrow> string option" where
  "unescape mode [] = Some []"
| "unescape mode (p # cs) =
     (if p = CHR ''%'' then
        (case cs of
           c # d # rest \<Rightarrow>
             (case (hex_digit c, hex_digit d) of
                (Some x, Some y) \<Rightarrow> if escape_ok mode c d x y then map_option (\<lambda>t. char_of (16 * x + y) # t) (unescape mode rest) else None
              | _ \<Rightarrow> None)
         | _ \<Rightarrow> None)
      else if mode \<noteq> OtherMode \<and> (of_char p :: nat) < 128 \<and> \<not> host_char p then None
      else map_option (\<lambda>t. p # t) (unescape mode cs))"

definition valid_optional_port :: "string \<Rightarrow> bool" where
  "valid_optional_port s \<longleftrightarrow> s = [] \<or> hd s = CHR '':'' \<and> list_all digit_class (tl s)"

definition after_last :: "char \<Rightarrow> string \<Rightarrow> string" where
  "after_last c s = rev (takeWhile (\<lambda>d. d \<noteq> c) (rev s))"

fun find_at :: "string \<Rightarrow> string \<Rightarrow> nat option" where
  "find_at sub [] = (if sub = [] then Some 0 else None)"
| "find_at sub (c # cs) = (if has_prefix (c # cs) sub then Some 0 else map_option Suc (find_at sub cs))"

definition parse_host :: "string \<Rightarrow> string option" where
  "parse_host h =
     (if has_prefix h ''['' then
        (if CHR '']'' \<notin> set h then None
         else (let port = after_last CHR '']'' h; i = length h - length port - 1
               in if \<not> valid_optional_port port then None
                  else (case find_at ''%25'' (take i h) of
                          Some z \<Rightarrow>
                            (case (unescape HostMode (take z h), unescape ZoneMode (drop z (take i h)), unescape HostMode (drop i h)) of
                               (Some a, Some b, Some c) \<Rightarrow> Some (a @ b @ c)
                             | _ \<Rightarrow> None)
                        | None \<Rightarrow> unescape HostMode h)))
      else if CHR '':'' \<in> set h \<and> \<not> valid_optional_port ('':'' @ after_last CHR '':'' h) then None
      else unescape HostMode h)"

definition parse_authority :: "string \<Rightarrow> string option" where
  "parse_authority a =
     (if CHR ''@'' \<notin> set a then parse_host a
      else (let host = after_last CHR ''@'' a; user = take (length a - length host - 1) a; name = until_char CHR '':'' user
            in case parse_host host of
                 None \<Rightarrow> None
               | Some h \<Rightarrow>
                   if list_all user_char user \<and> unescape OtherMode name \<noteq> None \<and> unescape OtherMode (drop (length name + 1) user) \<noteq> None
                   then Some h else None))"

text \<open>The scheme and the host of an address that begins with \<open>http://\<close> or \<open>https://\<close>, and whose path has no escapes.\<close>

definition parse_url :: "string \<Rightarrow> (string \<times> string) option" where
  "parse_url raw =
     (let u = until_char CHR ''#'' raw; frag = drop (length u + 1) raw; scheme = until_char CHR '':'' u;
          rest = until_char CHR ''?'' (drop (length scheme + 3) u)
      in if list_ex (\<lambda>c. (of_char c :: nat) < 32 \<or> (of_char c :: nat) = 127) u then None
         else if unescape OtherMode frag = None then None
         else map_option (\<lambda>h. (scheme, h)) (parse_authority (until_char CHR ''/'' rest)))"

section \<open>The sources\<close>

record soft_source =
  so_identity :: string
  so_name :: string
  so_url :: string

definition source_identities :: "string list" where
  "source_identities = [''OpenWrtHttp'', ''OpenWrtHttps'', ''CERNET'', ''SUSTech'', ''Tsinghua'', ''USTC'', ''Alibaba Cloud'', ''Tencent Cloud'']"

definition source_names :: "string list" where
  "source_names = [''OpenWRT(HTTP)'', ''OpenWRT(HTTPS)'', ''mirror of the universities'', ''Southern University of Science and Technology'',
     ''Tsinghua University'', ''University of Science and Technology of China'', ''Alibaba Cloud'', ''Tencent Cloud'']"

definition source_urls :: "string list" where
  "source_urls = [''http://downloads.openwrt.org/'', ''https://downloads.openwrt.org/'', ''https://mirrors.cernet.edu.cn/openwrt/'',
     ''https://mirrors.sustech.edu.cn/openwrt/'', ''https://mirrors.tuna.tsinghua.edu.cn/openwrt/'', ''https://mirrors.ustc.edu.cn/openwrt/'',
     ''https://mirrors.aliyun.com/openwrt/'', ''https://mirrors.cloud.tencent.com/openwrt/'']"

definition sources :: "soft_source list" where
  "sources = map (\<lambda>i. \<lparr>so_identity = source_identities ! i, so_name = source_names ! i, so_url = source_urls ! i\<rparr>) [0..<8]"

definition source_by_url :: "string \<Rightarrow> soft_source" where
  "source_by_url url =
     (case find (\<lambda>s. so_url s = url) sources of Some s \<Rightarrow> s | None \<Rightarrow> \<lparr>so_identity = url, so_name = url, so_url = url\<rparr>)"

definition source_by_identity :: "string \<Rightarrow> soft_source" where
  "source_by_identity identity =
     (case find (\<lambda>s. so_identity s = identity) sources of Some s \<Rightarrow> s | None \<Rightarrow> \<lparr>so_identity = [], so_name = [], so_url = []\<rparr>)"

section \<open>Reading and replacing\<close>

definition feed_re :: re where
  "feed_re = seq [lit ''http'', Alt (lit ''s'') Eps, lit ''://'', Star True (Ch (\<lambda>c. c \<noteq> CHR ''/'')), lit ''/'', Alt (lit ''openwrt/'') Eps]"

definition base_re :: re where
  "base_re = seq [lit ''_base'', spaces_re, Cap 1 feed_re]"

definition feed_url_of :: "string \<Rightarrow> string result" where
  "feed_url_of text = (case re_find base_re text of None \<Rightarrow> Inl ''feed not found'' | Some c \<Rightarrow> Inr (cap c 1))"

definition normalized_url :: "string \<times> string \<Rightarrow> string" where
  "normalized_url p =
     (if contains_str (snd p) ''openwrt'' then fst p @ ''://'' @ snd p @ ''/'' else fst p @ ''://'' @ snd p @ ''/openwrt/'')"

definition current_source :: "string result \<Rightarrow> soft_source result" where
  "current_source conf =
     (case conf of
        Inl e \<Rightarrow> Inl e
      | Inr text \<Rightarrow>
          (case feed_url_of text of
             Inl e \<Rightarrow> Inl e
           | Inr feed \<Rightarrow> (case parse_url feed of None \<Rightarrow> Inl ''cannot parse the base source'' | Some p \<Rightarrow> Inr (source_by_url (normalized_url p)))))"

text \<open>The two feed files, the permissions of the second, and the writing of it.\<close>

record 'w source_files =
  sf_rom :: "'w \<Rightarrow> string result"
  sf_conf :: "'w \<Rightarrow> string result"
  sf_mode :: "'w \<Rightarrow> nat option"
  sf_write :: "string \<Rightarrow> nat \<Rightarrow> 'w \<Rightarrow> goerr option \<times> 'w"

definition replace_source :: "'w source_files \<Rightarrow> string \<Rightarrow> 'w eff" where
  "replace_source fs url w =
     (case (case sf_rom fs w of Inl _ \<Rightarrow> sf_conf fs w | Inr text \<Rightarrow> Inr text) of
        Inl e \<Rightarrow> (Some e, w)
      | Inr text \<Rightarrow> sf_write fs (re_replace feed_re url True text) (case sf_mode fs w of None \<Rightarrow> 420 | Some m \<Rightarrow> m) w)"

definition get_source :: "'w source_files \<Rightarrow> 'w \<Rightarrow> soft_source result" where
  "get_source fs w = current_source (sf_conf fs w)"

definition set_source :: "'w source_files \<Rightarrow> string \<Rightarrow> ('w, soft_source) io" where
  "set_source fs identity w =
     (let source = source_by_identity identity
      in if so_identity source = [] then (Inl ''no such source'', w)
         else (case replace_source fs (so_url source) w of
                 (Some _, w') \<Rightarrow> (Inl ''cannot change the source'', w')
               | (None, w') \<Rightarrow> (get_source fs w', w')))"

section \<open>The matcher on these expressions\<close>

lemma cat_assoc: "re_match (Cat (Cat r q) p) s = re_match (Cat r (Cat q p)) s"
proof -
  let ?then = "\<lambda>q. \<lambda>(c, t). map (\<lambda>(d, u). (c @ d, u)) (re_match q t)"
  have "concat (map (?then p) (map (\<lambda>(d, u). (c @ d, u)) ys)) = map (\<lambda>(d, u). (c @ d, u)) (concat (map (?then p) ys))" for c ys
    by (induction ys) auto
  then have "concat (map (?then p) (concat (map (?then q) xs))) = concat (map (?then (Cat q p)) xs)" for xs
    by (induction xs) auto
  then show ?thesis by simp
qed

lemma lit_match: "re_match (lit w) (b, s) = (if has_prefix s w then [([], (b \<and> w = [], drop (length w) s))] else [])"
proof (induction w arbitrary: b s)
  case Nil
  show ?case by (simp add: lit_def has_prefix_def)
next
  case (Cons c w)
  show ?case
  proof (cases s)
    case Nil
    then show ?thesis by (cases w) (simp_all add: lit_def has_prefix_def)
  next
    case s: (Cons d ds)
    show ?thesis
    proof (cases w)
      case Nil
      then show ?thesis by (simp add: s lit_def has_prefix_def)
    next
      case w: (Cons e es)
      have "lit (c # w) = Cat (Ch (\<lambda>d. d = c)) (lit w)" by (simp add: lit_def w)
      then show ?thesis using Cons.IH [of False ds] by (simp add: s has_prefix_def w)
    qed
  qed
qed

lemma lit_then: "re_match (Cat (lit w) q) (b, s) = (if has_prefix s w then re_match q (b \<and> w = [], drop (length w) s) else [])"
  by (simp add: lit_match case_prod_beta)

text \<open>A run of a class, when what follows cannot begin in the class.\<close>

lemma star_then:
  assumes "\<And>b x xs. p x \<Longrightarrow> re_match q (b, x # xs) = []"
  shows "re_match (Cat (Star True (Ch p)) q) (b, s) = re_match q (b \<and> takeWhile p s = [], dropWhile p s)"
proof -
  have "concat (map (\<lambda>(c, t). map (\<lambda>(d, u). (c @ d, u)) (re_match q t)) (rev (run_ends p (b, s)))) =
      re_match q (b \<and> takeWhile p s = [], dropWhile p s)"
  proof (induction s arbitrary: b)
    case Nil
    show ?case by (simp add: case_prod_beta)
  next
    case (Cons c cs)
    then show ?case by (simp add: run_ends_Cons assms case_prod_beta)
  qed
  then show ?thesis by (simp add: star_match_class)
qed

lemma search_skip:
  "(\<And>i b. i < length p \<Longrightarrow> re_match r (b, drop i p @ s) = []) \<Longrightarrow> re_search r b (p @ s) = re_search r (b \<and> p = []) s"
proof (induction p arbitrary: b)
  case (Cons c p)
  have "re_match r (b, c # p @ s) = []" using Cons.prems [of 0] by simp
  moreover have "re_search r False (p @ s) = re_search r (False \<and> p = []) s"
    by (rule Cons.IH) (use Cons.prems [of "Suc _"] in simp)
  ultimately show ?case by simp
qed simp

lemma replace_skip:
  "(\<And>i b. i < length p \<Longrightarrow> re_match r (b, drop i p @ s) = []) \<Longrightarrow> re_replace r new b (p @ s) = p @ re_replace r new (b \<and> p = []) s"
proof (induction p arbitrary: b)
  case (Cons c p)
  have "re_match r (b, c # p @ s) = []" using Cons.prems [of 0] by simp
  moreover have "re_replace r new False (p @ s) = p @ re_replace r new (False \<and> p = []) s"
    by (rule Cons.IH) (use Cons.prems [of "Suc _"] in simp)
  ultimately show ?case by (subst re_replace.simps) simp
qed simp

definition address :: "bool \<Rightarrow> string \<Rightarrow> bool \<Rightarrow> string" where
  "address tls host ow = ''http'' @ (if tls then ''s'' else []) @ ''://'' @ host @ ''/'' @ (if ow then ''openwrt/'' else [])"

lemma feed_none: "\<not> has_prefix s ''http'' \<Longrightarrow> re_match feed_re (b, s) = []"
  unfolding feed_re_def seq.simps lit_then by simp

lemma host_match:
  assumes "CHR ''/'' \<notin> set host"
  shows "re_match (seq [lit ''://'', Star True (Ch (\<lambda>c. c \<noteq> CHR ''/'')), lit ''/'', Alt (lit ''openwrt/'') Eps]) (b, ''://'' @ host @ CHR ''/'' # t) =
    (if has_prefix t ''openwrt/'' then [([], (False, drop 8 t)), ([], (False, t))] else [([], (False, t))])"
proof -
  have "dropWhile (\<lambda>c. c \<noteq> CHR ''/'') (host @ CHR ''/'' # t) = CHR ''/'' # t"
    using assms by (induction host) auto
  then show ?thesis
    unfolding seq.simps lit_then
    by (simp add: star_then lit_then lit_match has_prefix_def eval_nat_numeral del: re_match.simps(3))
qed

lemma address_match:
  assumes "CHR ''/'' \<notin> set host"
  shows "re_match feed_re (b, address tls host ow @ t) =
    (if ow \<or> has_prefix t ''openwrt/''
     then [([], (False, if ow then t else drop 8 t)), ([], (False, if ow then ''openwrt/'' @ t else t))] else [([], (False, t))])"
proof -
  let ?rest = "[lit ''://'', Star True (Ch (\<lambda>c. c \<noteq> CHR ''/'')), lit ''/'', Alt (lit ''openwrt/'') Eps]"
  have none: "re_match (seq ?rest) (False, CHR ''s'' # u) = []" for u
    unfolding seq.simps lit_then by (simp add: has_prefix_def)
  have feed: "re_match feed_re (b, ''http'' @ u) = re_match (Cat (Alt (lit ''s'') Eps) (seq ?rest)) (False, u)" for u
    unfolding feed_re_def seq.simps lit_then by (simp add: has_prefix_def del: re_match.simps)
  have scheme: "re_match feed_re (b, ''http'' @ (if tls then ''s'' else []) @ ''://'' @ u) = re_match (seq ?rest) (False, ''://'' @ u)" for u
    unfolding feed re_match.simps(3,4,1) lit_match
    by (simp add: none has_prefix_def case_prod_beta del: seq.simps)
  have shape: "address tls host ow @ t = ''http'' @ (if tls then ''s'' else []) @ ''://'' @ host @ CHR ''/'' # (if ow then ''openwrt/'' else []) @ t"
    by (simp add: address_def)
  have "re_match feed_re (b, address tls host ow @ t) =
      (if has_prefix ((if ow then ''openwrt/'' else []) @ t) ''openwrt/''
       then [([], (False, drop 8 ((if ow then ''openwrt/'' else []) @ t))), ([], (False, (if ow then ''openwrt/'' else []) @ t))]
       else [([], (False, (if ow then ''openwrt/'' else []) @ t))])"
    by (subst shape) (rule trans [OF scheme host_match [OF assms]])
  then show ?thesis by (simp add: has_prefix_def eval_nat_numeral split: if_splits)
qed

section \<open>Feed files\<close>

record feed =
  fe_pre :: string
  fe_tls :: bool
  fe_host :: string
  fe_openwrt :: bool

definition feed_address :: "feed \<Rightarrow> string" where
  "feed_address f = address (fe_tls f) (fe_host f) (fe_openwrt f)"

fun feeds_text :: "feed list \<Rightarrow> string \<Rightarrow> string" where
  "feeds_text [] end_text = end_text"
| "feeds_text (f # fs) end_text = fe_pre f @ feed_address f @ feeds_text fs end_text"

fun with_address :: "feed list \<Rightarrow> string \<Rightarrow> string \<Rightarrow> string" where
  "with_address [] new end_text = end_text"
| "with_address (f # fs) new end_text = fe_pre f @ new @ with_address fs new end_text"

definition next_text :: "feed list \<Rightarrow> string \<Rightarrow> string" where
  "next_text fs end_text = (case fs of [] \<Rightarrow> end_text | f # _ \<Rightarrow> fe_pre f)"

fun feeds_ok :: "feed list \<Rightarrow> string \<Rightarrow> bool" where
  "feeds_ok [] end_text \<longleftrightarrow> \<not> contains_str end_text ''http''"
| "feeds_ok (f # fs) end_text \<longleftrightarrow> \<not> contains_str (fe_pre f) ''http'' \<and> CHR ''/'' \<notin> set (fe_host f) \<and>
     \<not> has_prefix (next_text fs end_text) ''openwrt/'' \<and> feeds_ok fs end_text"

definition ends_base :: "string \<Rightarrow> bool" where
  "ends_base p \<longleftrightarrow> p \<noteq> [] \<and> space_class (last p) \<and> has_prefix (dropWhile space_class (rev p)) (rev ''_base'')"

lemma no_http:
  assumes "\<not> contains_str p ''http''" "i < length p" and s: "s = [] \<or> has_prefix s ''http'' \<or> has_prefix s ''_base''"
  shows "\<not> has_prefix (drop i p @ s) ''http''"
proof
  assume http: "has_prefix (drop i p @ s) ''http''"
  show False
  proof (cases "4 \<le> length (drop i p)")
    case True
    with http have "has_prefix (drop i p) ''http''" by (simp add: has_prefix_def)
    then obtain v where "drop i p = ''http'' @ v" unfolding has_prefix_iff by blast
    then have "p = take i p @ ''http'' @ v" by (metis append_take_drop_id)
    then have "contains_str p ''http''" unfolding contains_str_iff by blast
    with assms(1) show False by contradiction
  next
    case False
    moreover have "drop i p \<noteq> []" using assms(2) by simp
    ultimately consider x where "drop i p = [x]" | x y where "drop i p = [x, y]" | x y z where "drop i p = [x, y, z]"
      by (cases "drop i p"; cases "tl (drop i p)"; cases "tl (tl (drop i p))"; cases "tl (tl (tl (drop i p)))") auto
    then show False using http s by cases (auto simp: has_prefix_iff)
  qed
qed

lemma length_address: "address tls host ow \<noteq> []" "has_prefix (address tls host ow @ t) ''http''"
  by (simp_all add: address_def has_prefix_def)

lemma not_openwrt:
  assumes "\<not> has_prefix p ''openwrt/''" "has_prefix s ''http''"
  shows "\<not> has_prefix (p @ s) ''openwrt/''"
proof
  assume pre: "has_prefix (p @ s) ''openwrt/''"
  obtain t where s: "s = ''http'' @ t" using assms(2) unfolding has_prefix_iff by blast
  show False
  proof (cases "8 \<le> length p")
    case True
    with pre assms(1) show False by (simp add: has_prefix_def)
  next
    case False
    then have "length p < length ''openwrt/''" by simp
    with pre have "''openwrt/'' ! length p = (p @ s) ! length p" by (metis has_prefix_def nth_take)
    then have "CHR ''h'' = ''openwrt/'' ! length p" by (simp add: s nth_append)
    then have "CHR ''h'' \<in> set ''openwrt/''" using \<open>length p < length ''openwrt/''\<close> by (metis nth_mem)
    then show False by simp
  qed
qed

lemma feeds_replaced:
  "feeds_ok fs end_text \<Longrightarrow> re_replace feed_re new b (feeds_text fs end_text) = with_address fs new end_text"
proof (induction fs arbitrary: b)
  case Nil
  have skip: "re_match feed_re (b, drop i end_text @ []) = []" if "i < length end_text" for i b
    using no_http [of end_text i "[]"] Nil that by (intro feed_none) simp
  have "re_replace feed_re new b' [] = []" for b'
    using feed_none [of "[]"] by (subst re_replace.simps) (simp add: has_prefix_def)
  with replace_skip [of end_text feed_re "[]" new b, OF skip] show ?case by simp
next
  case (Cons f fs)
  let ?rest = "feed_address f @ feeds_text fs end_text"
  have skip: "re_match feed_re (b, drop i (fe_pre f) @ ?rest) = []" if "i < length (fe_pre f)" for i b
    using no_http [of "fe_pre f" i ?rest] Cons.prems that
    by (intro feed_none) (simp add: feed_address_def length_address)
  have next_ok: "\<not> has_prefix (feeds_text fs end_text) ''openwrt/''"
    using Cons.prems not_openwrt [OF _ length_address(2)] by (cases fs) (auto simp: next_text_def feed_address_def)
  have "re_replace feed_re new b' ?rest = new @ re_replace feed_re new False (feeds_text fs end_text)" for b'
    using Cons.prems next_ok by (subst re_replace.simps) (simp add: feed_address_def address_match length_address)
  with replace_skip [of "fe_pre f" feed_re ?rest new b, OF skip] Cons show ?case by simp
qed

section \<open>Finding the base feed\<close>

definition at_base :: "string \<Rightarrow> bool" where
  "at_base s \<longleftrightarrow> has_prefix s ''_base'' \<and> dropWhile space_class (drop 5 s) \<noteq> drop 5 s \<and> has_prefix (dropWhile space_class (drop 5 s)) ''http''"

lemma spaces_then:
  assumes "\<And>b x xs. space_class x \<Longrightarrow> re_match q (b, x # xs) = []"
  shows "re_match (Cat spaces_re q) (b, s) = (if dropWhile space_class s \<noteq> s then re_match q (False, dropWhile space_class s) else [])"
proof -
  have keep: "re_match (Cat (Ch space_class) p) (b, c # cs) = (if space_class c then re_match p (False, cs) else [])" for p c cs
    by (simp add: case_prod_beta)
  show ?thesis
    unfolding plus_def cat_assoc
    by (cases s) (simp_all add: keep star_then assms del: re_match.simps(3), simp)
qed

lemma cap_match: "re_match (Cap n r) (b, s) = map (\<lambda>(c, (b', t)). (c @ [(n, take (length s - length t) s)], (b', t))) (re_match r (b, s))"
  by (simp add: eaten_def width_def case_prod_beta)

lemma base_run: "re_match base_re (b, s) =
    (if has_prefix s ''_base'' \<and> dropWhile space_class (drop 5 s) \<noteq> drop 5 s
     then re_match (Cap 1 feed_re) (False, dropWhile space_class (drop 5 s)) else [])"
proof -
  have none: "re_match (Cap 1 feed_re) (b, x # xs) = []" if "space_class x" for b x xs
  proof -
    from that have "\<not> has_prefix (x # xs) ''http''" by (auto simp: space_class_def has_prefix_def)
    then show ?thesis unfolding cap_match by (simp add: feed_none)
  qed
  show ?thesis
    unfolding base_re_def seq.simps lit_then using none
    by (simp add: spaces_then eval_nat_numeral del: re_match.simps)
qed

lemma base_none: "\<not> at_base s \<Longrightarrow> re_match base_re (b, s) = []"
  unfolding base_run at_base_def by (auto simp: cap_match feed_none)

lemma base_match:
  assumes "CHR ''/'' \<notin> set host" "sp \<noteq> []" "list_all space_class sp" "\<not> has_prefix t ''openwrt/''"
  shows "\<exists>u more. re_match base_re (b, ''_base'' @ sp @ address tls host ow @ t) = ([(1, address tls host ow)], u) # more"
proof -
  let ?s = "''_base'' @ sp @ address tls host ow @ t"
  have "dropWhile space_class (address tls host ow @ t) = address tls host ow @ t" by (simp add: address_def space_class_def)
  then have rest: "dropWhile space_class (drop 5 ?s) = address tls host ow @ t" using assms(3) by (simp add: dropWhile_append list_all_iff)
  then have moved: "dropWhile space_class (drop 5 ?s) \<noteq> drop 5 ?s" using assms(2) by simp
  have "re_match base_re (b, ?s) = re_match (Cap 1 feed_re) (False, address tls host ow @ t)"
    using moved unfolding base_run rest by (simp add: has_prefix_def del: re_match.simps)
  with assms(1,4) show ?thesis
    unfolding cap_match by (auto simp: address_match)
qed

lemma no_base:
  assumes "\<not> contains_str p ''http''" "i < length p"
    and s: "has_prefix s ''http'' \<and> \<not> ends_base p \<or> has_prefix s ''_base''"
  shows "\<not> at_base (drop i p @ s)"
proof
  assume at: "at_base (drop i p @ s)"
  then obtain r where r: "drop i p @ s = ''_base'' @ r" unfolding at_base_def has_prefix_iff by blast
  have "drop 5 (drop i p @ s) = r" unfolding r by simp
  with at have run: "dropWhile space_class r \<noteq> r" "has_prefix (dropWhile space_class r) ''http''" by (simp_all add: at_base_def)
  from s obtain c s' where head: "s = c # s'" "c = CHR ''h'' \<or> c = CHR ''_''" by (auto simp: has_prefix_iff)
  have "drop i p \<noteq> []" using assms(2) by simp
  have "\<exists>v. drop i p = ''_base'' @ v"
  proof (rule ccontr)
    assume "\<nexists>v. drop i p = ''_base'' @ v"
    moreover have "\<exists>v. drop i p = ''_base'' @ v" if "5 \<le> length (drop i p)"
    proof -
      from r have "take 5 (drop i p @ s) = ''_base''" by simp
      with that have "take 5 (drop i p) = ''_base''" by simp
      then show ?thesis by (metis append_take_drop_id)
    qed
    ultimately have "length (drop i p) < 5" by (meson not_less)
    with r head \<open>drop i p \<noteq> []\<close> show False
      by (cases "drop i p"; cases "tl (drop i p)"; cases "tl (tl (drop i p))"; cases "tl (tl (tl (drop i p)))"; cases "tl (tl (tl (tl (drop i p))))") auto
  qed
  then obtain v where v: "drop i p = ''_base'' @ v" by blast
  with r have r: "r = v @ s" by simp
  show False
  proof (cases "list_all space_class v")
    case True
    then have "dropWhile space_class r = s" using head by (auto simp: r list_all_iff space_class_def)
    with run s head have "v \<noteq> []" "has_prefix s ''http''" by (auto simp: r)
    moreover have "ends_base p"
    proof -
      have p: "rev p = rev v @ rev ''_base'' @ rev (take i p)" by (metis append_take_drop_id rev_append append.assoc v)
      have "last p = last v" using v \<open>v \<noteq> []\<close> assms(2) by (metis last_appendR last_drop)
      with True \<open>v \<noteq> []\<close> have "space_class (last p)" by (simp add: list_all_iff)
      moreover have "dropWhile space_class (rev p) = rev ''_base'' @ rev (take i p)"
        using True unfolding p by (simp add: dropWhile_append list_all_iff space_class_def)
      ultimately show ?thesis using assms(2) unfolding ends_base_def by (auto simp: has_prefix_iff)
    qed
    ultimately show False using s by (auto simp: has_prefix_iff)
  next
    case False
    then have "dropWhile space_class r = dropWhile space_class v @ s" and "dropWhile space_class v \<noteq> []"
      by (auto simp: r dropWhile_append list_all_iff)
    moreover have "v = drop (5 + i) p" using arg_cong [OF v, of "drop 5"] by (simp add: add.commute)
    then have tail: "dropWhile space_class v = drop (length (takeWhile space_class v) + (5 + i)) p" by (simp add: dropWhile_eq_drop)
    then obtain j where "dropWhile space_class v = drop j p" "j < length p"
      using \<open>dropWhile space_class v \<noteq> []\<close> by (metis drop_eq_Nil not_le)
    ultimately show False using run(2) no_http [OF assms(1), of j s] s by auto
  qed
qed

lemma ends_baseE:
  assumes "ends_base p"
  obtains x sp where "p = x @ ''_base'' @ sp" "sp \<noteq> []" "list_all space_class sp"
proof -
  define sp where "sp = rev (takeWhile space_class (rev p))"
  from assms obtain y where y: "dropWhile space_class (rev p) = rev ''_base'' @ y" and p: "p \<noteq> []" "space_class (last p)"
    by (auto simp: ends_base_def has_prefix_iff)
  have "rev p = takeWhile space_class (rev p) @ rev ''_base'' @ y" using y by (metis takeWhile_dropWhile_id)
  then have "p = rev y @ ''_base'' @ sp" unfolding sp_def by (metis append.assoc rev_append rev_rev_ident)
  moreover have "sp \<noteq> []"
    using p by (cases p rule: rev_cases) (auto simp: sp_def)
  moreover have "list_all space_class sp"
    by (auto simp: sp_def list_all_iff dest: set_takeWhileD)
  ultimately show thesis by (rule that)
qed

lemma contains_part: "contains_str x w \<Longrightarrow> contains_str (x @ y) w"
  unfolding contains_str_iff by (metis append.assoc)

lemma no_base_address:
  assumes "CHR ''_'' \<notin> set new" "i < length new"
  shows "\<not> at_base (drop i new @ s)"
proof
  assume "at_base (drop i new @ s)"
  then have "has_prefix (drop i new @ s) ''_base''" by (simp add: at_base_def)
  then obtain r where "drop i new @ s = CHR ''_'' # r" by (auto simp: has_prefix_iff)
  with assms(2) have "CHR ''_'' \<in> set (drop i new)" by (cases "drop i new") auto
  with assms(1) show False by (auto dest: in_set_dropD)
qed

text \<open>After every address is replaced, the base feed is found with the new one.\<close>

lemma base_found:
  assumes "CHR ''/'' \<notin> set host" and plain: "CHR ''_'' \<notin> set (address tls host ow)"
  shows "feeds_ok fs end_text \<Longrightarrow> list_ex (\<lambda>f. ends_base (fe_pre f)) fs \<Longrightarrow>
    \<exists>u. re_search base_re b (with_address fs (address tls host ow) end_text) = Some ([(1, address tls host ow)], u)"
proof (induction fs arbitrary: b)
  case (Cons f fs)
  let ?new = "address tls host ow" let ?rest = "with_address fs (address tls host ow) end_text"
  have ok: "\<not> contains_str (fe_pre f) ''http''" using Cons.prems by simp
  show ?case
  proof (cases "ends_base (fe_pre f)")
    case True
    then obtain x sp where pre: "fe_pre f = x @ ''_base'' @ sp" and sp: "sp \<noteq> []" "list_all space_class sp" by (rule ends_baseE)
    let ?s = "''_base'' @ sp @ ?new @ ?rest"
    have "\<not> has_prefix ?rest ''openwrt/''"
      using Cons.prems(1) not_openwrt [OF _ length_address(2)] by (cases fs) (auto simp: next_text_def)
    from base_match [OF assms(1) sp this] obtain u more where m: "re_match base_re (b', ?s) = ([(1, ?new)], u) # more" for b'
      by (metis base_run)
    have "\<not> contains_str x ''http''" using ok contains_part unfolding pre by blast
    then have "re_match base_re (b, drop i x @ ?s) = []" if "i < length x" for i b
      using that by (intro base_none no_base) (simp_all add: has_prefix_def)
    from search_skip [of x base_re ?s, OF this] have "re_search base_re b (x @ ?s) = re_search base_re (b \<and> x = []) ?s" by simp
    also have "\<dots> = Some ([(1, ?new)], u)" using m by simp
    finally show ?thesis by (simp add: pre)
  next
    case False
    with Cons.prems have rest: "feeds_ok fs end_text" "list_ex (\<lambda>f. ends_base (fe_pre f)) fs" by simp_all
    have "re_match base_re (b, drop i (fe_pre f) @ ?new @ ?rest) = []" if "i < length (fe_pre f)" for i b
      using that ok False length_address(2) by (intro base_none no_base) simp_all
    from search_skip [of "fe_pre f" base_re "?new @ ?rest", OF this]
    have "re_search base_re b (with_address (f # fs) ?new end_text) = re_search base_re (b \<and> fe_pre f = []) (?new @ ?rest)" by simp
    also have "\<dots> = re_search base_re ((b \<and> fe_pre f = []) \<and> ?new = []) ?rest"
      using no_base_address [OF plain] by (intro search_skip base_none) simp
    finally show ?thesis using Cons.IH [OF rest] by simp
  qed
qed simp

section \<open>The sources\<close>

definition source_address :: "soft_source \<Rightarrow> bool \<times> string \<times> bool" where
  "source_address s =
     (let tls = has_prefix (so_url s) ''https''; rest = drop (if tls then 8 else 7) (so_url s); host = until_char CHR ''/'' rest
      in (tls, host, drop (length host + 1) rest \<noteq> []))"

lemma unescape_plain: "list_all (\<lambda>c. c \<noteq> CHR ''%'' \<and> host_char c) s \<Longrightarrow> unescape mode s = Some s"
  by (induction s) simp_all

lemma parse_url_plain:
  assumes "list_all (\<lambda>c. c \<notin> set ''#?%@:[/'' \<and> host_char c) host" "list_all (\<lambda>c. c \<notin> set ''#?%'' \<and> 32 \<le> (of_char c :: nat) \<and> (of_char c :: nat) \<noteq> 127) path"
  shows "parse_url (''http'' @ (if tls then ''s'' else []) @ ''://'' @ host @ CHR ''/'' # path) = Some (''http'' @ (if tls then ''s'' else []), host)"
proof -
  have ctl: "32 \<le> (of_char c :: nat) \<and> (of_char c :: nat) \<noteq> 127" if "host_char c" for c
    using that by (auto simp: host_char_def alnum_char_def)
  have plain: "unescape m host = Some host" for m
    by (rule unescape_plain) (use assms(1) in \<open>auto simp: list_all_iff\<close>)
  have host: "parse_authority host = Some host"
    using assms(1) plain by (cases host) (auto simp: parse_authority_def parse_host_def has_prefix_def list_all_iff)
  have hash: "until_char CHR ''#'' (''http'' @ (if tls then ''s'' else []) @ ''://'' @ host @ CHR ''/'' # path) =
      ''http'' @ (if tls then ''s'' else []) @ ''://'' @ host @ CHR ''/'' # path"
    unfolding until_char_def takeWhile_eq_all_conv using assms by (auto simp: list_all_iff)
  have "until_char CHR ''?'' (host @ CHR ''/'' # path) = host @ CHR ''/'' # path"
    unfolding until_char_def takeWhile_eq_all_conv using assms by (auto simp: list_all_iff)
  moreover have "until_char CHR ''/'' (host @ CHR ''/'' # path) = host"
    unfolding until_char_def using assms(1) by (auto simp: takeWhile_append list_all_iff)
  moreover have "\<not> list_ex (\<lambda>c. (of_char c :: nat) < 32 \<or> (of_char c :: nat) = 127) host"
  proof -
    have "\<not> ((of_char c :: nat) < 32 \<or> (of_char c :: nat) = 127)" if "c \<in> set host" for c
    proof -
      from assms(1) that have "host_char c" by (simp add: list_all_iff)
      from ctl [OF this] show ?thesis by linarith
    qed
    then show ?thesis unfolding list_ex_iff by blast
  qed
  moreover have "\<not> list_ex (\<lambda>c. (of_char c :: nat) < 32 \<or> (of_char c :: nat) = 127) path"
  proof -
    have "\<not> ((of_char c :: nat) < 32 \<or> (of_char c :: nat) = 127)" if "c \<in> set path" for c
    proof -
      from assms(2) that have "32 \<le> (of_char c :: nat) \<and> (of_char c :: nat) \<noteq> 127" by (simp add: list_all_iff)
      then show ?thesis by linarith
    qed
    then show ?thesis unfolding list_ex_iff by blast
  qed
  moreover have "until_char CHR '':'' (''http'' @ (if tls then ''s'' else []) @ ''://'' @ host @ CHR ''/'' # path) = ''http'' @ (if tls then ''s'' else [])"
    by (simp add: until_char_def)
  moreover have "drop (length (''http'' @ (if tls then ''s'' else [])) + 3) (''http'' @ (if tls then ''s'' else []) @ ''://'' @ host @ CHR ''/'' # path) = host @ CHR ''/'' # path"
    by simp
  ultimately show ?thesis
    unfolding parse_url_def hash Let_def by (simp only: host) simp
qed

definition source_hosts :: "(string \<times> bool \<times> string \<times> bool) list" where
  "source_hosts = [(''OpenWrtHttp'', False, ''downloads.openwrt.org'', False), (''OpenWrtHttps'', True, ''downloads.openwrt.org'', False),
     (''CERNET'', True, ''mirrors.cernet.edu.cn'', True), (''SUSTech'', True, ''mirrors.sustech.edu.cn'', True),
     (''Tsinghua'', True, ''mirrors.tuna.tsinghua.edu.cn'', True), (''USTC'', True, ''mirrors.ustc.edu.cn'', True),
     (''Alibaba Cloud'', True, ''mirrors.aliyun.com'', True), (''Tencent Cloud'', True, ''mirrors.cloud.tencent.com'', True)]"

lemma hosts_plain:
  "list_all (\<lambda>(i, tls, host, ow). list_all (\<lambda>c. c \<notin> set ''#?%@:[/'' \<and> host_char c \<and> c \<noteq> CHR ''_'') host) source_hosts"
  by (simp add: source_hosts_def host_char_def alnum_char_def)

lemma sources_eval:
  "sources = map (\<lambda>((i, tls, host, ow), n). \<lparr>so_identity = i, so_name = n, so_url = address tls host ow\<rparr>) (zip source_hosts source_names)"
  by (simp add: sources_def source_hosts_def source_identities_def source_names_def source_urls_def address_def upt_rec)

lemma hosts_openwrt: "list_all (\<lambda>(i, tls, host, ow). ow \<longleftrightarrow> \<not> contains_str host ''openwrt'') source_hosts"
  by code_simp

lemma source_by_key:
  "distinct (map f xs) \<Longrightarrow> s \<in> set xs \<Longrightarrow> find (\<lambda>t. f t = f s) xs = Some s"
  by (induction xs) auto

lemma source_keys: "distinct (map so_identity sources)" "distinct (map so_url sources)"
proof -
  have "map so_identity sources = source_identities" "map so_url sources = source_urls"
    by (simp_all add: sources_def source_identities_def source_names_def source_urls_def upt_rec)
  then show "distinct (map so_identity sources)" "distinct (map so_url sources)"
    by (simp_all add: source_identities_def source_urls_def)
qed

lemma source_found:
  assumes "s \<in> set sources"
  shows "\<exists>tls host ow. so_url s = address tls host ow \<and> CHR ''/'' \<notin> set host \<and> CHR ''_'' \<notin> set (so_url s) \<and> so_identity s \<noteq> [] \<and>
      source_by_identity (so_identity s) = s \<and> parse_url (so_url s) = Some (''http'' @ (if tls then ''s'' else []), host) \<and>
      source_by_url (normalized_url (''http'' @ (if tls then ''s'' else []), host)) = s"
proof -
  from assms obtain tls host ow n where pair: "((so_identity s, tls, host, ow), n) \<in> set (zip source_hosts source_names)"
      and s: "s = \<lparr>so_identity = so_identity s, so_name = n, so_url = address tls host ow\<rparr>"
    by (auto simp: sources_eval)
  from pair have mem: "(so_identity s, tls, host, ow) \<in> set source_hosts" by (rule set_zip_leftD)
  from s have url: "so_url s = address tls host ow" by (cases s) simp
  have chars: "c \<notin> set ''#?%@:[/'' \<and> host_char c \<and> c \<noteq> CHR ''_''" if "c \<in> set host" for c
    using bspec [OF hosts_plain [unfolded list_all_iff] mem] that by (simp only: prod.case) blast
  have host: "list_all (\<lambda>c. c \<notin> set ''#?%@:[/'' \<and> host_char c) host" using chars unfolding list_all_iff by blast
  have "CHR ''/'' \<in> set ''#?%@:[/''" by simp
  with chars have slash: "CHR ''/'' \<notin> set host" by blast
  from chars have under: "CHR ''_'' \<notin> set host" by blast
  have parse: "parse_url (so_url s) = Some (''http'' @ (if tls then ''s'' else []), host)"
    unfolding url address_def using parse_url_plain [OF host, of "if ow then ''openwrt/'' else []" tls] by simp
  have "CHR ''_'' \<notin> set (so_url s)" using under by (simp add: url address_def)
  moreover from mem have "so_identity s \<noteq> []" by (auto simp: source_hosts_def)
  moreover have "source_by_identity (so_identity s) = s"
    by (simp add: source_by_identity_def source_by_key [OF source_keys(1) assms])
  moreover have "normalized_url (''http'' @ (if tls then ''s'' else []), host) = so_url s"
    using bspec [OF hosts_openwrt [unfolded list_all_iff] mem] by (simp add: normalized_url_def url address_def)
  moreover have "source_by_url (so_url s) = s"
    by (simp add: source_by_url_def source_by_key [OF source_keys(2) assms])
  ultimately show ?thesis using url slash parse by metis
qed

section \<open>The round trip\<close>

lemma current_replaced:
  assumes "s \<in> set sources" "feeds_ok feeds end_text" "list_ex (\<lambda>f. ends_base (fe_pre f)) feeds"
  shows "current_source (Inr (with_address feeds (so_url s) end_text)) = Inr s"
proof -
  from source_found [OF assms(1)] obtain tls host ow where s: "so_url s = address tls host ow" "CHR ''/'' \<notin> set host" "CHR ''_'' \<notin> set (so_url s)"
      "parse_url (so_url s) = Some (''http'' @ (if tls then ''s'' else []), host)"
      "source_by_url (normalized_url (''http'' @ (if tls then ''s'' else []), host)) = s" by blast
  from base_found [OF s(2) s(3) [unfolded s(1)] assms(2,3)]
  obtain u where "re_search base_re True (with_address feeds (so_url s) end_text) = Some ([(1, so_url s)], u)" unfolding s(1) by blast
  then have "feed_url_of (with_address feeds (so_url s) end_text) = Inr (so_url s)" by (simp add: feed_url_of_def re_find_def cap_def)
  with s(4,5) show ?thesis by (simp add: current_source_def)
qed

text \<open>
  C20. Choosing one of the sources, when the factory's feed file is a text with one address per feed, one of them that of the base feed: the new file
  has the chosen address in the place of every address, and the page shows the chosen source. When the file cannot be written there is an error.
\<close>

theorem soft_source_roundtrip:
  assumes "s \<in> set sources" and "sf_rom fs w = Inr (feeds_text feeds end_text)"
    and "feeds_ok feeds end_text" "list_ex (\<lambda>f. ends_base (fe_pre f)) feeds"
    and "\<And>data mode v. fst (sf_write fs data mode v) = None \<Longrightarrow> sf_conf fs (snd (sf_write fs data mode v)) = Inr data"
  shows "case set_source fs (so_identity s) w of
      (Inr t, w') \<Rightarrow> t = s \<and> sf_conf fs w' = Inr (with_address feeds (so_url s) end_text)
    | (Inl e, w') \<Rightarrow> e = ''cannot change the source'' \<and> (\<exists>data mode. fst (sf_write fs data mode w) \<noteq> None)"
proof -
  let ?mode = "case sf_mode fs w of None \<Rightarrow> 420 | Some m \<Rightarrow> m"
  let ?out = "sf_write fs (with_address feeds (so_url s) end_text) ?mode w"
  from source_found [OF assms(1)] have s: "so_identity s \<noteq> []" "source_by_identity (so_identity s) = s" by blast+
  have replace: "replace_source fs (so_url s) w = ?out"
    by (simp add: replace_source_def assms(2) feeds_replaced [OF assms(3)])
  show ?thesis
  proof (cases "fst ?out")
    case None
    from assms(5) [OF this] current_replaced [OF assms(1,3,4)] have "get_source fs (snd ?out) = Inr s" by (simp add: get_source_def)
    moreover obtain w' where "?out = (None, w')" using None by (metis prod.collapse)
    ultimately show ?thesis using assms(5) [OF None] by (simp add: set_source_def s replace)
  next
    case (Some e)
    then obtain w' where "?out = (Some e, w')" by (metis prod.collapse)
    moreover from Some have "\<exists>data mode. fst (sf_write fs data mode w) \<noteq> None" by (metis option.distinct(1))
    ultimately show ?thesis by (simp add: set_source_def s replace)
  qed
qed

definition demo_feeds :: "feed list" where
  "demo_feeds = [\<lparr>fe_pre = ''src/gz x_core '', fe_tls = True, fe_host = ''h.org'', fe_openwrt = False\<rparr>,
     \<lparr>fe_pre = ''a/core'' @ [CHR 0x0A] @ ''src/gz x_base '', fe_tls = True, fe_host = ''h.org'', fe_openwrt = True\<rparr>]"

definition demo_files :: "(string result) source_files" where
  "demo_files = \<lparr>sf_rom = \<lambda>_. Inr (feeds_text demo_feeds ''a/base''), sf_conf = \<lambda>w. w, sf_mode = \<lambda>_. None, sf_write = \<lambda>data _ _. (None, Inr data)\<rparr>"

theorem soft_source_roundtrip_witness:
  "set_source demo_files ''OpenWrtHttp'' (Inl ''none'') = (Inr (hd sources), Inr (
     ''src/gz x_core http://downloads.openwrt.org/a/core'' @ [CHR 0x0A] @ ''src/gz x_base http://downloads.openwrt.org/a/base''))"
proof -
  have s: "hd sources = \<lparr>so_identity = ''OpenWrtHttp'', so_name = ''OpenWRT(HTTP)'', so_url = ''http://downloads.openwrt.org/''\<rparr>"
    by (simp add: sources_def source_identities_def source_names_def source_urls_def upt_rec)
  have "sources \<noteq> []" by (simp add: sources_def)
  then have mem: "hd sources \<in> set sources" by simp
  have ok: "feeds_ok demo_feeds ''a/base''" "list_ex (\<lambda>f. ends_base (fe_pre f)) demo_feeds"
    by (simp_all add: demo_feeds_def next_text_def has_prefix_def ends_base_def space_class_def)
  have files: "sf_rom demo_files w = Inr (feeds_text demo_feeds ''a/base'')" "sf_conf demo_files w = w" "sf_write demo_files d m w = (None, Inr d)" for w d m
    by (simp_all add: demo_files_def)
  obtain r w' where r: "set_source demo_files (so_identity (hd sources)) (Inl ''none'') = (r, w')" by (metis prod.collapse)
  from soft_source_roundtrip [OF mem files(1) ok, of "Inl ''none''"] files
  have "case r of Inr t \<Rightarrow> t = hd sources \<and> w' = Inr (with_address demo_feeds (so_url (hd sources)) ''a/base'') | Inl e \<Rightarrow> False"
    unfolding r by (cases r) simp_all
  then show ?thesis using r by (cases r) (simp_all add: s demo_feeds_def)
qed

end
