(* ===== verification/UciShell.thy ===== *)
theory UciShell
  imports Shell
begin

text \<open>
  What lines of shell that call \<open>uci\<close> do to the configuration, for the theorems that follow a change
  through the configuration and back. Neither the shell nor the tool is part of the program: \<open>line_effect\<close> states what is
  documented of them, for lines without characters special to the shell, apart from single quotes.
\<close>

text \<open>
  Section and option to values; the option without a name is the type of the section. \<open>@device[-1]\<close> counts as a section of its own.
\<close>

type_synonym net_options = "string \<Rightarrow> string \<Rightarrow> string list option"
type_synonym conf_view = "string \<Rightarrow> net_options"

definition cut :: "char \<Rightarrow> string \<Rightarrow> string \<times> string" where
  "cut d s = (let a = takeWhile (\<lambda>c. c \<noteq> d) s in (a, drop (Suc (length a)) s))"

definition set_values :: "string \<Rightarrow> string \<Rightarrow> string list option \<Rightarrow> net_options \<Rightarrow> net_options" where
  "set_values sec opt v f = (\<lambda>s o'. if s = sec \<and> o' = opt then v else f s o')"

definition word_char :: "char \<Rightarrow> bool" where
  "word_char c \<longleftrightarrow> (let n = (of_char c :: nat) in 48 \<le> n \<and> n \<le> 57 \<or> 65 \<le> n \<and> n \<le> 90 \<or> 97 \<le> n \<and> n \<le> 122) \<or> c \<in> set ''._-=:@[]/+,''"

lemma cut_at: "d \<notin> set a \<Longrightarrow> cut d (a @ d # b) = (a, b)" "d \<notin> set a \<Longrightarrow> cut d a = (a, [])"
proof -
  assume d: "d \<notin> set a"
  then have "takeWhile (\<lambda>c. c \<noteq> d) (a @ d # b) = a" by (induction a) auto
  then show "cut d (a @ d # b) = (a, b)" by (simp add: cut_def)
  from d have "takeWhile (\<lambda>c. c \<noteq> d) a = a" by (induction a) auto
  then have t: "takeWhile (\<lambda>c. c \<noteq> d) a = a" .
  show "cut d a = (a, [])" unfolding cut_def t Let_def by simp
qed

section \<open>Words of a line\<close>

text \<open>
  The words of a line; a part between single quotes is taken as it is. \<open>None\<close> when a quote is not closed or another character
  special to the shell occurs. The first argument says whether a quote is open, the second is the word so far.
\<close>

definition more :: "string option \<Rightarrow> string \<Rightarrow> string option" where
  "more t w = Some ((case t of None \<Rightarrow> [] | Some v \<Rightarrow> v) @ w)"

fun lex :: "bool \<Rightarrow> string option \<Rightarrow> string \<Rightarrow> string list option" where
  "lex open t [] = (if open then None else Some (case t of None \<Rightarrow> [] | Some w \<Rightarrow> [w]))"
| "lex True t (c # cs) = (if c = CHR 0x27 then lex False t cs else if c = newline then None else lex True (more t [c]) cs)"
| "lex False t (c # cs) =
     (if c = CHR 0x27 then lex True (more t []) cs
      else if c = CHR '' '' then (case t of None \<Rightarrow> lex False None cs | Some w \<Rightarrow> map_option (\<lambda>ws. w # ws) (lex False None cs))
      else if word_char c then lex False (more t [c]) cs
      else None)"

definition quotable :: "string \<Rightarrow> bool" where
  "quotable v \<longleftrightarrow> CHR 0x27 \<notin> set v \<and> newline \<notin> set v"

lemma more_more [simp]: "more (more t a) b = more t (a @ b)" "more None w = Some w" "more (Some v) w = Some (v @ w)"
  by (simp_all add: more_def)

lemma word_chars: "\<not> word_char (CHR 0x27)" "\<not> word_char (CHR '' '')" "\<not> word_char newline"
  by code_simp+

lemma lex_word:
  "list_all word_char w \<Longrightarrow> w \<noteq> [] \<Longrightarrow> lex False t (w @ s) = lex False (more t w) s"
proof (induction w arbitrary: t)
  case (Cons c w)
  then have "c \<noteq> CHR 0x27" "c \<noteq> CHR '' ''" "word_char c" using word_chars by auto
  then show ?case using Cons by (cases w) simp_all
qed simp

lemma lex_open: "quotable v \<Longrightarrow> lex True t (v @ CHR 0x27 # s) = lex False (if v = [] then t else more t v) s"
proof (induction v arbitrary: t)
  case (Cons c v)
  then show ?case by (cases v) (auto simp: quotable_def)
qed simp

lemma lex_quoted: "quotable v \<Longrightarrow> lex False t (sq v @ s) = lex False (more t v) s"
  by (cases "v = []") (simp_all add: sq_def lex_open)

lemma lex_blank: "lex False None (CHR '' '' # s) = lex False None s" "lex False (Some w) (CHR '' '' # s) = map_option (\<lambda>ws. w # ws) (lex False None s)"
  by simp_all

lemma lex_end: "lex False (Some w) [] = Some [w]" "lex False None [] = Some []"
  by simp_all

section \<open>The effect of a line\<close>

definition put_option :: "string \<Rightarrow> string \<Rightarrow> string \<Rightarrow> string list option \<Rightarrow> conf_view \<Rightarrow> conf_view" where
  "put_option c s opt vs f = f(c := set_values s opt vs (f c))"

definition key_parts :: "string \<Rightarrow> string \<times> string \<times> string" where
  "key_parts key = (case cut CHR ''.'' key of (c, r) \<Rightarrow> (case cut CHR ''.'' r of (s, opt) \<Rightarrow> (c, s, opt)))"

text \<open>An option of a section that does not exist is not set; setting the empty value deletes.\<close>

definition uci_set_effect :: "string \<Rightarrow> conf_view \<Rightarrow> conf_view" where
  "uci_set_effect a f = (case cut CHR ''='' a of (key, v) \<Rightarrow> (case key_parts key of (c, s, opt) \<Rightarrow>
     if opt = [] then put_option c s [] (Some [v]) f
     else if f c s [] = None then f
     else put_option c s opt (if v = [] then None else Some [v]) f))"

definition uci_add_effect :: "string \<Rightarrow> conf_view \<Rightarrow> conf_view" where
  "uci_add_effect a f = (case cut CHR ''='' a of (key, v) \<Rightarrow> (case key_parts key of (c, s, opt) \<Rightarrow>
     if f c s [] = None then f else put_option c s opt (Some ((case f c s opt of None \<Rightarrow> [] | Some vs \<Rightarrow> vs) @ [v])) f))"

definition uci_del_effect :: "string \<Rightarrow> conf_view \<Rightarrow> conf_view" where
  "uci_del_effect key f = (case key_parts key of (c, s, opt) \<Rightarrow>
     if opt = [] then f(c := (\<lambda>s' o'. if s' = s then None else f c s' o')) else put_option c s opt None f)"

definition uci_effect :: "string list \<Rightarrow> conf_view \<Rightarrow> conf_view" where
  "uci_effect ws f =
     (case ws of
        [op, a] \<Rightarrow>
          (if op = ''set'' then uci_set_effect a f
           else if op = ''add_list'' then uci_add_effect a f
           else if op = ''del'' \<or> op = ''delete'' then uci_del_effect a f else f)
      | _ \<Rightarrow> f)"

definition line_core :: "string \<Rightarrow> string" where
  "line_core l = (if drop (length l - 8) l = '' || true'' then take (length l - 8) l else l)"

definition line_words :: "string \<Rightarrow> string list option" where
  "line_words l = lex False None (line_core l)"

definition words_effect :: "string list \<Rightarrow> conf_view \<Rightarrow> conf_view" where
  "words_effect ws f =
     (case ws of
        [] \<Rightarrow> f
      | w # r \<Rightarrow> if w \<noteq> ''uci'' then f else uci_effect (case r of [] \<Rightarrow> [] | q # t \<Rightarrow> if q = ''-q'' then t else r) f)"

definition line_effect :: "string \<Rightarrow> conf_view \<Rightarrow> conf_view" where
  "line_effect l f = (case line_words l of None \<Rightarrow> f | Some ws \<Rightarrow> words_effect ws f)"

text \<open>The lines of a script, with here-documents for \<open>uci batch\<close>.\<close>

definition batch_head :: string where
  "batch_head = ''uci -q batch <<-EOF >/dev/null''"

text \<open>Within a here-document the shell expands dollars and backquotes and drops backslashes; there are none of them in a known line.\<close>

definition batch_words :: "string \<Rightarrow> string list option" where
  "batch_words l = (if list_all (\<lambda>c. c \<notin> {CHR 0x24, CHR 0x60, CHR 0x5C}) l then lex False None l else None)"

fun script_effect :: "bool \<Rightarrow> string list \<Rightarrow> conf_view \<Rightarrow> conf_view" where
  "script_effect b [] f = f"
| "script_effect True (l # ls) f =
     (if l = ''EOF'' then script_effect False ls f
      else script_effect True ls (case batch_words l of None \<Rightarrow> f | Some ws \<Rightarrow> uci_effect ws f))"
| "script_effect False (l # ls) f =
     (if l = batch_head then script_effect True ls f else script_effect False ls (line_effect l f))"

text \<open>The scripts whose effect is known: those of words.\<close>

definition plain_script_line :: "string \<Rightarrow> bool" where
  "plain_script_line l \<longleftrightarrow> line_words l \<noteq> None"

fun plain_script :: "bool \<Rightarrow> string list \<Rightarrow> bool" where
  "plain_script b [] \<longleftrightarrow> True"
| "plain_script True (l # ls) \<longleftrightarrow> (if l = ''EOF'' then plain_script False ls else batch_words l \<noteq> None \<and> plain_script True ls)"
| "plain_script False (l # ls) \<longleftrightarrow> (if l = batch_head then plain_script True ls else plain_script_line l \<and> plain_script False ls)"

lemma batch_head_words: "line_words batch_head = None"
  by code_simp

lemma plain_script_lines: "list_all plain_script_line cs \<Longrightarrow> plain_script False cs"
  using batch_head_words by (induction cs) (auto simp: plain_script_line_def)

section \<open>Lines of the usual form\<close>

text \<open>The value may be in quotes (\<open>v\<close> is then \<open>sq\<close> of it).\<close>

definition set_line :: "string \<Rightarrow> string \<Rightarrow> string \<Rightarrow> string \<Rightarrow> string" where
  "set_line c s opt v = ''uci set '' @ c @ ''.'' @ s @ ''.'' @ opt @ ''='' @ v"

definition type_line :: "string \<Rightarrow> string \<Rightarrow> string \<Rightarrow> string" where
  "type_line c s t = ''uci set '' @ c @ ''.'' @ s @ ''='' @ t"

definition add_line :: "string \<Rightarrow> string \<Rightarrow> string \<Rightarrow> string \<Rightarrow> string" where
  "add_line c s opt v = ''uci add_list '' @ c @ ''.'' @ s @ ''.'' @ opt @ ''='' @ v"

definition del_line :: "string \<Rightarrow> string \<Rightarrow> string \<Rightarrow> string" where
  "del_line c s opt = ''uci del '' @ c @ ''.'' @ s @ ''.'' @ opt"

definition delete_line :: "string \<Rightarrow> string \<Rightarrow> string \<Rightarrow> string" where
  "delete_line c s opt = ''uci delete '' @ c @ ''.'' @ s @ ''.'' @ opt"

text \<open>A part of a name: plain, without the characters that separate the parts.\<close>

definition part :: "string \<Rightarrow> bool" where
  "part n \<longleftrightarrow> n \<noteq> [] \<and> list_all (\<lambda>c. word_char c \<and> c \<noteq> CHR ''.'' \<and> c \<noteq> CHR ''='') n"

definition word_value :: "string \<Rightarrow> string \<Rightarrow> bool" where
  "word_value tx v \<longleftrightarrow> (tx = v \<and> list_all word_char v) \<or> (tx = sq v \<and> quotable v)"

lemma partD: "part n \<Longrightarrow> CHR ''.'' \<notin> set n \<and> CHR ''='' \<notin> set n \<and> list_all word_char n \<and> n \<noteq> []"
  by (auto simp: part_def list_all_iff)

lemma parts:
  assumes "part c" "part s" "part opt"
  shows "key_parts (c @ ''.'' @ s @ ''.'' @ opt) = (c, s, opt)" "key_parts (c @ ''.'' @ s) = (c, s, [])"
    "CHR ''='' \<notin> set (c @ ''.'' @ s @ ''.'' @ opt)" "CHR ''='' \<notin> set (c @ ''.'' @ s)"
    "list_all word_char (c @ ''.'' @ s @ ''.'' @ opt)" "list_all word_char (c @ ''.'' @ s)"
proof -
  have n: "CHR ''.'' \<notin> set c" "CHR ''.'' \<notin> set s" "CHR ''.'' \<notin> set opt" "CHR ''='' \<notin> set c" "CHR ''='' \<notin> set s" "CHR ''='' \<notin> set opt"
    "list_all word_char c" "list_all word_char s" "list_all word_char opt" "word_char (CHR ''.'')"
    using assms by (simp_all add: partD) (simp add: word_char_def)
  have "cut CHR ''.'' (c @ CHR ''.'' # s @ CHR ''.'' # opt) = (c, s @ CHR ''.'' # opt)" "cut CHR ''.'' (s @ CHR ''.'' # opt) = (s, opt)"
    "cut CHR ''.'' (c @ CHR ''.'' # s) = (c, s)" "cut CHR ''.'' s = (s, [])"
    using n by (simp_all add: cut_at)
  then show "key_parts (c @ ''.'' @ s @ ''.'' @ opt) = (c, s, opt)" "key_parts (c @ ''.'' @ s) = (c, s, [])"
    by (simp_all add: key_parts_def)
  show "CHR ''='' \<notin> set (c @ ''.'' @ s @ ''.'' @ opt)" "CHR ''='' \<notin> set (c @ ''.'' @ s)"
    "list_all word_char (c @ ''.'' @ s @ ''.'' @ opt)" "list_all word_char (c @ ''.'' @ s)"
    using n by simp_all
qed

lemma lex_value:
  assumes "word_value tx v"
  shows "lex False (Some w) tx = Some [w @ v]"
proof -
  have "lex False (Some w) v = Some [w @ v]" if "list_all word_char v"
    using lex_word [OF that, of "Some w" "[]"] by (cases "v = []") simp_all
  moreover have "lex False (Some w) (sq v) = Some [w @ v]" if "quotable v"
    using lex_quoted [OF that, of "Some w" "[]"] by simp
  ultimately show ?thesis using assms by (auto simp: word_value_def)
qed

lemma op_words: "list_all word_char ''uci''" "list_all word_char ''set''" "list_all word_char ''del''" "list_all word_char ''delete''"
  "list_all word_char ''add_list''" "list_all word_char ''-q''" "word_char (CHR ''='')"
  by (simp_all add: word_char_def)

lemma lex_command:
  assumes "list_all word_char op" "op \<noteq> []"
  shows "lex False None (''uci '' @ op @ '' '' @ rest) = map_option (\<lambda>ws. ''uci'' # op # ws) (lex False None rest)"
proof -
  have "lex False None (''uci '' @ op @ '' '' @ rest) = map_option (\<lambda>ws. ''uci'' # ws) (lex False None (op @ '' '' @ rest))"
    using lex_word [OF op_words(1), of None "'' '' @ op @ '' '' @ rest"] by (simp add: lex_blank more_def del: lex.simps)
  also have "lex False None (op @ '' '' @ rest) = map_option (\<lambda>ws. op # ws) (lex False None rest)"
    using lex_word [OF assms, of None "'' '' @ rest"] by (simp add: lex_blank more_def del: lex.simps)
  finally show ?thesis by (simp add: option.map_comp comp_def)
qed

lemma lex_assign:
  assumes "list_all word_char key" "key \<noteq> []" "word_value tx v"
  shows "lex False None (key @ ''='' @ tx) = Some [key @ ''='' @ v]"
proof -
  have "list_all word_char (key @ ''='')" using assms(1) op_words(7) by simp
  then have "lex False None ((key @ ''='') @ tx) = lex False (more None (key @ ''='')) tx"
    by (rule lex_word) simp
  then show ?thesis using lex_value [OF assms(3), of "key @ ''=''"] by simp
qed

text \<open>A line that ends in a plain word or in a quote has no \<open>|| true\<close> to be cut off.\<close>

lemma line_core_same:
  assumes "CHR ''|'' \<notin> set l \<or> last l = CHR 0x27"
  shows "line_core l = l"
proof -
  have "drop n l \<noteq> '' || true''" if "n = length l - 8" for n
  proof
    assume eq: "drop n l = '' || true''"
    then have "last (drop n l) = CHR ''e''" "drop n l \<noteq> []" by simp_all
    then have "last l = CHR ''e''" by (metis append_take_drop_id last_appendR)
    moreover have "CHR ''|'' \<in> set (drop n l)" by (simp add: eq)
    ultimately show False using assms by (auto dest: in_set_dropD)
  qed
  then show ?thesis by (simp add: line_core_def)
qed


lemma bar_free: "list_all word_char w \<Longrightarrow> CHR ''|'' \<notin> set w"
  by (auto simp: list_all_iff word_char_def)

lemma command_core:
  assumes "list_all word_char op" "list_all word_char key" "word_value tx v"
  shows "line_core (''uci '' @ op @ '' '' @ key @ ''='' @ tx) = ''uci '' @ op @ '' '' @ key @ ''='' @ tx"
    "line_core (''uci '' @ op @ '' '' @ key) = ''uci '' @ op @ '' '' @ key"
  using assms bar_free [of op] bar_free [of key] bar_free [of v]
  by (intro line_core_same; auto simp: word_value_def sq_def)+

lemma command_words:
  assumes "list_all word_char op" "op \<noteq> []" "list_all word_char key" "key \<noteq> []"
  shows "word_value tx v \<Longrightarrow> line_words (''uci '' @ op @ '' '' @ key @ ''='' @ tx) = Some [''uci'', op, key @ ''='' @ v]"
    "line_words (''uci '' @ op @ '' '' @ key) = Some [''uci'', op, key]"
proof -
  show "line_words (''uci '' @ op @ '' '' @ key @ ''='' @ tx) = Some [''uci'', op, key @ ''='' @ v]" if "word_value tx v"
    unfolding line_words_def command_core(1) [OF assms(1,3) that] lex_command [OF assms(1,2)] lex_assign [OF assms(3,4) that] by simp
  have "word_value [] []" by (simp add: word_value_def)
  from command_core(2) [OF assms(1,3) this] lex_command [OF assms(1,2)] lex_word [OF assms(3,4), of None "[]"]
  show "line_words (''uci '' @ op @ '' '' @ key) = Some [''uci'', op, key]"
    by (simp add: line_words_def more_def del: append.simps)
qed


lemma word_lines:
  assumes "part c" "part s" "part opt"
  shows "word_value tx v \<Longrightarrow> line_words (set_line c s opt tx) = Some [''uci'', ''set'', c @ ''.'' @ s @ ''.'' @ opt @ ''='' @ v]"
    "word_value tx v \<Longrightarrow> line_words (add_line c s opt tx) = Some [''uci'', ''add_list'', c @ ''.'' @ s @ ''.'' @ opt @ ''='' @ v]"
    "word_value tx v \<Longrightarrow> line_words (type_line c s tx) = Some [''uci'', ''set'', c @ ''.'' @ s @ ''='' @ v]"
    "line_words (del_line c s opt) = Some [''uci'', ''del'', c @ ''.'' @ s @ ''.'' @ opt]"
    "line_words (delete_line c s opt) = Some [''uci'', ''delete'', c @ ''.'' @ s @ ''.'' @ opt]"
proof -
  note key = parts(5,6) [OF assms]
  have n: "c @ ''.'' @ s @ ''.'' @ opt \<noteq> []" "c @ ''.'' @ s \<noteq> []" by simp_all
  show "word_value tx v \<Longrightarrow> line_words (set_line c s opt tx) = Some [''uci'', ''set'', c @ ''.'' @ s @ ''.'' @ opt @ ''='' @ v]"
    "word_value tx v \<Longrightarrow> line_words (add_line c s opt tx) = Some [''uci'', ''add_list'', c @ ''.'' @ s @ ''.'' @ opt @ ''='' @ v]"
    "line_words (del_line c s opt) = Some [''uci'', ''del'', c @ ''.'' @ s @ ''.'' @ opt]"
    "line_words (delete_line c s opt) = Some [''uci'', ''delete'', c @ ''.'' @ s @ ''.'' @ opt]"
    using command_words(1) [OF op_words(2) _ key(1) n(1), of tx v] command_words(1) [OF op_words(5) _ key(1) n(1), of tx v]
      command_words(2) [OF op_words(3) _ key(1) n(1)] command_words(2) [OF op_words(4) _ key(1) n(1)]
    by (simp_all add: set_line_def add_line_def del_line_def delete_line_def)
  show "word_value tx v \<Longrightarrow> line_words (type_line c s tx) = Some [''uci'', ''set'', c @ ''.'' @ s @ ''='' @ v]"
    using command_words(1) [OF op_words(2) _ key(2) n(2), of tx v] by (simp add: type_line_def)
qed

lemma key_cut:
  assumes "part c" "part s" "part opt"
  shows "cut CHR ''='' (c @ ''.'' @ s @ ''.'' @ opt @ ''='' @ v) = (c @ ''.'' @ s @ ''.'' @ opt, v)"
    "cut CHR ''='' (c @ ''.'' @ s @ ''='' @ v) = (c @ ''.'' @ s, v)"
  using cut_at(1) [OF parts(3) [OF assms], of v] cut_at(1) [OF parts(4) [OF assms], of v] by simp_all

text \<open>What the lines do.\<close>

lemma line_effects:
  assumes "part c" "part s" "part opt"
  shows "word_value tx v \<Longrightarrow> line_effect (set_line c s opt tx) f =
      (if f c s [] = None then f else put_option c s opt (if v = [] then None else Some [v]) f)"
    "word_value tx v \<Longrightarrow> line_effect (add_line c s opt tx) f =
      (if f c s [] = None then f else put_option c s opt (Some ((case f c s opt of None \<Rightarrow> [] | Some vs \<Rightarrow> vs) @ [v])) f)"
    "word_value tx v \<Longrightarrow> line_effect (type_line c s tx) f = put_option c s [] (Some [v]) f"
    "line_effect (del_line c s opt) f = put_option c s opt None f"
    "line_effect (delete_line c s opt) f = put_option c s opt None f"
proof -
  have "opt \<noteq> []" using assms(3) by (simp add: part_def)
  note facts = this word_lines [OF assms] key_cut [OF assms] parts(1,2) [OF assms]
  show "word_value tx v \<Longrightarrow> line_effect (set_line c s opt tx) f =
      (if f c s [] = None then f else put_option c s opt (if v = [] then None else Some [v]) f)"
    "word_value tx v \<Longrightarrow> line_effect (add_line c s opt tx) f =
      (if f c s [] = None then f else put_option c s opt (Some ((case f c s opt of None \<Rightarrow> [] | Some vs \<Rightarrow> vs) @ [v])) f)"
    "word_value tx v \<Longrightarrow> line_effect (type_line c s tx) f = put_option c s [] (Some [v]) f"
    "line_effect (del_line c s opt) f = put_option c s opt None f"
    "line_effect (delete_line c s opt) f = put_option c s opt None f"
    using facts by (simp_all add: line_effect_def words_effect_def uci_effect_def uci_set_effect_def uci_add_effect_def uci_del_effect_def del: append.simps append_assoc)
qed

lemma not_head:
  "set_line c s opt v \<noteq> batch_head" "add_line c s opt v \<noteq> batch_head" "type_line c s v \<noteq> batch_head"
  "del_line c s opt \<noteq> batch_head" "delete_line c s opt \<noteq> batch_head"
  by (simp_all add: set_line_def add_line_def type_line_def del_line_def delete_line_def batch_head_def)

lemma put_option_at [simp]: "put_option c s opt v f c' s' opt' = (if c' = c \<and> s' = s \<and> opt' = opt then v else f c' s' opt')"
  by (simp add: put_option_def set_values_def)

lemma script_append: "batch_head \<notin> set xs \<Longrightarrow> script_effect False (xs @ ys) f = script_effect False ys (script_effect False xs f)"
  by (induction xs arbitrary: f) (auto)

lemma plain_lines:
  assumes "part c" "part s" "part opt"
  shows "word_value tx v \<Longrightarrow> plain_script_line (set_line c s opt tx)" "word_value tx v \<Longrightarrow> plain_script_line (add_line c s opt tx)"
    "word_value tx v \<Longrightarrow> plain_script_line (type_line c s tx)" "plain_script_line (del_line c s opt)" "plain_script_line (delete_line c s opt)"
  using word_lines [OF assms] by (simp_all add: plain_script_line_def)

section \<open>The effect at one option\<close>

text \<open>A script does its lines one after the other; \<open>before\<close> and \<open>at\<close> serve to look at one option.\<close>

definition vals_at :: "conf_view \<Rightarrow> string \<Rightarrow> string \<Rightarrow> string \<Rightarrow> string list" where
  "vals_at f c s opt = (case f c s opt of None \<Rightarrow> [] | Some vs \<Rightarrow> vs)"

lemma lines_at:
  assumes "part c" "part s" "part opt"
  shows "word_value tx v \<Longrightarrow> line_effect (set_line c s opt tx) f c' s' opt' =
      (if c' = c \<and> s' = s \<and> opt' = opt \<and> f c s [] \<noteq> None then if v = [] then None else Some [v] else f c' s' opt')"
    "word_value tx v \<Longrightarrow> line_effect (add_line c s opt tx) f c' s' opt' =
      (if c' = c \<and> s' = s \<and> opt' = opt \<and> f c s [] \<noteq> None then Some (vals_at f c s opt @ [v]) else f c' s' opt')"
    "word_value tx v \<Longrightarrow> line_effect (type_line c s tx) f c' s' opt' = (if c' = c \<and> s' = s \<and> opt' = [] then Some [v] else f c' s' opt')"
    "line_effect (del_line c s opt) f c' s' opt' = (if c' = c \<and> s' = s \<and> opt' = opt then None else f c' s' opt')"
    "line_effect (delete_line c s opt) f c' s' opt' = (if c' = c \<and> s' = s \<and> opt' = opt then None else f c' s' opt')"
  using line_effects [OF assms] by (auto simp: vals_at_def)

text \<open>The same for a value without quotes, and for one between quotes.\<close>

lemma set_at:
  assumes "part c" "part s" "part opt"
  shows "list_all word_char v \<Longrightarrow> line_effect (set_line c s opt v) f c' s' opt' =
      (if c' = c \<and> s' = s \<and> opt' = opt \<and> f c s [] \<noteq> None then if v = [] then None else Some [v] else f c' s' opt')"
    "quotable v \<Longrightarrow> line_effect (set_line c s opt (sq v)) f c' s' opt' =
      (if c' = c \<and> s' = s \<and> opt' = opt \<and> f c s [] \<noteq> None then if v = [] then None else Some [v] else f c' s' opt')"
    "list_all word_char v \<Longrightarrow> line_effect (add_line c s opt v) f c' s' opt' =
      (if c' = c \<and> s' = s \<and> opt' = opt \<and> f c s [] \<noteq> None then Some (vals_at f c s opt @ [v]) else f c' s' opt')"
    "quotable v \<Longrightarrow> line_effect (add_line c s opt (sq v)) f c' s' opt' =
      (if c' = c \<and> s' = s \<and> opt' = opt \<and> f c s [] \<noteq> None then Some (vals_at f c s opt @ [v]) else f c' s' opt')"
    "list_all word_char v \<Longrightarrow> line_effect (type_line c s v) f c' s' opt' = (if c' = c \<and> s' = s \<and> opt' = [] then Some [v] else f c' s' opt')"
  by (rule lines_at [OF assms]; simp add: word_value_def)+

lemma plain_value_lines:
  assumes "part c" "part s" "part opt"
  shows "list_all word_char v \<Longrightarrow> plain_script_line (set_line c s opt v)" "quotable v \<Longrightarrow> plain_script_line (set_line c s opt (sq v))"
    "list_all word_char v \<Longrightarrow> plain_script_line (add_line c s opt v)" "quotable v \<Longrightarrow> plain_script_line (add_line c s opt (sq v))"
    "list_all word_char v \<Longrightarrow> plain_script_line (type_line c s v)"
    "plain_script_line (del_line c s opt)" "plain_script_line (delete_line c s opt)"
  using plain_lines(1) [OF assms, of v v] plain_lines(1) [OF assms, of "sq v" v] plain_lines(2) [OF assms, of v v]
    plain_lines(2) [OF assms, of "sq v" v] plain_lines(3) [OF assms, of v v] plain_lines(4,5) [OF assms]
  by (simp_all add: word_value_def)

lemma type_lines:
  assumes "part c" "part s" "list_all word_char v"
  shows "line_effect (type_line c s v) f c' s' opt' = (if c' = c \<and> s' = s \<and> opt' = [] then Some [v] else f c' s' opt')"
    "plain_script_line (type_line c s v)"
  using set_at(5) [OF assms(1,2,2,3)] plain_value_lines(5) [OF assms(1,2,2,3)] by simp_all

lemma script_lines [simp]:
  "script_effect False [] f = f"
  "l \<noteq> batch_head \<Longrightarrow> script_effect False (l # ls) f = script_effect False ls (line_effect l f)"
  by simp_all

section \<open>Lines of one section\<close>

text \<open>Lines that set or delete options of one section, all from a given set.\<close>

definition section_line :: "string \<Rightarrow> string \<Rightarrow> string set \<Rightarrow> string \<Rightarrow> bool" where
  "section_line c s opts l \<longleftrightarrow> (\<exists>opt\<in>opts. part opt \<and> ((\<exists>tx v. word_value tx v \<and> l = set_line c s opt tx) \<or> l = del_line c s opt))"

lemma section_line_intros:
  "list_all word_char v \<Longrightarrow> part opt \<Longrightarrow> opt \<in> opts \<Longrightarrow> section_line c s opts (set_line c s opt v)"
  "quotable v \<Longrightarrow> part opt \<Longrightarrow> opt \<in> opts \<Longrightarrow> section_line c s opts (set_line c s opt (sq v))"
  "part opt \<Longrightarrow> opt \<in> opts \<Longrightarrow> section_line c s opts (del_line c s opt)"
  unfolding section_line_def word_value_def by blast+

lemma section_line_effect:
  assumes "part c" "part s" "section_line c s opts l"
  shows "l \<noteq> batch_head" "plain_script_line l" "c' \<noteq> c \<or> s' \<noteq> s \<or> opt' \<notin> opts \<Longrightarrow> line_effect l f c' s' opt' = f c' s' opt'"
proof -
  from assms(3) obtain opt where opt: "opt \<in> opts" "part opt" "(\<exists>tx v. word_value tx v \<and> l = set_line c s opt tx) \<or> l = del_line c s opt"
    by (auto simp: section_line_def)
  note rules = lines_at(1,4) [OF assms(1,2) opt(2)] plain_lines(1,4) [OF assms(1,2) opt(2)] not_head not_head [symmetric]
  show "l \<noteq> batch_head" "plain_script_line l" using opt(3) by (auto simp: rules)
  show "line_effect l f c' s' opt' = f c' s' opt'" if "c' \<noteq> c \<or> s' \<noteq> s \<or> opt' \<notin> opts"
    using that opt(1,3) by (auto simp: rules)
qed

lemma section_lines_effect:
  assumes "part c" "part s" "list_all (section_line c s opts) ls"
  shows "list_all plain_script_line ls" "batch_head \<notin> set ls"
    "c' \<noteq> c \<or> s' \<noteq> s \<or> opt' \<notin> opts \<Longrightarrow> script_effect False ls f c' s' opt' = f c' s' opt'"
proof -
  note rules = section_line_effect [OF assms(1,2)]
  show "list_all plain_script_line ls" "batch_head \<notin> set ls" using assms(3) rules(1,2) by (auto simp: list_all_iff)
  show "script_effect False ls f c' s' opt' = f c' s' opt'" if "c' \<noteq> c \<or> s' \<noteq> s \<or> opt' \<notin> opts"
    using assms(3)
  proof (induction ls arbitrary: f)
    case (Cons l ls)
    then show ?case using rules(1) [of opts l] rules(3) [of opts l, OF _ that] by simp
  qed simp
qed

text \<open>Lines that are not for \<open>uci\<close>, and those that only commit.\<close>

lemma line_other:
  "line_words l = Some (w # ws) \<Longrightarrow> w \<noteq> ''uci'' \<Longrightarrow> line_effect l f = f"
  "line_words l = Some [''uci'', ''commit'', c] \<Longrightarrow> line_effect l f = f"
  "line_words l = None \<Longrightarrow> line_effect l f = f"
  by (simp_all add: line_effect_def words_effect_def uci_effect_def)

text \<open>What \<open>UciCommitAndApply\<close> runs for one configuration.\<close>

definition commit_line :: "string \<Rightarrow> string" where
  "commit_line c = ''uci commit '' @ c"

definition event_line :: "string \<Rightarrow> string" where
  "event_line c = ''ubus call service event '' @ sq (''{\"type\":\"config.change\", \"data\":{\"package\":\"'' @ c @ ''\"}}'')"

lemma commit_commands: "uci_commit_commands cs = concat (map (\<lambda>c. [commit_line c, event_line c]) cs)"
  by (simp add: uci_commit_commands_def commit_line_def event_line_def)

lemma commit_words: "line_words (commit_line c) = Some [''uci'', ''commit'', c]" if "part c"
proof -
  have "list_all word_char ''commit''" by (simp add: word_char_def)
  with command_words(2) [of "''commit''" c] partD [OF that] show ?thesis by (simp add: commit_line_def)
qed

lemma event_words:
  assumes "part c"
  shows "\<exists>ws. line_words (event_line c) = Some (''ubus'' # ws)"
proof -
  let ?v = "''{\"type\":\"config.change\", \"data\":{\"package\":\"'' @ c @ ''\"}}''"
  have nl: "newline = CHR 0x0A" by code_simp
  have "CHR 0x27 \<notin> set c" "newline \<notin> set c" using partD [OF assms] word_chars by (auto simp: list_all_iff)
  then have q: "quotable ?v" unfolding quotable_def nl by simp
  have w: "list_all word_char ''ubus''" "list_all word_char ''call''" "list_all word_char ''service''" "list_all word_char ''event''"
    by (simp_all add: word_char_def)
  have "line_core (''ubus call service event '' @ sq ?v) = ''ubus call service event '' @ sq ?v"
    by (rule line_core_same) (simp add: sq_def)
  moreover have "lex False None (''ubus '' @ ''call '' @ ''service '' @ ''event '' @ sq ?v) = Some [''ubus'', ''call'', ''service'', ''event'', ?v]"
    using lex_word [OF w(1), of None "'' '' @ ''call '' @ ''service '' @ ''event '' @ sq ?v"] lex_word [OF w(2), of None "'' '' @ ''service '' @ ''event '' @ sq ?v"]
      lex_word [OF w(3), of None "'' '' @ ''event '' @ sq ?v"] lex_word [OF w(4), of None "'' '' @ sq ?v"] lex_quoted [OF q, of None "[]"]
    by (simp add: lex_blank more_def del: lex.simps(2,3))
  ultimately show ?thesis by (simp add: line_words_def event_line_def)
qed

lemma commit_effect:
  assumes "list_all part cs"
  shows "script_effect False (uci_commit_commands cs) f = f" "list_all plain_script_line (uci_commit_commands cs)"
proof -
  have head: "commit_line c \<noteq> batch_head" "event_line c \<noteq> batch_head" for c
    by (simp_all add: batch_head_def commit_line_def event_line_def)
  have one: "line_effect (commit_line c) g = g" "line_effect (event_line c) g = g" if c: "part c" for c g
  proof -
    show "line_effect (commit_line c) g = g" by (rule line_other(2) [OF commit_words [OF c]])
    obtain ws where "line_words (event_line c) = Some (''ubus'' # ws)" using event_words [OF c] by blast
    then show "line_effect (event_line c) g = g" by (rule line_other(1)) simp
  qed
  show "script_effect False (uci_commit_commands cs) f = f"
    using assms unfolding commit_commands by (induction cs) (simp_all add: head one)
  show "list_all plain_script_line (uci_commit_commands cs)"
    using assms commit_words event_words unfolding commit_commands by (induction cs) (fastforce simp: plain_script_line_def)+
qed

section \<open>What is assumed of the shell and the reader\<close>

text \<open>
  The shell can be started, and does what is documented on scripts of plain lines, whatever the exit code of their last line; the
  reader shows the values as they are.
\<close>

definition shell_view :: "'w exec \<Rightarrow> ('w \<Rightarrow> conf_view) \<Rightarrow> bool" where
  "shell_view exec view \<longleftrightarrow>
     (\<forall>cs w. plain_script False cs \<longrightarrow> view (snd (batch_run exec cs 0 w)) = script_effect False cs (view w))"

definition uci_shows :: "('w \<Rightarrow> uci) \<Rightarrow> ('w \<Rightarrow> conf_view) \<Rightarrow> bool" where
  "uci_shows cfg view \<longleftrightarrow> (\<forall>w c s opt. opt \<noteq> [] \<longrightarrow> uci_get (cfg w) c s opt = view w c s opt \<and>
     uci_last (cfg w) c s opt = (case view w c s opt of None \<Rightarrow> None | Some vs \<Rightarrow> if vs = [] then None else Some (last vs)))"

lemma shell_run: "shell_view exec view \<Longrightarrow> plain_script False cs \<Longrightarrow> batch_run exec cs 0 w = (r, w') \<Longrightarrow> view w' = script_effect False cs (view w)"
  unfolding shell_view_def by (metis snd_conv)


text \<open>Such a shell and such a reader: the shell that does just what the lines say, on the configuration itself.\<close>

definition view_exec :: "conf_view exec" where
  "view_exec s t w = (None, script_effect False (case s of BashArg c \<Rightarrow> [c] | BashStdin x \<Rightarrow> split_on newline x) w)"

definition uci_of_view :: "conf_view \<Rightarrow> uci" where
  "uci_of_view w = \<lparr>uci_sections = (\<lambda>_ _. None), uci_get = w,
     uci_last = (\<lambda>c s opt. case w c s opt of None \<Rightarrow> None | Some vs \<Rightarrow> if vs = [] then None else Some (last vs))\<rparr>"

lemma lex_newline: "newline \<in> set l \<Longrightarrow> lex b t l = None"
proof -
  have nl: "newline \<noteq> CHR 0x27" "newline \<noteq> CHR '' ''" "\<not> word_char newline" by code_simp+
  show "newline \<in> set l \<Longrightarrow> lex b t l = None"
    by (induction b t l rule: lex.induct) (use nl in \<open>auto split: option.splits\<close>)
qed

lemma plain_no_newline: "plain_script_line l \<Longrightarrow> newline \<notin> set l"
proof
  assume l: "plain_script_line l" "newline \<in> set l"
  have nl: "newline = CHR 0x0A" by code_simp
  from l(1) have core: "newline \<notin> set (line_core l)" using lex_newline by (fastforce simp: line_words_def plain_script_line_def)
  have "set l \<subseteq> set (line_core l) \<union> set '' || true''"
  proof (cases "drop (length l - 8) l = '' || true''")
    case True
    then have "l = line_core l @ '' || true''" by (metis append_take_drop_id line_core_def)
    then show ?thesis by (metis order_refl set_append)
  qed (auto simp: line_core_def)
  with core l(2) show False by (auto simp: nl)
qed

lemma plain_script_no_newline: "plain_script b ls \<Longrightarrow> \<forall>l\<in>set ls. newline \<notin> set l"
proof (induction b ls rule: plain_script.induct)
  case (2 l ls)
  have "newline \<notin> set ''EOF''" by code_simp
  moreover have "batch_words l \<noteq> None \<Longrightarrow> newline \<notin> set l" using lex_newline by (auto simp: batch_words_def split: if_splits)
  ultimately show ?case using 2 by (auto split: if_splits)
next
  case (3 l ls)
  have "newline \<notin> set batch_head" by code_simp
  then show ?case using 3 plain_no_newline by (auto split: if_splits)
qed simp

lemma script_effect_end: "script_effect b (ls @ [[]]) f = script_effect b ls f"
proof (induction b ls f rule: script_effect.induct)
  case (1 b f)
  have "[] \<noteq> batch_head" by (simp add: batch_head_def)
  moreover have "line_words [] = Some []" "batch_words [] = Some []" by code_simp+
  ultimately show ?case by (cases b) (simp_all add: line_effect_def words_effect_def uci_effect_def)
qed simp_all

lemma view_exec_shell: "shell_view view_exec (\<lambda>w. w)"
proof -
  have "snd (batch_run view_exec cs 0 w) = script_effect False cs w" if "plain_script False cs" for cs w
  proof -
    have "\<forall>c\<in>set cs. newline \<notin> set c" by (rule plain_script_no_newline [OF that])
    then have "split_on newline (concat (map (\<lambda>c. c @ [newline]) cs)) = cs @ [[]]" by (rule split_lines)
    then have "view_exec (BashStdin (concat (map (\<lambda>c. c @ [newline]) cs))) 0 w = (None, script_effect False cs w)"
      by (simp only: view_exec_def script.case script_effect_end)
    moreover have "create_batch_command cs = Inl err_empty \<and> cs = [] \<or> (\<exists>c. cs = [c] \<and> create_batch_command cs = Inr (BashArg c)) \<or>
        create_batch_command cs = Inr (BashStdin (concat (map (\<lambda>c. c @ [newline]) cs)))"
      by (simp add: create_batch_command_def split: list.splits)
    ultimately show ?thesis by (auto simp: batch_run_def view_exec_def)
  qed
  then show ?thesis by (simp add: shell_view_def)
qed

lemma uci_of_view_shows: "uci_shows uci_of_view (\<lambda>w. w)"
  by (simp add: uci_shows_def uci_of_view_def)

lemma view_exec_succeeds: "cs \<noteq> [] \<Longrightarrow> fst (batch_run view_exec cs 0 w) = None"
  using batch_run_nonempty [of cs view_exec 0 w] by (auto simp: view_exec_def)

end
