(* ===== verification/NetworkWrite.thy ===== *)
theory NetworkWrite
  imports UciShell
begin

text \<open>
  The interfaces of the network page: reading them (\<open>modules/network/interfaceinventory\<close>) and applying a whole set of
  interfaces (\<open>modules/network/interfacewrite\<close>) with the stores \<open>service/network_interface_*.go\<close>. Reports and requests hold no nil entries. What
  the commands do to the configuration is stated by \<open>net_line\<close>; the theorem about the result assumes that a batch that
  succeeds has this effect.
\<close>

section \<open>The inventory\<close>

record port_info =
  np_name :: string
  np_master :: string

record iface_snapshot =
  sn_name :: string
  sn_proto :: string
  sn_port :: string
  sn_ipv4 :: string
  sn_ipv6 :: string

record iface_entry =
  ie_name :: string
  ie_proto :: string
  ie_ipv4 :: string
  ie_ipv6 :: string
  ie_port :: string
  ie_ports :: "port_info list"
  ie_devices :: "string list"
  ie_firewall :: string

definition read_inventory :: "iface_snapshot list result \<Rightarrow> iface_snapshot list result" where
  "read_inventory dump =
     (case dump of Inl _ \<Rightarrow> Inl ''cannot get the network interfaces''
      | Inr is \<Rightarrow> Inr (filter (\<lambda>i. sn_name i \<noteq> ''docker'' \<and> sn_name i \<noteq> ''loopback'') is))"

definition firewall_bindings :: "uci result \<Rightarrow> (string \<rightharpoonup> string) result" where
  "firewall_bindings load =
     (case load of
        Inl e \<Rightarrow> Inl e
      | Inr u \<Rightarrow>
          Inr (foldl (\<lambda>m sec. foldl (\<lambda>m' net. m'(net \<mapsto> last_or_empty u ''firewall'' sec ''name'')) m
                 (case uci_get u ''firewall'' sec ''network'' of None \<Rightarrow> [] | Some ns \<Rightarrow> ns))
               Map.empty (sections_or_empty u ''firewall'' ''zone'')))"

text \<open>The ports by name, in the order in which the runtime goes through the map.\<close>

definition resolve_slave_ports :: "port_info list \<Rightarrow> string \<Rightarrow> port_info list" where
  "resolve_slave_ports ports device =
     (if length device < 1 then []
      else let slaves = filter (\<lambda>p. np_master p = device) ports
           in if slaves = [] then (case find (\<lambda>p. np_name p = device) ports of None \<Rightarrow> [] | Some p \<Rightarrow> [p]) else slaves)"

definition resolve_attachments :: "port_info list \<Rightarrow> string \<Rightarrow> port_info list \<times> string list" where
  "resolve_attachments ports device = (let ps = resolve_slave_ports ports device in (ps, map np_name ps))"

text \<open>\<open>order\<close>: the ports of the map that is built from the list, in the order of its iteration.\<close>

definition list_inventory ::
    "(port_info list \<Rightarrow> port_info list) \<Rightarrow> port_info list result \<Rightarrow> iface_snapshot list result \<Rightarrow> uci result \<Rightarrow> iface_entry list result" where
  "list_inventory order ports dump firewall =
     (case ports of
        Inl e \<Rightarrow> Inl e
      | Inr ps \<Rightarrow>
          (case read_inventory dump of
             Inl e \<Rightarrow> Inl e
           | Inr is \<Rightarrow>
               (case firewall_bindings firewall of
                  Inl e \<Rightarrow> Inl e
                | Inr bindings \<Rightarrow>
                    Inr (map (\<lambda>i. case resolve_attachments (order ps) (sn_port i) of (att, devices) \<Rightarrow>
                      \<lparr>ie_name = sn_name i, ie_proto = sn_proto i, ie_ipv4 = sn_ipv4 i, ie_ipv6 = sn_ipv6 i, ie_port = sn_port i,
                       ie_ports = att, ie_devices = devices, ie_firewall = (case bindings (sn_name i) of None \<Rightarrow> [] | Some z \<Rightarrow> z)\<rparr>) is))))"


section \<open>Planning a change\<close>















section \<open>Applying it\<close>





section \<open>What the commands leave in the configuration\<close>







section \<open>The effect of the lines\<close>





















section \<open>Firewall zones\<close>










section \<open>The whole change\<close>


























end
