(* ===== verification/Command.thy ===== *)
theory Command
  imports Shell Trace
begin

text \<open>
  Services that act by batches of shell commands. The history holds the batches that were run, those whose output
  was read, and the calls of \<open>ubus\<close>; what they answer, and what the configuration and the file system
  look like, is any function of the history.
\<close>

datatype cmd_action =
    CmdRun "string list"
  | CmdOutput "string list"
  | CmdUbus "string list"

type_synonym cmd_history = "cmd_action list"
type_synonym 'a cmd_prog = "(cmd_action, unit, 'a) prog"

text \<open>
  The error of a batch, the output of a batch or its error, what a failed batch has written before it failed, the
  configuration, and whether a path can be accessed.
\<close>

record cmd_env =
  ce_run :: "cmd_history \<Rightarrow> string list \<Rightarrow> goerr option"
  ce_output :: "cmd_history \<Rightarrow> string list \<Rightarrow> string result"
  ce_partial :: "cmd_history \<Rightarrow> string list \<Rightarrow> string"
  ce_stderr :: "cmd_history \<Rightarrow> string list \<Rightarrow> string"
  ce_uci :: "cmd_history \<Rightarrow> uci"
  ce_access :: "cmd_history \<Rightarrow> string \<Rightarrow> bool"

definition run_batch :: "('a cmd_env_scheme) \<Rightarrow> string list \<Rightarrow> goerr option cmd_prog" where
  "run_batch e cmds = do { act (CmdRun cmds); ask (\<lambda>h. ce_run e h cmds) }"

definition read_output :: "('a cmd_env_scheme) \<Rightarrow> string list \<Rightarrow> string result cmd_prog" where
  "read_output e cmds = do { act (CmdOutput cmds); ask (\<lambda>h. ce_output e h cmds) }"

text \<open>\<open>out, _ := BatchOutput(...)\<close>: the output, whether the batch failed or not.\<close>

definition read_stdout :: "('a cmd_env_scheme) \<Rightarrow> string list \<Rightarrow> string cmd_prog" where
  "read_stdout e cmds = do {
     act (CmdOutput cmds);
     ask (\<lambda>h. case ce_output e h cmds of Inl _ \<Rightarrow> ce_partial e h cmds | Inr out \<Rightarrow> out)
   }"

text \<open>The error of a step is replaced by a message of the service.\<close>

definition or_error :: "goerr \<Rightarrow> goerr option cmd_prog \<Rightarrow> goerr option cmd_prog" where
  "or_error msg m = do { failed \<leftarrow> m; State_Monad.return (map_option (\<lambda>_. msg) failed) }"

definition success :: "unit result cmd_prog" where
  "success = State_Monad.return (Inr ())"

text \<open>\<open>uciGet\<close>: one option, through the tool; and \<open>CheckAppIsRunning\<close>.\<close>

definition uci_get_command :: "string \<Rightarrow> string" where
  "uci_get_command location = ''uci get '' @ sq location"

definition uci_get_option :: "('a cmd_env_scheme) \<Rightarrow> string \<Rightarrow> string result cmd_prog" where
  "uci_get_option e location = ok_then (read_output e [uci_get_command location])
     (\<lambda>text. State_Monad.return (Inr (remove_char newline text)))"

definition pgrep_command :: "string \<Rightarrow> string" where
  "pgrep_command name = ''pgrep '' @ sq (''(^|/)'' @ name @ ''[^/]*$'')"

definition check_app_is_running :: "('a cmd_env_scheme) \<Rightarrow> string \<Rightarrow> bool cmd_prog" where
  "check_app_is_running e name = do {
     out \<leftarrow> read_output e [pgrep_command name];
     State_Monad.return (case out of Inl _ \<Rightarrow> False | Inr text \<Rightarrow> remove_char newline text \<noteq> [])
   }"

definition check_app_is_installed :: "('a cmd_env_scheme) \<Rightarrow> string \<Rightarrow> bool cmd_prog" where
  "check_app_is_installed e name = ask (\<lambda>h. ce_access e h (''/usr/lib/opkg/info/'' @ name @ ''.control''))"

text \<open>\<open>UbusCall\<close>: the argument is split at blanks.\<close>

definition ubus_call_args :: "string \<Rightarrow> string list" where
  "ubus_call_args arg = [''-S'', ''call''] @ split_on CHR '' '' arg"

section \<open>Runs\<close>

lemma command_runs [simp]:
  "result_of (run_batch e c) h = ce_run e (h @ [CmdRun c]) c" "after (run_batch e c) h = h @ [CmdRun c]"
  "result_of (read_output e c) h = ce_output e (h @ [CmdOutput c]) c" "after (read_output e c) h = h @ [CmdOutput c]"
  "result_of (read_stdout e c) h = (case ce_output e (h @ [CmdOutput c]) c of Inl _ \<Rightarrow> ce_partial e (h @ [CmdOutput c]) c | Inr out \<Rightarrow> out)"
  "after (read_stdout e c) h = h @ [CmdOutput c]"
  "result_of (or_error msg m) h = map_option (\<lambda>_. msg) (result_of m h)" "after (or_error msg m) h = after m h"
  "result_of success h = Inr ()" "after success h = h"
  by (simp_all add: run_batch_def read_output_def read_stdout_def or_error_def success_def)

text \<open>A batch that was run succeeded; reading always counts as a success.\<close>

fun cmd_ok :: "('a cmd_env_scheme) \<Rightarrow> cmd_history \<Rightarrow> cmd_action \<Rightarrow> bool" where
  "cmd_ok e h (CmdRun c) \<longleftrightarrow> ce_run e h c = None"
| "cmd_ok e h (CmdOutput c) \<longleftrightarrow> True"
| "cmd_ok e h (CmdUbus c) \<longleftrightarrow> True"

text \<open>Steps that are batches, one after the other.\<close>

definition in_order :: "('a cmd_env_scheme) \<Rightarrow> (cmd_action list \<Rightarrow> bool) \<Rightarrow> 'b result cmd_prog \<Rightarrow> bool" where
  "in_order e P m \<longleftrightarrow> steps_in_order (cmd_ok e) P m"

named_theorems order_intro \<open>rules for batches in order\<close>

lemma order_return [order_intro]: "in_order e (\<lambda>all. all = []) (State_Monad.return (Inr x))"
  unfolding in_order_def steps_in_order_def by (auto intro!: exI [of _ 0] simp: stopped_at_def)

lemma order_success [order_intro]: "in_order e (\<lambda>all. all = []) success"
  unfolding success_def by (rule order_return)

lemma order_fail: "P all \<Longrightarrow> in_order e P (State_Monad.return (Inl err))"
  unfolding in_order_def steps_in_order_def by (auto intro!: exI [of _ all] exI [of _ 0] simp: stopped_first)

lemma order_batch:
  assumes "in_order e P n"
  shows "in_order e (\<lambda>all. \<exists>rest. all = CmdRun c # rest \<and> P rest) (done_then (run_batch e c) n)"
  unfolding in_order_def
  by (rule steps_in_order_mono, rule steps_in_order_step [where A = "\<lambda>a. a = CmdRun c", OF _ refl assms [unfolded in_order_def]]) auto

lemma order_batch_or:
  assumes "in_order e P n"
  shows "in_order e (\<lambda>all. \<exists>rest. all = CmdRun c # rest \<and> P rest) (done_then (or_error msg (run_batch e c)) n)"
  unfolding in_order_def
  by (rule steps_in_order_mono, rule steps_in_order_step [where A = "\<lambda>a. a = CmdRun c", OF _ refl assms [unfolded in_order_def]]) auto

lemma order_mono: "in_order e P m \<Longrightarrow> (\<And>all. P all \<Longrightarrow> Q all) \<Longrightarrow> in_order e Q m"
  unfolding in_order_def by (rule steps_in_order_mono)

lemma done_then_each:
  "result_of (done_then (each_done f (x # xs)) n) h = result_of (done_then (f x) (done_then (each_done f xs) n)) h"
  "after (done_then (each_done f (x # xs)) n) h = after (done_then (f x) (done_then (each_done f xs) n)) h"
  by (auto split: option.split)

lemma order_same:
  assumes "in_order e P m" "\<And>h. result_of n h = result_of m h" "\<And>h. after n h = after m h"
  shows "in_order e P n"
  using assms by (simp add: in_order_def steps_in_order_def)

lemma order_each:
  assumes "in_order e P n"
  shows "in_order e (\<lambda>all. \<exists>rest. all = map CmdRun cs @ rest \<and> P rest) (done_then (each_done (run_batch e) cs) n)"
proof (induction cs)
  case Nil
  have "in_order e P (done_then (each_done (run_batch e) []) n)"
    by (rule order_same [OF assms]) simp_all
  then show ?case by simp
next
  case (Cons c cs)
  have "in_order e (\<lambda>all. \<exists>rest. all = CmdRun c # rest \<and> (\<exists>r. rest = map CmdRun cs @ r \<and> P r))
      (done_then (each_done (run_batch e) (c # cs)) n)"
    by (rule order_same [OF order_batch [OF Cons]]) (simp_all only: done_then_each)
  then show ?case by (rule order_mono) auto
qed

text \<open>A guard before the steps, and an answer of the outside.\<close>

lemma order_if:
  "in_order e P m \<Longrightarrow> P all \<Longrightarrow> in_order e P (if b then m else State_Monad.return (Inl err))"
  by (simp add: order_fail)

lemma order_ask:
  assumes "\<And>x. in_order e P (f x)"
  shows "in_order e P (ask g \<bind> f)"
proof -
  have "\<exists>all k. P all \<and> after (ask g \<bind> f) h = h @ take k all \<and> stopped_at (cmd_ok e) h all k (result_of (ask g \<bind> f) h)" for h
    using assms [of "g h"] by (simp add: in_order_def steps_in_order_def)
  then show ?thesis by (simp add: in_order_def steps_in_order_def)
qed

lemma orderD:
  assumes "in_order e P m"
  obtains all k where "P all" "after m h = h @ take k all" "stopped_at (cmd_ok e) h all k (result_of m h)"
  using assms unfolding in_order_def steps_in_order_def by blast

end
