(* ===== verification/Downloads.thy ===== *)
theory Downloads
  imports Command
begin

text \<open>
  The download services of the guide, aria2, qBittorrent and Transmission: \<open>modules/guidestorage/downloadservices\<close> and
  \<open>service/guide_download_services_*.go\<close>, and the readers of their state in \<open>service/guide.go\<close> that these replaced. The list of trackers
  that is fetched from the network is an answer of the outside. Error texts in Chinese are given in English.
\<close>

section \<open>Data and commands\<close>



record cmd_env_net = cmd_env +
  dl_fetch :: "cmd_history \<Rightarrow> string result"

text \<open>\<open>strings.FieldsFunc\<close>.\<close>

function fields_func :: "(char \<Rightarrow> bool) \<Rightarrow> string \<Rightarrow> string list" where
  "fields_func p [] = []"
| "fields_func p (c # cs) =
     (if p c then fields_func p cs
      else (c # takeWhile (\<lambda>d. \<not> p d) cs) # fields_func p (dropWhile (\<lambda>d. \<not> p d) cs))"
  by pat_completeness auto
termination
  by (relation "measure (\<lambda>(p, s). length s)") (auto simp: le_imp_less_Suc length_dropWhile_le)

definition tracker_separator :: "char \<Rightarrow> bool" where
  "tracker_separator c \<longleftrightarrow> c \<in> {CHR 0x0D, CHR 0x0A, CHR '',''}"

definition parse_trackers :: "string \<Rightarrow> string list" where
  "parse_trackers s = filter (\<lambda>t. t \<noteq> []) (map trim_space (fields_func tracker_separator s))"








definition validate_download_path :: "string \<Rightarrow> goerr option" where
  "validate_download_path path =
     (if \<not> has_prefix path ''/'' then Some ''not an absolute path''
      else if has_prefix path ''/mnt'' \<or> has_prefix path ''/root'' then None
      else Some ''the path must be on a disk or under /root'')"


section \<open>Writers\<close>










section \<open>Services\<close>






section \<open>The state of the services\<close>

record download_status =
  ds_status :: string
  ds_config :: string
  ds_download :: string
  ds_web :: string

record aria2_status = download_status +
  ds_token :: string
  ds_port :: nat

definition map_download_status :: "bool \<Rightarrow> bool \<Rightarrow> string" where
  "map_download_status installed running =
     (if \<not> installed then ''not installed'' else if running then ''running'' else ''stopped'')"

definition installed_command :: "string \<Rightarrow> string" where
  "installed_command name = ''[ -e /etc/init.d/'' @ name @ '' ] && echo true || echo false''"

definition download_installed :: "('a cmd_env_scheme) \<Rightarrow> string \<Rightarrow> bool result cmd_prog" where
  "download_installed e name = ok_then (read_output e [installed_command name])
     (\<lambda>out. State_Monad.return (Inr (trim_space out = ''true'')))"

text \<open>An option that cannot be read is empty.\<close>

definition option_or_empty :: "('a cmd_env_scheme) \<Rightarrow> string \<Rightarrow> string cmd_prog" where
  "option_or_empty e location = do {
     r \<leftarrow> uci_get_option e location;
     State_Monad.return (case r of Inl _ \<Rightarrow> [] | Inr v \<Rightarrow> v)
   }"

definition rpc_port :: "string \<Rightarrow> nat" where
  "rpc_port s = (let p = (case parse_uint (2 ^ 32 - 1) s of (n, None) \<Rightarrow> n | (_, Some _) \<Rightarrow> 0) in if p = 0 then 6800 else p)"

definition read_aria2_status :: "('a cmd_env_scheme) \<Rightarrow> aria2_status result cmd_prog" where
  "read_aria2_status e = ok_then (download_installed e ''aria2'') (\<lambda>installed. do {
     running \<leftarrow> check_app_is_running e ''aria2c'';
     let st = map_download_status installed running;
     (if \<not> installed then
        State_Monad.return (Inr \<lparr>ds_status = st, ds_config = [], ds_download = [], ds_web = ''/ariang'', ds_token = [], ds_port = 0\<rparr>)
      else do {
        config \<leftarrow> option_or_empty e ''aria2.main.config_dir'';
        dir \<leftarrow> option_or_empty e ''aria2.main.dir'';
        secret \<leftarrow> option_or_empty e ''aria2.main.rpc_secret'';
        port \<leftarrow> option_or_empty e ''aria2.main.rpc_listen_port'';
        State_Monad.return (Inr \<lparr>ds_status = st, ds_config = config, ds_download = dir, ds_web = ''/ariang'',
          ds_token = secret, ds_port = rpc_port port\<rparr>)
      })
   })"

definition web_port :: "string \<Rightarrow> string" where
  "web_port port = (if port = [] then [] else '':'' @ port)"

definition read_qbittorrent_status :: "('a cmd_env_scheme) \<Rightarrow> download_status result cmd_prog" where
  "read_qbittorrent_status e = ok_then (download_installed e ''qbittorrent'') (\<lambda>installed. do {
     running \<leftarrow> check_app_is_running e ''qbittorrent'';
     let st = map_download_status installed running;
     (if \<not> installed then State_Monad.return (Inr \<lparr>ds_status = st, ds_config = [], ds_download = [], ds_web = []\<rparr>)
      else do {
        config \<leftarrow> option_or_empty e ''qbittorrent.main.profile'';
        dir \<leftarrow> option_or_empty e ''qbittorrent.main.SavePath'';
        port \<leftarrow> option_or_empty e ''qbittorrent.main.Port'';
        State_Monad.return (Inr \<lparr>ds_status = st, ds_config = config, ds_download = dir, ds_web = web_port port\<rparr>)
      })
   })"

definition read_transmission_status :: "('a cmd_env_scheme) \<Rightarrow> download_status result cmd_prog" where
  "read_transmission_status e = ok_then (download_installed e ''transmission'') (\<lambda>installed. do {
     running \<leftarrow> check_app_is_running e ''transmission'';
     let st = map_download_status installed running;
     (if \<not> installed then State_Monad.return (Inr \<lparr>ds_status = st, ds_config = [], ds_download = [], ds_web = []\<rparr>)
      else do {
        config \<leftarrow> option_or_empty e ''transmission.@transmission[0].config_dir'';
        dir \<leftarrow> option_or_empty e ''transmission.@transmission[0].download_dir'';
        port \<leftarrow> option_or_empty e ''transmission.@transmission[0].rpc_port'';
        State_Monad.return (Inr \<lparr>ds_status = st, ds_config = config, ds_download = dir, ds_web = web_port port\<rparr>)
      })
   })"

definition download_services_status ::
    "('a cmd_env_scheme) \<Rightarrow> (aria2_status \<times> download_status \<times> download_status) result cmd_prog" where
  "download_services_status e =
     ok_then (read_aria2_status e) (\<lambda>a. ok_then (read_qbittorrent_status e) (\<lambda>q.
       ok_then (read_transmission_status e) (\<lambda>t. State_Monad.return (Inr (a, q, t)))))"

section \<open>The readers that were replaced\<close>

definition legacy_installed :: "('a cmd_env_scheme) \<Rightarrow> string \<Rightarrow> bool cmd_prog" where
  "legacy_installed e name = do {
     out \<leftarrow> read_stdout e [installed_command name];
     State_Monad.return (remove_char newline out \<noteq> ''false'')
   }"

definition get_aria2_status :: "('a cmd_env_scheme) \<Rightarrow> aria2_status cmd_prog" where
  "get_aria2_status e = do {
     installed \<leftarrow> legacy_installed e ''aria2'';
     (if \<not> installed then
        State_Monad.return \<lparr>ds_status = ''not installed'', ds_config = [], ds_download = [], ds_web = [], ds_token = [], ds_port = 0\<rparr>
      else do {
        running \<leftarrow> check_app_is_running e ''aria2c'';
        config \<leftarrow> option_or_empty e ''aria2.main.config_dir'';
        dir \<leftarrow> option_or_empty e ''aria2.main.dir'';
        secret \<leftarrow> option_or_empty e ''aria2.main.rpc_secret'';
        port \<leftarrow> option_or_empty e ''aria2.main.rpc_listen_port'';
        State_Monad.return \<lparr>ds_status = (if running then ''running'' else ''stopped''), ds_config = config, ds_download = dir,
          ds_web = ''/ariang'', ds_token = secret, ds_port = (if port \<noteq> [] then fst (parse_uint (2 ^ 32 - 1) port) else 6800)\<rparr>
      })
   }"

definition get_qbittorrent_status :: "('a cmd_env_scheme) \<Rightarrow> download_status cmd_prog" where
  "get_qbittorrent_status e = do {
     installed \<leftarrow> legacy_installed e ''qbittorrent'';
     (if \<not> installed then State_Monad.return \<lparr>ds_status = ''not installed'', ds_config = [], ds_download = [], ds_web = []\<rparr>
      else do {
        running \<leftarrow> check_app_is_running e ''qbittorrent'';
        config \<leftarrow> option_or_empty e ''qbittorrent.main.profile'';
        dir \<leftarrow> option_or_empty e ''qbittorrent.main.SavePath'';
        port \<leftarrow> uci_get_option e ''qbittorrent.main.Port'';
        State_Monad.return \<lparr>ds_status = (if running then ''running'' else ''stopped''), ds_config = config, ds_download = dir,
          ds_web = (case port of Inl _ \<Rightarrow> [] | Inr p \<Rightarrow> '':'' @ p)\<rparr>
      })
   }"

definition get_transmission_status :: "('a cmd_env_scheme) \<Rightarrow> download_status cmd_prog" where
  "get_transmission_status e = do {
     installed \<leftarrow> legacy_installed e ''transmission'';
     (if \<not> installed then State_Monad.return \<lparr>ds_status = ''not installed'', ds_config = [], ds_download = [], ds_web = []\<rparr>
      else do {
        running \<leftarrow> check_app_is_running e ''transmission'';
        config \<leftarrow> option_or_empty e ''transmission.@transmission[0].config_dir'';
        dir \<leftarrow> option_or_empty e ''transmission.@transmission[0].download_dir'';
        port \<leftarrow> uci_get_option e ''transmission.@transmission[0].rpc_port'';
        State_Monad.return \<lparr>ds_status = (if running then ''running'' else ''stopped''), ds_config = config, ds_download = dir,
          ds_web = (case port of Inl _ \<Rightarrow> [] | Inr p \<Rightarrow> '':'' @ p)\<rparr>
      })
   }"

section \<open>The order of the steps\<close>










section \<open>Trackers\<close>

definition clean_tracker :: "string \<Rightarrow> bool" where
  "clean_tracker t \<longleftrightarrow> t \<noteq> [] \<and> trim_space t = t \<and> list_all (\<lambda>c. \<not> tracker_separator c) t"

lemma fields_func_separators: "list_all p g \<Longrightarrow> fields_func p (g @ s) = fields_func p s"
  by (induction g) simp_all

lemma fields_func_word:
  assumes "w \<noteq> []" "list_all (\<lambda>c. \<not> p c) w" "s = [] \<or> p (hd s)"
  shows "fields_func p (w @ s) = w # fields_func p s"
proof -
  obtain c cs where w: "w = c # cs" using assms(1) by (cases w) auto
  have "takeWhile (\<lambda>d. \<not> p d) (cs @ s) = cs" "dropWhile (\<lambda>d. \<not> p d) (cs @ s) = s"
    using assms(2,3) w by (cases s; simp add: list_all_iff)+
  with assms(2) show ?thesis by (simp add: w)
qed

lemma fields_func_parts: "w \<in> set (fields_func p s) \<Longrightarrow> w \<noteq> [] \<and> list_all (\<lambda>c. \<not> p c) w"
proof (induction p s rule: fields_func.induct)
  case (2 p c cs)
  show ?case
  proof (cases "p c")
    case False
    have tw: "list_all (\<lambda>d. \<not> p d) (takeWhile (\<lambda>d. \<not> p d) cs)"
      by (auto simp: list_all_iff dest: set_takeWhileD)
    from False 2(3) consider "w = c # takeWhile (\<lambda>d. \<not> p d) cs" | "w \<in> set (fields_func p (dropWhile (\<lambda>d. \<not> p d) cs))"
      by (auto simp del: list.pred_inject)
    then show ?thesis using 2(2) [OF False] False tw by cases simp_all
  qed (use 2 in simp)
qed simp

lemma trim_space_subset: "set (trim_space s) \<subseteq> set s"
proof -
  have "set (trim_left_fuel n dir t) \<subseteq> set t" for n dir and t :: string
    using trim_left_fuel_suffix [of t n dir] by (metis set_append Un_upper2)
  then show ?thesis
    unfolding trim_space_def trim_right_space_def trim_left_space_def by (metis set_rev subset_trans)
qed

lemma parsed_trackers_clean: "t \<in> set (parse_trackers s) \<Longrightarrow> clean_tracker t"
  using trim_space_subset by (fastforce simp: parse_trackers_def clean_tracker_def list_all_iff dest!: fields_func_parts)

lemma fields_func_join:
  assumes "sep \<noteq> []" "list_all p sep" "list_all (\<lambda>w. w \<noteq> [] \<and> list_all (\<lambda>c. \<not> p c) w) ws"
  shows "fields_func p (join_on sep ws) = ws"
  using assms(3)
proof (induction ws)
  case (Cons w ws)
  then show ?case
  proof (cases ws)
    case Nil
    with Cons.prems fields_func_word [of w p "[]"] show ?thesis by simp
  next
    case (Cons v vs)
    have "p (hd (sep @ join_on sep ws))"
      using assms(1,2) by (cases sep) simp_all
    then have "fields_func p (w @ sep @ join_on sep ws) = w # fields_func p (sep @ join_on sep ws)"
      using Cons.prems fields_func_word [of w p "sep @ join_on sep ws"] by simp
    with Cons Cons.IH Cons.prems fields_func_separators [OF assms(2)] show ?thesis by simp
  qed
qed simp

text \<open>
  C38. The list of trackers: whatever is entered, every tracker that is stored is not empty, has no white space around it and holds no
  separator; and trackers of this kind, joined by any separators (commas, line feeds, carriage returns), are read
  back as they are. So to read the joined list again changes nothing.
\<close>

theorem trackers_roundtrip:
  assumes "sep \<noteq> []" "list_all tracker_separator sep" "list_all clean_tracker ts"
  shows "parse_trackers (join_on sep ts) = ts \<and> list_all clean_tracker (parse_trackers s) \<and>
     parse_trackers (join_on sep (parse_trackers s)) = parse_trackers s"
proof -
  have join: "parse_trackers (join_on sep ws) = ws" if "list_all clean_tracker ws" for ws
  proof -
    have "fields_func tracker_separator (join_on sep ws) = ws"
      using that by (intro fields_func_join assms(1,2)) (auto simp: list_all_iff clean_tracker_def)
    moreover have "map trim_space ws = ws"
      using that by (intro map_idI) (auto simp: list_all_iff clean_tracker_def)
    ultimately show ?thesis
      using that by (auto simp: parse_trackers_def list_all_iff clean_tracker_def filter_id_conv)
  qed
  have "list_all clean_tracker (parse_trackers s)"
    using parsed_trackers_clean by (simp add: list_all_iff)
  with join assms(3) show ?thesis by blast
qed

theorem trackers_roundtrip_witness:
  "parse_trackers ''udp://a,udp://b'' = [''udp://a'', ''udp://b'']"
proof -
  have "trim_space ''udp://a'' = ''udp://a''" "trim_space ''udp://b'' = ''udp://b''"
    by (simp_all add: trim_space_solid solid_char_def)
  then have "list_all clean_tracker [''udp://a'', ''udp://b'']"
    by (simp add: clean_tracker_def tracker_separator_def)
  then have "parse_trackers (join_on '','' [''udp://a'', ''udp://b'']) = [''udp://a'', ''udp://b'']"
    by (intro trackers_roundtrip [THEN conjunct1]) (simp_all add: tracker_separator_def)
  then show ?thesis by simp
qed

lemma download_path_outside:
  "validate_download_path ''/mnt/../etc'' = None" "validate_download_path ''/rootfs'' = None"
  by code_simp+

section \<open>The new and the old readers\<close>

lemma option_runs [simp]:
  "result_of (option_or_empty e loc) h = (case ce_output e (h @ [CmdOutput [uci_get_command loc]]) [uci_get_command loc] of
     Inl _ \<Rightarrow> [] | Inr v \<Rightarrow> remove_char newline v)"
  "result_of (uci_get_option e loc) h = (case ce_output e (h @ [CmdOutput [uci_get_command loc]]) [uci_get_command loc] of
     Inl err \<Rightarrow> Inl err | Inr v \<Rightarrow> Inr (remove_char newline v))"
  by (simp_all add: option_or_empty_def uci_get_option_def split: sum.split)

definition port_text :: "string result \<Rightarrow> bool" where
  "port_text out \<longleftrightarrow> (case out of Inl _ \<Rightarrow> True
     | Inr v \<Rightarrow> (let p = remove_char newline v in p \<noteq> [] \<and> snd (parse_uint (2 ^ 32 - 1) p) = None \<and> 0 < fst (parse_uint (2 ^ 32 - 1) p)))"

lemma trim_line:
  assumes "s \<noteq> []" "solid_char (hd s)" "solid_char (last s)"
  shows "trim_space (s @ [newline]) = s"
proof -
  have "trim_left_space (s @ [newline]) = s @ [newline]"
    unfolding trim_left_space_def by (rule trim_left_fuel_solid) (use assms space_runes_ends in auto)
  moreover have "trim_runes rev (newline # rev s) = Some (rev s)"
    by (simp add: trim_runes_def space_runes_def newline_def)
  moreover have "trim_left_fuel (length s) rev (rev s) = rev s"
    by (rule trim_left_fuel_solid) (use assms space_runes_ends in \<open>auto simp: hd_rev\<close>)
  ultimately show ?thesis by (simp add: trim_space_def trim_right_space_def)
qed

lemma installed_runs:
  assumes "\<And>h c. ce_output e h c = out c" "out [installed_command name] = Inr ((if b then ''true'' else ''false'') @ [newline])"
  shows "result_of (download_installed e name) h = Inr b" "result_of (legacy_installed e name) h = b"
proof -
  have "trim_space (''true'' @ [newline]) = ''true''" "trim_space (''false'' @ [newline]) = ''false''"
    by (rule trim_line; simp add: solid_char_def)+
  moreover have "remove_char newline (''true'' @ [newline]) = ''true''" "remove_char newline (''false'' @ [newline]) = ''false''"
    by code_simp+
  ultimately show "result_of (download_installed e name) h = Inr b" "result_of (legacy_installed e name) h = b"
    using assms by (auto simp: download_installed_def legacy_installed_def)
qed


definition steady_answers :: "('a cmd_env_scheme) \<Rightarrow> (string list \<Rightarrow> string result) \<Rightarrow> bool" where
  "steady_answers e out \<longleftrightarrow> (\<forall>h c. ce_output e h c = out c)"

definition installed_answer :: "(string list \<Rightarrow> string result) \<Rightarrow> string \<Rightarrow> bool \<Rightarrow> bool" where
  "installed_answer out name b \<longleftrightarrow> out [installed_command name] = Inr ((if b then ''true'' else ''false'') @ [newline])"

lemma running_steady:
  "steady_answers e out \<Longrightarrow> result_of (check_app_is_running e name) h =
     (case out [pgrep_command name] of Inl _ \<Rightarrow> False | Inr text \<Rightarrow> remove_char newline text \<noteq> [])"
  by (simp add: steady_answers_def check_app_is_running_def)

lemma ports_agree:
  assumes "port_text out"
  shows "rpc_port (case out of Inl _ \<Rightarrow> [] | Inr v \<Rightarrow> remove_char newline v) =
      (if (case out of Inl _ \<Rightarrow> [] | Inr v \<Rightarrow> remove_char newline v) \<noteq> []
       then fst (parse_uint (2 ^ 32 - 1) (case out of Inl _ \<Rightarrow> [] | Inr v \<Rightarrow> remove_char newline v)) else 6800)"
    "web_port (case out of Inl _ \<Rightarrow> [] | Inr v \<Rightarrow> remove_char newline v) =
      (case (case out of Inl err \<Rightarrow> Inl err | Inr v \<Rightarrow> Inr (remove_char newline v)) of Inl _ \<Rightarrow> [] | Inr p \<Rightarrow> '':'' @ p)"
  using assms
  by (auto simp: port_text_def rpc_port_def web_port_def parse_uint_def Let_def split: sum.splits prod.splits option.splits)

text \<open>
  The readers of the state of the download services agree with those they replaced, as long as nothing changes between the
  queries: on the state, the paths and the token, and on the port of each service that has a port in its configuration. They
  differ where the old readers showed a port that cannot be one (0, a port out of range, an empty one); and the new reader gives
  the page of aria2 even when aria2 is not installed.
\<close>

theorem download_readers_agree:
  assumes steady: "steady_answers e out"
    and here: "installed_answer out ''aria2'' a" "installed_answer out ''qbittorrent'' q" "installed_answer out ''transmission'' t"
    and ports: "port_text (out [uci_get_command ''aria2.main.rpc_listen_port''])" "port_text (out [uci_get_command ''qbittorrent.main.Port''])"
      "port_text (out [uci_get_command ''transmission.@transmission[0].rpc_port''])"
  shows "result_of (read_aria2_status e) h = Inr ((result_of (get_aria2_status e) h)\<lparr>ds_web := ''/ariang''\<rparr>) \<and>
    result_of (read_qbittorrent_status e) h = Inr (result_of (get_qbittorrent_status e) h) \<and>
    result_of (read_transmission_status e) h = Inr (result_of (get_transmission_status e) h)"
proof -
  have out: "ce_output e h c = out c" for h c using steady by (simp add: steady_answers_def)
  note installed = installed_runs [where e = e and out = out, OF out]
  note reads = out running_steady [OF steady] Let_def map_download_status_def
  have aria2: "result_of (read_aria2_status e) h = Inr ((result_of (get_aria2_status e) h)\<lparr>ds_web := ''/ariang''\<rparr>)"
    using here(1) ports_agree(1) [OF ports(1)] unfolding installed_answer_def read_aria2_status_def get_aria2_status_def
    by (cases a) (simp_all add: installed reads)
  moreover have "result_of (read_qbittorrent_status e) h = Inr (result_of (get_qbittorrent_status e) h)"
    using here(2) ports_agree(2) [OF ports(2)] unfolding installed_answer_def read_qbittorrent_status_def get_qbittorrent_status_def
    by (cases q) (simp_all add: installed reads)
  moreover have "result_of (read_transmission_status e) h = Inr (result_of (get_transmission_status e) h)"
    using here(3) ports_agree(2) [OF ports(3)] unfolding installed_answer_def read_transmission_status_def get_transmission_status_def
    by (cases t) (simp_all add: installed reads)
  ultimately show ?thesis by simp
qed


lemma newline_literal: "newline = CHR 0x0A"
  by code_simp

definition download_answers :: "string list \<Rightarrow> string result" where
  "download_answers c =
     (if c = [installed_command ''aria2''] then Inr (''true'' @ [newline])
      else if c = [installed_command ''qbittorrent''] \<or> c = [installed_command ''transmission''] then Inr (''false'' @ [newline])
      else if c = [uci_get_command ''aria2.main.rpc_listen_port''] then Inr (''6900'' @ [newline]) else Inl ''not found'')"

definition download_sample_env :: cmd_env where
  "download_sample_env = \<lparr>ce_run = (\<lambda>_ _. None), ce_output = (\<lambda>_. download_answers), ce_partial = (\<lambda>_ _. []), ce_stderr = (\<lambda>_ _. []),
     ce_uci = (\<lambda>_. empty_uci), ce_access = (\<lambda>_ _. True)\<rparr>"

theorem download_readers_agree_witness:
  "result_of (read_aria2_status download_sample_env) [] = Inr ((result_of (get_aria2_status download_sample_env) [])\<lparr>ds_web := ''/ariang''\<rparr>) \<and>
   result_of (read_qbittorrent_status download_sample_env) [] = Inr (result_of (get_qbittorrent_status download_sample_env) []) \<and>
   result_of (read_transmission_status download_sample_env) [] = Inr (result_of (get_transmission_status download_sample_env) [])"
proof (rule download_readers_agree [where out = download_answers and a = True and q = False and t = False])
  show "steady_answers download_sample_env download_answers" by (simp add: steady_answers_def download_sample_env_def)
  show "installed_answer download_answers ''aria2'' True" "installed_answer download_answers ''qbittorrent'' False"
    "installed_answer download_answers ''transmission'' False"
    unfolding installed_answer_def by code_simp+
  show "port_text (download_answers [uci_get_command ''aria2.main.rpc_listen_port''])"
    "port_text (download_answers [uci_get_command ''qbittorrent.main.Port''])"
    "port_text (download_answers [uci_get_command ''transmission.@transmission[0].rpc_port''])"
    by (simp_all add: port_text_def download_answers_def installed_command_def uci_get_command_def sq_def remove_char_def newline_literal
      parse_uint_def digit_val_def Let_def)
qed

lemma old_reader_bad_port:
  "result_of (get_aria2_status (download_sample_env\<lparr>ce_output := (\<lambda>_ c. if c = [uci_get_command ''aria2.main.rpc_listen_port''] then Inr ''99999999999'' else download_answers c)\<rparr>)) [] =
    \<lparr>ds_status = ''stopped'', ds_config = [], ds_download = [], ds_web = ''/ariang'', ds_token = [], ds_port = 4294967295\<rparr>"
  by (simp add: get_aria2_status_def legacy_installed_def check_app_is_running_def download_sample_env_def download_answers_def installed_command_def
    uci_get_command_def pgrep_command_def sq_def remove_char_def newline_literal parse_uint_def digit_val_def)

end
