(* ===== verification/Docker.thy ===== *)
theory Docker
  imports Command DiskModel
begin

text \<open>
  Docker in the guide: its state and switch (\<open>service/guide_docker_runtime_*.go\<close>) and the move of its data to another disk
  (\<open>modules/guidestorage/dockertransfer\<close>, \<open>service/guide_docker_transfer_*.go\<close> and the functions \<open>checkDockerPath\<close> and
  \<open>transferDockerPath\<close> of \<open>service/guide.go\<close>). The disks are those that \<open>getAllDisks\<close> answers (theory \<open>DiskList\<close>), the answer of
  \<open>findmnt --json\<close> is taken as the decoded list of sources and types; both are answers of the outside. Texts in Chinese are given in English.
\<close>

record docker_env = cmd_env +
  dr_disks :: "cmd_history \<Rightarrow> disk list result"
  dr_findmnt :: "cmd_history \<Rightarrow> string \<Rightarrow> (string \<times> string) list result"

section \<open>State and switch\<close>

record docker_snapshot =
  dn_installed :: bool
  dn_running :: bool
  dn_path :: string
  dn_error :: string

definition warn_system_root :: string where
  "warn_system_root = ''the docker root is on the system root; move it to an external disk''"

definition warn_ntfs :: string where
  "warn_ntfs = ''the docker root is on an ntfs partition; move it to an ext4 partition''"

text \<open>The partitions of the first disk that holds the docker root.\<close>

fun docker_part_warning :: "bool \<Rightarrow> partition list \<Rightarrow> string" where
  "docker_part_warning found [] = (if found then [] else warn_system_root)"
| "docker_part_warning found (p # ps) =
     (if \<not> pt_docker_root p then docker_part_warning found ps
      else if pt_system_root p then warn_system_root
      else if pt_filesystem p = ''ntfs'' then warn_ntfs else docker_part_warning True ps)"

fun build_docker_runtime_warning :: "disk list \<Rightarrow> string" where
  "build_docker_runtime_warning [] = []"
| "build_docker_runtime_warning (d # ds) =
     (if \<not> dk_docker_root d then build_docker_runtime_warning ds else docker_part_warning False (dk_childrens d))"

definition read_docker_installed :: "('a cmd_env_scheme) \<Rightarrow> bool cmd_prog" where
  "read_docker_installed e = do {
     out \<leftarrow> read_output e [''which dockerd''];
     State_Monad.return (case out of Inl _ \<Rightarrow> False | Inr text \<Rightarrow> trim_space text \<noteq> [])
   }"

definition read_docker_root :: "('a cmd_env_scheme) \<Rightarrow> string result cmd_prog" where
  "read_docker_root e = ok_then (read_output e [''uci get dockerd.globals.data_root''])
     (\<lambda>text. State_Monad.return (Inr (trim_space text)))"

definition read_docker_runtime :: "('a docker_env_scheme) \<Rightarrow> docker_snapshot result cmd_prog" where
  "read_docker_runtime e = do {
     installed \<leftarrow> read_docker_installed e;
     (if \<not> installed then State_Monad.return (Inr \<lparr>dn_installed = False, dn_running = False, dn_path = [], dn_error = []\<rparr>)
      else do {
        running \<leftarrow> check_app_is_running e ''dockerd'';
        ok_then (read_docker_root e) (\<lambda>path. ok_then (ask (dr_disks e)) (\<lambda>disks.
          State_Monad.return (Inr \<lparr>dn_installed = True, dn_running = running, dn_path = path,
            dn_error = build_docker_runtime_warning disks\<rparr>)))
      })
   }"

definition docker_status :: "('a docker_env_scheme) \<Rightarrow> (string \<times> string \<times> string) result cmd_prog" where
  "docker_status e = ok_then (read_docker_runtime e) (\<lambda>s. State_Monad.return (Inr
     (if dn_installed s then (if dn_running s then ''running'' else ''stopped'') else ''not installed'', dn_path s, dn_error s)))"

definition docker_switch :: "('a cmd_env_scheme) \<Rightarrow> bool \<Rightarrow> unit result cmd_prog" where
  "docker_switch e enable =
     (if enable then do {
        out \<leftarrow> read_output e [''/etc/init.d/dockerd start''];
        State_Monad.return (case out of Inl _ \<Rightarrow> Inl ''docker does not start'' | Inr _ \<Rightarrow> Inr ())
      } else do {
        out \<leftarrow> read_output e [''/etc/init.d/dockerd stop''];
        State_Monad.return (case out of Inl _ \<Rightarrow> Inl ''docker does not stop'' | Inr _ \<Rightarrow> Inr ())
      })"

section \<open>Candidates\<close>

record docker_candidate =
  dc_mount :: string
  dc_fs :: string
  dc_size :: nat
  dc_path :: string

definition docker_candidates :: "disk list \<Rightarrow> docker_candidate list" where
  "docker_candidates disks = concat (map (\<lambda>d. concat (map (\<lambda>p.
     (if pt_system_root p \<or> pt_read_only p \<or> pt_mount_point p = [] then []
      else if pt_filesystem p \<in> set [''squashfs'', ''ntfs'', ''vfat'', ''exfat'', ''swap''] then []
      else (let size = fst (parse_uint (2 ^ 64 - 1) (pt_size_int p)) in
        if size \<le> 8 * 1024 * 1024 * 1024 then []
        else [\<lparr>dc_mount = pt_mount_point p, dc_fs = pt_filesystem p, dc_size = size, dc_path = pt_mount_point p @ ''/docker''\<rparr>])))
     (dk_childrens d))) disks)"

definition docker_partition_list :: "('a docker_env_scheme) \<Rightarrow> string list result cmd_prog" where
  "docker_partition_list e = ok_then (ask (dr_disks e)) (\<lambda>disks. State_Monad.return (Inr (map dc_path (docker_candidates disks))))"

section \<open>The check of the target\<close>

record path_snapshot =
  ps_target :: string
  ps_origin :: string
  ps_source :: string
  ps_fstype :: string
  ps_overlay :: string
  ps_origin_source :: string

definition validate_path_snapshot :: "path_snapshot \<Rightarrow> goerr option" where
  "validate_path_snapshot s =
     (if ps_target s = ps_origin s then Some ''the target is the present directory''
      else if ps_fstype s = ''overlay'' \<or> ps_fstype s = ''tmpfs'' then Some ''the target is in a system directory or in the root of mnt''
      else if ps_fstype s = ''ntfs'' then Some ''the target is on an ntfs partition''
      else if ps_overlay s = ps_source s then Some ''the target is in a system directory''
      else if ps_origin_source s = ps_source s then Some ''the target is on the partition of the present docker root''
      else None)"

definition make_target_command :: "string \<Rightarrow> string" where
  "make_target_command path = ''[ -d '' @ sq path @ '' ] || mkdir -p '' @ sq path"

definition source_command :: "string \<Rightarrow> string" where
  "source_command path = ''findmnt -T '' @ sq path @ '' -o SOURCE|sed -n 2p''"

definition source_type_command :: "string \<Rightarrow> string" where
  "source_type_command path = ''findmnt -T '' @ sq path @ '' -o SOURCE,FSTYPE --json''"

definition overlay_command :: string where
  "overlay_command = ''findmnt -T /overlay -o SOURCE|sed -n 2p''"

definition check_docker_path :: "('a docker_env_scheme) \<Rightarrow> string \<Rightarrow> string \<Rightarrow> goerr option cmd_prog" where
  "check_docker_path e path origin =
     (if path = origin then
        State_Monad.return (validate_path_snapshot \<lparr>ps_target = path, ps_origin = origin, ps_source = ''target'', ps_fstype = [],
          ps_overlay = [], ps_origin_source = []\<rparr>)
      else do {
        made \<leftarrow> read_output e [make_target_command path];
        (case made of
           Inl err \<Rightarrow> State_Monad.return (Some err)
         | Inr _ \<Rightarrow> do {
             act (CmdOutput [source_type_command path]);
             systems \<leftarrow> ask (\<lambda>h. dr_findmnt e h path);
             (case systems of
                Inl err \<Rightarrow> State_Monad.return (Some err)
              | Inr [] \<Rightarrow> State_Monad.return (Some ''the path cannot be read'')
              | Inr ((source, fstype) # _) \<Rightarrow> do {
                  overlay \<leftarrow> read_output e [overlay_command];
                  (case overlay of
                     Inl err \<Rightarrow> State_Monad.return (Some err)
                   | Inr root \<Rightarrow> do {
                       there \<leftarrow> read_output e [source_command origin];
                       State_Monad.return (case there of
                          Inl err \<Rightarrow> Some err
                        | Inr orig \<Rightarrow> validate_path_snapshot \<lparr>ps_target = path, ps_origin = origin, ps_source = source, ps_fstype = fstype,
                            ps_overlay = remove_char newline root, ps_origin_source = remove_char newline orig\<rparr>)
                     })
                })
           })
      })"

section \<open>The transfer\<close>

datatype transfer_outcome = Moved | NotEmpty | Failed goerr

definition is_dir_command :: "string \<Rightarrow> string" where
  "is_dir_command path = ''[ -d '' @ sq path @ '' ] && echo true || echo false''"

definition count_command :: "string \<Rightarrow> string" where
  "count_command path = ''ls -A '' @ sq path @ '' | wc -l''"

definition remove_command :: "string \<Rightarrow> string" where
  "remove_command path = ''rm -r '' @ sq path"

definition mkdir_command :: "string \<Rightarrow> string" where
  "mkdir_command path = ''mkdir -p '' @ sq path"

definition copy_command :: "string \<Rightarrow> string \<Rightarrow> string" where
  "copy_command origin path = ''cp -a '' @ sq (origin @ ''/.'') @ '' '' @ sq (path @ ''/'')"

definition err_copy :: goerr where
  "err_copy = ''copying the docker directory failed; check the target path''"

text \<open>Runs a batch and goes on when it succeeds.\<close>

definition step_or_fail :: "('a cmd_env_scheme) \<Rightarrow> (goerr \<Rightarrow> goerr) \<Rightarrow> string list \<Rightarrow> transfer_outcome cmd_prog \<Rightarrow> transfer_outcome cmd_prog" where
  "step_or_fail e msg cmds m = do {
     failed \<leftarrow> run_batch e cmds;
     (case failed of Some err \<Rightarrow> State_Monad.return (Failed (msg err)) | None \<Rightarrow> m)
   }"

definition transfer_docker_path :: "('a cmd_env_scheme) \<Rightarrow> string \<Rightarrow> bool \<Rightarrow> bool \<Rightarrow> string \<Rightarrow> transfer_outcome cmd_prog" where
  "transfer_docker_path e target force overwrite origin = do {
     exists \<leftarrow> read_output e [is_dir_command target];
     (case exists of
        Inl err \<Rightarrow> State_Monad.return (Failed err)
      | Inr there \<Rightarrow>
          (if remove_char newline there = ''true'' then do {
             count \<leftarrow> read_output e [count_command target];
             (case count of
                Inl err \<Rightarrow> State_Monad.return (Failed err)
              | Inr n \<Rightarrow>
                  (if remove_char newline n \<noteq> ''0'' then
                     (if force then
                        (if overwrite then
                           step_or_fail e id [remove_command target] (step_or_fail e id [mkdir_command target]
                             (step_or_fail e id [copy_command origin target] (State_Monad.return Moved)))
                         else State_Monad.return Moved)
                      else State_Monad.return NotEmpty)
                   else step_or_fail e (\<lambda>_. err_copy) [copy_command origin target] (State_Monad.return Moved)))
           } else step_or_fail e (\<lambda>_. err_copy) [mkdir_command target, copy_command origin target] (State_Monad.return Moved)))
   }"

definition build_docker_update_commands :: "string \<Rightarrow> string list" where
  "build_docker_update_commands path =
     [''uci set dockerd.globals.data_root='' @ sq path, ''uci commit dockerd'', ''/etc/init.d/dockerd restart'']"

record transfer_input =
  ti_path :: string
  ti_force :: bool
  ti_overwrite :: bool

text \<open>The answer names the target when it is not empty and nothing was moved.\<close>

definition docker_transfer :: "('a docker_env_scheme) \<Rightarrow> transfer_input \<Rightarrow> string option result cmd_prog" where
  "docker_transfer e i = ok_then (read_docker_root e) (\<lambda>root.
     done_then (check_docker_path e (ti_path i) root) (do {
       moved \<leftarrow> transfer_docker_path e (ti_path i) (ti_force i) (ti_overwrite i) root;
       (case moved of
          Failed err \<Rightarrow> State_Monad.return (Inl err)
        | NotEmpty \<Rightarrow> State_Monad.return (Inr (Some (ti_path i)))
        | Moved \<Rightarrow> done_then (run_batch e (build_docker_update_commands (ti_path i))) (State_Monad.return (Inr None)))
     }))"

definition docker_transfer_tool :: "('a docker_env_scheme) \<Rightarrow> string \<Rightarrow> unit result cmd_prog" where
  "docker_transfer_tool e path = ok_then (docker_transfer e \<lparr>ti_path = path, ti_force = True, ti_overwrite = False\<rparr>)
     (\<lambda>warning. State_Monad.return (case warning of Some _ \<Rightarrow> Inl ''the target path is not empty'' | None \<Rightarrow> Inr ()))"

section \<open>What the transfer does\<close>

lemma transfer_words:
  "remove_command t \<noteq> mkdir_command u" "remove_command t \<noteq> copy_command a b"
  by (simp_all add: remove_command_def mkdir_command_def copy_command_def)

lemma update_long: "build_docker_update_commands p \<noteq> [a]" "build_docker_update_commands p \<noteq> [a, b]" "[a] \<noteq> build_docker_update_commands p"
  by (simp_all add: build_docker_update_commands_def)

lemma step_runs:
  "result_of (step_or_fail e msg c m) h = (case ce_run e (h @ [CmdRun c]) c of Some err \<Rightarrow> Failed (msg err) | None \<Rightarrow> result_of m (h @ [CmdRun c]))"
  "after (step_or_fail e msg c m) h = (case ce_run e (h @ [CmdRun c]) c of Some err \<Rightarrow> h @ [CmdRun c] | None \<Rightarrow> after m (h @ [CmdRun c]))"
  by (simp_all add: step_or_fail_def split: option.split)

definition queries_only :: "cmd_action list \<Rightarrow> bool" where
  "queries_only as \<longleftrightarrow> (\<forall>a\<in>set as. case a of CmdOutput _ \<Rightarrow> True | _ \<Rightarrow> False)"

text \<open>The last action was a batch that copied the data, and it succeeded.\<close>

definition copied :: "('a cmd_env_scheme) \<Rightarrow> string \<Rightarrow> string \<Rightarrow> cmd_history \<Rightarrow> bool" where
  "copied e origin target h \<longleftrightarrow> (\<exists>b c. h = b @ [CmdRun (c @ [copy_command origin target])] \<and> ce_run e h (c @ [copy_command origin target]) = None)"

lemma copied_last:
  "ce_run e (h @ [CmdRun [copy_command a b]]) [copy_command a b] = None \<Longrightarrow> copied e a b (h @ [CmdRun [copy_command a b]])"
  "ce_run e (h @ [CmdRun [x, copy_command a b]]) [x, copy_command a b] = None \<Longrightarrow> copied e a b (h @ [CmdRun [x, copy_command a b]])"
  unfolding copied_def by (metis append_Nil append_Cons)+

lemma transfer_runs:
  "\<exists>as. after (transfer_docker_path e t f ow orig) h = h @ as \<and>
     (result_of (transfer_docker_path e t f ow orig) h = Moved \<longrightarrow> copied e orig t (h @ as) \<or> f \<and> \<not> ow) \<and>
     (result_of (transfer_docker_path e t f ow orig) h = NotEmpty \<longrightarrow> \<not> f \<and> queries_only as) \<and>
     (CmdRun [remove_command t] \<in> set as \<longrightarrow> f \<and> ow) \<and> CmdRun (build_docker_update_commands p) \<notin> set as"
  using copied_last(1) [of e "h @ [CmdOutput [is_dir_command t], CmdOutput [count_command t]]" orig t]
    copied_last(1) [of e "h @ [CmdOutput [is_dir_command t], CmdOutput [count_command t], CmdRun [remove_command t], CmdRun [mkdir_command t]]" orig t]
    copied_last(2) [of e "h @ [CmdOutput [is_dir_command t]]" "mkdir_command t" orig t]
  by (auto simp: transfer_docker_path_def step_runs queries_only_def transfer_words update_long split: sum.split option.split)

lemma check_runs:
  "\<exists>as. after (check_docker_path e p orig) h = h @ as \<and> queries_only as"
  by (cases "p = orig") (auto simp: check_docker_path_def queries_only_def split: sum.split list.split prod.split)

lemma check_ok:
  assumes "result_of (check_docker_path e p orig) h = None"
  obtains source fstype rest overlay there where "p \<noteq> orig"
    "dr_findmnt e (h @ [CmdOutput [make_target_command p], CmdOutput [source_type_command p]]) p = Inr ((source, fstype) # rest)"
    "fstype \<notin> {''overlay'', ''tmpfs'', ''ntfs''}" "remove_char newline overlay \<noteq> source" "remove_char newline there \<noteq> source"
    "ce_output e (h @ [CmdOutput [make_target_command p], CmdOutput [source_type_command p], CmdOutput [overlay_command]]) [overlay_command] = Inr overlay"
    "ce_output e (h @ [CmdOutput [make_target_command p], CmdOutput [source_type_command p], CmdOutput [overlay_command], CmdOutput [source_command orig]])
       [source_command orig] = Inr there"
  using assms that
  by (cases "p = orig") (auto simp: check_docker_path_def validate_path_snapshot_def split: sum.splits list.splits prod.splits if_splits)


section \<open>The safety of the transfer\<close>

text \<open>The target was checked: it is not the present root, and on another file system than this root and the system.\<close>

definition target_checked :: "('a docker_env_scheme) \<Rightarrow> string \<Rightarrow> cmd_history \<Rightarrow> string \<Rightarrow> bool" where
  "target_checked e target h origin \<longleftrightarrow> target \<noteq> origin \<and> result_of (read_docker_root e) h = Inr origin \<and>
     result_of (check_docker_path e target origin) (after (read_docker_root e) h) = None"

lemma root_runs: "\<exists>as. after (read_docker_root e) h = h @ as \<and> queries_only as"
  by (simp add: read_docker_root_def queries_only_def split: sum.split)

lemma queries_no_run: "queries_only as \<Longrightarrow> CmdRun c \<notin> set as" "queries_only (as @ bs) \<longleftrightarrow> queries_only as \<and> queries_only bs"
  by (auto simp: queries_only_def)

definition safe_move :: "('a docker_env_scheme) \<Rightarrow> transfer_input \<Rightarrow> cmd_history \<Rightarrow> cmd_action list \<Rightarrow> string option result \<Rightarrow> bool" where
  "safe_move e i h as r \<longleftrightarrow>
    (CmdRun [remove_command (ti_path i)] \<in> set as \<longrightarrow> ti_force i \<and> ti_overwrite i \<and> (\<exists>root. target_checked e (ti_path i) h root)) \<and>
    (CmdRun (build_docker_update_commands (ti_path i)) \<in> set as \<longrightarrow>
       (\<exists>root before. target_checked e (ti_path i) h root \<and> as = before @ [CmdRun (build_docker_update_commands (ti_path i))] \<and>
          (copied e root (ti_path i) (h @ before) \<or> ti_force i \<and> \<not> ti_overwrite i))) \<and>
    (\<forall>p. r = Inr (Some p) \<longrightarrow> p = ti_path i \<and> \<not> ti_force i \<and> queries_only as) \<and>
    (r = Inr None \<longrightarrow>
       CmdRun (build_docker_update_commands (ti_path i)) \<in> set as \<and> ce_run e (h @ as) (build_docker_update_commands (ti_path i)) = None)"

lemma safe_move_stopped: "queries_only as \<Longrightarrow> safe_move e i h as (Inl err)"
  by (simp add: safe_move_def queries_no_run)

lemma safe_move_kept: "queries_only as \<Longrightarrow> \<not> ti_force i \<Longrightarrow> safe_move e i h as (Inr (Some (ti_path i)))"
  by (simp add: safe_move_def queries_no_run)

lemma safe_move_failed:
  "CmdRun [remove_command (ti_path i)] \<in> set as \<longrightarrow> ti_force i \<and> ti_overwrite i \<Longrightarrow> target_checked e (ti_path i) h root \<Longrightarrow>
   CmdRun (build_docker_update_commands (ti_path i)) \<notin> set as \<Longrightarrow> safe_move e i h as (Inl err)"
  unfolding safe_move_def by blast

lemma safe_move_checked:
  assumes checked: "target_checked e (ti_path i) h root"
    and before: "after (read_docker_root e) h = h @ a1" "queries_only a1"
      "after (check_docker_path e (ti_path i) root) (h @ a1) = h @ a1 @ a2" "queries_only a2"
  shows "\<exists>as. after (docker_transfer e i) h = h @ as \<and> safe_move e i h as (result_of (docker_transfer e i) h)"
proof -
  let ?t = "ti_path i"
  let ?move = "transfer_docker_path e ?t (ti_force i) (ti_overwrite i) root"
  obtain a3 where a3: "after ?move (h @ a1 @ a2) = (h @ a1 @ a2) @ a3"
    and moved: "result_of ?move (h @ a1 @ a2) = Moved \<longrightarrow> copied e root ?t ((h @ a1 @ a2) @ a3) \<or> ti_force i \<and> \<not> ti_overwrite i"
    and kept: "result_of ?move (h @ a1 @ a2) = NotEmpty \<longrightarrow> \<not> ti_force i \<and> queries_only a3"
    and erased: "CmdRun [remove_command ?t] \<in> set a3 \<longrightarrow> ti_force i \<and> ti_overwrite i"
    and quiet: "CmdRun (build_docker_update_commands ?t) \<notin> set a3"
    using transfer_runs by blast
  have ok: "result_of (read_docker_root e) h = Inr root" "result_of (check_docker_path e ?t root) (h @ a1) = None"
    using checked before(1) by (simp_all add: target_checked_def)
  show ?thesis
  proof (cases "result_of ?move (h @ a1 @ a2)")
    case Moved
    let ?b = "a1 @ a2 @ a3" and ?u = "CmdRun (build_docker_update_commands ?t)"
    have run: "after (docker_transfer e i) h = h @ ?b @ [?u]"
      "result_of (docker_transfer e i) h =
         (case ce_run e (h @ ?b @ [?u]) (build_docker_update_commands ?t) of Some err \<Rightarrow> Inl err | None \<Rightarrow> Inr None)"
      using Moved ok before(1,3) a3 by (simp_all add: docker_transfer_def split: option.split)
    have "CmdRun [remove_command ?t] \<in> set (?b @ [?u]) \<longrightarrow> CmdRun [remove_command ?t] \<in> set a3"
      using queries_no_run(1) [OF before(2)] queries_no_run(1) [OF before(4)] by (simp add: update_long)
    then have 1: "CmdRun [remove_command ?t] \<in> set (?b @ [?u]) \<longrightarrow> ti_force i \<and> ti_overwrite i \<and> (\<exists>root. target_checked e ?t h root)"
      using erased checked by blast
    have "copied e root ?t (h @ ?b) \<or> ti_force i \<and> \<not> ti_overwrite i" using moved Moved by simp
    with checked have 2: "\<exists>root before. target_checked e ?t h root \<and> ?b @ [?u] = before @ [?u] \<and>
        (copied e root ?t (h @ before) \<or> ti_force i \<and> \<not> ti_overwrite i)" by blast
    have 3: "\<forall>p. result_of (docker_transfer e i) h = Inr (Some p) \<longrightarrow> p = ?t \<and> \<not> ti_force i \<and> queries_only (?b @ [?u])"
      "result_of (docker_transfer e i) h = Inr None \<longrightarrow> ?u \<in> set (?b @ [?u]) \<and> ce_run e (h @ ?b @ [?u]) (build_docker_update_commands ?t) = None"
      unfolding run(2) by (simp_all split: option.split)
    have "safe_move e i h (?b @ [?u]) (result_of (docker_transfer e i) h)"
      unfolding safe_move_def append_assoc using 1 2 3 by (simp only: append_assoc simp_thms)
    with run(1) show ?thesis by blast
  next
    case NotEmpty
    then have "after (docker_transfer e i) h = h @ a1 @ a2 @ a3" "result_of (docker_transfer e i) h = Inr (Some ?t)"
      using ok before(1,3) a3 by (simp_all add: docker_transfer_def)
    moreover have "queries_only (a1 @ a2 @ a3)" "\<not> ti_force i"
      using kept NotEmpty before(2,4) by (simp_all add: queries_no_run)
    ultimately show ?thesis using safe_move_kept by metis
  next
    case (Failed err)
    then have "after (docker_transfer e i) h = h @ a1 @ a2 @ a3" "result_of (docker_transfer e i) h = Inl err"
      using ok before(1,3) a3 by (simp_all add: docker_transfer_def)
    moreover have "safe_move e i h (a1 @ a2 @ a3) (Inl err)"
      by (rule safe_move_failed [OF _ checked]) (use queries_no_run(1) [OF before(2)] queries_no_run(1) [OF before(4)] erased quiet in auto)
    ultimately show ?thesis by metis
  qed
qed

lemma docker_transfer_moves_safely:
  "\<exists>as. after (docker_transfer e i) h = h @ as \<and> safe_move e i h as (result_of (docker_transfer e i) h)"
proof -
  obtain a1 where a1: "after (read_docker_root e) h = h @ a1" "queries_only a1" using root_runs by blast
  show ?thesis
  proof (cases "result_of (read_docker_root e) h")
    case (Inl err)
    then show ?thesis using a1 by (intro exI [of _ a1]) (simp add: docker_transfer_def safe_move_stopped)
  next
    case (Inr root)
    obtain a2 where a2: "after (check_docker_path e (ti_path i) root) (h @ a1) = h @ a1 @ a2" "queries_only a2"
      using check_runs [of e "ti_path i" root "h @ a1"] by auto
    show ?thesis
    proof (cases "result_of (check_docker_path e (ti_path i) root) (h @ a1)")
      case (Some err)
      then show ?thesis
        using Inr a1 a2 by (intro exI [of _ "a1 @ a2"]) (simp add: docker_transfer_def safe_move_stopped queries_no_run)
    next
      case None
      with check_ok [OF None] Inr a1 have "target_checked e (ti_path i) h root"
        by (auto simp: target_checked_def)
      from safe_move_checked [OF this a1 a2] show ?thesis .
    qed
  qed
qed

text \<open>
  C3. Moving the data of Docker. The target is erased only on a forced request that asks for it, and the root of Docker is changed only
  as the last step; both only for a target that was checked. The change of the root follows directly on a copy of the data that
  succeeded, or belongs to a forced request that keeps what the target holds. An answer that warns of a target
  that is not empty has changed nothing, apart from making the directory; and success is reported only when the new root was set.
\<close>

theorem docker_transfer_safe:
  "\<exists>as. after (docker_transfer e i) h = h @ as \<and>
    (CmdRun [remove_command (ti_path i)] \<in> set as \<longrightarrow> ti_force i \<and> ti_overwrite i \<and> (\<exists>root. target_checked e (ti_path i) h root)) \<and>
    (CmdRun (build_docker_update_commands (ti_path i)) \<in> set as \<longrightarrow>
       (\<exists>root before. target_checked e (ti_path i) h root \<and> as = before @ [CmdRun (build_docker_update_commands (ti_path i))] \<and>
          (copied e root (ti_path i) (h @ before) \<or> ti_force i \<and> \<not> ti_overwrite i))) \<and>
    (\<forall>p. result_of (docker_transfer e i) h = Inr (Some p) \<longrightarrow> p = ti_path i \<and> \<not> ti_force i \<and> queries_only as) \<and>
    (result_of (docker_transfer e i) h = Inr None \<longrightarrow>
       CmdRun (build_docker_update_commands (ti_path i)) \<in> set as \<and> ce_run e (h @ as) (build_docker_update_commands (ti_path i)) = None)"
  using docker_transfer_moves_safely unfolding safe_move_def .

text \<open>The tool of the command line never erases the target.\<close>

lemma docker_tool_keeps: "\<exists>as. after (docker_transfer_tool e path) h = h @ as \<and> CmdRun [remove_command path] \<notin> set as"
  using docker_transfer_moves_safely [of e "\<lparr>ti_path = path, ti_force = True, ti_overwrite = False\<rparr>" h]
  by (auto simp: docker_transfer_tool_def safe_move_def split: sum.split)


text \<open>A target that is the directory above the present root, on another disk, passes the check: the data to be moved is erased with it.\<close>

definition docker_sample :: docker_env where
  "docker_sample = \<lparr>ce_run = (\<lambda>_ _. None),
     ce_output = (\<lambda>_ c. Inr (if c = [''uci get dockerd.globals.data_root''] then ''/mnt/a/b/docker''
       else if c = [source_command ''/mnt/a/b/docker''] then ''/dev/sdb1'' else if c = [overlay_command] then ''/dev/sda2''
       else if c = [is_dir_command ''/mnt/a''] then ''true'' else if c = [count_command ''/mnt/a''] then ''1'' else [])),
     ce_partial = (\<lambda>_ _. []), ce_stderr = (\<lambda>_ _. []), ce_uci = (\<lambda>_. empty_uci), ce_access = (\<lambda>_ _. True),
     dr_disks = (\<lambda>_. Inr []), dr_findmnt = (\<lambda>_ _. Inr [(''/dev/sda1'', ''ext4'')])\<rparr>"

abbreviation sample_transfer :: transfer_input where
  "sample_transfer \<equiv> \<lparr>ti_path = ''/mnt/a'', ti_force = True, ti_overwrite = True\<rparr>"

lemma sample_commands:
  "make_target_command ''/mnt/a'' \<noteq> source_command ''/mnt/a/b/docker''" "source_command ''/mnt/a/b/docker'' \<noteq> overlay_command"
  "is_dir_command ''/mnt/a'' \<noteq> source_command ''/mnt/a/b/docker''" "is_dir_command ''/mnt/a'' \<noteq> overlay_command"
  "count_command ''/mnt/a'' \<noteq> source_command ''/mnt/a/b/docker''" "count_command ''/mnt/a'' \<noteq> overlay_command"
  "count_command ''/mnt/a'' \<noteq> is_dir_command ''/mnt/a''"
  "source_command ''/mnt/a/b/docker'' \<noteq> ''uci get dockerd.globals.data_root''" "overlay_command \<noteq> ''uci get dockerd.globals.data_root''"
  "is_dir_command ''/mnt/a'' \<noteq> ''uci get dockerd.globals.data_root''" "count_command ''/mnt/a'' \<noteq> ''uci get dockerd.globals.data_root''"
  "make_target_command ''/mnt/a'' \<noteq> ''uci get dockerd.globals.data_root''"
  by code_simp+

lemma docker_parent_erased:
  "CmdRun [remove_command ''/mnt/a''] \<in> set (after (docker_transfer docker_sample sample_transfer) []) \<and>
   result_of (docker_transfer docker_sample sample_transfer) [] = Inr None"
proof -
  have "trim_space ''/mnt/a/b/docker'' = ''/mnt/a/b/docker''" by (simp add: trim_space_solid solid_char_def)
  moreover have "remove_char newline ''true'' = ''true''" "remove_char newline ''1'' = ''1''" "remove_char newline ''/dev/sdb1'' = ''/dev/sdb1''"
    "remove_char newline ''/dev/sda2'' = ''/dev/sda2''" by code_simp+
  ultimately show ?thesis
    using sample_commands sample_commands [symmetric]
    by (simp add: docker_transfer_def read_docker_root_def check_docker_path_def transfer_docker_path_def step_runs docker_sample_def
      validate_path_snapshot_def)
qed

theorem docker_transfer_safe_witness:
  "\<exists>root before. target_checked docker_sample ''/mnt/a'' [] root \<and> copied docker_sample root ''/mnt/a'' before \<and>
     after (docker_transfer docker_sample sample_transfer) [] = before @ [CmdRun (build_docker_update_commands ''/mnt/a'')]"
proof -
  note run = docker_parent_erased
  obtain as where "after (docker_transfer docker_sample sample_transfer) [] = [] @ as"
    "result_of (docker_transfer docker_sample sample_transfer) [] = Inr None \<longrightarrow>
       CmdRun (build_docker_update_commands (ti_path sample_transfer)) \<in> set as"
    "CmdRun (build_docker_update_commands (ti_path sample_transfer)) \<in> set as \<longrightarrow>
       (\<exists>root before. target_checked docker_sample (ti_path sample_transfer) [] root \<and>
          as = before @ [CmdRun (build_docker_update_commands (ti_path sample_transfer))] \<and>
          (copied docker_sample root (ti_path sample_transfer) ([] @ before) \<or> ti_force sample_transfer \<and> \<not> ti_overwrite sample_transfer))"
    using docker_transfer_safe [of docker_sample sample_transfer "[]"] by blast
  with run show ?thesis by auto
qed

section \<open>What the status warns of\<close>

lemma docker_part_warning_iff:
  "docker_part_warning found ps = [] \<longleftrightarrow> (found \<or> (\<exists>p\<in>set ps. pt_docker_root p)) \<and>
     (\<forall>p\<in>set ps. pt_docker_root p \<longrightarrow> \<not> pt_system_root p \<and> pt_filesystem p \<noteq> ''ntfs'')"
proof (induction found ps rule: docker_part_warning.induct)
  case (1 found)
  then show ?case by (simp add: warn_system_root_def)
next
  case (2 found p ps)
  then show ?case by (simp add: warn_system_root_def warn_ntfs_def)
qed

end
