(* ===== verification/Gateway.thy ===== *)
theory Gateway
  imports NetworkBasics UciShell
begin

text \<open>
  The transparent gateway of the guide (\<open>service/guide_transparent_gateway_*.go\<close>), with the writers of \<open>NetworkBasics\<close>, and the
  question whether the router was set up (\<open>modules/guidecore/setup\<close>, \<open>service/guide_setup_backend.go\<close>, \<open>checkNeedSetupFromShadow\<close>).
\<close>

section \<open>The page of the gateway\<close>









section \<open>Whether the router was set up\<close>

definition root_shadow_line :: "string \<Rightarrow> string" where
  "root_shadow_line input = (case find (\<lambda>l. contains_str l ''root:'') (split_on newline input) of None \<Rightarrow> [] | Some l \<Rightarrow> l)"

definition need_setup_from_shadow :: "string \<Rightarrow> string \<Rightarrow> bool" where
  "need_setup_from_shadow rom current \<longleftrightarrow> root_shadow_line rom = root_shadow_line current"

definition check_need_setup_from_shadow :: "string result \<Rightarrow> string result \<Rightarrow> bool result" where
  "check_need_setup_from_shadow rom current =
     (case rom of Inl e \<Rightarrow> Inl e | Inr r \<Rightarrow> (case current of Inl e \<Rightarrow> Inl e | Inr c \<Rightarrow> Inr (need_setup_from_shadow r c)))"

record need_setup_input =
  nd_show :: bool
  nd_marked :: bool
  nd_checked :: bool
  nd_unchanged :: bool
  nd_wireless :: bool

text \<open>Whether the set-up is needed, and whether there is a wireless network.\<close>

definition build_need_setup :: "need_setup_input \<Rightarrow> bool \<times> bool" where
  "build_need_setup i = (nd_show i \<and> \<not> nd_marked i \<and> nd_checked i \<and> nd_unchanged i, nd_wireless i)"

definition guide_need_setup :: "uci \<Rightarrow> bool \<Rightarrow> string result \<Rightarrow> string result \<Rightarrow> bool \<times> bool" where
  "guide_need_setup u wireless rom current =
     build_need_setup
       (if uci_last u ''quickstart'' ''main'' ''show_guide'' = Some ''1'' then
          (if uci_last u ''quickstart'' ''main'' ''setup'' = Some ''1'' then
             \<lparr>nd_show = True, nd_marked = True, nd_checked = False, nd_unchanged = False, nd_wireless = wireless\<rparr>
           else (let need = check_need_setup_from_shadow rom current in
             \<lparr>nd_show = True, nd_marked = False, nd_checked = (case need of Inl _ \<Rightarrow> False | Inr _ \<Rightarrow> True),
              nd_unchanged = (case need of Inl _ \<Rightarrow> False | Inr b \<Rightarrow> b), nd_wireless = wireless\<rparr>))
        else \<lparr>nd_show = False, nd_marked = False, nd_checked = False, nd_unchanged = False, nd_wireless = wireless\<rparr>)"

text \<open>The error of the batch is dropped.\<close>

definition guide_finish_setup :: "'w exec \<Rightarrow> ('w \<Rightarrow> uci) \<Rightarrow> 'w \<Rightarrow> 'w" where
  "guide_finish_setup exec cfg w =
     (if uci_last (cfg w) ''quickstart'' ''main'' ''show_guide'' = Some ''1''
      then snd (batch_run exec [''uci -q del quickstart.main.show_guide'', ''uci commit quickstart''] 0 w) else w)"

section \<open>What the steps do to the configuration\<close>



































end
