(* ===== verification/CmdUci.thy ===== *)
theory CmdUci
  imports Command UciShell
begin

text \<open>
  The configuration that a history of batches leaves, for components in the style of \<open>Command\<close>: the batches act as \<open>UciShell\<close> says,
  one after the other, and the reader shows the outcome.
\<close>

definition action_effect :: "cmd_action \<Rightarrow> conf_view \<Rightarrow> conf_view" where
  "action_effect a f = (case a of CmdRun cs \<Rightarrow> script_effect False cs f | CmdOutput cs \<Rightarrow> script_effect False cs f | CmdUbus args \<Rightarrow> f)"

definition plain_action :: "cmd_action \<Rightarrow> bool" where
  "plain_action a = (case a of CmdRun cs \<Rightarrow> plain_script False cs | CmdOutput cs \<Rightarrow> plain_script False cs | CmdUbus args \<Rightarrow> True)"

definition replayed :: "conf_view \<Rightarrow> cmd_history \<Rightarrow> conf_view" where
  "replayed v h = fold action_effect h v"

text \<open>What is assumed: after plain actions the reader shows what they wrote. A batch that fails has the effect of its lines all the same.\<close>

definition cmd_shows :: "('a cmd_env_scheme) \<Rightarrow> conf_view \<Rightarrow> bool" where
  "cmd_shows e v \<longleftrightarrow> (\<forall>h. list_all plain_action h \<longrightarrow> (\<forall>c s opt. opt \<noteq> [] \<longrightarrow>
     uci_get (ce_uci e h) c s opt = replayed v h c s opt \<and>
     uci_last (ce_uci e h) c s opt = (case replayed v h c s opt of None \<Rightarrow> None | Some vs \<Rightarrow> if vs = [] then None else Some (last vs))))"

lemma replayed_simps [simp]:
  "replayed v [] = v" "replayed v (h @ [CmdRun cs]) = script_effect False cs (replayed v h)"
  "replayed v (h @ [CmdOutput cs]) = script_effect False cs (replayed v h)" "replayed v (h @ [CmdUbus args]) = replayed v h"
  "replayed v (a # h) = replayed (action_effect a v) h" "replayed v (h @ g) = replayed (replayed v h) g"
  by (simp_all add: replayed_def action_effect_def)

lemma plain_actions [simp]:
  "plain_action (CmdRun cs) = plain_script False cs" "plain_action (CmdOutput cs) = plain_script False cs" "plain_action (CmdUbus args)"
  by (simp_all add: plain_action_def)

lemma action_effects [simp]:
  "action_effect (CmdRun cs) = script_effect False cs" "action_effect (CmdOutput cs) = script_effect False cs" "action_effect (CmdUbus args) f = f"
  by (simp_all add: action_effect_def fun_eq_iff)

lemma shown_last:
  "cmd_shows e v \<Longrightarrow> list_all plain_action h \<Longrightarrow> opt \<noteq> [] \<Longrightarrow> replayed v h c s opt = Some [x] \<Longrightarrow> last_or_empty (ce_uci e h) c s opt = x"
  "cmd_shows e v \<Longrightarrow> list_all plain_action h \<Longrightarrow> opt \<noteq> [] \<Longrightarrow> replayed v h c s opt = None \<Longrightarrow> last_or_empty (ce_uci e h) c s opt = []"
  by (simp_all add: cmd_shows_def last_or_empty_def)

text \<open>A reader that shows just that.\<close>

lemma shows_replayed: "ce_uci e = (\<lambda>h. uci_of_view (replayed v h)) \<Longrightarrow> cmd_shows e v"
  by (simp add: cmd_shows_def uci_of_view_def)

end
