(* ===== verification/Ddns.thy ===== *)
theory Ddns
  imports CmdUci NetStatus NetworkBasics DiskModel
begin

text \<open>
  Dynamic DNS in the guide (\<open>modules/guideddns/builders.go\<close>, \<open>service/guide_ddns_*.go\<close>) and the reads of its state and of the places for
  downloads (\<open>service/guide_status_reads_*.go\<close>). The pending changes of the session, the dump of the interfaces and the state of the
  services are answers of \<open>ubus\<close>. Texts in Chinese are given in English.
\<close>

record ddns_env = cmd_env +
  de_changes :: "cmd_history \<Rightarrow> nat result"
  de_dump :: "cmd_history \<Rightarrow> ubus_interface list result"
  de_services :: "cmd_history \<Rightarrow> (string \<times> string) result"
  de_random :: "cmd_history \<Rightarrow> nat"
  de_disks :: "cmd_history \<Rightarrow> disk list result"

section \<open>Decisions\<close>









section \<open>The change\<close>









section \<open>ddnsto\<close>

text \<open>\<open>BatchOutErr\<close>: the output without the line breaks around it, the error output, and the error.\<close>

definition cmd_out_err :: "('a cmd_env_scheme) \<Rightarrow> string list \<Rightarrow> (string \<times> string \<times> goerr option) cmd_prog" where
  "cmd_out_err e cmds = do {
     act (CmdOutput cmds);
     ask (\<lambda>h. (trim_char newline (case ce_output e h cmds of Inl _ \<Rightarrow> ce_partial e h cmds | Inr out \<Rightarrow> out), ce_stderr e h cmds,
       case ce_output e h cmds of Inl err \<Rightarrow> Some err | Inr _ \<Rightarrow> None))
   }"

definition ddnsto_enable_commands :: "string \<Rightarrow> string list" where
  "ddnsto_enable_commands token =
     [''uci set ddnsto.@ddnsto[0].enabled=1'', ''uci set ddnsto.@ddnsto[0].token='' @ token, ''uci commit ddnsto'', ''/etc/init.d/ddnsto restart'']"

definition ddnsto_address_commands :: "string \<Rightarrow> string list" where
  "ddnsto_address_commands address = [''uci set ddnsto.@ddnsto[0].address='' @ address, ''uci commit ddnsto'']"

definition ddnsto_enable :: "('a cmd_env_scheme) \<Rightarrow> string \<Rightarrow> normal_response result cmd_prog" where
  "ddnsto_enable e token = do {
     (out, errout, failed) \<leftarrow> cmd_out_err e (ddnsto_enable_commands token);
     State_Monad.return (if failed \<noteq> None then Inl (''ddnsto was not started'' @ errout) else Inr response_ok)
   }"

definition ddnsto_address :: "('a cmd_env_scheme) \<Rightarrow> string \<Rightarrow> normal_response result cmd_prog" where
  "ddnsto_address e address = do {
     (out, errout, failed) \<leftarrow> cmd_out_err e (ddnsto_address_commands address);
     State_Monad.return (if failed \<noteq> None then Inl (''the address of ddnsto was not stored'' @ errout) else Inr response_ok)
   }"

record ddnsto_config =
  dto_enabled :: bool
  dto_token :: string
  dto_address :: string

definition read_ddnsto_config :: "('a cmd_env_scheme) \<Rightarrow> ddnsto_config result cmd_prog" where
  "read_ddnsto_config e =
     ok_then (uci_get_option e ''ddnsto.@ddnsto[0].enabled'') (\<lambda>enabled.
     ok_then (uci_get_option e ''ddnsto.@ddnsto[0].token'') (\<lambda>token.
     ok_then (uci_get_option e ''ddnsto.@ddnsto[0].address'') (\<lambda>address.
       State_Monad.return (Inr \<lparr>dto_enabled = (enabled = ''1''), dto_token = token, dto_address = address\<rparr>))))"

section \<open>What the guide shows\<close>


definition ddnsto_device :: "string list" where
  "ddnsto_device = [''/usr/sbin/ddnsto -w | awk '' @ sq ''{print $2}'']"





text \<open>The address and the name of the device that the guide shows for ddnsto.\<close>

definition ddnsto_status :: "('a cmd_env_scheme) \<Rightarrow> (string \<times> string) cmd_prog" where
  "ddnsto_status e = do {
     (device, errout, failed) \<leftarrow> cmd_out_err e ddnsto_device;
     State_Monad.return (''127.0.0.1'', device)
   }"

definition download_partitions :: "disk list \<Rightarrow> string list" where
  "download_partitions disks = concat (map (\<lambda>d. concat (map (\<lambda>p.
     if \<not> pt_system_root p \<and> \<not> pt_read_only p \<and> pt_mount_point p \<noteq> [] \<and> pt_filesystem p \<noteq> ''squashfs'' \<and> pt_filesystem p \<noteq> ''swap''
     then [pt_mount_point p @ ''/download''] else []) (dk_childrens d))) disks)"

definition download_partition_list :: "('a ddns_env_scheme) \<Rightarrow> string list result cmd_prog" where
  "download_partition_list e = ok_then (ask (de_disks e)) (\<lambda>disks. State_Monad.return (Inr (download_partitions disks)))"

section \<open>What an update writes\<close>














section \<open>What the guide shows after an update\<close>














end
