(* ===== verification/SystemServices.thy ===== *)
theory SystemServices
  imports CmdUci NetStatus NetworkBasics
begin

text \<open>
  The services of the system (\<open>modules/system\<close>, with the stores in \<open>service/system_*_usecase.go\<close>) and of the applications
  (\<open>modules/app\<close>, \<open>service/app.go\<close>). What \<open>ubus\<close> answers, the load of the processors and the files of the
  sensors are answers of the outside. Texts in Chinese are given in English.
\<close>

section \<open>Which modules are shown\<close>

definition list_option :: "uci \<Rightarrow> string \<Rightarrow> string \<Rightarrow> string \<Rightarrow> string list" where
  "list_option u config section opt = (case uci_get u config section opt of None \<Rightarrow> [] | Some vs \<Rightarrow> vs)"

definition have_uci_section :: "uci \<Rightarrow> string \<Rightarrow> string \<Rightarrow> string \<Rightarrow> bool" where
  "have_uci_section u config typ name = (case uci_sections u config typ of None \<Rightarrow> False | Some secs \<Rightarrow> name \<in> set secs)"

definition module_line :: "string \<Rightarrow> string" where
  "module_line m = ''add_list quickstart.modules.module='' @ sq m"

definition build_module_commands :: "string list \<Rightarrow> bool \<Rightarrow> string list" where
  "build_module_commands modules has_section =
     (let commands = (if has_section then [''delete quickstart.modules''] else []) @
        (if modules \<noteq> [] then ''set quickstart.modules=disabledisplay'' # map module_line modules else [])
      in if commands \<noteq> [] then commands @ [''commit quickstart''] else [])"

definition get_modules :: "('a cmd_env_scheme) \<Rightarrow> string list cmd_prog" where
  "get_modules e = ask (\<lambda>h. list_option (ce_uci e h) ''quickstart'' ''modules'' ''module'')"

text \<open>No list at all (\<open>nil\<close>) is refused.\<close>

definition set_modules :: "('a cmd_env_scheme) \<Rightarrow> string list option \<Rightarrow> normal_response result cmd_prog" where
  "set_modules e modules =
     (case modules of
        None \<Rightarrow> State_Monad.return (Inl ''invalid params'')
      | Some ms \<Rightarrow> do {
          has \<leftarrow> ask (\<lambda>h. have_uci_section (ce_uci e h) ''quickstart'' ''disabledisplay'' ''modules'');
          (let commands = build_module_commands ms has in
           if commands \<noteq> [] then do {
             failed \<leftarrow> run_batch e (uci_batch_lines commands []);
             State_Monad.return (case failed of Some err \<Rightarrow> Inl err | None \<Rightarrow> Inr response_ok)
           }
           else State_Monad.return (Inr response_ok))
        })"

section \<open>Calls of \<open>ubus\<close>: password and session\<close>

record system_env = cmd_env +
  se_password :: "cmd_history \<Rightarrow> bool option result"
  se_token :: "cmd_history \<Rightarrow> string option result"

definition set_password_command :: "string \<Rightarrow> string" where
  "set_password_command password = ''luci setPassword {'' @ dq ''username'' @ '':'' @ dq ''root'' @ '','' @ dq ''password'' @ '':'' @ dq password @ ''}''"

text \<open>The answer, when it is a truth value; an answer of another kind counts as no change.\<close>

definition set_root_password :: "('a system_env_scheme) \<Rightarrow> string \<Rightarrow> normal_response result cmd_prog" where
  "set_root_password e password = do {
     act (CmdUbus (ubus_call_args (set_password_command password)));
     answer \<leftarrow> ask (se_password e);
     State_Monad.return
       (case answer of
          Inl _ \<Rightarrow> Inl ''setting the password failed''
        | Inr changed \<Rightarrow> if changed = Some True then Inr response_ok else Inr \<lparr>nr_success = None, nr_error = ''-100''\<rparr>)
   }"

definition session_command :: "string \<Rightarrow> string" where
  "session_command session = ''session get {'' @ dq ''ubus_rpc_session'' @ '':'' @ dq session @ ''}''"

text \<open>The session of the request: the first of three cookies.\<close>

definition session_of_cookies :: "(string \<rightharpoonup> string) \<Rightarrow> string" where
  "session_of_cookies cookie =
     (case cookie ''sysauth'' of Some s \<Rightarrow> s
      | None \<Rightarrow> (case cookie ''sysauth_http'' of Some s \<Rightarrow> s
                  | None \<Rightarrow> (case cookie ''sysauth_https'' of Some s \<Rightarrow> s | None \<Rightarrow> [])))"

definition get_session_token :: "('a system_env_scheme) \<Rightarrow> string \<Rightarrow> string result cmd_prog" where
  "get_session_token e session =
     (if session = [] then State_Monad.return (Inl ''need auth'')
      else do {
        act (CmdUbus (ubus_call_args (session_command session)));
        answer \<leftarrow> ask (se_token e);
        State_Monad.return
          (case answer of
             Inl _ \<Rightarrow> Inl ''getting the session failed''
           | Inr token \<Rightarrow> (case token of None \<Rightarrow> Inl ''fail to get token'' | Some t \<Rightarrow> if t = [] then Inl ''fail to get token'' else Inr t))
      })"

section \<open>Power and updates\<close>

definition system_reboot :: "('a cmd_env_scheme) \<Rightarrow> normal_response result cmd_prog" where
  "system_reboot e = do {
     out \<leftarrow> read_output e [''echo '' @ sq ''trigger reboot'', ''reboot''];
     State_Monad.return (case out of Inl err \<Rightarrow> Inl (''reboot failed'' @ err) | Inr _ \<Rightarrow> Inr response_ok)
   }"

definition system_power_off :: "('a cmd_env_scheme) \<Rightarrow> normal_response result cmd_prog" where
  "system_power_off e = do {
     out \<leftarrow> read_output e [''echo '' @ sq ''trigger poweroff'', ''poweroff''];
     State_Monad.return (case out of Inl err \<Rightarrow> Inl (''power off failed'' @ err) | Inr _ \<Rightarrow> Inr response_ok)
   }"

text \<open>The output of the check, and its exit code and error when it fails.\<close>

definition check_update :: "string \<times> (int \<times> goerr) option \<Rightarrow> (bool \<times> string) result" where
  "check_update r =
     (case r of
        (output, Some (code, err)) \<Rightarrow> if code = 1 then Inr (False, ''Already the latest firmware'') else Inl err
      | (output, None) \<Rightarrow> Inr (True, output))"

definition auto_check_commands :: "bool \<Rightarrow> string list" where
  "auto_check_commands enable =
     (if enable then [''uci delete quickstart.main.disable_update_check'', ''uci commit quickstart'']
      else [''uci set quickstart.main.disable_update_check=1'', ''uci commit quickstart''])"

definition set_auto_check :: "('a cmd_env_scheme) \<Rightarrow> bool \<Rightarrow> normal_response result cmd_prog" where
  "set_auto_check e enable = do {
     failed \<leftarrow> run_batch e (auto_check_commands enable);
     State_Monad.return (if failed \<noteq> None then Inl ''setting failed'' else Inr response_ok)
   }"

section \<open>Version\<close>

record board =
  bd_kernel :: string
  bd_model :: string
  bd_release :: "(string \<times> string) option"

record version_shown =
  vs_model :: string
  vs_firmware :: string
  vs_kernel :: string
  vs_quickstart :: string

text \<open>The release: description and target.\<close>

definition normalize_model :: "board \<Rightarrow> string" where
  "normalize_model b =
     (case bd_release b of
        Some (_, target) \<Rightarrow> if has_prefix target ''x86'' \<and> bd_model b = ''Default string Default string'' then ''x86 Generic'' else bd_model b
      | None \<Rightarrow> bd_model b)"

definition get_version :: "string \<Rightarrow> board result \<Rightarrow> version_shown result" where
  "get_version own_version answer =
     (case answer of
        Inl e \<Rightarrow> Inl e
      | Inr b \<Rightarrow> Inr \<lparr>vs_model = normalize_model b, vs_firmware = (case bd_release b of None \<Rightarrow> [] | Some (d, _) \<Rightarrow> d), vs_kernel = bd_kernel b, vs_quickstart = own_version\<rparr>)"

section \<open>Time, memory and load\<close>

text \<open>
  A time in seconds since 1970, at UTC, as \<open>2006-01-02 15:04:05\<close>: the day of the Gregorian calendar is counted from the first of March of the
  year 0, in eras of 400 years. Years are taken from 0 to 9999.
\<close>

definition civil_of_days :: "int \<Rightarrow> int \<times> int \<times> int" where
  "civil_of_days days =
     (let z = days + 719468; era = z div 146097; doe = z mod 146097;
          yoe = (doe - doe div 1460 + doe div 36524 - doe div 146096) div 365;
          doy = doe - (365 * yoe + yoe div 4 - yoe div 100);
          mp = (5 * doy + 2) div 153;
          d = doy - (153 * mp + 2) div 5 + 1;
          m = (if mp < 10 then mp + 3 else mp - 9);
          y = yoe + era * 400 + (if m \<le> 2 then 1 else 0)
      in (y, m, d))"

definition pad :: "nat \<Rightarrow> int \<Rightarrow> string" where
  "pad n i = (let s = fmt_int i in replicate (n - length s) CHR ''0'' @ s)"

definition format_time :: "int \<Rightarrow> string" where
  "format_time t =
     (case civil_of_days (t div 86400) of (y, m, d) \<Rightarrow>
        (let s = t mod 86400
         in pad 4 y @ ''-'' @ pad 2 m @ ''-'' @ pad 2 d @ '' '' @ pad 2 (s div 3600) @ '':'' @ pad 2 (s mod 3600 div 60) @ '':'' @ pad 2 (s mod 60)))"

record time_shown =
  ts_local :: string
  ts_uptime :: int
  ts_human :: string

definition build_time_status :: "int \<Rightarrow> int \<Rightarrow> time_shown" where
  "build_time_status localtime uptime = \<lparr>ts_local = format_time localtime, ts_uptime = uptime, ts_human = seconds_to_human uptime\<rparr>"

record memory_snapshot =
  mm_total :: int
  mm_available :: int
  mm_has_available :: bool
  mm_free :: int
  mm_buffered :: int
  mm_cached :: int

record memory_shown =
  mh_available :: string
  mh_total :: string
  mh_percentage :: "int option"

text \<open>
  Sizes are below \<open>2 ^ 45\<close> bytes and not negative, so the percentage in floating point rounds as the exact one. Go does not say what integer a
  division by zero converts to; \<open>None\<close> stands for it.
\<close>

definition build_memory_status :: "int \<Rightarrow> int \<Rightarrow> memory_shown" where
  "build_memory_status size_total available =
     \<lparr>mh_available = fmt_int (available div (1024 * 1024)) @ ''MB'', mh_total = fmt_int (size_total div (1024 * 1024)) @ ''MB'',
      mh_percentage = (if size_total = 0 then None else Some ((200 * available + size_total) div (2 * size_total)))\<rparr>"

definition memory_status :: "memory_snapshot result \<Rightarrow> memory_shown result" where
  "memory_status r =
     (case r of
        Inl e \<Rightarrow> Inl e
      | Inr s \<Rightarrow> Inr (build_memory_status (mm_total s)
          (if \<not> mm_has_available s then mm_free s + mm_buffered s + mm_cached s else mm_available s)))"

record system_status =
  ss_cpu :: int
  ss_memory :: memory_shown
  ss_time :: time_shown
  ss_temperature :: int

definition get_system_status :: "int result \<Rightarrow> memory_snapshot result \<Rightarrow> (int \<times> int) result \<Rightarrow> int result \<Rightarrow> system_status result" where
  "get_system_status cpu memory time temperature =
     (case cpu of Inl e \<Rightarrow> Inl e | Inr usage \<Rightarrow>
       (case memory_status memory of Inl e \<Rightarrow> Inl e | Inr m \<Rightarrow>
         (case time of Inl e \<Rightarrow> Inl e | Inr (localtime, uptime) \<Rightarrow>
            Inr \<lparr>ss_cpu = usage, ss_memory = m, ss_time = build_time_status localtime uptime,
                 ss_temperature = (case temperature of Inl _ \<Rightarrow> 0 | Inr t \<Rightarrow> t)\<rparr>)))"

section \<open>Temperature\<close>

text \<open>The contents of a file, or an error. Division of integers truncates.\<close>

definition parse_milli_celsius :: "string \<Rightarrow> int" where
  "parse_milli_celsius raw = (let (n, err) = atoi (trim_char newline raw) in go_quot (if err \<noteq> None then 0 else n) 1000)"

definition read_zone_temperature :: "(string \<Rightarrow> string result) \<Rightarrow> string \<Rightarrow> int result" where
  "read_zone_temperature files zone =
     (case files (''/sys/class/thermal/'' @ zone @ ''/temp'') of Inl e \<Rightarrow> Inl e | Inr raw \<Rightarrow> Inr (parse_milli_celsius raw))"

definition read_hwmon_temperature :: "(string \<Rightarrow> string result) \<Rightarrow> nat \<Rightarrow> nat \<Rightarrow> int result" where
  "read_hwmon_temperature files hwmon i =
     (case files (''/sys/class/hwmon/hwmon'' @ fmt_nat hwmon @ ''/temp'' @ fmt_nat i @ ''_input'') of Inl e \<Rightarrow> Inl e | Inr raw \<Rightarrow> Inr (parse_milli_celsius raw))"

fun detect_zone_from :: "(string \<Rightarrow> string result) \<Rightarrow> string \<Rightarrow> nat list \<Rightarrow> string" where
  "detect_zone_from files zone [] = zone"
| "detect_zone_from files zone (i # is) =
     (let name = ''thermal_zone'' @ fmt_nat i
      in case files (''/sys/class/thermal/'' @ name @ ''/type'') of
           Inl _ \<Rightarrow> detect_zone_from files zone is
         | Inr raw \<Rightarrow>
             (let t = to_lower raw
              in if contains_str t ''x86'' \<or> contains_str t ''cpu'' \<or> contains_str t ''soc''
                 then (if is_Inr (read_zone_temperature files name) then name else detect_zone_from files name is)
                 else detect_zone_from files zone is))"

definition detect_zone :: "(string \<Rightarrow> string result) \<Rightarrow> string" where
  "detect_zone files = detect_zone_from files [] [0..<8]"

definition build_temperature_result :: "int result \<Rightarrow> int" where
  "build_temperature_result r = (case r of Inl _ \<Rightarrow> 0 | Inr t \<Rightarrow> t)"

section \<open>Applications\<close>

record app_request =
  ar_name :: string
  ar_check_running :: bool

datatype app_status = AppInstalled | AppRunning | AppStopped | AppUninstalled

definition app_check :: "('a cmd_env_scheme) \<Rightarrow> app_request \<Rightarrow> (string \<times> app_status) cmd_prog" where
  "app_check e req = do {
     installed \<leftarrow> check_app_is_installed e (ar_name req);
     (if \<not> installed then State_Monad.return (ar_name req, AppUninstalled)
      else if ar_check_running req then do {
        running \<leftarrow> check_app_is_running e (ar_name req);
        State_Monad.return (ar_name req, if running then AppRunning else AppStopped)
      }
      else State_Monad.return (ar_name req, AppInstalled))
   }"

text \<open>The installation runs on in the background; the answer is always that it has begun.\<close>

definition app_install :: "app_request \<Rightarrow> string result" where
  "app_install req = (if ar_name req = [] then Inl ''missing param'' else Inr ''installing'')"

text \<open>The files of the packages: a file without a time, without contents or without a decoded entry is left out.\<close>

definition installed_list :: "(string \<Rightarrow> int result) \<Rightarrow> (string \<Rightarrow> string result) \<Rightarrow> (string \<Rightarrow> 'a option) \<Rightarrow> string list result \<Rightarrow> ('a \<times> int) list result" where
  "installed_list stat contents decode paths =
     (case paths of
        Inl e \<Rightarrow> Inl e
      | Inr ps \<Rightarrow> Inr (List.map_filter (\<lambda>p.
          (case stat p of Inl _ \<Rightarrow> None | Inr time \<Rightarrow>
            (case contents p of Inl _ \<Rightarrow> None | Inr raw \<Rightarrow> map_option (\<lambda>a. (a, time)) (decode raw)))) ps))"

section \<open>What was set is shown\<close>

text \<open>A value that the shell leaves alone in a here-document, between single quotes.\<close>

definition batch_value :: "string \<Rightarrow> bool" where
  "batch_value v \<longleftrightarrow> quotable v \<and> list_all (\<lambda>c. c \<notin> {CHR 0x24, CHR 0x60, CHR 0x5C}) v"

lemma batch_words_word:
  assumes "batch_value m"
  shows "batch_words (module_line m) = Some [''add_list'', ''quickstart.modules.module='' @ m]" "module_line m \<noteq> ''EOF''"
proof -
  have w: "list_all word_char ''add_list''" "list_all word_char ''quickstart.modules.module=''" by (simp_all add: word_char_def)
  have "lex False None (''add_list'' @ '' '' @ ''quickstart.modules.module='' @ sq m) = Some [''add_list'', ''quickstart.modules.module='' @ m]"
    using lex_word [OF w(1), of None "'' '' @ ''quickstart.modules.module='' @ sq m"] lex_word [OF w(2), of None "sq m"] lex_quoted [of m _ "[]"] assms
    by (simp add: lex_blank more_def batch_value_def del: lex.simps(2,3))
  then show "batch_words (module_line m) = Some [''add_list'', ''quickstart.modules.module='' @ m]"
    using assms by (simp add: module_line_def batch_words_def batch_value_def sq_def)
  show "module_line m \<noteq> ''EOF''" by (simp add: module_line_def)
qed

lemma module_words:
  "batch_words ''delete quickstart.modules'' = Some [''delete'', ''quickstart.modules'']"
  "batch_words ''set quickstart.modules=disabledisplay'' = Some [''set'', ''quickstart.modules=disabledisplay'']"
  "batch_words ''commit quickstart'' = Some [''commit'', ''quickstart'']" "line_words [] = Some []"
  by code_simp+

lemma module_effects:
  "uci_effect [''delete'', ''quickstart.modules''] f = f(''quickstart'' := (\<lambda>s o'. if s = ''modules'' then None else f ''quickstart'' s o'))"
  "uci_effect [''set'', ''quickstart.modules=disabledisplay''] f = put_option ''quickstart'' ''modules'' [] (Some [''disabledisplay'']) f"
  "uci_effect [''commit'', ''quickstart''] f = f"
  "uci_effect [''add_list'', ''quickstart.modules.module='' @ m] f =
     (if f ''quickstart'' ''modules'' [] = None then f
      else put_option ''quickstart'' ''modules'' ''module'' (Some (vals_at f ''quickstart'' ''modules'' ''module'' @ [m])) f)"
proof -
  have "cut CHR ''='' ''quickstart.modules=disabledisplay'' = (''quickstart.modules'', ''disabledisplay'')" "key_parts ''quickstart.modules'' = (''quickstart'', ''modules'', [])"
    "key_parts ''quickstart.modules.module'' = (''quickstart'', ''modules'', ''module'')"
    by code_simp+
  moreover have "cut CHR ''='' (''quickstart.modules.module'' @ CHR ''='' # m) = (''quickstart.modules.module'', m)" by (rule cut_at(1)) simp
  ultimately show "uci_effect [''delete'', ''quickstart.modules''] f = f(''quickstart'' := (\<lambda>s o'. if s = ''modules'' then None else f ''quickstart'' s o'))"
    "uci_effect [''set'', ''quickstart.modules=disabledisplay''] f = put_option ''quickstart'' ''modules'' [] (Some [''disabledisplay'']) f"
    "uci_effect [''commit'', ''quickstart''] f = f"
    "uci_effect [''add_list'', ''quickstart.modules.module='' @ m] f =
       (if f ''quickstart'' ''modules'' [] = None then f
        else put_option ''quickstart'' ''modules'' ''module'' (Some (vals_at f ''quickstart'' ''modules'' ''module'' @ [m])) f)"
    by (simp_all add: uci_effect_def uci_set_effect_def uci_add_effect_def uci_del_effect_def vals_at_def)
qed

text \<open>The lines of the batch, and the end of it.\<close>

lemma add_modules:
  assumes "list_all batch_value ms" "f ''quickstart'' ''modules'' [] = Some t"
  shows "script_effect True (map module_line ms @ rest) f =
    script_effect True rest (if ms = [] then f else put_option ''quickstart'' ''modules'' ''module'' (Some (vals_at f ''quickstart'' ''modules'' ''module'' @ ms)) f)"
  using assms
proof (induction ms arbitrary: f)
  case (Cons m ms)
  note word = batch_words_word [of m]
  let ?g = "put_option ''quickstart'' ''modules'' ''module'' (Some (vals_at f ''quickstart'' ''modules'' ''module'' @ [m])) f"
  have "script_effect True (map module_line (m # ms) @ rest) f =
      script_effect True (map module_line ms @ rest) ?g"
    using Cons.prems word module_effects(4) [of m f] by simp
  also have "\<dots> = script_effect True rest (if ms = [] then ?g else put_option ''quickstart'' ''modules'' ''module''
      (Some (vals_at ?g ''quickstart'' ''modules'' ''module'' @ ms)) ?g)"
    by (rule Cons.IH) (use Cons.prems in simp_all)
  also have "(if ms = [] then ?g else put_option ''quickstart'' ''modules'' ''module'' (Some (vals_at ?g ''quickstart'' ''modules'' ''module'' @ ms)) ?g) =
      put_option ''quickstart'' ''modules'' ''module'' (Some (vals_at f ''quickstart'' ''modules'' ''module'' @ m # ms)) f"
    by (auto simp: put_option_def set_values_def vals_at_def fun_eq_iff)
  finally show ?case by simp
qed simp


lemma module_batch:
  assumes "list_all batch_value ms" "has \<longleftrightarrow> f ''quickstart'' ''modules'' [] \<noteq> None" "f ''quickstart'' ''modules'' [] = None \<Longrightarrow> f ''quickstart'' ''modules'' ''module'' = None"
    and "build_module_commands ms has \<noteq> []"
  shows "plain_script False (uci_batch_lines (build_module_commands ms has) [])"
    "script_effect False (uci_batch_lines (build_module_commands ms has) []) f ''quickstart'' ''modules'' ''module'' = (if ms = [] then None else Some ms)"
proof -
  let ?tail = "[''EOF'', [], []]"
  have head: "uci_batch_lines cs [] = batch_head # cs @ ?tail" for cs by (simp add: uci_batch_lines_def batch_head_def)
  have noeof: "''delete quickstart.modules'' \<noteq> ''EOF''" "''set quickstart.modules=disabledisplay'' \<noteq> ''EOF''" "''commit quickstart'' \<noteq> ''EOF''" "[] \<noteq> batch_head"
    by (simp_all add: batch_head_def)
  have tail: "script_effect True (''commit quickstart'' # ?tail) g = g" "plain_script True (''commit quickstart'' # ?tail)" for g
    by (simp_all add: noeof module_words module_effects line_effect_def words_effect_def plain_script_line_def)
  have adds: "plain_script True (map module_line ms @ rest) \<longleftrightarrow> plain_script True rest" for rest
    using assms(1) by (induction ms) (simp_all add: batch_words_word)
  define g where "g = (if has then f(''quickstart'' := (\<lambda>s o'. if s = ''modules'' then None else f ''quickstart'' s o')) else f)"
  have g: "g ''quickstart'' ''modules'' ''module'' = None" using assms(2,3) by (simp add: g_def)
  have cmds: "build_module_commands ms has = (if has then [''delete quickstart.modules''] else []) @
      (if ms \<noteq> [] then ''set quickstart.modules=disabledisplay'' # map module_line ms else []) @ [''commit quickstart'']"
    using assms(4) by (auto simp: build_module_commands_def Let_def split: if_splits)
  show "plain_script False (uci_batch_lines (build_module_commands ms has) [])"
    unfolding head cmds using tail(2) by (simp add: adds noeof module_words)
  have run: "script_effect False (uci_batch_lines (build_module_commands ms has) []) f =
      script_effect True ((if ms \<noteq> [] then ''set quickstart.modules=disabledisplay'' # map module_line ms else []) @ ''commit quickstart'' # ?tail) g"
    unfolding head cmds g_def by (simp add: noeof module_words module_effects)
  show "script_effect False (uci_batch_lines (build_module_commands ms has) []) f ''quickstart'' ''modules'' ''module'' = (if ms = [] then None else Some ms)"
    unfolding run using g
    by (simp add: tail noeof module_words module_effects line_effect_def words_effect_def add_modules [OF assms(1)] vals_at_def)
qed

definition modules_section :: "('a cmd_env_scheme) \<Rightarrow> conf_view \<Rightarrow> cmd_history \<Rightarrow> bool" where
  "modules_section e v h \<longleftrightarrow> (have_uci_section (ce_uci e h) ''quickstart'' ''disabledisplay'' ''modules'' \<longleftrightarrow> replayed v h ''quickstart'' ''modules'' [] \<noteq> None) \<and>
     (replayed v h ''quickstart'' ''modules'' [] = None \<longrightarrow> replayed v h ''quickstart'' ''modules'' ''module'' = None)"

text \<open>
  The modules that were set not to be shown are the ones that are read afterwards, whatever was set before. Assumptions: the tool and the reader do
  what is documented, the section \<open>modules\<close>, when it exists, has the type the program gives it, and the names can stand between single quotes.
\<close>

theorem modules_read_back:
  assumes "cmd_shows e v" "list_all plain_action h" "list_all batch_value ms" "modules_section e v h"
    and ok: "result_of (set_modules e (Some ms)) h = Inr response_ok"
  shows "result_of (get_modules e) (after (set_modules e (Some ms)) h) = ms"
proof -
  let ?has = "have_uci_section (ce_uci e h) ''quickstart'' ''disabledisplay'' ''modules''"
  let ?h = "after (set_modules e (Some ms)) h"
  have sec: "?has \<longleftrightarrow> replayed v h ''quickstart'' ''modules'' [] \<noteq> None"
      "replayed v h ''quickstart'' ''modules'' [] = None \<Longrightarrow> replayed v h ''quickstart'' ''modules'' ''module'' = None"
    using assms(4) by (auto simp: modules_section_def)
  have h: "?h = (if build_module_commands ms ?has = [] then h else h @ [CmdRun (uci_batch_lines (build_module_commands ms ?has) [])])"
    by (simp add: set_modules_def Let_def)
  have "list_all plain_action ?h \<and> replayed v ?h ''quickstart'' ''modules'' ''module'' = (if ms = [] then None else Some ms)"
  proof (cases "build_module_commands ms ?has = []")
    case True
    then have "ms = []" "\<not> ?has" by (auto simp: build_module_commands_def Let_def split: if_splits)
    with True sec assms(2) show ?thesis unfolding h by simp
  next
    case False
    with module_batch [of ms ?has "replayed v h", OF assms(3) sec False] assms(2) show ?thesis unfolding h by simp
  qed
  then show ?thesis using assms(1) by (simp add: get_modules_def list_option_def cmd_shows_def)
qed

lemma civil_samples:
  "civil_of_days 0 = (1970, 1, 1)" "civil_of_days 11015 = (2000, 2, 28)" "civil_of_days 11016 = (2000, 2, 29)" "civil_of_days 11017 = (2000, 3, 1)"
  "civil_of_days 47540 = (2100, 2, 28)" "civil_of_days 47541 = (2100, 3, 1)" "civil_of_days 19722 = (2023, 12, 31)" "civil_of_days 19723 = (2024, 1, 1)"
  by code_simp+

end
