(* ===== verification/QuickstartConfig.thy ===== *)
theory QuickstartConfig
  imports Command NetworkBasics GoRegex
begin

text \<open>
  The options of the program itself: \<open>modules/quickstart/config/service.go\<close> with the store in \<open>service/app.go\<close>. Texts in Chinese are
  given in English.
\<close>

section \<open>Commands\<close>

record config_request =
  qr_key :: string
  qr_type :: string
  qr_values :: "string list"

record config_shown =
  qs_key :: string
  qs_type :: string
  qs_values :: "string list"

record global_folders =
  gf_home :: string
  gf_configs :: string
  gf_public :: string
  gf_downloads :: string
  gf_caches :: string

definition build_config_set_commands :: "config_request \<Rightarrow> string list" where
  "build_config_set_commands req =
     (if qr_type req = ''list'' then map (\<lambda>v. ''uci add_list quickstart.main.'' @ qr_key req @ ''='' @ v) (qr_values req)
      else map (\<lambda>v. ''uci set quickstart.main.'' @ qr_key req @ ''='' @ v) (qr_values req)) @ [''uci commit quickstart'']"

definition build_config_delete_commands :: "string \<Rightarrow> string list" where
  "build_config_delete_commands key = [''uci delete quickstart.main.'' @ key, ''uci commit quickstart'']"

definition build_global_folders_commands :: "global_folders \<Rightarrow> string list" where
  "build_global_folders_commands f =
     [''uci -q batch <<-EOF >/dev/null'', ''set quickstart.main.main_dir='' @ dq (gf_home f), ''set quickstart.main.conf_dir='' @ dq (gf_configs f),
      ''set quickstart.main.pub_dir='' @ dq (gf_public f), ''set quickstart.main.dl_dir='' @ dq (gf_downloads f),
      ''set quickstart.main.tmp_dir='' @ dq (gf_caches f), ''commit quickstart'', ''EOF'', '''']"

section \<open>What \<open>uci show\<close> prints\<close>

definition solid_re :: re where
  "solid_re = plus True (Ch (\<lambda>c. \<not> space_class c))"

definition quote_re :: re where
  "quote_re = Ch (\<lambda>c. c = CHR 0x27)"

definition quoted_re :: re where
  "quoted_re = Cat quote_re (Cat (Cap 1 solid_re) quote_re)"

definition assigned_re :: re where
  "assigned_re = Cat (Cap 1 solid_re) (Cat (Ch (\<lambda>c. c = CHR ''='')) (Cat quote_re (Cat (Cap 2 solid_re) quote_re)))"

definition err_no_value :: goerr where
  "err_no_value = ''there is no such value''"

definition parse_config_output :: "string \<Rightarrow> string \<Rightarrow> config_shown result" where
  "parse_config_output key out =
     (let found = re_find_all quoted_re True out
      in if found = [] then Inl err_no_value
         else Inr \<lparr>qs_key = key, qs_type = (if length found > 1 then ''list'' else ''option''), qs_values = map (\<lambda>m. cap m 1) found\<rparr>)"

definition put_folder :: "captures \<Rightarrow> global_folders \<Rightarrow> global_folders" where
  "put_folder m f =
     (let name = cap m 1; v = cap m 2
      in if name = ''main_dir'' then f\<lparr>gf_home := v\<rparr>
         else if name = ''conf_dir'' then f\<lparr>gf_configs := v\<rparr>
         else if name = ''pub_dir'' then f\<lparr>gf_public := v\<rparr>
         else if name = ''dl_dir'' then f\<lparr>gf_downloads := v\<rparr>
         else if name = ''tmp_dir'' then f\<lparr>gf_caches := v\<rparr>
         else f)"

definition no_folders :: global_folders where
  "no_folders = \<lparr>gf_home = [], gf_configs = [], gf_public = [], gf_downloads = [], gf_caches = []\<rparr>"

definition parse_global_folders :: "string \<Rightarrow> global_folders result" where
  "parse_global_folders out =
     (let found = re_find_all assigned_re True out
      in if found = [] then Inl err_no_value else Inr (fold put_folder found no_folders))"

section \<open>Operations\<close>

definition check_quickstart_config :: "('a cmd_env_scheme) \<Rightarrow> unit result cmd_prog" where
  "check_quickstart_config e = ask (\<lambda>h. if ce_access e h ''/etc/config/quickstart'' then Inr () else Inl ''no access to /etc/config/quickstart'')"

definition config_output :: "('a cmd_env_scheme) \<Rightarrow> string list \<Rightarrow> string result cmd_prog" where
  "config_output e cmds = do {
     act (CmdOutput cmds);
     ask (\<lambda>h. case ce_output e h cmds of Inl err \<Rightarrow> Inl err | Inr out \<Rightarrow> Inr (trim_char newline out))
   }"

definition config_set :: "('a cmd_env_scheme) \<Rightarrow> config_request \<Rightarrow> normal_response result cmd_prog" where
  "config_set e req = ok_then (check_quickstart_config e) (\<lambda>_. do {
     failed \<leftarrow> run_batch e (build_config_set_commands req);
     State_Monad.return (if failed \<noteq> None then Inl ''setting failed'' else Inr response_ok)
   })"

definition config_get :: "('a cmd_env_scheme) \<Rightarrow> string \<Rightarrow> config_shown result cmd_prog" where
  "config_get e key = do {
     out \<leftarrow> config_output e [''uci show quickstart.main.'' @ key];
     State_Monad.return (case out of Inl _ \<Rightarrow> Inl ''reading failed'' | Inr text \<Rightarrow> parse_config_output key text)
   }"

definition config_delete :: "('a cmd_env_scheme) \<Rightarrow> string \<Rightarrow> normal_response result cmd_prog" where
  "config_delete e key = do {
     failed \<leftarrow> run_batch e (build_config_delete_commands key);
     State_Monad.return (if failed \<noteq> None then Inl ''deleting failed'' else Inr response_ok)
   }"

definition folders_command :: string where
  "folders_command = ''uci show quickstart.main | grep -F '' @ sq ''quickstart.main.'' @ '' | sed '' @ sq (''s/^quickstart'' @ [CHR 0x5C] @ ''.main'' @ [CHR 0x5C] @ ''.//g'')"

definition get_global_folders :: "('a cmd_env_scheme) \<Rightarrow> global_folders result cmd_prog" where
  "get_global_folders e = ok_then (check_quickstart_config e) (\<lambda>_. do {
     out \<leftarrow> config_output e [folders_command];
     State_Monad.return (case out of Inl _ \<Rightarrow> Inl ''reading failed'' | Inr text \<Rightarrow> parse_global_folders text)
   })"

definition set_global_folders :: "('a cmd_env_scheme) \<Rightarrow> global_folders \<Rightarrow> normal_response result cmd_prog" where
  "set_global_folders e f = ok_then (check_quickstart_config e) (\<lambda>_. do {
     failed \<leftarrow> run_batch e (build_global_folders_commands f);
     State_Monad.return (if failed \<noteq> None then Inl ''setting failed'' else Inr response_ok)
   })"

section \<open>Values between quotes\<close>

lemma solid_ends:
  assumes "list_all (\<lambda>c. \<not> space_class c) w" "w \<noteq> []" "rest = [] \<or> space_class (hd rest)"
  shows "re_match solid_re (b, w @ rest) = map (\<lambda>k. ([], (False, drop k (w @ rest)))) (rev [1..<Suc (length w)])"
proof -
  obtain c w' where w: "w = c # w'" using assms(2) by (cases w) auto
  have tw: "takeWhile (\<lambda>c. \<not> space_class c) (w' @ rest) = w'"
    using assms(1,3) unfolding w by (cases rest) (auto simp: list_all_iff takeWhile_append takeWhile_eq_all_conv [THEN iffD2])
  have "run_ends (\<lambda>c. \<not> space_class c) (False, w' @ rest) = map (\<lambda>k. ([], (False, drop k (w' @ rest)))) [0..<Suc (length w')]"
    by (simp add: run_ends_def tw del: upt_Suc)
  then have "re_match solid_re (b, w @ rest) = map (\<lambda>k. ([], (False, drop k (w' @ rest)))) (rev [0..<Suc (length w')])"
    using assms(1) by (simp add: solid_re_def plus_def w star_match_class rev_map comp_def del: upt_Suc)
  also have "\<dots> = map (\<lambda>k. ([], (False, drop k (w @ rest)))) (map Suc (rev [0..<Suc (length w')]))"
    by (simp add: w del: upt_Suc)
  also have "map Suc (rev [0..<Suc (length w')]) = rev [1..<Suc (length w)]"
    by (simp add: w rev_map [symmetric] map_Suc_upt del: upt_Suc)
  finally show ?thesis .
qed

text \<open>A run of other characters than blanks that ends in a quote, and what comes before that quote.\<close>

lemma quote_solid: "\<not> space_class (CHR 0x27)" "\<not> space_class (CHR ''='')"
  by (simp_all add: space_class_def)

lemma quoted_match:
  assumes "list_all (\<lambda>c. \<not> space_class c) v" "v \<noteq> []" "rest = [] \<or> space_class (hd rest)"
  shows "\<exists>xs. re_match quoted_re (b, sq v @ rest) = ([(1, v)], (False, rest)) # xs"
proof -
  have "re_match solid_re (False, (v @ [CHR 0x27]) @ rest) = map (\<lambda>k. ([], (False, drop k ((v @ [CHR 0x27]) @ rest)))) (rev [1..<Suc (length (v @ [CHR 0x27]))])"
    using assms quote_solid by (intro solid_ends) auto
  also have "rev [1..<Suc (length (v @ [CHR 0x27]))] = Suc (length v) # length v # rev [1..<length v]"
    using assms(2) by (cases v) simp_all
  finally have m: "re_match solid_re (False, v @ CHR 0x27 # rest) =
      ([], (False, rest)) # ([], (False, CHR 0x27 # rest)) # map (\<lambda>k. ([], (False, drop k (v @ CHR 0x27 # rest)))) (rev [1..<length v])"
    by simp
  have "re_match quote_re (False, rest) = []"
    using assms(3) by (cases rest) (auto simp: quote_re_def space_class_def)
  then show ?thesis
    by (simp add: quoted_re_def quote_re_def sq_def m eaten_def width_def)
qed

lemma quoted_skips: "c \<noteq> CHR 0x27 \<Longrightarrow> re_match quoted_re (b, c # cs) = []" "re_match quoted_re (b, []) = []"
  "re_match quoted_re (b, s) = re_match quoted_re (False, s)"
  by (simp_all add: quoted_re_def quote_re_def) (cases s; simp)

lemma quoted_search: "re_search quoted_re b s = re_search quoted_re False s"
  using quoted_skips(3) [of b s] by (cases s) simp_all

lemma quoted_search_skips: "CHR 0x27 \<notin> set p \<Longrightarrow> re_search quoted_re b (p @ s) = re_search quoted_re False s"
  by (induction p arbitrary: b) (auto simp: quoted_skips(1) intro: quoted_search)

lemma quoted_search_found:
  assumes "list_all (\<lambda>c. \<not> space_class c) v" "v \<noteq> []" "rest = [] \<or> space_class (hd rest)"
  shows "re_search quoted_re b (sq v @ rest) = Some ([(1, v)], (False, rest))"
  using quoted_match [OF assms, of b] by (auto simp: sq_def)

lemma quoted_all_step:
  assumes "CHR 0x27 \<notin> set p" "list_all (\<lambda>c. \<not> space_class c) v" "v \<noteq> []" "rest = [] \<or> space_class (hd rest)"
  shows "re_find_all quoted_re b (p @ sq v @ rest) = [(1, v)] # re_find_all quoted_re False rest"
proof -
  have "length rest < length (p @ sq v @ rest)" by (simp add: sq_def)
  then show ?thesis
    by (subst re_find_all.simps) (simp add: quoted_search_skips [OF assms(1)] quoted_search_found [OF assms(2-4)])
qed

lemma quoted_all:
  assumes "list_all (\<lambda>v. v \<noteq> [] \<and> list_all (\<lambda>c. \<not> space_class c) v) vs" "CHR 0x27 \<notin> set p" "vs \<noteq> []"
  shows "re_find_all quoted_re b (p @ join_on '' '' (map sq vs)) = map (\<lambda>v. [(1, v)]) vs"
  using assms
proof (induction vs arbitrary: p b rule: induct_list012)
  case (2 v)
  have "re_find_all quoted_re False [] = []" by (subst re_find_all.simps) (simp add: quoted_skips(2))
  with 2 quoted_all_step [of p v "[]" b] show ?case by simp
next
  case (3 v w vs)
  have "re_find_all quoted_re b (p @ sq v @ '' '' @ join_on '' '' (map sq (w # vs))) = [(1, v)] # re_find_all quoted_re False ('' '' @ join_on '' '' (map sq (w # vs)))"
    using 3(3,4) by (intro quoted_all_step) (auto simp: space_class_def)
  moreover have "re_find_all quoted_re False ('' '' @ join_on '' '' (map sq (w # vs))) = map (\<lambda>v. [(1, v)]) (w # vs)"
    using 3(3) by (intro 3(2)) auto
  ultimately show ?case by simp
qed simp

text \<open>
  What \<open>uci show\<close> prints of an option is read back, when the values have no blanks. One value counts as an option, also when it was written as
  a list.
\<close>

definition shown_option :: "string \<Rightarrow> string list \<Rightarrow> string" where
  "shown_option key vs = ''quickstart.main.'' @ key @ ''='' @ join_on '' '' (map sq vs)"

theorem config_values_read:
  assumes "vs \<noteq> []" "list_all (\<lambda>v. v \<noteq> [] \<and> list_all (\<lambda>c. \<not> space_class c) v) vs" "CHR 0x27 \<notin> set key"
  shows "parse_config_output key (shown_option key vs) = Inr \<lparr>qs_key = key, qs_type = (if length vs > 1 then ''list'' else ''option''), qs_values = vs\<rparr>"
proof -
  have "re_find_all quoted_re True ((''quickstart.main.'' @ key @ ''='') @ join_on '' '' (map sq vs)) = map (\<lambda>v. [(1, v)]) vs"
    using assms(3) by (intro quoted_all [OF assms(2) _ assms(1)]) simp
  then have "re_find_all quoted_re True (shown_option key vs) = map (\<lambda>v. [(1, v)]) vs" by (simp add: shown_option_def)
  then show ?thesis using assms(1) by (simp add: parse_config_output_def cap_def comp_def)
qed

text \<open>A value with a blank is not found at all.\<close>

lemma config_blank_unread: "parse_config_output ''k'' (shown_option ''k'' [''a b'']) = Inl err_no_value"
proof -
  have "re_search quoted_re True (shown_option ''k'' [''a b'']) = None" by code_simp
  then show ?thesis by (simp add: parse_config_output_def re_find_all.simps)
qed

end
