(* ===== verification/Manuf.thy ===== *)
theory Manuf
  imports GoStrings "HOL-Library.Word"
begin

text \<open>
  The makers of network devices by the prefix of the MAC address: \<open>service/gomanuf.go\<close>. The table maps the length of a prefix in
  bits to the prefixes of that length, as numbers of 64 bits. Go does not fix the order in which \<open>range\<close> goes through a
  map, so the order is an argument of the search.
\<close>

unbundle bit_operations_syntax

section \<open>The table\<close>

type_synonym manuf_table = "int \<rightharpoonup> (64 word \<rightharpoonup> string)"

text \<open>The index of a character in \<open>0123456789ABCDEF\<close>, or \<open>-1\<close>.\<close>

definition hex_index :: "char \<Rightarrow> int" where
  "hex_index c =
     (let n = (of_char c :: nat)
      in if 48 \<le> n \<and> n \<le> 57 then int n - 48 else if 65 \<le> n \<and> n \<le> 70 then int n - 55 else - 1)"

text \<open>The shift is an \<open>uint8\<close>; a shift by 64 or more gives 0. \<open>None\<close> is the panic for a part of fewer than two bytes.\<close>

definition part_shift :: "nat \<Rightarrow> nat" where
  "part_shift i = nat ((5 - int i) * 8 mod 256)"

fun b2uint64_from :: "nat \<Rightarrow> string list \<Rightarrow> 64 word option" where
  "b2uint64_from i [] = Some 0"
| "b2uint64_from i (b # bs) =
     (case b of
        x # y # _ \<Rightarrow> map_option (\<lambda>t. push_bit (part_shift i) (word_of_int (hex_index x * 16 + hex_index y)) + t) (b2uint64_from (Suc i) bs)
      | _ \<Rightarrow> None)"

definition b2uint64 :: "string list \<Rightarrow> 64 word option" where
  "b2uint64 bs = b2uint64_from 0 bs"

definition manuf_parse :: "string \<Rightarrow> string \<Rightarrow> manuf_table \<Rightarrow> manuf_table option" where
  "manuf_parse mac comment d =
     (let g = split_on CHR ''/'' mac; m = split_on CHR '':'' (hd g);
          b = (if length g \<noteq> 2 then 48 - int (length m) * 8 else fst (atoi (g ! 1)))
      in map_option (\<lambda>bits. d(b \<mapsto> (case d b of None \<Rightarrow> Map.empty | Some t \<Rightarrow> t)(bits \<mapsto> comment))) (b2uint64 m))"

text \<open>\<open>strings.Replace\<close> of two tabs by one, from the left.\<close>

fun single_tabs :: "string \<Rightarrow> string" where
  "single_tabs (c # d # s) = (if c = CHR 0x09 \<and> d = CHR 0x09 then CHR 0x09 # single_tabs s else c # single_tabs (d # s))"
| "single_tabs s = s"

definition manuf_line :: "string \<Rightarrow> manuf_table \<Rightarrow> manuf_table option" where
  "manuf_line s d = (case split_on CHR 0x09 (single_tabs s) of mac # comment # _ \<Rightarrow> manuf_parse mac comment d | _ \<Rightarrow> Some d)"

text \<open>The file, or \<open>None\<close> when it is not there. Every line is trimmed, the last one too.\<close>

definition load_manuf_data :: "string option \<Rightarrow> manuf_table option" where
  "load_manuf_data file =
     (case file of
        None \<Rightarrow> Some Map.empty
      | Some contents \<Rightarrow> foldl (\<lambda>d l. Option.bind d (manuf_line (trim_space l))) (Some Map.empty) (split_on CHR 0x0A contents))"

section \<open>The search\<close>

text \<open>The bits below the prefix are cleared, in the number that the next round goes on with.\<close>

definition clear_low :: "nat \<Rightarrow> 64 word \<Rightarrow> 64 word" where
  "clear_low k x = push_bit k (drop_bit k x)"

definition prefix_shift :: "int \<Rightarrow> nat" where
  "prefix_shift b = nat ((48 - b) mod 256)"

fun search_keys :: "manuf_table \<Rightarrow> 64 word \<Rightarrow> int list \<Rightarrow> string" where
  "search_keys d bint [] = []"
| "search_keys d bint (b # bs) =
     (let bint' = clear_low (prefix_shift b) bint
      in case Option.bind (d b) (\<lambda>t. t bint') of Some comment \<Rightarrow> comment | None \<Rightarrow> search_keys d bint' bs)"

text \<open>\<open>None\<close> is the panic.\<close>

definition gomanuf_search :: "manuf_table \<Rightarrow> int list \<Rightarrow> string \<Rightarrow> string option" where
  "gomanuf_search d order mac = map_option (\<lambda>bits. search_keys d bits order) (b2uint64 (split_on CHR '':'' (to_upper mac)))"

section \<open>The longest prefix\<close>

definition prefix_entry :: "manuf_table \<Rightarrow> 64 word \<Rightarrow> int \<Rightarrow> string option" where
  "prefix_entry d bits b = Option.bind (d b) (\<lambda>t. t (clear_low (prefix_shift b) bits))"

lemma clear_low_twice: "j \<le> k \<Longrightarrow> clear_low k (clear_low j x) = clear_low k x"
  by (rule bit_word_eqI) (auto simp: clear_low_def bit_push_bit_iff bit_drop_bit_eq)

lemma search_cleared:
  assumes "list_all (\<lambda>b. j \<le> prefix_shift b) bs" "sorted_wrt (\<lambda>a b. prefix_shift a \<le> prefix_shift b) bs"
  shows "search_keys d (clear_low j bits) bs = (case List.map_filter (prefix_entry d bits) bs of [] \<Rightarrow> [] | c # _ \<Rightarrow> c)"
  using assms
proof (induction bs arbitrary: j)
  case (Cons b bs)
  have "clear_low (prefix_shift b) (clear_low j bits) = clear_low (prefix_shift b) bits"
    using Cons.prems(1) by (simp add: clear_low_twice)
  moreover have "search_keys d (clear_low (prefix_shift b) bits) bs = (case List.map_filter (prefix_entry d bits) bs of [] \<Rightarrow> [] | c # _ \<Rightarrow> c)"
    using Cons.prems(2) by (intro Cons.IH) (auto simp: list_all_iff)
  moreover have "Option.bind (d b) (\<lambda>t. t (clear_low (prefix_shift b) bits)) = prefix_entry d bits b" by (simp add: prefix_entry_def)
  ultimately show ?case
    by (cases "prefix_entry d bits b") (simp_all add: Let_def map_filter_simps)
qed (simp add: map_filter_simps)

text \<open>When the table happens to be gone through from long prefixes to short ones, the answer is that of the longest prefix that is in the table.\<close>

theorem descending_search_longest:
  assumes "sorted_wrt (>) order" "set order \<subseteq> {0..48}" "b2uint64 (split_on CHR '':'' (to_upper mac)) = Some bits"
  shows "gomanuf_search d order mac = Some (case List.map_filter (prefix_entry d bits) order of [] \<Rightarrow> [] | c # _ \<Rightarrow> c)"
proof -
  have "clear_low 0 bits = bits" by (simp add: clear_low_def)
  moreover have "prefix_shift a \<le> prefix_shift b" if "a > b" "a \<in> {0..48}" "b \<in> {0..48}" for a b
    using that by (simp add: prefix_shift_def)
  then have "sorted_wrt (\<lambda>a b. prefix_shift a \<le> prefix_shift b) order"
    using assms(1,2) by (induction order) auto
  ultimately have "search_keys d bits order = (case List.map_filter (prefix_entry d bits) order of [] \<Rightarrow> [] | c # _ \<Rightarrow> c)"
    using search_cleared [of 0 order d bits] by (simp add: list_all_iff)
  then show ?thesis by (simp add: gomanuf_search_def assms(3))
qed

text \<open>
  In another order it is not: the short prefix clears bits that the long one needs. The device of a maker with a prefix of 36 bits gets no
  maker, or another one, depending on the order.
\<close>

definition two_makers :: manuf_table where
  "two_makers = [36 \<mapsto> [0x0050C2123000 \<mapsto> ''Meter'', 0x0050C2000000 \<mapsto> ''Other''], 24 \<mapsto> [0x0050C3000000 \<mapsto> ''Big'']]"

theorem search_depends_on_order:
  "gomanuf_search two_makers [36, 24] ''00:50:c2:12:34:56'' = Some ''Meter'' \<and> gomanuf_search two_makers [24, 36] ''00:50:c2:12:34:56'' = Some ''Other''"
  by code_simp

lemma short_mac_panics: "gomanuf_search d order ''00:5'' = None"
  by (simp add: gomanuf_search_def b2uint64_def to_upper_def upper_char_def)

end
