(* ===== verification/NetworkPorts.thy ===== *)
theory NetworkPorts
  imports Command GoSort ByteCount
begin

text \<open>
  The ports and the devices of the network (\<open>modules/network/portlist\<close>, \<open>modules/network/devicelist\<close>, \<open>getPortStatus\<close> of
  \<open>service/network.go\<close>) and the start of homebox (\<open>modules/network/homebox\<close>). The decoded answer of \<open>ip\<close>, that of \<open>ubus\<close>, and the files of
  the kernel are answers of the outside. Texts in Chinese are given in English.
\<close>

section \<open>The ports\<close>

record ip_interface =
  ipi_name :: string
  ipi_state :: string
  ipi_master :: string
  ipi_mac :: string
  ipi_kind :: "string option"

record network_port =
  npt_name :: string
  npt_state :: string
  npt_master :: string
  npt_mac :: string
  npt_speed :: string
  npt_tx :: string
  npt_rx :: string
  npt_duplex :: string
  npt_interfaces :: "string list"

type_synonym files = "string \<Rightarrow> string result"

definition contents :: "files \<Rightarrow> string \<Rightarrow> string" where
  "contents fs path = (case fs path of Inl _ \<Rightarrow> [] | Inr s \<Rightarrow> s)"

definition net_file :: "string \<Rightarrow> string \<Rightarrow> string" where
  "net_file name f = ''/sys/class/net/'' @ name @ ''/'' @ f"

definition is_port :: "(string \<Rightarrow> bool) \<Rightarrow> ip_interface \<Rightarrow> bool" where
  "is_port exists i \<longleftrightarrow>
     \<not> (has_prefix (ipi_name i) ''wlan'' \<or> (case ipi_kind i of None \<Rightarrow> False | Some k \<Rightarrow> k \<noteq> [] \<and> k \<noteq> ''dsa'')) \<and>
     exists (net_file (ipi_name i) ''device/uevent'')"

text \<open>The bytes and packets in one direction; empty when there is no counter.\<close>

definition packet_text :: "files \<Rightarrow> string \<Rightarrow> string \<Rightarrow> string" where
  "packet_text fs name dir =
     (case fs (net_file name (''statistics/'' @ dir @ ''_bytes'')) of
        Inl _ \<Rightarrow> []
      | Inr data \<Rightarrow>
          byte_count_binary (word_of_nat (fst (parse_uint (2 ^ 64 - 1) (trim_char newline data)))) @ '' ('' @
          trim_char newline (contents fs (net_file name (''statistics/'' @ dir @ ''_packets''))) @ ''pkts.)'')"

definition port_of :: "files \<Rightarrow> ip_interface \<Rightarrow> network_port" where
  "port_of fs i =
     \<lparr>npt_name = ipi_name i, npt_state = ipi_state i, npt_master = ipi_master i, npt_mac = ipi_mac i,
      npt_speed = (case fs (net_file (ipi_name i) ''speed'') of Inl _ \<Rightarrow> []
        | Inr data \<Rightarrow> if trim_char newline data \<noteq> ''-1'' then trim_char newline data @ '' Mbit/s'' else []),
      npt_tx = packet_text fs (ipi_name i) ''tx'', npt_rx = packet_text fs (ipi_name i) ''rx'',
      npt_duplex = trim_char newline (contents fs (net_file (ipi_name i) ''duplex'')), npt_interfaces = []\<rparr>"

definition get_port_status :: "(string \<Rightarrow> bool) \<Rightarrow> files \<Rightarrow> ip_interface list result \<Rightarrow> network_port list result" where
  "get_port_status exists fs interfaces =
     (case interfaces of
        Inl e \<Rightarrow> Inl e
      | Inr is \<Rightarrow> Inr (insertion_sort (\<lambda>p q. str_less (npt_name p) (npt_name q)) (map (port_of fs) (filter (is_port exists) is))))"

section \<open>The interfaces of the ports\<close>

record membership =
  mb_interface :: string
  mb_device :: string

definition read_membership :: "membership list result \<Rightarrow> membership list result" where
  "read_membership dump =
     (case dump of
        Inl _ \<Rightarrow> Inl ''getting the interfaces of the network failed''
      | Inr ms \<Rightarrow> Inr (filter (\<lambda>m. \<not> (mb_interface m = ''docker'' \<or> mb_interface m = ''loopback'')) ms))"

definition belongs :: "membership \<Rightarrow> network_port \<Rightarrow> bool" where
  "belongs m p \<longleftrightarrow> npt_name p = mb_device m \<or> npt_master p = mb_device m"

fun merge_membership :: "network_port list \<Rightarrow> membership list \<Rightarrow> network_port list" where
  "merge_membership ports [] = ports"
| "merge_membership ports (m # ms) =
     (if mb_device m = [] then merge_membership ports ms
      else merge_membership (map (\<lambda>p. if belongs m p then p\<lparr>npt_interfaces := npt_interfaces p @ [mb_interface m]\<rparr> else p) ports) ms)"

definition get_port_list :: "network_port list result \<Rightarrow> membership list result \<Rightarrow> network_port list result" where
  "get_port_list ports dump =
     (case ports of
        Inl e \<Rightarrow> Inl e
      | Inr ps \<Rightarrow> (case read_membership dump of Inl e \<Rightarrow> Inl e | Inr ms \<Rightarrow> Inr (merge_membership ps ms)))"

section \<open>The devices\<close>

text \<open>\<open>strings.Fields\<close>, for white space of ASCII.\<close>

definition ascii_space :: "char \<Rightarrow> bool" where
  "ascii_space c \<longleftrightarrow> c \<in> {CHR 0x09, CHR 0x0A, CHR 0x0B, CHR 0x0C, CHR 0x0D, CHR 0x20}"

fun fields_of :: "string \<Rightarrow> string \<Rightarrow> string list" where
  "fields_of w [] = (if w = [] then [] else [w])"
| "fields_of w (c # cs) = (if ascii_space c then (if w = [] then [] else [w]) @ fields_of [] cs else fields_of (w @ [c]) cs)"

record arp_device =
  ad_ip :: string
  ad_name :: string
  ad_mac :: string

definition arp_device_of :: "string \<Rightarrow> arp_device option" where
  "arp_device_of line =
     (let f = fields_of [] line
      in if length f \<noteq> 6 then None
         else if f ! 2 \<noteq> ''0x2'' then None
         else Some \<lparr>ad_ip = f ! 0, ad_name = [], ad_mac = to_upper (trim_space (f ! 3))\<rparr>)"

definition parse_arp_device_list :: "string \<Rightarrow> arp_device list" where
  "parse_arp_device_list out = List.map_filter arp_device_of (split_on newline out)"

definition arp_command :: "string \<Rightarrow> string" where
  "arp_command ifname = ''cat /proc/net/arp  | grep '' @ sq ('' '' @ ifname @ ''$'')"

text \<open>The name of the interface comes from another program; its answer is an argument.\<close>

definition network_device_list :: "('a cmd_env_scheme) \<Rightarrow> string result \<Rightarrow> arp_device list result cmd_prog" where
  "network_device_list e ifname =
     (case ifname of
        Inl err \<Rightarrow> State_Monad.return (Inl err)
      | Inr name \<Rightarrow> ok_then (read_output e [arp_command (remove_char newline name)])
          (\<lambda>out. State_Monad.return (Inr (parse_arp_device_list out))))"

section \<open>Homebox\<close>

definition homebox_start_commands :: "string list" where
  "homebox_start_commands = [''uci set homebox.@homebox[0].enabled=1'', ''uci commit homebox'', ''/etc/init.d/homebox restart'']"

text \<open>The port on which homebox answers.\<close>

definition homebox_enable :: "('a cmd_env_scheme) \<Rightarrow> string result cmd_prog" where
  "homebox_enable e = do {
     running \<leftarrow> check_app_is_running e ''homebox'';
     (if \<not> running then do {
        failed \<leftarrow> run_batch e homebox_start_commands;
        State_Monad.return (if failed \<noteq> None then Inl ''homebox was not started'' else Inr ''3300'')
      }
      else State_Monad.return (Inr ''3300''))
   }"

section \<open>What the list shows\<close>

text \<open>A port is listed with the interfaces of its own device and of its master, in the order of the dump.\<close>

lemma merge_membership_interfaces:
  "merge_membership ports ms =
     map (\<lambda>p. p\<lparr>npt_interfaces := npt_interfaces p @ map mb_interface (filter (\<lambda>m. mb_device m \<noteq> [] \<and> belongs m p) ms)\<rparr>) ports"
proof (induction ms arbitrary: ports)
  case (Cons m ms)
  have "belongs m' (p\<lparr>npt_interfaces := x\<rparr>) = belongs m' p" for m' p x by (simp add: belongs_def)
  then show ?case by (cases "mb_device m = []") (simp_all add: Cons.IH comp_def)
qed simp

interpretation port_order: strict_weak_order "\<lambda>p q. str_less (npt_name p) (npt_name q)"
proof
  show "str_less (npt_name x) (npt_name y) \<Longrightarrow> \<not> str_less (npt_name y) (npt_name x)" for x y by (rule str_less_asym)
  show "\<not> str_less (npt_name y) (npt_name x) \<Longrightarrow> \<not> str_less (npt_name z) (npt_name y) \<Longrightarrow> \<not> str_less (npt_name z) (npt_name x)" for x y z
    by (rule str_order.not_trans)
qed

lemma port_names_sorted:
  "get_port_status exists fs (Inr is) = Inr ps \<Longrightarrow> sorted_wrt (\<lambda>p q. \<not> str_less (npt_name q) (npt_name p)) ps"
  "get_port_status exists fs (Inr is) = Inr ps \<Longrightarrow> npt_name ` set ps = ipi_name ` set (filter (is_port exists) is)"
proof -
  assume ps: "get_port_status exists fs (Inr is) = Inr ps"
  then show "sorted_wrt (\<lambda>p q. \<not> str_less (npt_name q) (npt_name p)) ps"
    by (auto simp: get_port_status_def port_order.insertion_sort_sorted)
  have "npt_name (port_of fs i) = ipi_name i" for i by (simp add: port_of_def)
  with ps show "npt_name ` set ps = ipi_name ` set (filter (is_port exists) is)"
    by (auto simp: get_port_status_def image_image)
qed

text \<open>A line of the table of the kernel, as its format is documented.\<close>

lemma fields_word: "list_all (\<lambda>c. \<not> ascii_space c) w \<Longrightarrow> fields_of v (w @ s) = fields_of (v @ w) s"
  by (induction w arbitrary: v) simp_all

end
