(* ===== verification/RaidTool.thy ===== *)
theory RaidTool
  imports Raid
begin

text \<open>
  The tools for an array of two disks in \<open>service/tools.go\<close>, with the operations of \<open>Raid\<close> and \<open>DiskCommands\<close>. The decoder of the
  answer of \<open>lsblk\<close> is an argument. Texts in Chinese are given in English.
\<close>

section \<open>Outcomes\<close>

text \<open>A tool may end early without an error; the path that does not match the expression is a panic.\<close>

datatype tool_end = ToolDone | ToolError goerr | ToolPanic

type_synonym 'a tool = "(tool_end + 'a) disk_prog"

definition tool_then :: "'a tool \<Rightarrow> ('a \<Rightarrow> 'b tool) \<Rightarrow> 'b tool" where
  "tool_then m f = do { r \<leftarrow> m; (case r of Inl x \<Rightarrow> State_Monad.return (Inl x) | Inr a \<Rightarrow> f a) }"

text \<open>An operation of \<open>DiskCommands\<close>: its error ends the tool.\<close>

definition try_op :: "goerr option disk_prog \<Rightarrow> unit tool" where
  "try_op m = do { failed \<leftarrow> m; State_Monad.return (case failed of None \<Rightarrow> Inr () | Some err \<Rightarrow> Inl (ToolError err)) }"

definition try_result :: "'a result disk_prog \<Rightarrow> 'a tool" where
  "try_result m = do { r \<leftarrow> m; State_Monad.return (case r of Inr a \<Rightarrow> Inr a | Inl err \<Rightarrow> Inl (ToolError err)) }"

definition ignore_op :: "goerr option disk_prog \<Rightarrow> unit tool" where
  "ignore_op m = do { failed \<leftarrow> m; State_Monad.return (Inr ()) }"

definition tool_act :: "disk_action \<Rightarrow> unit tool" where
  "tool_act a = do { act a; State_Monad.return (Inr ()) }"

definition tool_ask :: "(disk_history \<Rightarrow> 'a) \<Rightarrow> 'a tool" where
  "tool_ask f = do { a \<leftarrow> ask f; State_Monad.return (Inr a) }"

definition tool_stop :: "tool_end \<Rightarrow> 'a tool" where
  "tool_stop x = State_Monad.return (Inl x)"

definition tool_value :: "'a \<Rightarrow> 'a tool" where
  "tool_value a = State_Monad.return (Inr a)"

primrec tool_each :: "('a \<Rightarrow> unit tool) \<Rightarrow> 'a list \<Rightarrow> unit tool" where
  "tool_each f [] = tool_value ()"
| "tool_each f (x # xs) = tool_then (f x) (\<lambda>_. tool_each f xs)"

primrec tool_map :: "('a \<Rightarrow> 'b tool) \<Rightarrow> 'a list \<Rightarrow> 'b list tool" where
  "tool_map f [] = tool_value []"
| "tool_map f (x # xs) = tool_then (f x) (\<lambda>y. tool_then (tool_map f xs) (\<lambda>ys. tool_value (y # ys)))"

section \<open>Block devices\<close>

record block_device =
  bkd_name :: string
  bkd_uuid :: string
  bkd_mount :: string

type_synonym lsblk_decoder = "string \<Rightarrow> block_device list result"

definition load_devices :: "lsblk_decoder \<Rightarrow> disk_env \<Rightarrow> block_device list result disk_prog" where
  "load_devices decode e = do {
     (out, failed) \<leftarrow> batch_stdout e Query [''lsblk -fs --json''];
     State_Monad.return (case failed of Some err \<Rightarrow> Inl err | None \<Rightarrow> decode out)
   }"

text \<open>The mount point and the UUID of the last device of the name.\<close>

definition last_device :: "string \<Rightarrow> block_device list \<Rightarrow> block_device option" where
  "last_device path ds = (case filter (\<lambda>d. ''/dev/'' @ bkd_name d = path) ds of [] \<Rightarrow> None | xs \<Rightarrow> Some (last xs))"

definition mount_of_device :: "string \<Rightarrow> block_device list \<Rightarrow> string" where
  "mount_of_device path ds = (case last_device path ds of None \<Rightarrow> [] | Some d \<Rightarrow> bkd_mount d)"

definition uuid_of_device :: "string \<Rightarrow> block_device list \<Rightarrow> string" where
  "uuid_of_device path ds = (case last_device path ds of None \<Rightarrow> [] | Some d \<Rightarrow> bkd_uuid d)"

section \<open>The array\<close>

text \<open>A partition that belongs to an array ends the tool as if it were done.\<close>

definition tool_release :: "disk_env \<Rightarrow> partition \<Rightarrow> unit tool" where
  "tool_release e p =
     (if has_prefix (pt_mount_point p) ''Raid Member:'' then tool_stop ToolDone
      else if pt_mount_point p \<noteq> [] then try_op (unmount e (pt_mount_point p))
      else tool_value ())"

definition tool_member :: "disk_env \<Rightarrow> string \<Rightarrow> string tool" where
  "tool_member e path =
     (case re_find name_re path of
        None \<Rightarrow> tool_stop ToolPanic
      | Some c \<Rightarrow> do {
          d \<leftarrow> get_disk_info e (cap c 1);
          tool_then (tool_each (tool_release e) (dk_childrens d)) (\<lambda>_.
          tool_then (try_op (erase e (dk_path d))) (\<lambda>_.
          tool_then (try_op (make_raid_part e (dk_path d))) (\<lambda>_.
          tool_value (disk_to_part (dk_path d) ''1''))))
        })"

definition tool_unmount_members :: "disk_env \<Rightarrow> string list \<Rightarrow> block_device list \<Rightarrow> unit tool" where
  "tool_unmount_members e paths ds =
     tool_each (\<lambda>d. tool_each (\<lambda>p. if ''/dev/'' @ bkd_name d = p then ignore_op (umount_device e (bkd_mount d)) else tool_value ()) paths) ds"

definition tool_create_array :: "(disk_history \<Rightarrow> goerr option) \<Rightarrow> disk_env \<Rightarrow> string list \<Rightarrow> unit tool" where
  "tool_create_array loads e parts =
     tool_then (tool_act (Wait 1000)) (\<lambda>_.
     tool_then (tool_ask (\<lambda>h. find_free_md (de_exists e h) 0)) (\<lambda>i.
       case i of
         None \<Rightarrow> tool_stop (ToolError ''no free raid path'')
       | Some n \<Rightarrow> do {
           let cmd = build_create_command (md_path n) ''1'' parts;
           failed \<leftarrow> batch_fails e [cmd];
           (case failed of
              Some _ \<Rightarrow> do {
                _ \<leftarrow> batch_stdout e Sh [''rm -f '' @ md_path n];
                tool_stop (ToolError (''raid not created '' @ cmd))
              }
            | None \<Rightarrow> try_op (generate_mdadm_config loads e))
         }))"

definition tool_create_raid :: "lsblk_decoder \<Rightarrow> (disk_history \<Rightarrow> goerr option) \<Rightarrow> disk_env \<Rightarrow> string list \<Rightarrow> unit tool" where
  "tool_create_raid decode loads e paths =
     (if length paths < 2 then tool_stop (ToolError ''not enough members'')
      else
        tool_then (try_result (load_devices decode e)) (\<lambda>ds.
        tool_then (tool_unmount_members e paths ds) (\<lambda>_.
        tool_then (tool_map (tool_member e) paths) (\<lambda>parts.
        tool_create_array loads e parts))))"

section \<open>The file system on it\<close>

definition tool_device :: string where
  "tool_device = ''/dev/md1''"

definition tool_mount_point :: string where
  "tool_mount_point = ''/mnt/data_md1''"

definition tool_mkdir_commands :: "string list" where
  "tool_mkdir_commands = [''if [ ! -d '' @ sq tool_mount_point @ '' ]; then mkdir -p '' @ sq tool_mount_point @ ''; fi'', ''chmod 777 '' @ sq tool_mount_point]"

definition tool_fstab_commands :: "nat \<Rightarrow> string \<Rightarrow> string list" where
  "tool_fstab_commands n uuid =
     (let target = ''@mount['' @ fmt_nat n @ '']''
      in [''add fstab mount '', ''set fstab.'' @ target @ ''=mount'', ''set fstab.'' @ target @ ''.target='' @ tool_mount_point,
          ''set fstab.'' @ target @ ''.enabled='' @ sq ''1'', ''set fstab.'' @ target @ ''.uuid='' @ uuid, ''commit fstab''])"

text \<open>The directory, the mount and the entry for it; the UUID is read again.\<close>

definition tool_mount :: "lsblk_decoder \<Rightarrow> disk_env \<Rightarrow> unit tool" where
  "tool_mount decode e =
     tool_then (ignore_op (batch_fails e tool_mkdir_commands)) (\<lambda>_.
     tool_then (try_op (disk_mount e tool_device tool_mount_point)) (\<lambda>_.
     tool_then (try_result (load_devices decode e)) (\<lambda>ds.
     tool_then (tool_ask (\<lambda>h. uci_sections (de_uci e h) ''fstab'' ''mount'')) (\<lambda>mounts.
       case mounts of
         None \<Rightarrow> tool_value ()
       | Some ms \<Rightarrow> try_op (batch_fails e (uci_batch_lines (tool_fstab_commands (length ms) (uuid_of_device tool_device ds)) ''/etc/init.d/fstab reload''))))))"

definition tool_partition_md :: "lsblk_decoder \<Rightarrow> disk_env \<Rightarrow> unit tool" where
  "tool_partition_md decode e =
     tool_then (tool_act (Wait 2000)) (\<lambda>_.
     tool_then (try_result (load_devices decode e)) (\<lambda>ds.
       (let mp = mount_of_device tool_device ds
        in if mp = tool_mount_point then tool_value ()
           else
             tool_then (if mp \<noteq> [] then ignore_op (umount_device e mp) else tool_value ()) (\<lambda>_.
             tool_then (try_op (ext4_partition e tool_device)) (\<lambda>_.
             tool_mount decode e)))))"

definition tool_mount_fixed :: "lsblk_decoder \<Rightarrow> disk_env \<Rightarrow> unit tool" where
  "tool_mount_fixed decode e =
     tool_then (tool_act (Wait 2000)) (\<lambda>_.
     tool_then (try_result (load_devices decode e)) (\<lambda>ds.
       if mount_of_device tool_device ds = tool_mount_point then tool_value () else tool_mount decode e))"

definition raid1_tool :: "lsblk_decoder \<Rightarrow> (disk_history \<Rightarrow> goerr option) \<Rightarrow> disk_env \<Rightarrow> string list \<Rightarrow> tool_end disk_prog" where
  "raid1_tool decode loads e paths = do {
     made \<leftarrow> tool_create_raid decode loads e paths;
     (case made of
        Inl (ToolError err) \<Rightarrow> State_Monad.return (ToolError err)
      | Inl ToolPanic \<Rightarrow> State_Monad.return ToolPanic
      | _ \<Rightarrow> do {
          r \<leftarrow> tool_partition_md decode e;
          State_Monad.return (case r of Inl x \<Rightarrow> x | Inr _ \<Rightarrow> ToolDone)
        })
   }"

definition raid_fix_and_mount :: "lsblk_decoder \<Rightarrow> (disk_history \<Rightarrow> goerr option) \<Rightarrow> disk_env \<Rightarrow> string \<Rightarrow> tool_end disk_prog" where
  "raid_fix_and_mount decode loads e query = do {
     failed \<leftarrow> auto_fix loads e query;
     (case failed of
        Some err \<Rightarrow> State_Monad.return (ToolError err)
      | None \<Rightarrow> do {
          r \<leftarrow> tool_mount_fixed decode e;
          State_Monad.return (case r of Inl x \<Rightarrow> x | Inr _ \<Rightarrow> ToolDone)
        })
   }"

section \<open>What is formatted\<close>

lemma only_tool [only_intro]:
  "only P m \<Longrightarrow> (\<And>a. only P (f a)) \<Longrightarrow> only P (tool_then m f)" "only P n \<Longrightarrow> only P (try_op n)" "only P r \<Longrightarrow> only P (try_result r)"
  "only P n \<Longrightarrow> only P (ignore_op n)" "P a \<Longrightarrow> only P (tool_act a)" "only P (tool_ask g)" "only P (tool_stop x)" "only P (tool_value b)"
  unfolding tool_then_def try_op_def try_result_def ignore_op_def tool_act_def tool_ask_def tool_stop_def tool_value_def
  by (intro only_intro; assumption)+

text \<open>The disk tool formats one device only, whatever array was made: a member of an array among the disks ends the making without an error.\<close>

definition formats :: "disk_action \<Rightarrow> bool" where
  "formats a \<longleftrightarrow> (\<exists>c. a = Sh [c] \<and> has_prefix c ''mkfs.ext4 '')"

lemma tool_partition_formats: "only (\<lambda>a. formats a \<longrightarrow> a = Sh [ext4_command ''/dev/md1'']) (tool_partition_md decode e)"
proof -
  have plain: "\<not> formats (Wait n)" "\<not> formats (Query c)" "\<not> formats (Sh [umount_command mp])" "\<not> formats (Sh tool_mkdir_commands)"
    "\<not> formats (Sh [x, y])" "\<not> formats (Sh (uci_batch_lines cs r))" for n c mp x y cs r
    by (auto simp: formats_def umount_command_def has_prefix_def tool_mkdir_commands_def uci_batch_lines_def)
  show ?thesis
    unfolding tool_partition_md_def tool_mount_def load_devices_def umount_device_def run_umount_def ext4_partition_def disk_mount_def Let_def
    by (intro only_intro; simp add: plain tool_device_def)
qed

lemma member_ends_tool: "has_prefix (pt_mount_point p) ''Raid Member:'' \<Longrightarrow> tool_each (tool_release e) (p # ps) = tool_stop ToolDone"
  by (simp add: tool_release_def tool_then_def tool_stop_def State_Monad.bind_def State_Monad.return_def)

end
