(* ===== verification/Gpt.thy ===== *)
theory Gpt
  imports GoNet
begin

text \<open>
  The repair of a copied partition table (\<open>cmd/backend/prompt.go\<close>): after the installer has copied the start of
  the running disk and its partition entries, it computes the two check sums of the GUID partition table again. The
  theory has \<open>hash/crc32\<close> of Go, reads and writes at an offset of a device, the repair, and the check that the
  firmware makes.
\<close>

section \<open>Check sums\<close>

text \<open>
  \<open>crc32.NewIEEE\<close>: the reflected polynomial, a bit at a time; the tables of the package hold the values of
  eight such steps. The hash is kept inverted between two writes, and \<open>Sum32\<close> is the value after the last.
\<close>

type_synonym crc = "32 word"

definition crc_bit :: "crc \<Rightarrow> crc" where
  "crc_bit c = (if bit c 0 then drop_bit 1 c XOR 0xEDB88320 else drop_bit 1 c)"

primrec crc_bits :: "nat \<Rightarrow> crc \<Rightarrow> crc" where
  "crc_bits 0 c = c"
| "crc_bits (Suc n) c = crc_bits n (crc_bit c)"

definition crc_byte :: "crc \<Rightarrow> byte \<Rightarrow> crc" where
  "crc_byte c b = crc_bits 8 (c XOR ucast b)"

definition crc_update :: "crc \<Rightarrow> byte list \<Rightarrow> crc" where
  "crc_update c bs = NOT (foldl crc_byte (NOT c) bs)"

definition crc32 :: "byte list \<Rightarrow> crc" where
  "crc32 bs = crc_update 0 bs"

lemma crc_update_append: "crc_update (crc_update c as) bs = crc_update c (as @ bs)"
  by (simp add: crc_update_def)

lemma crc32_append: "crc_update (crc32 as) bs = crc32 (as @ bs)"
  by (simp add: crc32_def crc_update_append)

lemma crc_bits_numeral: "crc_bits (numeral k) c = crc_bits (pred_numeral k) (crc_bit c)"
  by (simp add: numeral_eq_Suc)

text \<open>The check value of the algorithm, the sum of the digits one to nine.\<close>

lemma crc32_check_value: "crc32 [0x31, 0x32, 0x33, 0x34, 0x35, 0x36, 0x37, 0x38, 0x39] = 0xCBF43926"
  by (simp add: crc32_def crc_update_def crc_byte_def crc_bit_def crc_bits_numeral drop_bit_Suc)

section \<open>Devices\<close>

text \<open>
  A block device is a list of bytes of fixed length: reading stops at its end (\<open>Seek\<close> and \<open>io.CopyN\<close>), and what
  \<open>WriteAt\<close> puts past its end is lost.
\<close>

type_synonym device = "byte list"

definition read_at :: "device \<Rightarrow> nat \<Rightarrow> nat \<Rightarrow> byte list" where
  "read_at d off n = take n (drop off d)"

definition write_at :: "device \<Rightarrow> nat \<Rightarrow> byte list \<Rightarrow> device" where
  "write_at d off bs = take off d @ take (length d - off) bs @ drop (off + length bs) d"

text \<open>\<open>binary.LittleEndian.PutUint32\<close>.\<close>

definition le32 :: "crc \<Rightarrow> byte list" where
  "le32 w = [ucast w, ucast (drop_bit 8 w), ucast (drop_bit 16 w), ucast (drop_bit 24 w)]"

text \<open>The sums that the installer computes, and its two writes.\<close>

definition entries_sum :: "device \<Rightarrow> crc" where
  "entries_sum d = crc_update 0 (read_at d 1024 16384)"

definition header_sum :: "device \<Rightarrow> crc" where
  "header_sum d = crc_update (crc_update (crc_update 0 (read_at d 512 16)) (le32 0)) (read_at d 532 72)"

definition repair_gpt :: "device \<Rightarrow> device" where
  "repair_gpt d =
     (let d1 = write_at d 600 (le32 (entries_sum d))
      in write_at d1 528 (le32 (header_sum d1)))"

section \<open>The check of the firmware\<close>

text \<open>
  The table as the firmware reads it: a header of 92 bytes in the second sector, with its own sum at offset 16, taken
  with that field zero, and the sum of the 128 entries of 128 bytes that follow at offset 88.
\<close>

definition gpt_header :: "device \<Rightarrow> byte list" where
  "gpt_header d = read_at d 512 92"

definition gpt_entries :: "device \<Rightarrow> byte list" where
  "gpt_entries d = read_at d (2 * 512) (128 * 128)"

definition header_field :: "device \<Rightarrow> nat \<Rightarrow> byte list" where
  "header_field d off = read_at (gpt_header d) off 4"

definition gpt_sums_ok :: "device \<Rightarrow> bool" where
  "gpt_sums_ok d \<longleftrightarrow> length (gpt_header d) = 92 \<and> length (gpt_entries d) = 128 * 128 \<and>
     header_field d 88 = le32 (crc32 (gpt_entries d)) \<and>
     header_field d 16 = le32 (crc32 (write_at (gpt_header d) 16 (replicate 4 0)))"

section \<open>Reads and writes\<close>

lemma length_le32 [simp]: "length (le32 w) = 4"
  by (simp add: le32_def)

lemma le32_zero: "le32 0 = replicate 4 0"
  by (simp add: le32_def eval_nat_numeral)

lemma length_write_at [simp]: "off + length bs \<le> length d \<Longrightarrow> length (write_at d off bs) = length d"
  by (simp add: write_at_def)

lemma length_read_at [simp]: "length (read_at d off n) = min n (length d - off)"
  by (simp add: read_at_def)

text \<open>Bytes inside and outside of a write.\<close>

lemma nth_write_at:
  assumes "off + length bs \<le> length d" "i < length d"
  shows "write_at d off bs ! i = (if off \<le> i \<and> i < off + length bs then bs ! (i - off) else d ! i)"
  using assms by (auto simp: write_at_def nth_append min_def)

lemma nth_read_at: "off + i < length d \<Longrightarrow> i < n \<Longrightarrow> read_at d off n ! i = d ! (off + i)"
  by (simp add: read_at_def)

lemma read_at_eqI:
  assumes "length d = length d'" "\<And>i. off \<le> i \<Longrightarrow> i < off + n \<Longrightarrow> i < length d \<Longrightarrow> d ! i = d' ! i"
  shows "read_at d off n = read_at d' off n"
  using assms by (intro nth_equalityI) (auto simp: nth_read_at)

text \<open>What was written is read back, and a read that misses the write is as before.\<close>

lemma write_then_read:
  assumes "off + length bs \<le> length d"
  shows "read_at (write_at d off bs) off (length bs) = bs"
  using assms by (intro nth_equalityI) (auto simp: nth_read_at nth_write_at)

lemma read_elsewhere:
  assumes "off + length bs \<le> length d" "o' + n \<le> off \<or> off + length bs \<le> o'"
  shows "read_at (write_at d off bs) o' n = read_at d o' n"
  using assms by (intro read_at_eqI) (auto simp: nth_write_at)

lemma read_read:
  assumes "o2 + m \<le> n"
  shows "read_at (read_at d off n) o2 m = read_at d (off + o2) m"
  using assms by (simp add: read_at_def drop_take min_def add.commute)

text \<open>The three parts the installer sums are the header with its field zero.\<close>

lemma header_parts:
  assumes "604 \<le> length d"
  shows "read_at d 512 16 @ replicate 4 0 @ read_at d 532 72 = write_at (gpt_header d) 16 (replicate 4 0)"
proof -
  have "take 16 (gpt_header d) = read_at d 512 16"
    by (simp add: gpt_header_def read_at_def min_def)
  moreover have "drop 20 (gpt_header d) = read_at d 532 72"
    by (simp add: gpt_header_def read_at_def drop_take)
  moreover have "length (gpt_header d) = 92"
    using assms by (simp add: gpt_header_def)
  ultimately show ?thesis
    by (simp add: write_at_def)
qed

lemma header_sum_spec: "604 \<le> length d \<Longrightarrow> header_sum d = crc32 (write_at (gpt_header d) 16 (replicate 4 0))"
  unfolding header_sum_def crc_update_append crc32_def le32_zero append_assoc by (simp only: header_parts)

text \<open>The field of the header's own sum has no part in that sum.\<close>

lemma header_sum_own_field: "604 \<le> length d \<Longrightarrow> header_sum (write_at d 528 (le32 w)) = header_sum d"
  by (simp add: header_sum_def read_elsewhere)

lemma entries_sum_elsewhere: "604 \<le> length d \<Longrightarrow> off + 4 \<le> 1024 \<Longrightarrow> off + 4 \<le> length d \<Longrightarrow>
    entries_sum (write_at d off (le32 w)) = entries_sum d"
  by (simp add: entries_sum_def read_elsewhere)

section \<open>The repair\<close>

lemma repair_gpt_writes:
  "repair_gpt d = write_at (write_at d 600 (le32 (entries_sum d))) 528 (le32 (header_sum (write_at d 600 (le32 (entries_sum d)))))"
  by (simp add: repair_gpt_def Let_def)

text \<open>
  C10. Whatever has been copied to a disk that has room for the table, after the repair both check sums of the partition
  table are right, the header's and the entries', and no byte outside the two fields has changed.
\<close>

theorem gpt_repaired:
  assumes "1024 + 16384 \<le> length d"
  shows "gpt_sums_ok (repair_gpt d) \<and> length (repair_gpt d) = length d \<and>
    (\<forall>i < length d. i \<notin> {528..<532} \<union> {600..<604} \<longrightarrow> repair_gpt d ! i = d ! i)"
proof -
  let ?d1 = "write_at d 600 (le32 (entries_sum d))"
  let ?h = "header_sum ?d1"
  let ?d2 = "repair_gpt d"
  have len: "length ?d1 = length d" "length ?d2 = length d"
    using assms by (simp_all add: repair_gpt_writes)
  have entries: "read_at ?d2 1024 16384 = read_at d 1024 16384"
    using assms by (simp add: repair_gpt_writes read_elsewhere)
  have field88: "header_field ?d2 88 = le32 (entries_sum d)"
    using assms write_then_read [of 600 "le32 (entries_sum d)" d]
    by (simp add: repair_gpt_writes header_field_def gpt_header_def read_read read_elsewhere)
  have field16: "header_field ?d2 16 = le32 ?h"
    using assms write_then_read [of 528 "le32 ?h" ?d1]
    by (simp add: repair_gpt_writes header_field_def gpt_header_def read_read)
  have "?h = header_sum ?d2"
    using assms by (simp add: repair_gpt_writes header_sum_own_field)
  then have "header_field ?d2 16 = le32 (crc32 (write_at (gpt_header ?d2) 16 (replicate 4 0)))"
    using assms len field16 by (simp add: header_sum_spec del: replicate_numeral)
  moreover have "header_field ?d2 88 = le32 (crc32 (gpt_entries ?d2))"
    by (simp add: field88 gpt_entries_def entries entries_sum_def crc32_def)
  ultimately have "gpt_sums_ok ?d2"
    using assms len by (simp add: gpt_sums_ok_def gpt_header_def gpt_entries_def)
  moreover have "?d2 ! i = d ! i" if "i < length d" "i \<notin> {528..<532} \<union> {600..<604}" for i
    using assms that by (auto simp: repair_gpt_writes nth_write_at)
  ultimately show ?thesis using len by blast
qed

theorem gpt_repaired_witness: "gpt_sums_ok (repair_gpt (replicate 17408 0))"
  by (rule gpt_repaired [THEN conjunct1]) (simp del: replicate_numeral)

end
