(* ===== verification/Console.thy ===== *)
theory Console
  imports Gpt IpUtil DiskList NetworkPorts DhnsPlan
begin

text \<open>
  The text console and the installer (\<open>cmd/backend/prompt.go\<close>, \<open>utils/dd.go\<close>, and the commands of
  \<open>cmd/backend/backend-main.go\<close> that hand over events). What the user does is a list of replies, the program's own
  state; a question that finds no reply left ends like an interrupted one. The dialogue library \<open>promptui\<close> is
  outside: it answers with an index and an item, or an error, and does not return a text that the validation rejects.
  Devices are lists of bytes; what the shell and \<open>dd\<close> do to them is a parameter, the writes of the program are not.
\<close>

section \<open>Questions and actions\<close>

datatype reply = Picked nat string | Broken goerr

datatype console_action =
    Asked string "string list" reply
  | Entered string reply
  | Ran "string list"
  | Dd string "string list"
  | Wrote string int "byte list"
  | SetLan string string
  | Said string
  | Slept nat

type_synonym console_history = "console_action list"
type_synonym 'a console = "(console_action, reply list, 'a) prog"

type_synonym disks = "string \<Rightarrow> device"

record shown_interface =
  si_name :: string
  si_ipv4 :: string
  si_ipv6 :: string
  si_port_name :: string
  si_ports :: "network_port list"

text \<open>
  What the storage module reads, the outcome of \<open>LanSetting\<close>, the configuration, the interfaces, the library that draws
  a list, whether a device can be opened, the outcome of \<open>dd\<close>, the devices at the start, and what a batch and a run of
  \<open>dd\<close> make of them.
\<close>

record console_env =
  ie_disks :: "console_history \<Rightarrow> disk_env"
  ie_script :: "string list"
  ie_lan :: "console_history \<Rightarrow> goerr option"
  ie_uci :: "console_history \<Rightarrow> uci"
  ie_interfaces :: "console_history \<Rightarrow> shown_interface list result"
  ie_render :: "(nat \<times> string) list \<Rightarrow> string"
  ie_open :: "console_history \<Rightarrow> string \<Rightarrow> goerr option"
  ie_dd :: "console_history \<Rightarrow> goerr option"
  ie_start :: disks
  ie_shell :: "string list \<Rightarrow> disks \<Rightarrow> disks"
  ie_copy :: "string \<Rightarrow> string list \<Rightarrow> disks \<Rightarrow> disks"

text \<open>\<open>WriteAt\<close> refuses a negative offset.\<close>

definition write_device :: "device \<Rightarrow> int \<Rightarrow> byte list \<Rightarrow> device" where
  "write_device d off bs = (if off < 0 then d else write_at d (nat off) bs)"

fun device_step :: "console_env \<Rightarrow> disks \<Rightarrow> console_action \<Rightarrow> disks" where
  "device_step e D (Ran cmds) = ie_shell e cmds D"
| "device_step e D (Dd src args) = ie_copy e src args D"
| "device_step e D (Wrote t off bs) = D(t := write_device (D t) off bs)"
| "device_step e D _ = D"

definition disks_after :: "console_env \<Rightarrow> console_history \<Rightarrow> disks" where
  "disks_after e h = foldl (device_step e) (ie_start e) h"

definition next_reply :: "reply console" where
  "next_reply = own (\<lambda>rs. case rs of [] \<Rightarrow> (Broken ''EOF'', []) | r # rs' \<Rightarrow> (r, rs'))"

definition ask_choice :: "string \<Rightarrow> string list \<Rightarrow> reply console" where
  "ask_choice label items = do { r \<leftarrow> next_reply; act (Asked label items r); State_Monad.return r }"

fun next_valid :: "(string \<Rightarrow> bool) \<Rightarrow> reply list \<Rightarrow> reply \<times> reply list" where
  "next_valid valid [] = (Broken ''EOF'', [])"
| "next_valid valid (Broken err # rs) = (Broken err, rs)"
| "next_valid valid (Picked i s # rs) = (if valid s then (Picked i s, rs) else next_valid valid rs)"

definition ask_text :: "string \<Rightarrow> (string \<Rightarrow> bool) \<Rightarrow> string result console" where
  "ask_text label valid = do {
     r \<leftarrow> own (next_valid valid);
     act (Entered label r);
     State_Monad.return (case r of Picked _ s \<Rightarrow> Inr s | Broken err \<Rightarrow> Inl err)
   }"

text \<open>A session ends by returning or by leaving the process with a status.\<close>

datatype outcome = Ended "goerr option" | Exits int

section \<open>The address of the network\<close>

definition ip_valid :: "string \<Rightarrow> bool" where
  "ip_valid s \<longleftrightarrow> parse_ip s \<noteq> [] \<and> to4 (parse_ip s) \<noteq> []"

definition mask_valid :: "string \<Rightarrow> bool" where
  "mask_valid s \<longleftrightarrow> ip_valid s \<and> is_valid_ipv4_mask (parse_ip s) = Some True"

definition prompt_ip :: "string result console" where
  "prompt_ip = ask_text ''IP'' ip_valid"

definition prompt_mask :: "string result console" where
  "prompt_mask = ask_text ''MASK(eg. 255.255.255.0)'' mask_valid"

definition prompt_ip_modify :: "console_env \<Rightarrow> unit result console" where
  "prompt_ip_modify e =
     ok_then prompt_ip (\<lambda>addr.
     ok_then prompt_mask (\<lambda>mask. do {
       act (SetLan addr mask);
       failed \<leftarrow> ask (ie_lan e);
       act (Said ((if failed = None then ''OK'' else ''FAILED'') @ '' ip= '' @ addr @ '' mask= '' @ mask));
       State_Monad.return (Inr ())
     }))"

section \<open>The interfaces\<close>

definition interface_lines :: "shown_interface \<Rightarrow> (nat \<times> string) list" where
  "interface_lines i =
     [(0, to_upper (si_name i)), (1, ''IPv4: '' @ si_ipv4 i), (1, ''IPv6: '' @ si_ipv6 i),
      (1, ''DeviceName: '' @ si_port_name i), (1, ''Devices:'')] @
     concat (map (\<lambda>p. [(2, ''Name: '' @ npt_name p), (2, ''Link: '' @ npt_state p), (2, ''Speed: '' @ npt_speed p)]) (si_ports i))"

definition ip_header :: "string \<Rightarrow> string \<Rightarrow> string \<Rightarrow> string list" where
  "ip_header title content prefix =
     [title @ '':'', replicate (length title + 1) CHR ''-''] @ map (\<lambda>l. prefix @ l) (split_on newline content) @ ['''']"

definition prompt_ip_show :: "console_env \<Rightarrow> goerr option console" where
  "prompt_ip_show e = do {
     r \<leftarrow> ask (ie_interfaces e);
     (case r of
        Inl err \<Rightarrow> State_Monad.return (Some err)
      | Inr is \<Rightarrow>
          if is = [] then do { act (Said ''No interfaces found!''); State_Monad.return (Some ''No interfaces found'') }
          else do {
            for_each (\<lambda>l. act (Said l)) (ip_header ''Interfaces'' (ie_render e (concat (map interface_lines is))) []);
            State_Monad.return None
          })
   }"

section \<open>Access from outside and reset\<close>

definition is_wan_present :: "uci \<Rightarrow> bool" where
  "is_wan_present u \<longleftrightarrow> (case uci_last u ''network'' ''wan'' ''proto'' of None \<Rightarrow> False | Some v \<Rightarrow> v \<noteq> [])"

definition tab :: char where
  "tab = char_of (9 :: nat)"

definition wan_zone_command :: string where
  "wan_zone_command =
     (let esc = (\<lambda>c. [CHR 0x5C, c]) in
      ''WAN_ZONE='' @ [CHR 0x60] @ ''uci show firewall | grep -E '' @
      sq (''^firewall'' @ esc CHR ''.'' @ ''@zone'' @ esc CHR ''['' @ ''[0-9]+'' @ esc CHR '']'' @ esc CHR ''.'' @ ''name='') @
      '' | grep wan | head -n1 | head -c -12'' @ [CHR 0x60])"

definition wan_access_commands :: "string list" where
  "wan_access_commands =
     [''/etc/init.d/wan_drop stop >/dev/null 2>&1'', ''/etc/init.d/wan_drop disable >/dev/null 2>&1'', wan_zone_command,
      ''if [ '' @ dq ([CHR 0x60] @ ''uci get ${WAN_ZONE}.input'' @ [CHR 0x60]) @ '' != '' @ dq ''ACCEPT'' @ '' ]; then'',
      [tab] @ ''uci -q batch <<-EOF >/dev/null'', [tab, tab] @ ''set ${WAN_ZONE}.input=ACCEPT'',
      [tab, tab] @ ''commit firewall'', ''EOF'', [tab] @ ''/etc/init.d/firewall reload >/dev/null'', ''fi'']"

definition yes_no :: "string list" where
  "yes_no = [''OK, Continue'', ''NO'']"

definition prompt_wan_access :: "unit console" where
  "prompt_wan_access = do {
     r \<leftarrow> ask_choice ''Allow access this device from WAN port, may cause security risks'' yes_no;
     (case r of
        Broken err \<Rightarrow> skip
      | Picked _ s \<Rightarrow> if s = ''NO'' then skip else do { act (Ran wan_access_commands); act (Said ''OK'') })
   }"

definition reset_commands :: "string list" where
  "reset_commands = [''firstboot -y -r > /dev/null 2>&1'']"

definition prompt_reset :: "unit console" where
  "prompt_reset = do {
     r \<leftarrow> ask_choice ''Reset to factory? will loss all configs'' [''YES'', ''NO''];
     (case r of
        Broken err \<Rightarrow> skip
      | Picked _ s \<Rightarrow>
          if s = ''YES'' then do { act (Said ''Reseting and reboot...''); act (Ran reset_commands) } else skip)
   }"

section \<open>The installer\<close>

definition device_label :: "x86_dev \<Rightarrow> string" where
  "device_label d = xd_target d @ '' [ '' @ xd_size_str d @ '' ] '' @ xd_display_name d"

definition install_items :: "x86_dev list \<Rightarrow> string list" where
  "install_items devs = map device_label devs @ [''QUIT'']"

definition select_label :: string where
  "select_label = ''Select Disk to install (Only show disk > 2.5 GiB)''"

definition install_label :: "x86_root \<Rightarrow> x86_dev \<Rightarrow> string" where
  "install_label root d = ''Install '' @ xr_name root @ '' to '' @ xd_target d @ '', Will Loss All Data''"

definition warning_label :: "x86_dev \<Rightarrow> string" where
  "warning_label d = ''Warning Again!!! Loss All '' @ xd_target d @ '' Data''"

definition warning_items :: "string list" where
  "warning_items = [''Install And Reboot'', ''NO'', ''QUIT'']"

text \<open>\<open>Dd\<close>: the reader is written to the standard input of the tool, which counts blocks.\<close>

definition dd_args :: "string \<Rightarrow> int \<Rightarrow> int \<Rightarrow> string list" where
  "dd_args target per len =
     [''of='' @ target, ''bs='' @ fmt_int per, ''count='' @ fmt_int (go_quot (int64 (len + per - 1)) per)]"

text \<open>The reader that prints a dot after each twentieth part: the number of bytes so far, the step, and the next mark.\<close>

record verbose_reader =
  vr_count :: int
  vr_step :: int
  vr_next :: int

definition verbose_read :: "verbose_reader \<Rightarrow> int \<Rightarrow> verbose_reader \<times> bool" where
  "verbose_read r n =
     (let r1 = r\<lparr>vr_count := int64 (vr_count r + n)\<rparr>
      in if vr_count r1 > vr_next r1 then (r1\<lparr>vr_next := int64 (vr_next r1 + vr_step r1)\<rparr>, True) else (r1, False))"

definition source_device :: "x86_root \<Rightarrow> string" where
  "source_device root = ''/dev/'' @ xr_name root"

definition reset_mark :: "byte list" where
  "reset_mark = map of_char ''RESET000''"

definition umount_commands :: "x86_dev \<Rightarrow> string list" where
  "umount_commands d = map (\<lambda>v. ''umount '' @ sq v) (xd_mountpoints d)"

text \<open>The shell copies a range of bytes from the source to the target.\<close>

definition dd_range :: "string \<Rightarrow> string" where
  "dd_range r = ''dd if='' @ dq ''/dev/$from'' @ '' of='' @ dq ''/dev/$to'' @ '' '' @ r @ '' conv=notrunc,fsync 2>/dev/null''"

definition copy_gpt_commands :: "x86_root \<Rightarrow> x86_dev \<Rightarrow> string list" where
  "copy_gpt_commands root d =
     [''from='' @ xr_name root, ''to='' @ xd_name d, ''boot_parts=3'', ''parted -s '' @ dq ''/dev/$to'' @ '' mktable gpt'',
      dd_range ''bs=1 skip=440 seek=440 count=4'', dd_range ''bs=8 skip=71 seek=71 count=2'',
      dd_range ''bs=128 skip=8 seek=8 count=$boot_parts'', dd_range ''bs=128 skip=135 seek=135 count=1'']"

definition fix_gpt_commands :: "x86_dev \<Rightarrow> string list" where
  "fix_gpt_commands d =
     [''to='' @ xd_name d, ''boot_parts=3'', ''echo Fix | parted '' @ dq ''/dev/$to'' @ '' print >/dev/null'',
      ''for offset in '' @ [CHR 0x60] @ ''seq 2 $boot_parts'' @ [CHR 0x60] @ '' ; do'',
      ''    parted -s '' @ dq ''/dev/$to'' @ '' set $offset msftdata on'', ''done'', ''partprobe '' @ dq ''/dev/$to'']"

text \<open>The two sums are computed from what the target holds at that moment.\<close>

definition write_sums :: "console_env \<Rightarrow> string \<Rightarrow> unit console" where
  "write_sums e target = do {
     d \<leftarrow> ask (\<lambda>h. disks_after e h target);
     act (Wrote target 600 (le32 (entries_sum d)));
     d1 \<leftarrow> ask (\<lambda>h. disks_after e h target);
     act (Wrote target 528 (le32 (header_sum d1)))
   }"

definition fix_gpt :: "console_env \<Rightarrow> x86_root \<Rightarrow> x86_dev \<Rightarrow> goerr option console" where
  "fix_gpt e root d = do {
     act (Ran (copy_gpt_commands root d));
     done_then_done (ask (\<lambda>h. ie_open e h (xd_target d))) (do {
       write_sums e (xd_target d);
       act (Ran (fix_gpt_commands d));
       State_Monad.return None
     })
   }"

definition finish_install :: "unit console" where
  "finish_install = do {
     act (Ran [''sync'', ''echo 3 >/proc/sys/vm/drop_caches'']);
     act (Said ''Please Remove the USB manually, wait 3s to reboot...'');
     act (Slept 3);
     act (Said ''Rebooting'');
     act (Ran [''reboot now > /dev/null 2>&1''])
   }"

text \<open>After the user has agreed twice; without an error the process exits.\<close>

definition install_disk :: "console_env \<Rightarrow> x86_root \<Rightarrow> x86_dev \<Rightarrow> goerr option console" where
  "install_disk e root d = do {
     act_if (xd_mountpoints d \<noteq> []) (act (Ran (umount_commands d)));
     done_then_done (ask (\<lambda>h. ie_open e h (source_device root)))
     (done_then_done (do { act (Dd (source_device root) (dd_args (xd_target d) 4096 (xr_end root))); ask (ie_dd e) })
     (done_then_done (ask (\<lambda>h. ie_open e h (xd_target d))) (do {
       act (Wrote (xd_target d) (xr_end root) reset_mark);
       done_then_done (if xr_ptype root = ''GPT'' then fix_gpt e root d else State_Monad.return None) (do {
         finish_install;
         State_Monad.return None
       })
     })))
   }"

text \<open>
  The loops have as fuel the number of rounds; \<open>None\<close> is a session that has not ended after so many.
\<close>

primrec install_loop :: "nat \<Rightarrow> console_env \<Rightarrow> x86_root \<Rightarrow> x86_dev list \<Rightarrow> outcome option console" where
  "install_loop 0 e root devs = State_Monad.return None"
| "install_loop (Suc n) e root devs = do {
     r1 \<leftarrow> ask_choice select_label (install_items devs);
     (case r1 of
        Broken err \<Rightarrow> State_Monad.return (Some (Ended (Some err)))
      | Picked i _ \<Rightarrow>
          if i \<ge> length devs then State_Monad.return (Some (Ended None))
          else do {
            r2 \<leftarrow> ask_choice (install_label root (devs ! i)) yes_no;
            (case r2 of
               Broken err \<Rightarrow> State_Monad.return (Some (Ended (Some err)))
             | Picked _ s \<Rightarrow>
                 if s = ''NO'' then install_loop n e root devs
                 else do {
                   r3 \<leftarrow> ask_choice (warning_label (devs ! i)) warning_items;
                   (case r3 of
                      Broken err \<Rightarrow> State_Monad.return (Some (Ended (Some err)))
                    | Picked _ t \<Rightarrow>
                        if t = ''NO'' then install_loop n e root devs
                        else if t = ''QUIT'' then State_Monad.return (Some (Ended None))
                        else do {
                          failed \<leftarrow> install_disk e root (devs ! i);
                          State_Monad.return (Some (case failed of None \<Rightarrow> Exits 0 | Some err \<Rightarrow> Ended (Some err)))
                        })
                 })
          })
   }"

text \<open>The disks come from the storage module, whose commands have a history of their own.\<close>

definition read_install :: "console_env \<Rightarrow> console_history \<Rightarrow> (x86_root \<times> x86_dev list) result" where
  "read_install e h = result_of (x86_install (ie_disks e h) (ie_script e)) []"

definition prompt_install_x86 :: "nat \<Rightarrow> console_env \<Rightarrow> outcome option console" where
  "prompt_install_x86 n e = do {
     x \<leftarrow> ask (read_install e);
     (case x of
        Inl err \<Rightarrow> State_Monad.return (Some (Ended (Some err)))
      | Inr (root, devs) \<Rightarrow>
          if devs = [] then do {
            act (Said ''Warning: No disk to install, please check! (Only support disk > 2.5 GiB)'');
            State_Monad.return (Some (Ended (Some ''No disk to install'')))
          }
          else install_loop n e root devs)
   }"

section \<open>The menu\<close>

datatype main_selection = SelectIPShow | SelectIPModify | SelectWanAccess | SelectInstallX86 | SelectReset | SelectQuit

text \<open>The separator after the key is the ideographic comma, three bytes.\<close>

definition menu_item :: "string \<Rightarrow> string \<Rightarrow> string" where
  "menu_item key label = key @ [CHR 0xE3, CHR 0x80, CHR 0x81] @ label"

definition main_menu :: "(string \<times> main_selection) list" where
  "main_menu =
     [(menu_item ''0'' ''Show Interfaces'', SelectIPShow), (menu_item ''1'' ''Change LAN IP'', SelectIPModify),
      (menu_item ''2'' ''Allow WAN Access'', SelectWanAccess), (menu_item ''3'' ''Install X86'', SelectInstallX86),
      (menu_item ''4'' ''Reset'', SelectReset), (menu_item ''q'' ''QUIT'', SelectQuit)]"

text \<open>The entries for this machine: installing is for \<open>amd64\<close>, the access only with an outer network.\<close>

definition main_items :: "bool \<Rightarrow> bool \<Rightarrow> string list" where
  "main_items amd64 wan =
     sort_strings (map fst (filter (\<lambda>(k, v). (v = SelectInstallX86 \<longrightarrow> amd64) \<and> (v = SelectWanAccess \<longrightarrow> wan)) main_menu))"

text \<open>An interrupted menu leaves the process with status \<open>-1\<close>.\<close>

definition get_main_selection :: "string list \<Rightarrow> (outcome + main_selection) console" where
  "get_main_selection items = do {
     r \<leftarrow> ask_choice ''Console'' items;
     State_Monad.return (case r of
         Broken _ \<Rightarrow> Inl (Exits (- 1))
       | Picked _ s \<Rightarrow>
           (case map_of main_menu s of None \<Rightarrow> Inl (Ended (Some ''item not found'')) | Some v \<Rightarrow> Inr v))
   }"

text \<open>One entry of the menu, and then the menu again.\<close>

definition main_case :: "nat \<Rightarrow> console_env \<Rightarrow> outcome option console \<Rightarrow> main_selection \<Rightarrow> outcome option console" where
  "main_case n e again v =
     (case v of
        SelectIPModify \<Rightarrow> do { prompt_ip_modify e; again }
      | SelectIPShow \<Rightarrow> do {
          failed \<leftarrow> prompt_ip_show e;
          (case failed of
             Some err \<Rightarrow> do { act (Said (''error: '' @ err)); State_Monad.return (Some (Ended None)) }
           | None \<Rightarrow> again)
        }
      | SelectWanAccess \<Rightarrow> do { prompt_wan_access; again }
      | SelectReset \<Rightarrow> do { prompt_reset; State_Monad.return (Some (Ended None)) }
      | SelectInstallX86 \<Rightarrow> do {
          out \<leftarrow> prompt_install_x86 n e;
          (case out of
             Some (Ended (Some err)) \<Rightarrow> do { act (Said (''error: '' @ err)); State_Monad.return (Some (Ended None)) }
           | Some (Ended None) \<Rightarrow> again
           | _ \<Rightarrow> State_Monad.return out)
        }
      | SelectQuit \<Rightarrow> State_Monad.return (Some (Ended None)))"

primrec main_loop :: "nat \<Rightarrow> console_env \<Rightarrow> string list \<Rightarrow> outcome option console" where
  "main_loop 0 e items = State_Monad.return None"
| "main_loop (Suc n) e items = do {
     sel \<leftarrow> get_main_selection items;
     (case sel of
        Inl out \<Rightarrow> State_Monad.return (Some out)
      | Inr v \<Rightarrow> main_case n e (main_loop n e items) v)
   }"

definition main_prompt :: "nat \<Rightarrow> console_env \<Rightarrow> bool \<Rightarrow> outcome option console" where
  "main_prompt n e amd64 = do {
     u \<leftarrow> ask (ie_uci e);
     main_loop n e (main_items amd64 (is_wan_present u))
   }"

section \<open>Sessions end\<close>

text \<open>A program takes replies and gives none back; and it ends when it has fuel for a round more than there are replies.\<close>

definition frugal :: "'a console \<Rightarrow> bool" where
  "frugal m \<longleftrightarrow> (\<forall>h rs a h1 rs1. run_state m (h, rs) = (a, (h1, rs1)) \<longrightarrow> length rs1 \<le> length rs)"

definition ends_within :: "nat \<Rightarrow> 'a option console \<Rightarrow> bool" where
  "ends_within k m \<longleftrightarrow> (\<forall>h rs. length rs < k \<longrightarrow> fst (run_state m (h, rs)) \<noteq> None)"

named_theorems frugal_intro \<open>programs that take replies\<close>

lemma frugalD: "frugal m \<Longrightarrow> run_state m (h, rs) = (a, (h1, rs1)) \<Longrightarrow> length rs1 \<le> length rs"
  unfolding frugal_def by blast

lemma frugal_bind [frugal_intro]:
  assumes "frugal m" "\<And>a. frugal (f a)"
  shows "frugal (m \<bind> f)"
  unfolding frugal_def
proof (intro allI impI)
  fix h rs b h2 rs2 assume run: "run_state (m \<bind> f) (h, rs) = (b, (h2, rs2))"
  obtain a h1 rs1 where m: "run_state m (h, rs) = (a, (h1, rs1))" by (metis prod.collapse)
  with run have "run_state (f a) (h1, rs1) = (b, (h2, rs2))" by simp
  from frugalD [OF assms(2) this] frugalD [OF assms(1) m] show "length rs2 \<le> length rs" by simp
qed

lemma frugal_prims [frugal_intro]:
  "frugal (State_Monad.return a)" "frugal skip" "frugal (act x)" "frugal (ask g)"
  by (simp_all add: frugal_def)

lemma frugal_own: "(\<And>rs. length (snd (g rs)) \<le> length rs) \<Longrightarrow> frugal (own g)"
  by (simp add: frugal_def)

lemma frugal_cases [frugal_intro]:
  "(b \<Longrightarrow> frugal m) \<Longrightarrow> (\<not> b \<Longrightarrow> frugal n) \<Longrightarrow> frugal (if b then m else n)"
  "(\<And>i s. frugal (p i s)) \<Longrightarrow> (\<And>err. frugal (q err)) \<Longrightarrow> frugal (case r of Picked i s \<Rightarrow> p i s | Broken err \<Rightarrow> q err)"
  "frugal m' \<Longrightarrow> (\<And>x. frugal (f x)) \<Longrightarrow> frugal (case opt of None \<Rightarrow> m' | Some x \<Rightarrow> f x)"
  "(\<And>x. frugal (u x)) \<Longrightarrow> (\<And>y. frugal (v y)) \<Longrightarrow> frugal (case z of Inl x \<Rightarrow> u x | Inr y \<Rightarrow> v y)"
  "(\<And>x y. frugal (w x y)) \<Longrightarrow> frugal (case pr of (x, y) \<Rightarrow> w x y)"
  by (auto split: reply.split option.split sum.split prod.split)

lemma frugal_then [frugal_intro]:
  "frugal m \<Longrightarrow> (\<And>x. frugal (f x)) \<Longrightarrow> frugal (ok_then m f)"
  "frugal k \<Longrightarrow> frugal n \<Longrightarrow> frugal (done_then_done k n)"
  "frugal u \<Longrightarrow> frugal (act_if b u)"
  unfolding ok_then_def done_then_done_def act_if_def by (intro frugal_intro; assumption)+

lemma frugal_for_each [frugal_intro]: "(\<And>x. frugal (f x)) \<Longrightarrow> frugal (for_each f xs)"
  by (induction xs) (auto intro!: frugal_intro)

lemma length_next_valid: "length (snd (next_valid valid rs)) \<le> length rs"
  by (induction valid rs rule: next_valid.induct) auto

lemma frugal_questions [frugal_intro]: "frugal (ask_choice label items)" "frugal (ask_text label valid)"
  unfolding ask_choice_def ask_text_def next_reply_def
  by (intro frugal_intro frugal_own; simp add: length_next_valid split: list.split)+

lemma frugal_steps [frugal_intro]:
  "frugal (prompt_ip_modify e)" "frugal (prompt_ip_show e)" "frugal prompt_wan_access" "frugal prompt_reset"
  "frugal (get_main_selection items)" "frugal (install_disk e root d)"
proof -
  show "frugal (install_disk e root d)"
    unfolding install_disk_def fix_gpt_def write_sums_def finish_install_def by (intro frugal_intro)
qed (unfold prompt_ip_modify_def prompt_ip_def prompt_mask_def prompt_ip_show_def prompt_wan_access_def prompt_reset_def
    get_main_selection_def; intro frugal_intro)+

lemma frugal_install [frugal_intro]: "frugal (install_loop n e root devs)" "frugal (prompt_install_x86 n e)"
proof -
  show loop: "frugal (install_loop n e root devs)" for root devs
    by (induction n) (auto intro!: frugal_intro)
  show "frugal (prompt_install_x86 n e)"
    unfolding prompt_install_x86_def by (intro frugal_intro loop)
qed

named_theorems ends_intro \<open>sessions that end\<close>

lemma ends_return [ends_intro]: "ends_within k (State_Monad.return (Some x))"
  by (simp add: ends_within_def)

lemma ends_bind:
  assumes "frugal m" "\<And>a. ends_within k (f a)"
  shows "ends_within k (m \<bind> f)"
  unfolding ends_within_def
proof (intro allI impI)
  fix h rs assume len: "length (rs :: reply list) < k"
  obtain a h1 rs1 where m: "run_state m (h, rs) = (a, (h1, rs1))" by (metis prod.collapse)
  from frugalD [OF assms(1) m] len have "length rs1 < k" by simp
  with assms(2) [of a] m show "fst (run_state (m \<bind> f) (h, rs)) \<noteq> None" by (simp add: ends_within_def)
qed

lemma ends_cases [ends_intro]:
  "(b \<Longrightarrow> ends_within k m) \<Longrightarrow> (\<not> b \<Longrightarrow> ends_within k n) \<Longrightarrow> ends_within k (if b then m else n)"
  "(\<And>i s. ends_within k (p i s)) \<Longrightarrow> (\<And>err. ends_within k (q err)) \<Longrightarrow>
   ends_within k (case r of Picked i s \<Rightarrow> p i s | Broken err \<Rightarrow> q err)"
  "ends_within k m' \<Longrightarrow> (\<And>x. ends_within k (f x)) \<Longrightarrow> ends_within k (case opt of None \<Rightarrow> m' | Some x \<Rightarrow> f x)"
  "(\<And>x. ends_within k (u x)) \<Longrightarrow> (\<And>y. ends_within k (v y)) \<Longrightarrow> ends_within k (case z of Inl x \<Rightarrow> u x | Inr y \<Rightarrow> v y)"
  "(\<And>x y. ends_within k (w x y)) \<Longrightarrow> ends_within k (case pr of (x, y) \<Rightarrow> w x y)"
  by (auto split: reply.split option.split sum.split prod.split)

text \<open>The inner session has ended before the outer goes on.\<close>

lemma ends_inner:
  assumes "frugal m" "ends_within k m" "\<And>x. ends_within k (f (Some x))"
  shows "ends_within k (m \<bind> f)"
  unfolding ends_within_def
proof (intro allI impI)
  fix h rs assume len: "length (rs :: reply list) < k"
  obtain a h1 rs1 where m: "run_state m (h, rs) = (a, (h1, rs1))" by (metis prod.collapse)
  from frugalD [OF assms(1) m] len have "length rs1 < k" by simp
  moreover from assms(2) len m have "a \<noteq> None" unfolding ends_within_def by (metis fst_conv)
  then obtain x where "a = Some x" by blast
  ultimately show "fst (run_state (m \<bind> f) (h, rs)) \<noteq> None"
    using assms(3) m unfolding ends_within_def by simp
qed

text \<open>A question that is answered takes a reply.\<close>

lemma ends_choice:
  assumes "\<And>err. ends_within (Suc k) (f (Broken err))" "\<And>i s. ends_within k (f (Picked i s))"
  shows "ends_within (Suc k) (ask_choice label items \<bind> f)"
  unfolding ends_within_def
proof (intro allI impI)
  fix h rs assume len: "length (rs :: reply list) < Suc k"
  consider "rs = []" | err rs' where "rs = Broken err # rs'" | i s rs' where "rs = Picked i s # rs'"
    by (metis neq_Nil_conv reply.exhaust)
  then show "fst (run_state (ask_choice label items \<bind> f) (h, rs)) \<noteq> None"
    using assms len by cases (simp_all add: ends_within_def ask_choice_def next_reply_def)
qed

lemma install_loop_ends: "ends_within n (install_loop n e root devs)"
proof (induction n)
  case 0
  then show ?case by (simp add: ends_within_def)
next
  case (Suc n)
  show ?case
    unfolding install_loop.simps
    by (rule ends_choice; simp only: reply.case) (intro ends_intro ends_bind frugal_intro Suc)+
qed

lemma prompt_install_ends: "ends_within n (prompt_install_x86 n e)"
  unfolding prompt_install_x86_def by (intro ends_intro ends_bind frugal_intro install_loop_ends)

lemma ends_mono: "ends_within k m \<Longrightarrow> j \<le> k \<Longrightarrow> ends_within j m"
  by (auto simp: ends_within_def)

lemma ends_selection:
  assumes "\<And>out. ends_within (Suc k) (f (Inl out))" "\<And>v. ends_within k (f (Inr v))"
  shows "ends_within (Suc k) (get_main_selection items \<bind> f)"
  unfolding get_main_selection_def bind_assoc
  by (rule ends_choice) (auto simp: assms ends_mono [OF assms(1)] split: option.split)

lemma ends_outcome [ends_intro]:
  "(\<And>x. ends_within k (f x)) \<Longrightarrow> (\<And>c. ends_within k (g c)) \<Longrightarrow>
   ends_within k (case out of Ended x \<Rightarrow> f x | Exits c \<Rightarrow> g c)"
  by (cases out) simp_all

lemma main_case_ends: "ends_within n again \<Longrightarrow> ends_within n (main_case n e again v)"
proof (cases v)
  case SelectInstallX86
  assume again: "ends_within n again"
  show ?thesis
    unfolding SelectInstallX86 main_case_def main_selection.case
    by (rule ends_inner [OF frugal_install(2) prompt_install_ends]) (simp, intro ends_intro ends_bind frugal_intro again)
qed (auto simp: main_case_def intro!: ends_intro ends_bind frugal_intro)

lemma main_loop_ends: "ends_within n (main_loop n e items)"
proof (induction n)
  case 0
  then show ?case by (simp add: ends_within_def)
next
  case (Suc n)
  show ?case
    unfolding main_loop.simps
    by (rule ends_selection) (simp_all add: ends_intro main_case_ends Suc)
qed

text \<open>
  C14. Whatever the user answers and whatever the outside does, a session of the console ends: with fuel for one round more than
  there are replies the program has a result; it returns, or it leaves the process.
\<close>

theorem console_session_ends:
  assumes "length rs < n"
  shows "\<exists>out. fst (run_state (main_prompt n e amd64) ([], rs)) = Some out"
proof -
  have "ends_within n (main_prompt n e amd64)"
    unfolding main_prompt_def by (intro ends_bind frugal_intro main_loop_ends)
  with assms show ?thesis by (simp add: ends_within_def)
qed

section \<open>The installer asks before it writes\<close>

fun question :: "console_action \<Rightarrow> bool" where
  "question (Asked label items r) \<longleftrightarrow> True"
| "question (Entered label r) \<longleftrightarrow> True"
| "question _ \<longleftrightarrow> False"

text \<open>The device that an action overwrites: the target of \<open>dd\<close>, of a write, and of a batch that names one.\<close>

fun overwritten :: "console_action \<Rightarrow> string option" where
  "overwritten (Dd src args) = (case args of [] \<Rightarrow> None | a # _ \<Rightarrow> Some (drop 3 a))"
| "overwritten (Wrote t off bs) = Some t"
| "overwritten (Ran cmds) = map_option (\<lambda>c. ''/dev/'' @ drop 3 c) (find (\<lambda>c. has_prefix c ''to='') cmds)"
| "overwritten _ = None"

text \<open>What \<open>promptui\<close> documents: the item it returns is one of those offered.\<close>

fun offered :: "console_action \<Rightarrow> bool" where
  "offered (Asked label items (Picked i s)) \<longleftrightarrow> s \<in> set items"
| "offered _ \<longleftrightarrow> True"

text \<open>The three questions about a device and the answers that agree, and a history that ends with them and no question after.\<close>

definition agreement :: "x86_root \<Rightarrow> x86_dev list \<Rightarrow> nat \<Rightarrow> string \<Rightarrow> nat \<Rightarrow> nat \<Rightarrow> console_history" where
  "agreement root devs i r j k =
     [Asked select_label (install_items devs) (Picked i r),
      Asked (install_label root (devs ! i)) yes_no (Picked j ''OK, Continue''),
      Asked (warning_label (devs ! i)) warning_items (Picked k ''Install And Reboot'')]"

definition agreed :: "console_history \<Rightarrow> string \<Rightarrow> bool" where
  "agreed h t \<longleftrightarrow> (\<exists>before root devs i r j k later.
     h = before @ agreement root devs i r j k @ later \<and> (\<forall>a\<in>set later. \<not> question a) \<and>
     i < length devs \<and> t = xd_target (devs ! i) \<and> t \<noteq> source_device root)"

definition permitted :: "console_history \<Rightarrow> bool" where
  "permitted as \<longleftrightarrow> (\<forall>pre a post t. as = pre @ a # post \<longrightarrow> overwritten a = Some t \<longrightarrow> (\<forall>b\<in>set pre. offered b) \<longrightarrow> agreed pre t)"

lemma agreed_append: "agreed h t \<Longrightarrow> agreed (g @ h) t"
  unfolding agreed_def by (metis append.assoc)

lemma permitted_harmless: "(\<And>a. a \<in> set as \<Longrightarrow> overwritten a = None) \<Longrightarrow> permitted as"
  by (force simp: permitted_def)

lemma permitted_append:
  assumes "permitted as" "permitted bs"
  shows "permitted (as @ bs)"
  unfolding permitted_def
proof (intro allI impI)
  fix pre a post t
  assume eq: "as @ bs = pre @ a # post" and t: "overwritten a = Some t" and ok: "\<forall>b\<in>set pre. offered b"
  then consider (left) us where "as = pre @ a # us" | (right) us where "pre = as @ us" "bs = us @ a # post"
    by (auto simp: append_eq_append_conv2 append_eq_Cons_conv)
  then show "agreed pre t"
  proof cases
    case left
    with assms(1) t ok show ?thesis unfolding permitted_def by blast
  next
    case right
    with assms(2) t ok show ?thesis unfolding permitted_def by (metis Un_iff agreed_append set_append)
  qed
qed

abbreviation safe :: "'a console \<Rightarrow> bool" where
  "safe m \<equiv> does m (\<lambda>_ as. permitted as)"

named_theorems safe_intro \<open>programs that write only what was agreed\<close>

lemma safe_bind [safe_intro]: "safe m \<Longrightarrow> (\<And>a. safe (f a)) \<Longrightarrow> safe (m \<bind> f)"
  by (rule does_bind, assumption, rule does_mono, assumption) (rule permitted_append)

lemma permitted_Nil: "permitted []"
  by (rule permitted_harmless) simp

lemma safe_prims [safe_intro]:
  "safe (State_Monad.return x)" "safe skip" "safe (ask f)" "safe (own g)" "overwritten a = None \<Longrightarrow> safe (act a)"
  by (auto intro!: does_intro permitted_Nil permitted_harmless)

lemma safe_cases [safe_intro]:
  "(b \<Longrightarrow> safe m) \<Longrightarrow> (\<not> b \<Longrightarrow> safe n) \<Longrightarrow> safe (if b then m else n)"
  "(\<And>i s. r = Picked i s \<Longrightarrow> safe (p i s)) \<Longrightarrow> (\<And>err. safe (q err)) \<Longrightarrow> safe (case r of Picked i s \<Rightarrow> p i s | Broken err \<Rightarrow> q err)"
  "safe m' \<Longrightarrow> (\<And>x. safe (f x)) \<Longrightarrow> safe (case opt of None \<Rightarrow> m' | Some x \<Rightarrow> f x)"
  "(\<And>x. safe (u x)) \<Longrightarrow> (\<And>y. safe (v y)) \<Longrightarrow> safe (case z of Inl x \<Rightarrow> u x | Inr y \<Rightarrow> v y)"
  "(\<And>x y. safe (w x y)) \<Longrightarrow> safe (case pr of (x, y) \<Rightarrow> w x y)"
  "(\<And>x. safe (f' x)) \<Longrightarrow> (\<And>c. safe (g' c)) \<Longrightarrow> safe (case out of Ended x \<Rightarrow> f' x | Exits c \<Rightarrow> g' c)"
  by (auto split: reply.split option.split sum.split prod.split outcome.split)

lemma safe_then [safe_intro]:
  "safe m \<Longrightarrow> (\<And>x. safe (f x)) \<Longrightarrow> safe (ok_then m f)"
  unfolding ok_then_def by (intro safe_intro)

lemma safe_for_each [safe_intro]: "(\<And>x. safe (f x)) \<Longrightarrow> safe (for_each f xs)"
  by (induction xs) (auto intro!: safe_intro)

lemma safe_questions [safe_intro]: "safe (ask_choice label items)" "safe (ask_text label valid)"
  unfolding ask_choice_def ask_text_def next_reply_def by (intro safe_intro; simp)+

lemma safe_steps [safe_intro]:
  "safe (prompt_ip_modify e)" "safe (prompt_ip_show e)" "safe prompt_wan_access" "safe prompt_reset"
  "safe (get_main_selection items)"
  unfolding prompt_ip_modify_def prompt_ip_def prompt_mask_def prompt_ip_show_def prompt_wan_access_def prompt_reset_def
    get_main_selection_def
  by (intro safe_intro; simp add: wan_access_commands_def reset_commands_def has_prefix_def wan_zone_command_def tab_def)+

text \<open>An installation asks nothing and overwrites the target only.\<close>

definition on_target :: "x86_dev \<Rightarrow> console_action \<Rightarrow> bool" where
  "on_target d a \<longleftrightarrow> \<not> question a \<and> (overwritten a = None \<or> overwritten a = Some (xd_target d))"

lemma target_umount: "on_target d (Ran (umount_commands d))"
  by (auto simp: on_target_def umount_commands_def has_prefix_def find_None_iff)

lemma target_gpt:
  assumes "xd_target d = ''/dev/'' @ xd_name d"
  shows "on_target d (Ran (fix_gpt_commands d))" "on_target d (Ran (copy_gpt_commands root d))"
  using assms by (simp_all add: on_target_def fix_gpt_commands_def copy_gpt_commands_def has_prefix_def)

lemma only_install:
  assumes "xd_target d = ''/dev/'' @ xd_name d"
  shows "only (on_target d) (install_disk e root d)"
  unfolding install_disk_def fix_gpt_def write_sums_def finish_install_def
  by (intro only_intro target_gpt [OF assms] target_umount) (simp_all add: on_target_def dd_args_def has_prefix_def)

lemma ask_then:
  assumes "\<And>r. does (f r) (\<lambda>b bs. R b (Asked label items r # bs))"
  shows "does (ask_choice label items \<bind> f) R"
  unfolding ask_choice_def next_reply_def bind_assoc
proof (rule does_bind [OF does_own [where Q = "\<lambda>_ as. as = []"]], simp)
  fix r and as :: console_history assume "as = []"
  then show "does (act (Asked label items r) \<bind> (\<lambda>x. State_Monad.return r \<bind> f)) (\<lambda>b bs. R b (as @ bs))"
    by (intro does_bind [OF does_act [where Q = "\<lambda>_ as. as = [Asked label items r]"]]) (simp_all add: assms)
qed

lemma after_ask:
  "(\<And>r. does (f r) (\<lambda>_ bs. permitted ((as @ [Asked label items r]) @ bs))) \<Longrightarrow>
   does (ask_choice label items \<bind> f) (\<lambda>_ bs. permitted (as @ bs))"
  by (rule ask_then) simp

lemma does_reply:
  "(\<And>i s. r = Picked i s \<Longrightarrow> does (p i s) Q) \<Longrightarrow> (\<And>err. r = Broken err \<Longrightarrow> does (q err) Q) \<Longrightarrow>
   does (case r of Picked i s \<Rightarrow> p i s | Broken err \<Rightarrow> q err) Q"
  by (cases r) simp_all

text \<open>Questions alone are permitted; and what is done to the target after the three answers.\<close>

lemma permitted_questions: "(\<And>a. a \<in> set as \<Longrightarrow> question a) \<Longrightarrow> permitted as"
  by (rule permitted_harmless) (metis overwritten.simps(4,5) question.elims(2))

lemma permitted_after_agreement:
  assumes "i < length devs" "xd_target (devs ! i) \<noteq> source_device root" "s \<noteq> ''NO''" "t \<noteq> ''NO''" "t \<noteq> ''QUIT''"
    and later: "\<forall>a\<in>set as. on_target (devs ! i) a"
  shows "permitted (Asked select_label (install_items devs) (Picked i r) #
    Asked (install_label root (devs ! i)) yes_no (Picked j s) #
    Asked (warning_label (devs ! i)) warning_items (Picked k t) # as)" (is "permitted (?a # ?b # ?c # as)")
  unfolding permitted_def
proof (intro allI impI)
  fix pre a post u
  assume eq: "?a # ?b # ?c # as = pre @ a # post" and u: "overwritten a = Some u" and ok: "\<forall>x\<in>set pre. offered x"
  from eq u obtain us where pre: "pre = [?a, ?b, ?c] @ us" and as: "as = us @ a # post"
    by (auto simp: Cons_eq_append_conv)
  from ok assms(3-5) have "s = ''OK, Continue''" "t = ''Install And Reboot''"
    by (auto simp: pre yes_no_def warning_items_def)
  then have "pre = [] @ agreement root devs i r j k @ us"
    by (simp add: pre agreement_def)
  moreover from later as u have "\<forall>x\<in>set us. \<not> question x" "u = xd_target (devs ! i)"
    by (auto simp: on_target_def)
  ultimately show "agreed pre u"
    using assms(1,2) unfolding agreed_def by metis
qed

definition proper_devs :: "x86_root \<Rightarrow> x86_dev list \<Rightarrow> bool" where
  "proper_devs root devs \<longleftrightarrow> (\<forall>d\<in>set devs. xd_target d = ''/dev/'' @ xd_name d \<and> xd_name d \<noteq> xr_name root)"

lemma safe_install_loop:
  assumes "proper_devs root devs"
  shows "safe (install_loop n e root devs)"
proof (induction n)
  case 0
  then show ?case by (simp add: safe_intro)
next
  case (Suc n)
  have again: "does (install_loop n e root devs) (\<lambda>_ bs. permitted (as @ bs))" if "\<And>a. a \<in> set as \<Longrightarrow> question a" for as
    by (rule does_mono [OF Suc permitted_append [OF permitted_questions [OF that]]])
  have stop: "does (State_Monad.return x) (\<lambda>_ bs. permitted (as @ bs))" if "\<And>a. a \<in> set as \<Longrightarrow> question a"
    for as and x :: "outcome option"
    by (rule does_return) (simp add: permitted_questions that)
  have install: "does (install_disk e root (devs ! i) \<bind> (\<lambda>x. State_Monad.return (g x))) (\<lambda>_ bs. permitted (as @ bs))"
    if "\<not> length devs \<le> i" "s \<noteq> ''NO''" "t \<noteq> ''NO''" "t \<noteq> ''QUIT''"
      "as = [Asked select_label (install_items devs) (Picked i r), Asked (install_label root (devs ! i)) yes_no (Picked j s),
        Asked (warning_label (devs ! i)) warning_items (Picked k t)]"
    for i r j s k t as and g :: "goerr option \<Rightarrow> outcome option"
  proof -
    from assms that have d: "xd_target (devs ! i) = ''/dev/'' @ xd_name (devs ! i)" "xd_name (devs ! i) \<noteq> xr_name root"
      by (auto simp: proper_devs_def)
    have "does (install_disk e root (devs ! i)) (\<lambda>_ bs. permitted (as @ bs))"
      by (rule only_does [OF only_install [OF d(1)]])
        (use that d in \<open>auto intro!: permitted_after_agreement simp: source_device_def\<close>)
    then show ?thesis
      by (rule does_bind) (rule does_return, simp)
  qed
  have "does (install_loop (Suc n) e root devs) (\<lambda>_ bs. permitted ([] @ bs))"
    unfolding install_loop.simps
    by (intro after_ask does_reply does_if stop again; (rule install)?; hypsubst?; auto)
  then show ?case by simp
qed


text \<open>The devices that the storage module offers have their name in the target, and the running disk is not among them.\<close>

lemma x86_devs_proper:
  "d \<in> set (x86_devs root items) \<Longrightarrow> xd_target d = ''/dev/'' @ xd_name d \<and> xd_name d \<noteq> root"
  by (auto simp: x86_devs_def x86_dev_of_def)

lemma read_install_proper: "read_install e h = Inr (root, devs) \<Longrightarrow> proper_devs root devs"
  unfolding proper_devs_def read_install_def x86_install_def
  by (auto split: prod.splits sum.splits option.splits if_splits dest!: x86_devs_proper)

lemma safe_prompt_install [safe_intro]: "safe (prompt_install_x86 n e)"
proof -
  have "safe (case read_install e h of Inl err \<Rightarrow> State_Monad.return (Some (Ended (Some err)))
      | Inr (root, devs) \<Rightarrow> if devs = [] then do {
            act (Said ''Warning: No disk to install, please check! (Only support disk > 2.5 GiB)'');
            State_Monad.return (Some (Ended (Some ''No disk to install'')))
          }
          else install_loop n e root devs)" for h
    by (cases "read_install e h") (auto intro!: safe_intro safe_install_loop read_install_proper)
  then show ?thesis
    unfolding prompt_install_x86_def by (auto simp: does_def)
qed

lemma safe_main_case: "safe again \<Longrightarrow> safe (main_case n e again v)"
  by (cases v) (auto simp: main_case_def intro!: safe_intro)

lemma safe_main_loop: "safe (main_loop n e items)"
  by (induction n) (auto intro!: safe_intro safe_main_case)

lemma safe_main_prompt: "safe (main_prompt n e amd64)"
  unfolding main_prompt_def by (intro safe_intro safe_main_loop)

text \<open>
  C2. Nothing in a session overwrites a device unless the user has chosen this device in the installer and agreed twice, in the
  three questions that were asked last; and the device is not the disk that is being copied.
\<close>

theorem install_needs_consent:
  assumes "run_state (main_prompt n e amd64) ([], rs) = (out, (h, rs'))"
    and "h = pre @ a # post" "overwritten a = Some t"
    and "\<forall>b\<in>set pre. offered b"
  shows "\<exists>before root devs i r j k later.
    pre = before @
      [Asked select_label (install_items devs) (Picked i r),
       Asked (install_label root (devs ! i)) yes_no (Picked j ''OK, Continue''),
       Asked (warning_label (devs ! i)) warning_items (Picked k ''Install And Reboot'')] @ later \<and>
    (\<forall>b\<in>set later. \<not> question b) \<and> i < length devs \<and> t = xd_target (devs ! i) \<and> t \<noteq> source_device root"
  using does_run [OF safe_main_prompt assms(1)] assms(2-4) unfolding permitted_def agreed_def agreement_def by blast

section \<open>A session\<close>

definition demo_disk :: "string \<Rightarrow> 64 word \<Rightarrow> x86_item list \<Rightarrow> x86_disk" where
  "demo_disk name bytes parts = \<lparr>xi_name = name, xi_mount_point = [], xi_tran = ''sata'', xi_pttype = ''dos'', xi_size = bytes,
     xi_vendor = ''ATA'', xi_model = ''Disk'', xi_serial = ''1'', xi_childs = parts\<rparr>"

definition demo_part :: "string \<Rightarrow> string \<Rightarrow> x86_item" where
  "demo_part name mp = \<lparr>xi_name = name, xi_mount_point = mp, xi_tran = [], xi_pttype = [], xi_size = 0,
     xi_vendor = [], xi_model = [], xi_serial = []\<rparr>"

definition demo_x86 :: "x86_disk list" where
  "demo_x86 =
     [demo_disk ''sda'' (push_bit 30 8) [demo_part ''sda1'' ''/boot'', demo_part ''sda2'' ''/rom'', demo_part ''sda3'' ''/overlay''],
      demo_disk ''sdb'' (push_bit 30 4) []]"

definition demo_disks :: disk_env where
  "demo_disks = \<lparr>de_out = (\<lambda>_ _. ([], [], None)), de_exists = (\<lambda>_ _. True), de_file = (\<lambda>_ _. Inr ''8''), de_dev = (\<lambda>_. []),
     de_uci = (\<lambda>_. empty_uci), de_lsblk = (\<lambda>_. Inr []), de_x86 = (\<lambda>_. Inr demo_x86)\<rparr>"

definition demo_console :: console_env where
  "demo_console = \<lparr>ie_disks = (\<lambda>_. demo_disks), ie_script = [], ie_lan = (\<lambda>_. None), ie_uci = (\<lambda>_. empty_uci),
     ie_interfaces = (\<lambda>_. Inr []), ie_render = (\<lambda>_. []), ie_open = (\<lambda>_ _. None), ie_dd = (\<lambda>_. None),
     ie_start = (\<lambda>_. []), ie_shell = (\<lambda>_ D. D), ie_copy = (\<lambda>_ _ D. D)\<rparr>"

definition demo_root :: x86_root where
  "demo_root = \<lparr>xr_name = ''sda'', xr_tran = ''sata'', xr_end = int64 (parse_int64 (trim_char newline ''8'') * 512), xr_ptype = ''MBR''\<rparr>"

definition demo_dev :: x86_dev where
  "demo_dev = x86_dev_of (demo_disk ''sdb'' (push_bit 30 4) [])"

definition demo_replies :: "reply list" where
  "demo_replies = [Picked 3 (menu_item ''3'' ''Install X86''), Picked 0 (device_label demo_dev), Picked 0 ''OK, Continue'',
     Picked 0 ''Install And Reboot'']"

theorem console_session_ends_witness: "\<exists>out. fst (run_state (main_prompt 5 demo_console True) ([], demo_replies)) = Some out"
  by (rule console_session_ends) (simp add: demo_replies_def)

lemma demo_devs: "x86_devs ''sda'' demo_x86 = [demo_dev]"
  by (simp add: x86_devs_def demo_x86_def demo_dev_def demo_disk_def has_prefix_def)

lemma demo_root_found: "find is_x86_disk_root demo_x86 = Some (hd demo_x86)"
  by (simp add: demo_x86_def demo_disk_def is_x86_disk_root_def demo_part_def)

lemma demo_mbr: "to_upper ''mbr'' = ''MBR''"
  by code_simp

lemma demo_install: "read_install demo_console h = Inr (demo_root, [demo_dev])"
proof -
  have "hd demo_x86 = demo_disk ''sda'' (push_bit 30 8) [demo_part ''sda1'' ''/boot'', demo_part ''sda2'' ''/rom'', demo_part ''sda3'' ''/overlay'']"
    by (simp add: demo_x86_def)
  then show ?thesis
    by (simp add: read_install_def x86_install_def demo_console_def demo_disks_def batch_stdout_def batch_raw_def create_batch_command_def
      demo_root_found read_root_end_def demo_disk_def demo_devs demo_mbr demo_root_def)
qed

definition demo_questions :: console_history where
  "demo_questions =
     [Asked ''Console'' (main_items True False) (Picked 3 (menu_item ''3'' ''Install X86'')),
      Asked select_label (install_items [demo_dev]) (Picked 0 (device_label demo_dev)),
      Asked (install_label demo_root demo_dev) yes_no (Picked 0 ''OK, Continue''),
      Asked (warning_label demo_dev) warning_items (Picked 0 ''Install And Reboot'')]"

definition demo_actions :: console_history where
  "demo_actions =
     [Wrote (xd_target demo_dev) (xr_end demo_root) reset_mark,
      Ran [''sync'', ''echo 3 >/proc/sys/vm/drop_caches''], Said ''Please Remove the USB manually, wait 3s to reboot...'', Slept 3,
      Said ''Rebooting'', Ran [''reboot now > /dev/null 2>&1'']]"

lemma demo_menu: "map_of main_menu (menu_item ''3'' ''Install X86'') = Some SelectInstallX86"
  by (simp add: main_menu_def menu_item_def)

lemma demo_env:
  "ie_uci demo_console h = empty_uci" "ie_open demo_console h t = None" "ie_dd demo_console h = None" "xd_mountpoints demo_dev = []"
  by (simp_all add: demo_console_def demo_dev_def x86_dev_of_def demo_disk_def)

lemma demo_not_gpt: "xr_ptype demo_root \<noteq> ''GPT''"
  by (simp add: demo_root_def)

lemma demo_installed:
  "run_state (install_disk demo_console demo_root demo_dev) (h, rs) =
     (None, (h @ Dd (source_device demo_root) (dd_args (xd_target demo_dev) 4096 (xr_end demo_root)) # demo_actions, rs))"
  by (simp add: install_disk_def act_if_def demo_env demo_not_gpt done_then_done_def finish_install_def demo_actions_def)

lemma demo_session:
  "run_state (main_prompt (Suc (Suc n)) demo_console True) ([], demo_replies) =
     (Some (Exits 0), (demo_questions @ Dd (source_device demo_root) (dd_args (xd_target demo_dev) 4096 (xr_end demo_root)) # demo_actions, []))"
proof -
  have "\<not> is_wan_present empty_uci" by (simp add: is_wan_present_def empty_uci_def)
  then show ?thesis
    by (simp add: main_prompt_def main_case_def get_main_selection_def ask_choice_def next_reply_def demo_replies_def demo_menu
      demo_env prompt_install_x86_def demo_install demo_installed demo_questions_def)
qed

theorem install_needs_consent_witness:
  "\<exists>before root devs i r j k later.
    demo_questions = before @
      [Asked select_label (install_items devs) (Picked i r),
       Asked (install_label root (devs ! i)) yes_no (Picked j ''OK, Continue''),
       Asked (warning_label (devs ! i)) warning_items (Picked k ''Install And Reboot'')] @ later \<and>
    (\<forall>b\<in>set later. \<not> question b) \<and> i < length devs \<and> ''/dev/sdb'' = xd_target (devs ! i) \<and> ''/dev/sdb'' \<noteq> source_device root"
proof (rule install_needs_consent [OF demo_session refl])
  show "overwritten (Dd (source_device demo_root) (dd_args (xd_target demo_dev) 4096 (xr_end demo_root))) = Some ''/dev/sdb''"
    by (simp add: dd_args_def demo_dev_def x86_dev_of_def demo_disk_def)
  show "\<forall>b\<in>set demo_questions. offered b"
    by (simp add: demo_questions_def main_items_def main_menu_def sort_strings_def install_items_def yes_no_def warning_items_def)
qed

section \<open>What an installation leaves on the target\<close>

lemma disks_after_simps [simp]:
  "disks_after e (h @ [Ran cmds]) = ie_shell e cmds (disks_after e h)"
  "disks_after e (h @ [Dd src args]) = ie_copy e src args (disks_after e h)"
  "disks_after e (h @ [Wrote t off bs]) = (disks_after e h)(t := write_device (disks_after e h t) off bs)"
  "disks_after e (h @ [Said s]) = disks_after e h" "disks_after e (h @ [Slept n]) = disks_after e h"
  by (simp_all add: disks_after_def)

text \<open>The two writes of the program are the repair of the table.\<close>

lemma write_sums_repair:
  "\<exists>as. run_state (write_sums e t) (h, rs) = ((), (h @ as, rs)) \<and> disks_after e (h @ as) t = repair_gpt (disks_after e h t)"
proof -
  let ?w1 = "Wrote t 600 (le32 (entries_sum (disks_after e h t)))"
  let ?w2 = "Wrote t 528 (le32 (header_sum (disks_after e (h @ [?w1]) t)))"
  have "run_state (write_sums e t) (h, rs) = ((), ((h @ [?w1]) @ [?w2], rs))"
    by (simp add: write_sums_def)
  moreover have "disks_after e ((h @ [?w1]) @ [?w2]) t = repair_gpt (disks_after e h t)"
    unfolding disks_after_simps by (simp add: repair_gpt_def write_device_def Let_def)
  ultimately show ?thesis by (metis append.assoc)
qed

text \<open>The blocks that \<open>dd\<close> is told to copy reach the end of the image.\<close>

definition dd_blocks :: "int \<Rightarrow> nat" where
  "dd_blocks len = nat (go_quot (int64 (len + 4096 - 1)) 4096)"

lemma dd_blocks_enough: "0 \<le> len \<Longrightarrow> len < 2 ^ 62 \<Longrightarrow> nat len \<le> 4096 * dd_blocks len"
proof -
  assume len: "0 \<le> len" "len < 2 ^ 62"
  then have "int64 (len + 4096 - 1) = len + 4095" by (subst int64_id) simp_all
  then have "dd_blocks len = nat ((len + 4095) div 4096)"
    using len by (simp add: dd_blocks_def go_quot_nonneg)
  moreover have "len \<le> 4096 * ((len + 4095) div 4096)"
    using div_mult_mod_eq [of "len + 4095" 4096] pos_mod_bound [of 4096 "len + 4095"] by linarith
  ultimately show ?thesis using len by (simp add: nat_le_iff)
qed

text \<open>\<open>dd\<close> as its manual has it: so many blocks of its input replace the start of the output, the other devices stay.\<close>

definition dd_copies :: "console_env \<Rightarrow> x86_root \<Rightarrow> x86_dev \<Rightarrow> bool" where
  "dd_copies e root d \<longleftrightarrow> (\<forall>D. ie_copy e (source_device root) (dd_args (xd_target d) 4096 (xr_end root)) D =
     D(xd_target d := write_at (D (xd_target d)) 0 (take (4096 * dd_blocks (xr_end root)) (D (source_device root)))))"

text \<open>Unmounting leaves the source and the sizes, and the last two batches leave all devices as they are.\<close>

definition shell_keeps :: "console_env \<Rightarrow> x86_root \<Rightarrow> x86_dev \<Rightarrow> bool" where
  "shell_keeps e root d \<longleftrightarrow>
     (\<forall>D. ie_shell e (umount_commands d) D (source_device root) = D (source_device root) \<and>
        length (ie_shell e (umount_commands d) D (xd_target d)) = length (D (xd_target d)) \<and>
        ie_shell e [''sync'', ''echo 3 >/proc/sys/vm/drop_caches''] D = D \<and> ie_shell e [''reboot now > /dev/null 2>&1''] D = D)"

lemma write_image:
  assumes "n + length m \<le> length d" "n \<le> length src" "n \<le> k"
  shows "take n (write_at (write_at d 0 (take k src)) n m) = take n src"
    "read_at (write_at (write_at d 0 (take k src)) n m) n (length m) = m"
proof -
  let ?d = "write_at d 0 (take k src)"
  have len: "length ?d = length d" by (simp add: write_at_def)
  show "take n (write_at ?d n m) = take n src"
    using assms by (simp add: write_at_def min_def)
  show "read_at (write_at ?d n m) n (length m) = m"
    using assms len by (intro write_then_read) simp
qed

text \<open>A run of the installer without an error, on a disk without a GUID table.\<close>

lemma install_disk_run:
  assumes "run_state (install_disk e root d) (h, rs) = (None, (h', rs'))" "xr_ptype root \<noteq> ''GPT''"
  obtains um where "um = [] \<or> um = [Ran (umount_commands d)]"
    "h' = h @ um @ [Dd (source_device root) (dd_args (xd_target d) 4096 (xr_end root)), Wrote (xd_target d) (xr_end root) reset_mark,
      Ran [''sync'', ''echo 3 >/proc/sys/vm/drop_caches''], Said ''Please Remove the USB manually, wait 3s to reboot...'', Slept 3,
      Said ''Rebooting'', Ran [''reboot now > /dev/null 2>&1'']]"
proof -
  let ?um = "if xd_mountpoints d \<noteq> [] then [Ran (umount_commands d)] else []"
  have "h' = h @ ?um @ [Dd (source_device root) (dd_args (xd_target d) 4096 (xr_end root)), Wrote (xd_target d) (xr_end root) reset_mark,
      Ran [''sync'', ''echo 3 >/proc/sys/vm/drop_caches''], Said ''Please Remove the USB manually, wait 3s to reboot...'', Slept 3,
      Said ''Rebooting'', Ran [''reboot now > /dev/null 2>&1'']]"
    using assms by (auto simp: install_disk_def act_if_def done_then_done_def finish_install_def split: option.splits if_splits)
  with that [of ?um] show ?thesis by simp
qed

lemma disks_after_app: "disks_after e (h @ as) = foldl (device_step e) (disks_after e h) as"
  by (simp add: disks_after_def)

text \<open>
  C15. An installation that succeeds on a disk without a GUID table leaves on the target the start of the running disk, byte for
  byte up to the end of its third partition's start, and there the mark that resets the new system.
\<close>

theorem install_copies_system:
  assumes run: "run_state (install_disk e root d) (h, rs) = (None, (h', rs'))"
    and env: "dd_copies e root d" "shell_keeps e root d"
    and root: "xr_ptype root \<noteq> ''GPT''" "0 \<le> xr_end root" "xr_end root < 2 ^ 62" "xd_target d \<noteq> source_device root"
    and room: "nat (xr_end root) + 8 \<le> length (disks_after e h (xd_target d))"
      "nat (xr_end root) \<le> length (disks_after e h (source_device root))"
  shows "take (nat (xr_end root)) (disks_after e h' (xd_target d)) = take (nat (xr_end root)) (disks_after e h (source_device root)) \<and>
    read_at (disks_after e h' (xd_target d)) (nat (xr_end root)) 8 = reset_mark"
proof -
  let ?t = "xd_target d" and ?s = "source_device root" and ?n = "nat (xr_end root)"
  obtain um where um: "um = [] \<or> um = [Ran (umount_commands d)]"
    "h' = h @ um @ [Dd ?s (dd_args ?t 4096 (xr_end root)), Wrote ?t (xr_end root) reset_mark,
      Ran [''sync'', ''echo 3 >/proc/sys/vm/drop_caches''], Said ''Please Remove the USB manually, wait 3s to reboot...'', Slept 3,
      Said ''Rebooting'', Ran [''reboot now > /dev/null 2>&1'']]"
    by (rule install_disk_run [OF run root(1)])
  let ?D = "disks_after e (h @ um)"
  have D: "?D ?s = disks_after e h ?s" "length (?D ?t) = length (disks_after e h ?t)"
    using um(1) env(2) by (auto simp: shell_keeps_def)
  have "disks_after e h' ?t = write_at (write_at (?D ?t) 0 (take (4096 * dd_blocks (xr_end root)) (?D ?s))) ?n reset_mark"
    using env root(2) unfolding um(2) append_assoc [symmetric] disks_after_app [of e "h @ um"]
    by (simp add: dd_copies_def shell_keeps_def write_device_def)
  moreover have "length reset_mark = 8" by (simp add: reset_mark_def)
  ultimately show ?thesis
    using write_image [of ?n reset_mark "?D ?t" "?D ?s" "4096 * dd_blocks (xr_end root)"] room D root(2,3) dd_blocks_enough
    by simp
qed

text \<open>A machine with two disks of eight and sixteen bytes.\<close>

definition demo_copy :: "string \<Rightarrow> string list \<Rightarrow> disks \<Rightarrow> disks" where
  "demo_copy s args D =
     (let t = drop 3 (args ! 0) in D(t := write_at (D t) 0 (take (4096 * dd_blocks 8) (D s))))"

definition tiny_root :: x86_root where
  "tiny_root = \<lparr>xr_name = ''sda'', xr_tran = [], xr_end = 8, xr_ptype = ''MBR''\<rparr>"

definition tiny_dev :: x86_dev where
  "tiny_dev = \<lparr>xd_name = ''sdb'', xd_display_name = [], xd_target = ''/dev/sdb'', xd_tran = [], xd_size_str = [], xd_mountpoints = []\<rparr>"

definition tiny_console :: console_env where
  "tiny_console = demo_console\<lparr>ie_copy := demo_copy,
     ie_start := (\<lambda>t. if t = ''/dev/sda'' then [1, 2, 3, 4, 5, 6, 7, 8] else replicate 16 0)\<rparr>"

theorem install_copies_system_witness:
  "\<exists>h'. take 8 (disks_after tiny_console h' ''/dev/sdb'') = [1, 2, 3, 4, 5, 6, 7, 8]"
proof -
  obtain h' where run: "run_state (install_disk tiny_console tiny_root tiny_dev) ([], []) = (None, (h', []))"
    by (simp add: install_disk_def act_if_def done_then_done_def finish_install_def tiny_console_def demo_console_def tiny_root_def tiny_dev_def)
  have "take (nat (xr_end tiny_root)) (disks_after tiny_console h' (xd_target tiny_dev)) =
      take (nat (xr_end tiny_root)) (disks_after tiny_console [] (source_device tiny_root))"
    by (rule install_copies_system [OF run, THEN conjunct1])
      (simp_all add: dd_copies_def shell_keeps_def tiny_console_def demo_console_def tiny_root_def tiny_dev_def source_device_def
        demo_copy_def dd_args_def disks_after_def Let_def)
  then show ?thesis
    by (intro exI [of _ h']) (simp add: tiny_console_def demo_console_def tiny_root_def tiny_dev_def source_device_def disks_after_def)
qed

section \<open>Events from the command line\<close>

text \<open>
  \<open>quickstart ifaceEvent up wan\<close> and the like hand an event to the service over its socket. The arguments begin at the last
  word \<open>ifaceEvent\<close>.
\<close>

definition event_args :: "string list \<Rightarrow> string list" where
  "event_args args =
     foldl (\<lambda>found (i, arg). if arg = ''ifaceEvent'' then drop i args else found) [] (zip [0..<length args] args)"

definition iface_event :: "string list \<Rightarrow> dhns_change result" where
  "iface_event args =
     (if length (event_args args) \<noteq> 3 then Inl ''error input''
      else Inr \<lparr>dc_action = ''ifaceEvent'', dc_params = tl (event_args args)\<rparr>)"

definition uci_change :: dhns_change where
  "uci_change = \<lparr>dc_action = ''uciChange'', dc_params = []\<rparr>"

text \<open>The script of the DHCP client passes the lease in its environment.\<close>

definition dhcp_valid :: "(string \<Rightarrow> string) \<Rightarrow> dhcp_info" where
  "dhcp_valid env = \<lparr>di_ip = env ''ip'', di_gateway = env ''router'', di_subnet = env ''subnet'', di_dns = env ''dns''\<rparr>"

text \<open>What the command prints, or its error: the connection failed, another status than 200, the answer.\<close>

definition event_answer :: "(nat \<times> string result) result \<Rightarrow> string result" where
  "event_answer r =
     (case r of
        Inl err \<Rightarrow> Inl err
      | Inr (status, body) \<Rightarrow> if status \<noteq> 200 then Inl (''status error code:'' @ fmt_nat status) else body)"

text \<open>The hand-over: the service decodes what the command has encoded.\<close>

definition post_change :: "dhns_change \<Rightarrow> (nat \<times> string result) result" where
  "post_change evt = (case handle_dhns_change (Inr evt) of (status, body) \<Rightarrow> Inr (status, Inr body))"

lemma event_args_samples:
  "event_args [''quickstart'', ''ifaceEvent'', ''up'', ''wan''] = [''ifaceEvent'', ''up'', ''wan'']"
  "event_args [''quickstart'', ''serve''] = []"
  by (simp_all add: event_args_def upt_rec)

text \<open>Of three words the service takes those that say up or down.\<close>

lemma iface_event_accepted:
  assumes "iface_event args = Inr evt"
  shows "event_answer (post_change evt) = Inr ''OK'' \<longleftrightarrow> event_args args ! 1 \<in> {''up'', ''down''}"
proof -
  from assms have evt: "length (event_args args) = 3" "evt = \<lparr>dc_action = ''ifaceEvent'', dc_params = tl (event_args args)\<rparr>"
    by (auto simp: iface_event_def split: if_splits)
  then obtain a b c where "event_args args = [a, b, c]"
    by (auto simp: numeral_3_eq_3 length_Suc_conv)
  then show ?thesis
    by (simp add: evt post_change_def handle_dhns_change_def event_answer_def should_trigger_iface_event_def bad_request_def)
qed

lemma uci_change_accepted: "event_answer (post_change uci_change) = Inr ''OK''"
  by (simp add: uci_change_def post_change_def handle_dhns_change_def event_answer_def should_trigger_iface_event_def)

text \<open>
  A file system on the whole device is not among the mount points that are unmounted; and a start of the third partition that is no
  number counts as zero, so that nothing is copied and the mark goes to the first bytes of the target.
\<close>

lemma whole_disk_not_unmounted: "xi_childs disk = [] \<Longrightarrow> umount_commands (x86_dev_of disk) = []"
  by (simp add: umount_commands_def x86_dev_of_def)

lemma unreadable_start_is_zero:
  assumes "de_file e h (''/sys/class/block/'' @ name @ ''/start'') = Inr s" "parse_int64 (trim_char newline s) = 0"
  shows "result_of (read_root_end e name) h = Inr 0" "dd_blocks 0 = 0"
  using assms by (simp_all add: read_root_end_def int64_def dd_blocks_def go_quot_def)

end
