(* ===== verification/Spec2Isabelle.thy ===== *)
theory Spec2Isabelle
  imports LanDhcp NetworkBasics LanStatic LanSpeed LanFloat LanDevices Stats DhnsPlan DhnsState DhnsWorker DhnsWire DhnsServer Raid Wifi Share NasService Online NetStatus SoftSource NetworkWrite Downloads Docker Gateway Ddns SystemServices QuickstartConfig Manuf NetworkPorts RaidTool Gpt Console
begin

text \<open>
  Verification development of the backend of quickstart, the Go program behind the setup pages of the iStoreOS router
  (\<open>src/backend\<close>). The program serves HTTP requests. A handler decodes a request, calls a service (\<open>service/\<close>, \<open>modules/\<close>),
  and the service reads the router (the UCI configuration, \<open>ubus\<close>, files, the output of commands), decides, and changes it by
  shell commands. Its own state is small: the samplers of traffic, the shared state of DHNS, the connection bus, the checkers of
  the network and the selector of the wireless driver.

  \<^bold>\<open>How the code is modelled.\<close> A struct is a \<open>record\<close>, an enumeration a \<open>datatype\<close>, an error a value of \<open>goerr + 'a\<close>
  (\<open>result\<close>) or of \<open>goerr option\<close>; a run-time panic is \<open>None\<close> of an option type. Go strings are lists of bytes. Integers of 32 and
  64 bits are words, or \<open>int\<close> with the wrap-around written out (\<open>int64\<close>) where overflow can happen. What the program calls and
  does not contain is a parameter: the shell, \<open>ubus\<close>, files, clocks, the reader of UCI, JSON decoding. There are two styles.
  Components with few effects take \<open>exec\<close>, a function on an arbitrary outside world (theory \<open>Shell\<close>). Components whose effects
  matter are programs of a state monad over the history of the actions performed (theory \<open>Trace\<close>): an answer of the
  outside is any function of the history, so that a theorem holds for every behaviour of the outside, and \<open>does\<close>, \<open>only\<close>,
  \<open>result_of\<close> and \<open>after\<close> speak of the actions and the answer.

  \<^bold>\<open>The library.\<close>
  \<^item> \<open>Prelude\<close>: results, 64 bit integers, lists; the locales \<open>keyed_index\<close> (an index built from a list, the Go maps of the program),
    \<open>sample_window\<close> (a bounded history) and \<open>machine_invariant\<close> (an invariant of a step relation), each interpreted in the
    theories of the components that provide it. \<open>Trace\<close>: programs and their actions.
  \<^item> \<open>GoStrings\<close>, \<open>GoNet\<close>, \<open>GoSort\<close>, \<open>GoRegex\<close>: what is used of Go's strings, strconv, net, sort and regexp.
  \<^item> \<open>UciStore\<close> and \<open>UciShell\<close>: what is assumed of the \<open>uci\<close> tool, of the lines of shell that call it, and of its reader, for
    theorems that go through the configuration and back. \<open>Command\<close>: actions of the components that only run commands;
    \<open>CmdUci\<close>: the configuration that such actions leave.

  \<^bold>\<open>The components\<close>, with the code they model.
  \<^item> \<open>IpUtil\<close>, \<open>ByteCount\<close>, \<open>Shell\<close>: \<open>utils/ip.go\<close>, \<open>byte.go\<close>, \<open>batch_command.go\<close>, \<open>uci.go\<close>.
  \<^item> LAN control: \<open>LanDhcp\<close> (tags and gateway of DHCP), \<open>LanStatic\<close> (static assignments), \<open>LanSpeed\<close> (speed limits and blocked
    devices), \<open>LanFloat\<close> (floating gateway), \<open>LanDevices\<close> (the list of devices): \<open>service/lan_*\<close>, \<open>modules/lancontrol\<close>.
  \<^item> \<open>Stats\<close>: the samplers of WAN and LAN traffic, \<open>service/wan_stats.go\<close>, \<open>lan_stats_linux.go\<close>, as step relations.
  \<^item> DHNS, which keeps the router reachable when the networks collide: \<open>DhnsPlan\<close> (decisions, \<open>modules/dhns\<close>), \<open>DhnsState\<close> (shared
    state, \<open>modules/dhns/runtime\<close>), \<open>DhnsWorker\<close> (\<open>service/dhns.go\<close>), \<open>DhnsWire\<close> (\<open>message\<close>, \<open>dhns/client*.go\<close>), \<open>DhnsServer\<close>
    (\<open>dhns/server.go\<close>). The worker runs the plans; what it posts is what the client of the wire serves.
  \<^item> Storage: \<open>DiskModel\<close> (disks and partitions, the text of parted, df, mount and mdadm), \<open>DiskStatus\<close>, \<open>DiskCommands\<close>,
    \<open>DiskReaders\<close>, \<open>DiskList\<close>, \<open>DiskLifecycle\<close> (mount, format, initialise, automount), \<open>Smart\<close>, \<open>Raid\<close>, \<open>RaidTool\<close>: \<open>modules/nas\<close>, \<open>modules/smart\<close>,
    \<open>modules/raid\<close> and the stores under \<open>service/\<close>. \<open>Share\<close> (shares and their users), \<open>NasService\<close> (Samba, WebDAV, LinkEase).
  \<^item> Wireless: \<open>WifiModel\<close>, \<open>WifiQca\<close>, \<open>WifiMtk\<close>, \<open>Wifi\<close>: \<open>service/wifi*.go\<close>, \<open>modules/wireless\<close>.
  \<^item> Network and guide: \<open>NetworkBasics\<close> (WAN, LAN, DNS and PPPoE pages), \<open>NetworkWrite\<close> (interfaces), \<open>Online\<close> (online checks),
    \<open>NetStatus\<close> (outbound interfaces, public addresses), \<open>NetworkPorts\<close> (ports, devices, homebox), \<open>Manuf\<close> (the makers of
    devices), \<open>SoftSource\<close> (the feeds of the package manager).
  \<^item> Guide: \<open>Downloads\<close> (aria2, qBittorrent, Transmission), \<open>Docker\<close> (the Docker root and the move of its data), \<open>Gateway\<close> (the
    transparent gateway, and whether the router was set up), \<open>Ddns\<close> (dynamic DNS, and the reads of the guide's state): \<open>service/guide*.go\<close>,
    \<open>modules/guide*\<close>.
  \<^item> System: \<open>SystemServices\<close> (shown modules, password, session, power, updates, version, time, memory, temperature, applications) and
    \<open>QuickstartConfig\<close> (the options of the program): \<open>modules/system\<close>, \<open>modules/app\<close>, \<open>modules/quickstart\<close>, \<open>service/system*\<close>, \<open>service/app.go\<close>.

  \<^item> Console: \<open>Console\<close> (the text menu, the installer, the commands that hand over events) and \<open>Gpt\<close> (check sums and the repair of a
    copied partition table): \<open>cmd/backend/prompt.go\<close>, \<open>backend-main.go\<close>, \<open>utils/dd.go\<close>. The installer reads the disks through
    \<open>DiskList\<close>; its events are those that \<open>DhnsPlan\<close> decides on.

  \<^bold>\<open>What the theorems show.\<close> Invariants by rule induction for the state machines (the samplers, DHNS, the bus, the checkers,
  the wireless selector); safety of what destroys data or cuts the router off (erasing, formatting, creating arrays, changing
  interfaces, installing over a disk), for every answer of the outside; round trips between what a page writes and what it reads back (static tags,
  wireless settings, the LAN range, feeds, messages of DHNS); refinement of list operations by the configuration of shares
  and arrays; equivalence with a reference (netmasks, blocked devices); the end of every session of the console;
  the check sums of a repaired partition table against the check of the firmware; bounds of the partitioned range; errors by branch. Lemmas
  that show a defect of the code are kept beside the component and named in the findings of the manifest.

  \<^bold>\<open>Bounds and fuel.\<close> Every function is total. Fuel occurs in \<open>trim_left_fuel\<close> (the length of the string, which each round
  shortens) and in \<open>install_loop\<close> and \<open>main_loop\<close> (rounds; one more than there are replies is enough, \<open>console_session_ends\<close>).
  \<open>wait_alive\<close> and \<open>lan_check_loop\<close> have the code's own bounds of 3 and 2 rounds; the client's buffer has the code's 4096
  bytes; device numbers of arrays are below the code's 127. Indexes of UCI sections are taken below \<open>2 ^ 31\<close> and times of operation
  below \<open>2 ^ 40\<close> seconds.

  \<^bold>\<open>Where the model is coarser than the code.\<close> \<open>strings.ToUpper\<close>, and lower case, act on ASCII letters only. Regular expressions match bytes, the code
  runes. Timeouts of commands are not modelled where the model has a history. Lists of pointers hold no nil entries. Log and debug output is left out.
  The start of a partition is parsed as a decimal number, as the kernel prints it.
  Chinese texts of errors are given in English; the scope that accompanies an error code is left out. Ranges over Go maps, whose order is not fixed, are parameters or lists.

  \<^bold>\<open>Not modelled.\<close> HTTP routing, decoding and encoding (\<open>server\<close>, \<open>api\<close>, the \<open>routes.go\<close> files, the \<open>*_backend.go\<close> wrappers):
  wiring without decisions. The records under \<open>models\<close> are generated and are modelled with the operations that use them. The client of
  \<open>ubus\<close>, the logger and the LCD driver only input and output. Of \<open>cmd/backend\<close> the drawing of the dialogue and the start of
  the servers are left out.
  The web interface and the scripts are not Go.
\<close>

end
